(* ===== verification/Go_Base.thy ===== *)
theory Go_Base
  imports Main "HOL-Library.Char_ord" "HOL-Library.List_Lexorder" "HOL-Library.Word"
    "HOL-Library.Code_Target_Nat"
begin

text \<open>
  The prelude of the development.  It fixes how the constructs of Go that the
  code relies on appear in the model: an error is a value of the type
  go_error, a fallible function returns an error or a result, a string is a
  list of bytes (HOL characters), and the functions of the Go package strings
  that the code calls are written out on such lists.  The functions that
  look at Unicode properties (TrimSpace, Fields, ToLower) are modelled for
  ASCII input.  The second half holds the lemmas about them that the
  components share.
\<close>

named_theorems go_string \<open>rules about the string functions\<close>
named_theorems go_result \<open>rules about fallible results\<close>

section \<open>Errors and results\<close>

text \<open>
  ErrNoRows is sql.ErrNoRows, ErrConstraint a violated constraint of the
  database, ErrImageInUse the sentinel of the store; Err an error made by
  fmt.Errorf or errors.New with its rendered text, and ErrWrap an error
  wrapped with the percent-w verb and the text before it, ErrNote one with text after it.
\<close>

datatype go_error =
    ErrNoRows
  | ErrConstraint string
  | ErrImageInUse
  | Err string
  | ErrWrap string go_error
  | ErrNote go_error string

type_synonym 'a res = "go_error + 'a"

text \<open>errors.Is: the error itself or one that it wraps.\<close>

fun err_is :: "go_error \<Rightarrow> go_error \<Rightarrow> bool" where
  "err_is (ErrWrap p e) t = (ErrWrap p e = t \<or> err_is e t)"
| "err_is (ErrNote e p) t = (ErrNote e p = t \<or> err_is e t)"
| "err_is e t = (e = t)"

fun err_text :: "go_error \<Rightarrow> string" where
  "err_text ErrNoRows = ''sql: no rows in result set''"
| "err_text (ErrConstraint c) = ''constraint failed: '' @ c"
| "err_text ErrImageInUse = ''image is referenced by an instance''"
| "err_text (Err m) = m"
| "err_text (ErrWrap p e) = p @ err_text e"
| "err_text (ErrNote e p) = err_text e @ p"

definition is_ok :: "'a res \<Rightarrow> bool" where
  "is_ok r = (case r of Inl _ \<Rightarrow> False | Inr _ \<Rightarrow> True)"

lemma is_ok_simps [simp]: "\<not> is_ok (Inl e)" "is_ok (Inr x)"
  by (simp_all add: is_ok_def)

text \<open>Strings are byte sequences; the two non-ASCII characters of the messages are written in UTF-8.\<close>

definition em_dash :: string where
  "em_dash = [CHR 0xE2, CHR 0x80, CHR 0x94]"

definition right_arrow :: string where
  "right_arrow = [CHR 0xE2, CHR 0x86, CHR 0x92]"

section \<open>Sequencing of effects\<close>

text \<open>An action takes the state and returns a result with the state after it.\<close>

definition ret :: "'a \<Rightarrow> 's \<Rightarrow> 'a res \<times> 's" where
  "ret x tr = (Inr x, tr)"

definition fail :: "go_error \<Rightarrow> 's \<Rightarrow> 'a res \<times> 's" where
  "fail e tr = (Inl e, tr)"

text \<open>The early return on an error.\<close>

definition bnd ::
  "('s \<Rightarrow> 'a res \<times> 's) \<Rightarrow> ('a \<Rightarrow> 's \<Rightarrow> 'b res \<times> 's) \<Rightarrow> 's \<Rightarrow> 'b res \<times> 's" where
  "bnd m f tr = (case m tr of (Inl e, tr1) \<Rightarrow> (Inl e, tr1) | (Inr x, tr1) \<Rightarrow> f x tr1)"

text \<open>A call whose error is dropped, and a value that is an error or not.\<close>

definition attempt :: "('s \<Rightarrow> 'a res \<times> 's) \<Rightarrow> 's \<Rightarrow> 'a res res \<times> 's" where
  "attempt m tr = (Inr (fst (m tr)), snd (m tr))"

definition lift :: "'a res \<Rightarrow> 's \<Rightarrow> 'a res \<times> 's" where
  "lift r tr = (r, tr)"

definition unit_of :: "('s \<Rightarrow> 'a res \<times> 's) \<Rightarrow> 's \<Rightarrow> unit res \<times> 's" where
  "unit_of m = bnd m (\<lambda>_. ret ())"

lemma ret_apply: "ret x s = (Inr x, s)"
  by (simp add: ret_def)

lemma fail_apply: "fail e s = (Inl e, s)"
  by (simp add: fail_def)

lemma lift_apply: "lift r s = (r, s)"
  by (simp add: lift_def)

lemma bnd_assoc: "bnd (bnd m f) g = bnd m (\<lambda>x. bnd (f x) g)"
  by (rule ext) (simp add: bnd_def split: prod.split sum.split)

lemma bnd_ret [simp]: "bnd (ret x) f = f x" and bnd_ret_right [simp]: "bnd m ret = m"
  and bnd_fail [simp]: "bnd (fail e) f = fail e"
  by (rule ext, simp add: bnd_def ret_apply fail_apply split: prod.split sum.split)+

section \<open>64-bit arithmetic of Go\<close>

definition wrap64 :: "int \<Rightarrow> int" where
  "wrap64 n = (n + 2 ^ 63) mod 2 ^ 64 - 2 ^ 63"

lemma wrap64_id: "- (2 ^ 63) \<le> n \<Longrightarrow> n < 2 ^ 63 \<Longrightarrow> wrap64 n = n"
  by (simp add: wrap64_def)

lemma wrap64_bounds: "- (2 ^ 63) \<le> wrap64 n \<and> wrap64 n < 2 ^ 63"
  using pos_mod_bound [of "2 ^ 64" "n + 2 ^ 63"] pos_mod_sign [of "2 ^ 64" "n + 2 ^ 63"]
  by (simp add: wrap64_def)

section \<open>Strings\<close>

text \<open>The white space of ASCII: tab, line feed, vertical tab, form feed, carriage return, blank.\<close>

definition is_space :: "char \<Rightarrow> bool" where
  "is_space c = (c = CHR '' '' \<or> 9 \<le> (of_char c :: nat) \<and> (of_char c :: nat) \<le> 13)"

definition is_digit :: "char \<Rightarrow> bool" where
  "is_digit c = (48 \<le> (of_char c :: nat) \<and> (of_char c :: nat) \<le> 57)"

definition is_upper_char :: "char \<Rightarrow> bool" where
  "is_upper_char c = (65 \<le> (of_char c :: nat) \<and> (of_char c :: nat) \<le> 90)"

definition is_lower_char :: "char \<Rightarrow> bool" where
  "is_lower_char c = (97 \<le> (of_char c :: nat) \<and> (of_char c :: nat) \<le> 122)"

definition is_alnum :: "char \<Rightarrow> bool" where
  "is_alnum c = (is_digit c \<or> is_upper_char c \<or> is_lower_char c)"

definition lower_char :: "char \<Rightarrow> char" where
  "lower_char c = (if is_upper_char c then char_of ((of_char c :: nat) + 32) else c)"

definition upper_char :: "char \<Rightarrow> char" where
  "upper_char c = (if is_lower_char c then char_of ((of_char c :: nat) - 32) else c)"

definition to_lower :: "string \<Rightarrow> string" where
  "to_lower s = map lower_char s"

definition to_upper :: "string \<Rightarrow> string" where
  "to_upper s = map upper_char s"

text \<open>strings.TrimFunc, of which TrimSpace and Trim with a cutset are instances.\<close>

definition trim_by :: "(char \<Rightarrow> bool) \<Rightarrow> string \<Rightarrow> string" where
  "trim_by p s = rev (dropWhile p (rev (dropWhile p s)))"

definition trim_space :: "string \<Rightarrow> string" where
  "trim_space s = trim_by is_space s"

definition has_prefix :: "string \<Rightarrow> string \<Rightarrow> bool" where
  "has_prefix p s = (take (length p) s = p)"

definition has_suffix :: "string \<Rightarrow> string \<Rightarrow> bool" where
  "has_suffix p s = has_prefix (rev p) (rev s)"

definition trim_prefix :: "string \<Rightarrow> string \<Rightarrow> string" where
  "trim_prefix p s = (if has_prefix p s then drop (length p) s else s)"

definition trim_suffix :: "string \<Rightarrow> string \<Rightarrow> string" where
  "trim_suffix p s = (if has_suffix p s then take (length s - length p) s else s)"

fun contains :: "string \<Rightarrow> string \<Rightarrow> bool" where
  "contains sub [] = (sub = [])"
| "contains sub (c # s) = (has_prefix sub (c # s) \<or> contains sub s)"

text \<open>strings.Split on a separator of one byte: always at least one piece.\<close>

fun split_char :: "char \<Rightarrow> string \<Rightarrow> string list" where
  "split_char d [] = [[]]"
| "split_char d (c # s) =
    (if c = d then [] # split_char d s
     else (case split_char d s of [] \<Rightarrow> [[c]] | w # ws \<Rightarrow> (c # w) # ws))"

text \<open>strings.Fields: the maximal runs of non-space bytes.\<close>

definition fields :: "string \<Rightarrow> string list" where
  "fields s = filter (\<lambda>w. w \<noteq> [])
     (split_char (CHR '' '') (map (\<lambda>c. if is_space c then CHR '' '' else c) s))"

fun join :: "string \<Rightarrow> string list \<Rightarrow> string" where
  "join sep [] = []"
| "join sep [w] = w"
| "join sep (w # v # ws) = w @ sep @ join sep (v # ws)"

text \<open>strings.ReplaceAll; the code always replaces a non-empty string.\<close>

function replace_all :: "string \<Rightarrow> string \<Rightarrow> string \<Rightarrow> string" where
  "replace_all old new s =
    (if old = [] \<or> s = [] then s
     else if has_prefix old s then new @ replace_all old new (drop (length old) s)
     else hd s # replace_all old new (tl s))"
  by pat_completeness auto
termination by (relation "measure (\<lambda>(_, _, s). length s)") auto

declare replace_all.simps [simp del]

text \<open>strings.Index, with None for minus one.\<close>

fun index_of :: "string \<Rightarrow> string \<Rightarrow> nat option" where
  "index_of sub [] = (if sub = [] then Some 0 else None)"
| "index_of sub (c # s) =
    (if has_prefix sub (c # s) then Some 0
     else (case index_of sub s of None \<Rightarrow> None | Some n \<Rightarrow> Some (Suc n)))"

text \<open>strings.LastIndex for one byte.\<close>

fun last_index_char :: "char \<Rightarrow> string \<Rightarrow> nat option" where
  "last_index_char d [] = None"
| "last_index_char d (c # s) =
    (case last_index_char d s of
       Some n \<Rightarrow> Some (Suc n)
     | None \<Rightarrow> (if c = d then Some 0 else None))"

definition digit_char :: "nat \<Rightarrow> char" where
  "digit_char d = char_of (48 + d)"

fun nat_text :: "nat \<Rightarrow> string" where
  "nat_text n = (if n < 10 then [digit_char n] else nat_text (n div 10) @ [digit_char (n mod 10)])"

declare nat_text.simps [simp del]

text \<open>strconv.Itoa and the percent-d verb.\<close>

definition itoa :: "int \<Rightarrow> string" where
  "itoa i = (if i < 0 then CHR ''-'' # nat_text (nat (- i)) else nat_text (nat i))"

fun digits_val :: "nat \<Rightarrow> string \<Rightarrow> nat option" where
  "digits_val acc [] = Some acc"
| "digits_val acc (c # s) =
    (if is_digit c then digits_val (10 * acc + ((of_char c :: nat) - 48)) s else None)"

text \<open>strconv.Atoi on a 64-bit platform: an optional sign, digits, and the range of int64.\<close>

definition atoi :: "string \<Rightarrow> int option" where
  "atoi s =
    (let neg = (case s of c # _ \<Rightarrow> c = CHR ''-'' | [] \<Rightarrow> False);
         body = (case s of c # r \<Rightarrow> (if c = CHR ''-'' \<or> c = CHR ''+'' then r else s) | [] \<Rightarrow> s)
     in if body = [] then None
        else (case digits_val 0 body of
                None \<Rightarrow> None
              | Some n \<Rightarrow>
                  (let v = (if neg then - int n else int n)
                   in if - (2 ^ 63) \<le> v \<and> v < 2 ^ 63 then Some v else None)))"

text \<open>hex.EncodeToString.\<close>

definition hex_digit :: "nat \<Rightarrow> char" where
  "hex_digit d = (if d < 10 then char_of (48 + d) else char_of (87 + d))"

fun hex_encode :: "8 word list \<Rightarrow> string" where
  "hex_encode [] = []"
| "hex_encode (b # bs) = hex_digit (unat b div 16) # hex_digit (unat b mod 16) # hex_encode bs"

text \<open>The percent-q verb on ASCII text.\<close>

definition quote_char :: "char \<Rightarrow> string" where
  "quote_char c =
    (let n = (of_char c :: nat) in
     if n = 34 \<or> n = 92 then [char_of (92 :: nat), c]
     else if n = 7 then [char_of (92 :: nat), CHR ''a'']
     else if n = 8 then [char_of (92 :: nat), CHR ''b'']
     else if n = 9 then [char_of (92 :: nat), CHR ''t'']
     else if n = 10 then [char_of (92 :: nat), CHR ''n'']
     else if n = 11 then [char_of (92 :: nat), CHR ''v'']
     else if n = 12 then [char_of (92 :: nat), CHR ''f'']
     else if n = 13 then [char_of (92 :: nat), CHR ''r'']
     else if n < 32 \<or> n = 127
       then [char_of (92 :: nat), CHR ''x'', hex_digit (n div 16), hex_digit (n mod 16)]
     else [c])"

definition go_quote :: "string \<Rightarrow> string" where
  "go_quote s = char_of (34 :: nat) # concat (map quote_char s) @ [char_of (34 :: nat)]"

text \<open>strings.TrimRight with a slash, filepath.Base and filepath.Ext.\<close>

definition trim_slashes :: "string \<Rightarrow> string" where
  "trim_slashes s = rev (dropWhile (\<lambda>c. c = CHR ''/'') (rev s))"

definition base_name :: "string \<Rightarrow> string" where
  "base_name p =
    (if p = [] then ''.''
     else let q = trim_slashes p in
       if q = [] then ''/'' else rev (takeWhile (\<lambda>c. c \<noteq> CHR ''/'') (rev q)))"

definition file_ext :: "string \<Rightarrow> string" where
  "file_ext name =
    (let tail = rev (takeWhile (\<lambda>c. c \<noteq> CHR ''/'') (rev name))
     in case last_index_char (CHR ''.'') tail of None \<Rightarrow> [] | Some i \<Rightarrow> drop i tail)"

section \<open>Lemmas on the string functions\<close>

lemma has_prefix_Nil [simp]: "has_prefix [] s"
  by (simp add: has_prefix_def)

lemma has_prefix_iff: "has_prefix p s \<longleftrightarrow> (\<exists>r. s = p @ r)"
  by (metis append_eq_conv_conj append_take_drop_id has_prefix_def)

lemma has_prefix_append [simp]: "has_prefix p (p @ r)"
  by (simp add: has_prefix_def)

lemma has_suffix_iff: "has_suffix p s \<longleftrightarrow> (\<exists>r. s = r @ p)"
proof -
  have "rev s = rev p @ r \<longleftrightarrow> s = rev r @ p" for r
    by (metis rev_append rev_rev_ident)
  then show ?thesis
    unfolding has_suffix_def has_prefix_iff by (metis rev_rev_ident)
qed

lemma trim_by_set: "set (trim_by p s) \<subseteq> set s"
proof -
  have "set (dropWhile p t) \<subseteq> set t" for t :: string
    by (metis set_dropWhileD subsetI)
  from this[of "rev (dropWhile p s)"] this[of s] show ?thesis
    unfolding trim_by_def by auto
qed

lemma dropWhile_Nil_conv: "dropWhile p s = [] \<longleftrightarrow> (\<forall>c\<in>set s. p c)"
  by (simp add: dropWhile_eq_Nil_conv)

lemma trim_by_Nil_iff: "trim_by p s = [] \<longleftrightarrow> (\<forall>c\<in>set s. p c)"
proof
  assume "trim_by p s = []"
  then have "\<forall>c\<in>set (dropWhile p s). p c"
    unfolding trim_by_def by (simp add: dropWhile_Nil_conv)
  moreover have "dropWhile p s = [] \<or> \<not> p (hd (dropWhile p s))"
    using hd_dropWhile by blast
  ultimately have "dropWhile p s = []"
    by (metis list.set_sel(1))
  then show "\<forall>c\<in>set s. p c" by (simp only: dropWhile_Nil_conv)
next
  assume "\<forall>c\<in>set s. p c"
  then have "dropWhile p s = []" by (simp only: dropWhile_Nil_conv)
  then show "trim_by p s = []" unfolding trim_by_def by (simp del: dropWhile_eq_Nil_conv)
qed

lemma trim_by_id:
  assumes "s = [] \<or> \<not> p (hd s) \<and> \<not> p (last s)"
  shows "trim_by p s = s"
proof (cases "s = []")
  case True
  then show ?thesis by (simp add: trim_by_def)
next
  case False
  with assms have h: "\<not> p (hd s)" and l: "\<not> p (last s)" by auto
  from h False have "dropWhile p s = s" by (cases s) auto
  moreover from l False have "dropWhile p (rev s) = rev s"
    by (cases s rule: rev_cases) auto
  ultimately show ?thesis by (simp add: trim_by_def)
qed

lemma trim_by_ends:
  assumes "trim_by p s \<noteq> []"
  shows "\<not> p (hd (trim_by p s))" and "\<not> p (last (trim_by p s))"
proof -
  let ?d = "dropWhile p s"
  have ne: "dropWhile p (rev ?d) \<noteq> []" using assms unfolding trim_by_def by blast
  have l: "last (trim_by p s) = hd (dropWhile p (rev ?d))"
    using ne by (simp add: trim_by_def last_rev)
  show "\<not> p (last (trim_by p s))" using ne hd_dropWhile l by metis
  have dn: "?d \<noteq> []" using ne by (metis dropWhile.simps(1) rev.simps(1))
  obtain r where r: "?d = trim_by p s @ r"
    unfolding trim_by_def
    by (metis rev_append rev_rev_ident takeWhile_dropWhile_id)
  have "hd (trim_by p s) = hd ?d" using r assms by (metis hd_append2)
  then show "\<not> p (hd (trim_by p s))" using dn hd_dropWhile by metis
qed

lemma trim_by_idem [go_string, simp]: "trim_by p (trim_by p s) = trim_by p s"
  using trim_by_ends trim_by_id by metis

lemma trim_space_idem [go_string, simp]: "trim_space (trim_space s) = trim_space s"
  by (simp add: trim_space_def)

lemma trim_space_Nil [simp]: "trim_space [] = []"
  by (simp add: trim_space_def trim_by_def)

lemma split_char_not_Nil [simp]: "split_char d s \<noteq> []"
  by (induction s) (auto split: list.splits)

lemma split_char_no_sep: "w \<in> set (split_char d s) \<Longrightarrow> d \<notin> set w"
  by (induction s arbitrary: w) (auto split: list.splits if_splits)

lemma split_char_id: "d \<notin> set s \<Longrightarrow> split_char d s = [s]"
  by (induction s) auto

lemma split_char_append:
  "d \<notin> set w \<Longrightarrow> split_char d (w @ d # s) = w # split_char d s"
  by (induction w) auto

text \<open>Splitting what was joined gives the pieces back, when none holds the separator.\<close>

lemma split_char_join:
  "ws \<noteq> [] \<Longrightarrow> \<forall>w\<in>set ws. d \<notin> set w \<Longrightarrow> split_char d (join [d] ws) = ws"
  by (induction "[d]" ws rule: join.induct) (auto simp: split_char_id split_char_append)

lemma join_Cons: "ws \<noteq> [] \<Longrightarrow> join sep (w # ws) = w @ sep @ join sep ws"
  by (cases ws) auto

lemma join_split_char: "join [d] (split_char d s) = s"
proof (induction s)
  case (Cons c s)
  obtain w ws where w: "split_char d s = w # ws" by (cases "split_char d s") auto
  show ?case
  proof (cases "c = d")
    case True
    then show ?thesis using Cons by (simp add: join_Cons)
  next
    case False
    then show ?thesis using Cons w by (cases ws) auto
  qed
qed simp

lemma to_lower_idem [go_string, simp]: "to_lower (to_lower s) = to_lower s"
proof -
  have "lower_char (lower_char c) = lower_char c" for c
    unfolding lower_char_def is_upper_char_def
    by (auto simp: of_char_of take_bit_eq_mod)
  then show ?thesis by (simp add: to_lower_def)
qed

lemma length_to_lower [simp]: "length (to_lower s) = length s"
  by (simp add: to_lower_def)

lemma nat_text_not_Nil [simp]: "nat_text n \<noteq> []"
  by (subst nat_text.simps) simp

lemma of_char_digit_char [simp]: "d < 10 \<Longrightarrow> (of_char (digit_char d) :: nat) = 48 + d"
  by (simp add: digit_char_def of_char_of take_bit_eq_mod)

lemma is_digit_digit_char [simp]: "d < 10 \<Longrightarrow> is_digit (digit_char d)"
  by (simp add: is_digit_def)

lemma nat_text_digits: "c \<in> set (nat_text n) \<Longrightarrow> is_digit c"
proof (induction n rule: nat_text.induct)
  case (1 n)
  show ?case
  proof (cases "n < 10")
    case True
    with 1(2) show ?thesis by (subst (asm) nat_text.simps) simp
  next
    case False
    with 1 show ?thesis by (subst (asm) (2) nat_text.simps) auto
  qed
qed

lemma digits_val_append:
  "digits_val a (s @ t) = (case digits_val a s of None \<Rightarrow> None | Some b \<Rightarrow> digits_val b t)"
  by (induction s arbitrary: a) auto

lemma digits_val_nat_text: "digits_val 0 (nat_text n) = Some n"
proof (induction n rule: nat_text.induct)
  case (1 n)
  then show ?case
    by (subst nat_text.simps) (simp add: digits_val_append)
qed

text \<open>Reading back what Itoa wrote.\<close>

lemma atoi_itoa:
  assumes "- (2 ^ 63) \<le> i" "i < 2 ^ 63"
  shows "atoi (itoa i) = Some i"
proof (cases "i < 0")
  case True
  then show ?thesis using assms
    by (simp add: atoi_def itoa_def digits_val_nat_text Let_def)
next
  case False
  obtain c r where cr: "nat_text (nat i) = c # r" by (cases "nat_text (nat i)") auto
  have "is_digit c" using nat_text_digits[of c "nat i"] cr by simp
  then have "c \<noteq> CHR ''-''" "c \<noteq> CHR ''+''" by (auto simp: is_digit_def)
  then show ?thesis using False assms digits_val_nat_text[of "nat i"] cr
    by (simp add: atoi_def itoa_def Let_def)
qed

lemma nat_text_inj: "nat_text m = nat_text n \<Longrightarrow> m = n"
  by (metis digits_val_nat_text option.inject)

end

