(* ===== verification/Go_Time.thy ===== *)
theory Go_Time
  imports Go_Base
begin

text \<open>
  Instants and their text.  An instant is the number of nanoseconds since
  January 1 of year 1, UTC, so the zero instant is Go's time.Time zero value.
  The store writes every instant as text, with formatTime (the layout
  time.RFC3339Nano, which drops the trailing zeros of the fraction, and the
  whole fraction when it is zero), and SQLite compares and sorts the columns as
  text.  The lemmas say how far that order is the order of the instants: it is
  whenever the two instants lie in different seconds.
\<close>

type_synonym time = int

definition zero_time :: time where
  "zero_time = 0"

definition second :: int where
  "second = 1000000000"

definition minute :: int where
  "minute = 60 * second"

definition hour :: int where
  "hour = 60 * minute"

definition millisecond :: int where
  "millisecond = 1000000"

section \<open>The civil date\<close>

definition leap_year :: "nat \<Rightarrow> bool" where
  "leap_year y = (y mod 4 = 0 \<and> (y mod 100 \<noteq> 0 \<or> y mod 400 = 0))"

definition year_len :: "nat \<Rightarrow> nat" where
  "year_len y = (if leap_year y then 366 else 365)"

lemma year_len_pos [simp]: "0 < year_len y"
  by (simp add: year_len_def)

text \<open>From a first year and a number of days since its January 1: the year and the day in it.\<close>

function year_of :: "nat \<Rightarrow> nat \<Rightarrow> nat \<times> nat" where
  "year_of y d = (if d < year_len y then (y, d) else year_of (Suc y) (d - year_len y))"
  by pat_completeness auto
termination
proof (relation "measure snd")
  fix y d :: nat
  assume "\<not> d < year_len y"
  then have "year_len y \<le> d" by simp
  with year_len_pos[of y] have "d - year_len y < d" by linarith
  then show "((Suc y, d - year_len y), (y, d)) \<in> measure snd" by simp
qed simp

declare year_of.simps [simp del]

definition month_lens :: "nat \<Rightarrow> nat list" where
  "month_lens y = [31, if leap_year y then 29 else 28, 31, 30, 31, 30, 31, 31, 30, 31, 30, 31]"

fun month_walk :: "nat list \<Rightarrow> nat \<Rightarrow> nat \<Rightarrow> nat \<times> nat" where
  "month_walk [] m d = (m, d)"
| "month_walk (l # ls) m d = (if d < l then (m, d) else month_walk ls (Suc m) (d - l))"

section \<open>The text of an instant\<close>

fun pad :: "nat \<Rightarrow> nat \<Rightarrow> string" where
  "pad 0 k = []"
| "pad (Suc n) k = pad n (k div 10) @ [digit_char (k mod 10)]"

definition date_text :: "nat \<Rightarrow> string" where
  "date_text days =
    (let (y, yd) = year_of 1 days; (m, d) = month_walk (month_lens y) 1 yd
     in pad 4 y @ ''-'' @ pad 2 m @ ''-'' @ pad 2 (Suc d))"

definition clock_text :: "nat \<Rightarrow> string" where
  "clock_text s = pad 2 (s div 3600) @ '':'' @ pad 2 (s div 60 mod 60) @ '':'' @ pad 2 (s mod 60)"

definition seconds_text :: "nat \<Rightarrow> string" where
  "seconds_text s = date_text (s div 86400) @ ''T'' @ clock_text (s mod 86400)"

definition fraction_text :: "nat \<Rightarrow> string" where
  "fraction_text ns =
    (if ns = 0 then [] else CHR ''.'' # rev (dropWhile (\<lambda>c. c = CHR ''0'') (rev (pad 9 ns))))"

definition formatTime :: "time \<Rightarrow> string" where
  "formatTime t =
    seconds_text (nat (t div second)) @ fraction_text (nat (t mod second)) @ ''Z''"

text \<open>The year of an instant; the layout has four digits for it.\<close>

definition time_year :: "time \<Rightarrow> nat" where
  "time_year t = fst (year_of 1 (nat (t div second) div 86400))"

definition in_range :: "time \<Rightarrow> bool" where
  "in_range t = (0 \<le> t \<and> time_year t \<le> 9999)"

text \<open>The comparison SQLite makes of two instants that are stored as text.\<close>

definition text_le :: "time \<Rightarrow> time \<Rightarrow> bool" where
  "text_le t u = (formatTime t \<le> formatTime u)"

definition text_less :: "time \<Rightarrow> time \<Rightarrow> bool" where
  "text_less t u = (formatTime t < formatTime u)"

section \<open>The order of the text\<close>

lemma less_append:
  "length a = length b \<Longrightarrow> a < b \<Longrightarrow> a @ x < b @ (y :: string)"
  by (induction a b rule: list_induct2) auto

lemma less_append_same: "x < y \<Longrightarrow> a @ x < a @ (y :: string)"
  by (induction a) auto

lemma less_append_Cons: "c < d \<Longrightarrow> a @ c # x < a @ d # (y :: string)"
  by (rule less_append_same) simp

lemma less_div_mod_cases:
  fixes a b k :: nat
  assumes "a < b"
  shows "a div k < b div k \<or> a div k = b div k \<and> a mod k < b mod k"
proof (cases "a div k < b div k")
  case False
  then have "a div k = b div k"
    using assms by (metis div_le_mono le_neq_implies_less less_imp_le)
  moreover from this have "a mod k < b mod k"
    using assms by (metis add_less_cancel_left mult_div_mod_eq)
  ultimately show ?thesis by simp
qed simp

lemma length_pad [simp]: "length (pad n k) = n"
  by (induction n arbitrary: k) auto

lemma digit_char_less: "i < j \<Longrightarrow> j < 10 \<Longrightarrow> digit_char i < digit_char j"
  by (simp add: less_char_def)

lemma pad_less: "i < j \<Longrightarrow> j < 10 ^ n \<Longrightarrow> pad n i < pad n j"
proof (induction n arbitrary: i j)
  case 0
  then show ?case by simp
next
  case (Suc n)
  have b: "j div 10 < 10 ^ n" using Suc.prems by (simp add: div_less_iff_less_mult mult.commute)
  show ?case
  proof (cases "i div 10 < j div 10")
    case True
    then have "pad n (i div 10) < pad n (j div 10)" using Suc.IH b by blast
    then show ?thesis by (simp add: less_append)
  next
    case False
    then have e: "i div 10 = j div 10" and "i mod 10 < j mod 10"
      using less_div_mod_cases[OF Suc.prems(1), of 10] by auto
    then have "digit_char (i mod 10) < digit_char (j mod 10)" by (simp add: digit_char_less)
    then show ?thesis using e by (simp add: less_append_Cons)
  qed
qed

lemma year_of_ge: "y \<le> fst (year_of y d)"
proof (induction y d rule: year_of.induct)
  case (1 y d)
  then show ?case by (subst year_of.simps) (auto intro: Suc_leD)
qed

lemma year_of_day: "snd (year_of y d) < year_len (fst (year_of y d))"
proof (induction y d rule: year_of.induct)
  case (1 y d)
  show ?case
  proof (cases "d < year_len y")
    case True
    then have "year_of y d = (y, d)" by (subst year_of.simps) simp
    with True show ?thesis by simp
  next
    case False
    then have "year_of y d = year_of (Suc y) (d - year_len y)" by (subst year_of.simps) simp
    with 1[OF False] show ?thesis by simp
  qed
qed

lemma year_of_mono:
  "a < b \<Longrightarrow> fst (year_of y a) < fst (year_of y b)
     \<or> fst (year_of y a) = fst (year_of y b) \<and> snd (year_of y a) < snd (year_of y b)"
proof (induction y a arbitrary: b rule: year_of.induct)
  case (1 y a)
  consider "b < year_len y" | "a < year_len y" "\<not> b < year_len y" | "\<not> a < year_len y"
    by blast
  then show ?case
  proof cases
    case 1
    with \<open>a < b\<close> have "year_of y a = (y, a)" "year_of y b = (y, b)"
      by (simp_all add: year_of.simps)
    with \<open>a < b\<close> show ?thesis by simp
  next
    case 2
    then have a: "year_of y a = (y, a)" and b: "year_of y b = year_of (Suc y) (b - year_len y)"
      by (simp add: year_of.simps, subst year_of.simps, simp)
    have "Suc y \<le> fst (year_of (Suc y) (b - year_len y))" by (rule year_of_ge)
    then show ?thesis using a b by simp
  next
    case 3
    then have nb: "\<not> b < year_len y" using \<open>a < b\<close> by simp
    have a: "year_of y a = year_of (Suc y) (a - year_len y)"
      and b: "year_of y b = year_of (Suc y) (b - year_len y)"
      using 3 nb by (subst year_of.simps, simp)+
    have "a - year_len y < b - year_len y" using \<open>a < b\<close> 3 by simp
    from "1.IH"[OF 3 this] show ?thesis using a b by simp
  qed
qed

lemma month_walk_ge: "m \<le> fst (month_walk ls m d)"
  by (induction ls m d rule: month_walk.induct) (auto intro: Suc_leD)

lemma month_walk_le: "fst (month_walk ls m d) \<le> m + length ls"
  by (induction ls m d rule: month_walk.induct) auto

lemma month_walk_day:
  "d < sum_list ls \<Longrightarrow> \<forall>l\<in>set ls. l \<le> k \<Longrightarrow> snd (month_walk ls m d) < k"
  by (induction ls m d rule: month_walk.induct) auto

lemma month_walk_mono:
  "a < b \<Longrightarrow> fst (month_walk ls m a) < fst (month_walk ls m b)
     \<or> fst (month_walk ls m a) = fst (month_walk ls m b) \<and> snd (month_walk ls m a) < snd (month_walk ls m b)"
proof (induction ls arbitrary: m a b)
  case (Cons l ls)
  have "Suc m \<le> fst (month_walk ls (Suc m) (b - l))" by (rule month_walk_ge)
  moreover have "\<not> a < l \<Longrightarrow> a - l < b - l" using Cons.prems by simp
  ultimately show ?case using Cons.prems Cons.IH[of "a - l" "b - l" "Suc m"] by auto
qed simp

lemma sum_month_lens: "sum_list (month_lens y) = year_len y"
  by (simp add: month_lens_def year_len_def)

lemma month_fields_bounds:
  "d < year_len y \<Longrightarrow> fst (month_walk (month_lens y) 1 d) < 100"
  "d < year_len y \<Longrightarrow> Suc (snd (month_walk (month_lens y) 1 d)) < 100"
proof -
  have "fst (month_walk (month_lens y) 1 d) \<le> 1 + length (month_lens y)" by (rule month_walk_le)
  also have "\<dots> < 100" by (simp add: month_lens_def)
  finally show "fst (month_walk (month_lens y) 1 d) < 100" .
  assume "d < year_len y"
  then have "snd (month_walk (month_lens y) 1 d) < 31"
    by (intro month_walk_day) (auto simp: sum_month_lens, auto simp: month_lens_def)
  then show "Suc (snd (month_walk (month_lens y) 1 d)) < 100" by simp
qed

lemma length_date_text [simp]: "length (date_text d) = 10"
  by (simp add: date_text_def case_prod_unfold Let_def)

lemma date_text_less:
  assumes "a < b" and "fst (year_of 1 b) \<le> 9999"
  shows "date_text a < date_text b"
proof -
  obtain y1 d1 where y1: "year_of 1 a = (y1, d1)" by fastforce
  obtain y2 d2 where y2: "year_of 1 b = (y2, d2)" by fastforce
  obtain m1 n1 where m1: "month_walk (month_lens y1) 1 d1 = (m1, n1)" by fastforce
  obtain m2 n2 where m2: "month_walk (month_lens y2) 1 d2 = (m2, n2)" by fastforce
  have l2: "d2 < year_len y2" using year_of_day[of 1 b] y2 by simp
  have bm: "m2 < 10 ^ 2" "Suc n2 < 10 ^ 2"
    using month_fields_bounds[OF l2] m2 by simp_all
  have by': "y2 < 10 ^ 4" using assms(2) y2 by simp
  have t: "date_text a = pad 4 y1 @ ''-'' @ pad 2 m1 @ ''-'' @ pad 2 (Suc n1)"
    "date_text b = pad 4 y2 @ ''-'' @ pad 2 m2 @ ''-'' @ pad 2 (Suc n2)"
    by (simp_all add: date_text_def y1[simplified] y2[simplified] m1[simplified] m2[simplified])
  consider "y1 < y2" | "y1 = y2" "d1 < d2" using year_of_mono[OF assms(1), of 1] y1 y2 by auto
  then show ?thesis
  proof cases
    case 1
    then have "pad 4 y1 < pad 4 y2" using by' by (rule pad_less)
    then show ?thesis unfolding t by (intro less_append) simp_all
  next
    case 2
    then consider "m1 < m2" | "m1 = m2" "n1 < n2"
      using month_walk_mono[OF 2(2), of "month_lens y2" 1] m1 m2 by auto
    then show ?thesis
    proof cases
      case 1
      then have "pad 2 m1 < pad 2 m2" using bm(1) by (rule pad_less)
      then show ?thesis unfolding t 2(1)
        by (intro less_append_same less_append) simp_all
    next
      case 2
      then have "pad 2 (Suc n1) < pad 2 (Suc n2)" using bm(2) by (intro pad_less) simp_all
      then show ?thesis unfolding t \<open>y1 = y2\<close> 2(1)
        by (intro less_append_same)
    qed
  qed
qed

lemma length_clock_text [simp]: "length (clock_text s) = 8"
  by (simp add: clock_text_def)

lemma clock_text_less:
  assumes "a < b" "b < 86400"
  shows "clock_text a < clock_text b"
proof -
  have "b div 3600 < 100" using assms(2) by linarith
  moreover have "b div 60 mod 60 < 60" "b mod 60 < 60" by simp_all
  ultimately have bb: "b div 3600 < 10 ^ 2" "b div 60 mod 60 < 10 ^ 2" "b mod 60 < 10 ^ 2"
    by (simp_all only: power2_eq_square)
  have q: "x div 3600 = x div 60 div 60" for x :: nat by (simp add: div_mult2_eq[symmetric])
  consider "a div 3600 < b div 3600"
    | "a div 3600 = b div 3600" "a div 60 mod 60 < b div 60 mod 60"
    | "a div 60 = b div 60" "a mod 60 < b mod 60"
    unfolding q using less_div_mod_cases[OF assms(1), of 60] less_div_mod_cases[of "a div 60" "b div 60" 60]
    by blast
  then show ?thesis
  proof cases
    case 1
    then have "pad 2 (a div 3600) < pad 2 (b div 3600)" using bb(1) by (rule pad_less)
    then show ?thesis unfolding clock_text_def by (intro less_append) simp_all
  next
    case 2
    then have "pad 2 (a div 60 mod 60) < pad 2 (b div 60 mod 60)" using bb(2) by (intro pad_less)
    then show ?thesis unfolding clock_text_def 2(1) by (intro less_append_same less_append) simp_all
  next
    case 3
    then have "pad 2 (a mod 60) < pad 2 (b mod 60)" using bb(3) by (intro pad_less)
    then show ?thesis unfolding clock_text_def q 3(1) by (intro less_append_same)
  qed
qed

lemma length_seconds_text [simp]: "length (seconds_text s) = 19"
  by (simp add: seconds_text_def)

lemma seconds_text_less:
  assumes "a < b" "fst (year_of 1 (b div 86400)) \<le> 9999"
  shows "seconds_text a < seconds_text b"
proof (cases "a div 86400 < b div 86400")
  case True
  then have "date_text (a div 86400) < date_text (b div 86400)" using assms(2) by (rule date_text_less)
  then show ?thesis unfolding seconds_text_def by (intro less_append) simp_all
next
  case False
  then have e: "a div 86400 = b div 86400" and "a mod 86400 < b mod 86400"
    using less_div_mod_cases[OF assms(1), of 86400] by auto
  then have "clock_text (a mod 86400) < clock_text (b mod 86400)"
    by (intro clock_text_less) simp_all
  then show ?thesis unfolding seconds_text_def e by (intro less_append_same)
qed

text \<open>Instants in different seconds are ordered by their text as by time.\<close>

lemma formatTime_less:
  assumes "0 \<le> t" "in_range u" "t div second < u div second"
  shows "formatTime t < formatTime u"
proof -
  have "0 \<le> t div second" using assms(1) by (simp add: second_def pos_imp_zdiv_nonneg_iff)
  then have "nat (t div second) < nat (u div second)" using assms(3) by simp
  then have "seconds_text (nat (t div second)) < seconds_text (nat (u div second))"
    using assms(2) by (intro seconds_text_less) (auto simp: in_range_def time_year_def)
  then show ?thesis unfolding formatTime_def by (intro less_append) simp_all
qed

lemma text_le_seconds:
  assumes "0 \<le> t" "in_range u" "t div second < u div second"
  shows "text_le t u" and "\<not> text_le u t"
  using formatTime_less[OF assms] by (simp_all add: text_le_def not_le)

lemma text_le_refl [simp]: "text_le t t"
  by (simp add: text_le_def)

lemma text_le_trans: "text_le t u \<Longrightarrow> text_le u v \<Longrightarrow> text_le t v"
  by (simp add: text_le_def)

lemma text_le_total: "text_le t u \<or> text_le u t"
  by (auto simp: text_le_def)

lemma text_less_iff: "text_less t u \<longleftrightarrow> \<not> text_le u t"
  by (simp add: text_less_def text_le_def not_le)

text \<open>
  Inside one second the order can be the reverse: the instant on the second
  has no fraction, its text goes on with Z, and Z is above the point with which
  every fraction starts.
\<close>

lemma formatTime_within_second:
  assumes "t div second = u div second" "t mod second = 0" "u mod second \<noteq> 0"
  shows "formatTime u < formatTime t"
proof -
  have "0 \<le> u mod second" by (simp add: second_def)
  then have "nat (u mod second) \<noteq> 0" using assms(3) by simp
  moreover have "CHR ''.'' < CHR ''Z''" by (simp add: less_char_def)
  ultimately show ?thesis
    using assms(1,2) unfolding formatTime_def fraction_text_def
    by (simp add: less_append_Cons)
qed

end
