(* ===== verification/Domain.thy ===== *)
theory Domain
  imports Go_Time
begin

text \<open>
  The data model of backend/internal/domain/models.go.  Every struct that the
  modelled code uses is a record whose fields carry the Go names behind a short
  prefix; zero_T is the zero value of the struct T, which a composite literal
  updates field by field.  A pointer to an instant is an option, a slice a list
  (nil and the empty slice are the same list).
\<close>

section \<open>Constants\<close>

abbreviation StateProvisioning :: string where "StateProvisioning \<equiv> ''provisioning''"
abbreviation StateStarting :: string where "StateStarting \<equiv> ''starting''"
abbreviation StateBooting :: string where "StateBooting \<equiv> ''booting''"
abbreviation StateRunning :: string where "StateRunning \<equiv> ''running''"
abbreviation StateStopping :: string where "StateStopping \<equiv> ''stopping''"
abbreviation StateStopped :: string where "StateStopped \<equiv> ''stopped''"
abbreviation StateError :: string where "StateError \<equiv> ''error''"
abbreviation StateDeleting :: string where "StateDeleting \<equiv> ''deleting''"
abbreviation StateOnline :: string where "StateOnline \<equiv> ''online''"
abbreviation StateOffline :: string where "StateOffline \<equiv> ''offline''"
abbreviation PlatformAndroid :: string where "PlatformAndroid \<equiv> ''android''"
abbreviation PlatformWindows :: string where "PlatformWindows \<equiv> ''windows''"
abbreviation PlatformLinux :: string where "PlatformLinux \<equiv> ''linux''"
abbreviation PlatformMacOS :: string where "PlatformMacOS \<equiv> ''macos''"
abbreviation ConsoleProviderCuttlefishWebRTC :: string where "ConsoleProviderCuttlefishWebRTC \<equiv> ''cuttlefish-webrtc''"
abbreviation ConsoleProviderScreenshot :: string where "ConsoleProviderScreenshot \<equiv> ''screenshot''"
abbreviation ImageStatusPending :: string where "ImageStatusPending \<equiv> ''pending''"
abbreviation ImageStatusFetching :: string where "ImageStatusFetching \<equiv> ''fetching''"
abbreviation ImageStatusReady :: string where "ImageStatusReady \<equiv> ''ready''"
abbreviation ImageStatusError :: string where "ImageStatusError \<equiv> ''error''"
abbreviation RoleAdmin :: string where "RoleAdmin \<equiv> ''admin''"
abbreviation RoleOperator :: string where "RoleOperator \<equiv> ''operator''"
abbreviation RoleViewer :: string where "RoleViewer \<equiv> ''viewer''"
abbreviation PermissionAdmin :: string where "PermissionAdmin \<equiv> ''admin''"
abbreviation PermissionOperate :: string where "PermissionOperate \<equiv> ''operate''"
abbreviation PermissionView :: string where "PermissionView \<equiv> ''view''"
abbreviation PermissionOpenConsole :: string where "PermissionOpenConsole \<equiv> ''console''"
abbreviation PermissionControl :: string where "PermissionControl \<equiv> ''control''"
abbreviation PermissionTest :: string where "PermissionTest \<equiv> ''test''"
abbreviation StepPass :: string where "StepPass \<equiv> ''pass''"
abbreviation StepFail :: string where "StepFail \<equiv> ''fail''"
abbreviation StepBlocked :: string where "StepBlocked \<equiv> ''blocked''"
abbreviation CycleTriggerManual :: string where "CycleTriggerManual \<equiv> ''manual''"
abbreviation CycleTriggerCron :: string where "CycleTriggerCron \<equiv> ''cron''"
abbreviation CycleTriggerBuild :: string where "CycleTriggerBuild \<equiv> ''build''"
abbreviation SourceCuttlefish :: string where "SourceCuttlefish \<equiv> ''cuttlefish''"
abbreviation SourcePhysical :: string where "SourcePhysical \<equiv> ''physical''"
abbreviation SourceRunner :: string where "SourceRunner \<equiv> ''runner''"

section \<open>Structs\<close>

record Image =
  img_ID :: string
  img_Name :: string
  img_Path :: string
  img_AndroidAPI :: string
  img_Description :: string
  img_BuildTarget :: string
  img_VersionID :: string
  img_Status :: string
  img_SizeBytes :: int
  img_LastError :: string
  img_CreatedAt :: time

definition zero_Image :: Image where
  "zero_Image =
    \<lparr>img_ID = [], img_Name = [], img_Path = [],
     img_AndroidAPI = [], img_Description = [], img_BuildTarget = [],
     img_VersionID = [], img_Status = [], img_SizeBytes = 0,
     img_LastError = [], img_CreatedAt = zero_time\<rparr>"

record Instance =
  inst_ID :: string
  inst_Name :: string
  inst_HostID :: string
  inst_Platform :: string
  inst_ControlEndpoint :: string
  inst_ImageID :: string
  inst_AndroidVersion :: string
  inst_State :: string
  inst_CPUCores :: int
  inst_MemoryMB :: int
  inst_DisplayWidth :: int
  inst_DisplayHeight :: int
  inst_DPI :: int
  inst_ADBPort :: int
  inst_WebRTCPort :: int
  inst_DeviceID :: string
  inst_ConsoleProvider :: string
  inst_ConsoleURL :: string
  inst_LastError :: string
  inst_CreatedAt :: time
  inst_UpdatedAt :: time
  inst_Src :: string
  inst_ADBTarget :: string

definition zero_Instance :: Instance where
  "zero_Instance =
    \<lparr>inst_ID = [], inst_Name = [], inst_HostID = [],
     inst_Platform = [], inst_ControlEndpoint = [], inst_ImageID = [],
     inst_AndroidVersion = [], inst_State = [], inst_CPUCores = 0,
     inst_MemoryMB = 0, inst_DisplayWidth = 0, inst_DisplayHeight = 0,
     inst_DPI = 0, inst_ADBPort = 0, inst_WebRTCPort = 0,
     inst_DeviceID = [], inst_ConsoleProvider = [], inst_ConsoleURL = [],
     inst_LastError = [], inst_CreatedAt = zero_time, inst_UpdatedAt = zero_time,
     inst_Src = [], inst_ADBTarget = []\<rparr>"

record Operation =
  op_ID :: string
  op_InstanceID :: string
  op_Action :: string
  op_Status :: string
  op_Message :: string
  op_CreatedAt :: time
  op_FinishedAt :: "time option"

definition zero_Operation :: Operation where
  "zero_Operation =
    \<lparr>op_ID = [], op_InstanceID = [], op_Action = [],
     op_Status = [], op_Message = [], op_CreatedAt = zero_time,
     op_FinishedAt = None\<rparr>"

record User =
  usr_ID :: string
  usr_Username :: string
  usr_DisplayName :: string
  usr_Role :: string
  usr_PasswordHash :: string
  usr_Disabled :: bool
  usr_CreatedAt :: time
  usr_UpdatedAt :: time

definition zero_User :: User where
  "zero_User =
    \<lparr>usr_ID = [], usr_Username = [], usr_DisplayName = [],
     usr_Role = [], usr_PasswordHash = [], usr_Disabled = False,
     usr_CreatedAt = zero_time, usr_UpdatedAt = zero_time\<rparr>"

record Session =
  ses_ID :: string
  ses_UserID :: string
  ses_TokenHash :: string
  ses_ExpiresAt :: time
  ses_CreatedAt :: time

definition zero_Session :: Session where
  "zero_Session =
    \<lparr>ses_ID = [], ses_UserID = [], ses_TokenHash = [],
     ses_ExpiresAt = zero_time, ses_CreatedAt = zero_time\<rparr>"

record Principal =
  prin_UserID :: string
  prin_Username :: string
  prin_DisplayName :: string
  prin_Role :: string
  prin_Permissions :: "string list"

definition zero_Principal :: Principal where
  "zero_Principal =
    \<lparr>prin_UserID = [], prin_Username = [], prin_DisplayName = [],
     prin_Role = [], prin_Permissions = []\<rparr>"

record AuditEvent =
  aud_ID :: string
  aud_ActorID :: string
  aud_ActorName :: string
  aud_Action :: string
  aud_Resource :: string
  aud_ResourceID :: string
  aud_Outcome :: string
  aud_Message :: string
  aud_SourceIP :: string
  aud_UserAgent :: string
  aud_RequestID :: string
  aud_CreatedAt :: time

definition zero_AuditEvent :: AuditEvent where
  "zero_AuditEvent =
    \<lparr>aud_ID = [], aud_ActorID = [], aud_ActorName = [],
     aud_Action = [], aud_Resource = [], aud_ResourceID = [],
     aud_Outcome = [], aud_Message = [], aud_SourceIP = [],
     aud_UserAgent = [], aud_RequestID = [], aud_CreatedAt = zero_time\<rparr>"

record CreateImageRequest =
  cimg_Name :: string
  cimg_Path :: string
  cimg_AndroidAPI :: string
  cimg_Description :: string

definition zero_CreateImageRequest :: CreateImageRequest where
  "zero_CreateImageRequest =
    \<lparr>cimg_Name = [], cimg_Path = [], cimg_AndroidAPI = [],
     cimg_Description = []\<rparr>"

record Test =
  test_ID :: string
  test_Name :: string
  test_Steps :: "string list"
  test_CreatedAt :: time

definition zero_Test :: Test where
  "zero_Test =
    \<lparr>test_ID = [], test_Name = [], test_Steps = [],
     test_CreatedAt = zero_time\<rparr>"

record StepResult =
  step_Index :: int
  step_Text :: string
  step_Verb :: string
  step_Target :: string
  step_Value :: string
  step_X :: int
  step_Y :: int
  step_ModelOut :: string
  step_Pass :: bool
  step_Status :: string
  step_Detail :: string
  step_DurationMs :: int
  step_Screenshot :: string
  step_Battery :: int

definition zero_StepResult :: StepResult where
  "zero_StepResult =
    \<lparr>step_Index = 0, step_Text = [], step_Verb = [],
     step_Target = [], step_Value = [], step_X = 0,
     step_Y = 0, step_ModelOut = [], step_Pass = False,
     step_Status = [], step_Detail = [], step_DurationMs = 0,
     step_Screenshot = [], step_Battery = 0\<rparr>"

record TestRun =
  run_ID :: string
  run_TestID :: string
  run_TestName :: string
  run_InstanceID :: string
  run_Status :: string
  run_Passed :: bool
  run_Steps :: "StepResult list"
  run_Video :: string
  run_Error :: string
  run_StartedAt :: time
  run_FinishedAt :: "time option"
  run_CycleRunID :: string
  run_CaseID :: string

definition zero_TestRun :: TestRun where
  "zero_TestRun =
    \<lparr>run_ID = [], run_TestID = [], run_TestName = [],
     run_InstanceID = [], run_Status = [], run_Passed = False,
     run_Steps = [], run_Video = [], run_Error = [],
     run_StartedAt = zero_time, run_FinishedAt = None, run_CycleRunID = [],
     run_CaseID = []\<rparr>"

record TestStep =
  ts_Index :: int
  ts_Action :: string
  ts_TestData :: string
  ts_Expected :: string

definition zero_TestStep :: TestStep where
  "zero_TestStep =
    \<lparr>ts_Index = 0, ts_Action = [], ts_TestData = [],
     ts_Expected = []\<rparr>"

record TestCase =
  case_ID :: string
  case_Summary :: string
  case_Description :: string
  case_Precondition :: string
  case_Priority :: string
  case_Status :: string
  case_Labels :: "string list"
  case_Components :: "string list"
  case_FolderPath :: string
  case_Steps :: "TestStep list"
  case_ExternalKey :: string
  case_CreatedAt :: time
  case_UpdatedAt :: time

definition zero_TestCase :: TestCase where
  "zero_TestCase =
    \<lparr>case_ID = [], case_Summary = [], case_Description = [],
     case_Precondition = [], case_Priority = [], case_Status = [],
     case_Labels = [], case_Components = [], case_FolderPath = [],
     case_Steps = [], case_ExternalKey = [], case_CreatedAt = zero_time,
     case_UpdatedAt = zero_time\<rparr>"

record TestCycle =
  cyc_ID :: string
  cyc_Name :: string
  cyc_Platform :: string
  cyc_BuildID :: string
  cyc_Environment :: string
  cyc_CaseIDs :: "string list"
  cyc_Cron :: string
  cyc_Timezone :: string
  cyc_OnNewBuild :: bool
  cyc_Enabled :: bool
  cyc_LastRunAt :: "time option"
  cyc_NextRunAt :: "time option"
  cyc_CreatedAt :: time

definition zero_TestCycle :: TestCycle where
  "zero_TestCycle =
    \<lparr>cyc_ID = [], cyc_Name = [], cyc_Platform = [],
     cyc_BuildID = [], cyc_Environment = [], cyc_CaseIDs = [],
     cyc_Cron = [], cyc_Timezone = [], cyc_OnNewBuild = False,
     cyc_Enabled = False, cyc_LastRunAt = None, cyc_NextRunAt = None,
     cyc_CreatedAt = zero_time\<rparr>"

record CycleTotals =
  tot_Cases :: int
  tot_Pass :: int
  tot_Fail :: int
  tot_Blocked :: int
  tot_NotRun :: int

definition zero_CycleTotals :: CycleTotals where
  "zero_CycleTotals =
    \<lparr>tot_Cases = 0, tot_Pass = 0, tot_Fail = 0,
     tot_Blocked = 0, tot_NotRun = 0\<rparr>"

record CycleRun =
  crun_ID :: string
  crun_CycleID :: string
  crun_CycleName :: string
  crun_Trigger :: string
  crun_BuildID :: string
  crun_InstanceID :: string
  crun_Status :: string
  crun_Totals :: CycleTotals
  crun_StartedAt :: time
  crun_FinishedAt :: "time option"

definition zero_CycleRun :: CycleRun where
  "zero_CycleRun =
    \<lparr>crun_ID = [], crun_CycleID = [], crun_CycleName = [],
     crun_Trigger = [], crun_BuildID = [], crun_InstanceID = [],
     crun_Status = [], crun_Totals = zero_CycleTotals, crun_StartedAt = zero_time,
     crun_FinishedAt = None\<rparr>"

record Build =
  bld_ID :: string
  bld_Platform :: string
  bld_Filename :: string
  bld_Path :: string
  bld_SizeBytes :: int
  bld_Version :: string
  bld_Status :: string
  bld_Note :: string
  bld_CreatedAt :: time
  bld_SHA256 :: string

definition zero_Build :: Build where
  "zero_Build =
    \<lparr>bld_ID = [], bld_Platform = [], bld_Filename = [],
     bld_Path = [], bld_SizeBytes = 0, bld_Version = [],
     bld_Status = [], bld_Note = [], bld_CreatedAt = zero_time,
     bld_SHA256 = []\<rparr>"

record CreateInstanceRequest =
  creq_Name :: string
  creq_Platform :: string
  creq_ImageID :: string
  creq_AndroidVersion :: string
  creq_CPUCores :: int
  creq_MemoryMB :: int
  creq_DisplayWidth :: int
  creq_DisplayHeight :: int
  creq_DPI :: int
  creq_Source :: string
  creq_ADBTarget :: string

definition zero_CreateInstanceRequest :: CreateInstanceRequest where
  "zero_CreateInstanceRequest =
    \<lparr>creq_Name = [], creq_Platform = [], creq_ImageID = [],
     creq_AndroidVersion = [], creq_CPUCores = 0, creq_MemoryMB = 0,
     creq_DisplayWidth = 0, creq_DisplayHeight = 0, creq_DPI = 0,
     creq_Source = [], creq_ADBTarget = []\<rparr>"

section \<open>Device sources\<close>

text \<open>Source: an empty source is a Cuttlefish VM.  The method takes the name of the field here.\<close>

definition Source :: "Instance \<Rightarrow> string" where
  "Source i = (if inst_Src i = [] then SourceCuttlefish else inst_Src i)"

definition IsProvisioned :: "Instance \<Rightarrow> bool" where
  "IsProvisioned i = (Source i = SourceCuttlefish)"

lemma IsProvisioned_iff: "IsProvisioned i \<longleftrightarrow> inst_Src i = [] \<or> inst_Src i = SourceCuttlefish"
  by (simp add: IsProvisioned_def Source_def)

end
