(* ===== verification/Store_Core.thy ===== *)
theory Store_Core
  imports Domain "HOL-Library.Multiset"
begin

text \<open>
  The database under backend/internal/store: a table is the list of its rows in
  insertion order, and a statement is one of a few table operations (find by
  key, insert with the primary key check, update, delete).  The locale
  keyed_table states what the code expects of a table, and is interpreted for
  every table of the schema.  The rest of the theory holds the state of the
  database as a record, the helpers that sqlite.go and cases.go share, and the
  rows' types.  Failures of the driver itself (a closed or locked database) are
  not modelled; a violated constraint is.
\<close>

named_theorems table \<open>lookup laws of the table operations\<close>

section \<open>Tables\<close>

definition tbl_find :: "('r \<Rightarrow> 'k) \<Rightarrow> 'k \<Rightarrow> 'r list \<Rightarrow> 'r option" where
  "tbl_find key k t = find (\<lambda>r. key r = k) t"

definition tbl_update :: "('r \<Rightarrow> 'k) \<Rightarrow> 'k \<Rightarrow> ('r \<Rightarrow> 'r) \<Rightarrow> 'r list \<Rightarrow> 'r list" where
  "tbl_update key k f t = map (\<lambda>r. if key r = k then f r else r) t"

definition tbl_delete :: "('r \<Rightarrow> 'k) \<Rightarrow> 'k \<Rightarrow> 'r list \<Rightarrow> 'r list" where
  "tbl_delete key k t = filter (\<lambda>r. key r \<noteq> k) t"

definition tbl_insert :: "('r \<Rightarrow> 'k) \<Rightarrow> 'r \<Rightarrow> 'r list \<Rightarrow> 'r list res" where
  "tbl_insert key r t =
    (if \<exists>x\<in>set t. key x = key r then Inl (ErrConstraint ''PRIMARY KEY'') else Inr (t @ [r]))"

definition unique_keys :: "('r \<Rightarrow> 'k) \<Rightarrow> 'r list \<Rightarrow> bool" where
  "unique_keys key t = distinct (map key t)"

text \<open>ORDER BY a text column, ties in row order, as SQLite's sorter and its index scans leave them.\<close>

definition order_asc :: "('r \<Rightarrow> string) \<Rightarrow> 'r list \<Rightarrow> 'r list" where
  "order_asc col t = foldr (insort_key col) t []"

definition order_desc :: "('r \<Rightarrow> string) \<Rightarrow> 'r list \<Rightarrow> 'r list" where
  "order_desc col t = rev (order_asc col (rev t))"

text \<open>LIMIT and OFFSET.\<close>

definition page_of :: "nat \<Rightarrow> nat \<Rightarrow> 'r list \<Rightarrow> 'r list" where
  "page_of limit offset t = take limit (drop offset t)"

locale keyed_table =
  fixes key :: "'r \<Rightarrow> 'k"
    and lookup :: "'k \<Rightarrow> 't \<Rightarrow> 'r option"
    and insert_row :: "'r \<Rightarrow> 't \<Rightarrow> 't res"
    and update_row :: "'k \<Rightarrow> ('r \<Rightarrow> 'r) \<Rightarrow> 't \<Rightarrow> 't"
    and delete_row :: "'k \<Rightarrow> 't \<Rightarrow> 't"
    and wf :: "'t \<Rightarrow> bool"
  assumes lookup_key: "lookup k t = Some r \<Longrightarrow> key r = k"
    and insert_ok: "is_ok (insert_row r t) \<longleftrightarrow> lookup (key r) t = None"
    and lookup_insert: "insert_row r t = Inr t' \<Longrightarrow>
          lookup k t' = (if k = key r then Some r else lookup k t)"
    and lookup_update: "(\<And>r. key (f r) = key r) \<Longrightarrow>
          lookup k' (update_row k f t) = (if k' = k then map_option f (lookup k t) else lookup k' t)"
    and lookup_delete: "lookup k' (delete_row k t) = (if k' = k then None else lookup k' t)"
    and wf_insert: "wf t \<Longrightarrow> insert_row r t = Inr t' \<Longrightarrow> wf t'"
    and wf_update: "wf t \<Longrightarrow> (\<And>r. key (f r) = key r) \<Longrightarrow> wf (update_row k f t)"
    and wf_delete: "wf t \<Longrightarrow> wf (delete_row k t)"
begin

lemma insert_same: "insert_row r t = Inr t' \<Longrightarrow> lookup (key r) t' = Some r"
  by (simp add: lookup_insert)

lemma insert_twice:
  assumes "insert_row r t = Inr t'"
  shows "\<not> is_ok (insert_row r t')"
  using insert_same[OF assms] by (simp add: insert_ok)

lemma update_missing:
  assumes "\<And>r. key (f r) = key r" and "lookup k t = None"
  shows "lookup k' (update_row k f t) = lookup k' t"
  using assms(2) by (simp add: lookup_update[OF assms(1)])

lemma update_then_get:
  assumes "\<And>r. key (f r) = key r" and "lookup k t = Some r"
  shows "lookup k (update_row k f t) = Some (f r)"
  using assms(2) by (simp add: lookup_update[OF assms(1)])

lemma delete_then_insert:
  assumes "lookup (key r) t = Some r0"
  shows "is_ok (insert_row r (delete_row (key r) t))"
  by (simp add: insert_ok lookup_delete)

end

lemma find_append: "find P (xs @ ys) = (case find P xs of None \<Rightarrow> find P ys | Some x \<Rightarrow> Some x)"
  by (induction xs) auto

lemma find_SomeD: "find P t = Some r \<Longrightarrow> r \<in> set t \<and> P r"
  by (auto simp: find_Some_iff)

lemma tbl_find_key: "tbl_find key k t = Some r \<Longrightarrow> key r = k"
  by (auto simp: tbl_find_def find_Some_iff)

lemma tbl_find_Some: "tbl_find key k t = Some r \<Longrightarrow> r \<in> set t \<and> key r = k"
  by (auto simp: tbl_find_def find_Some_iff)

lemma tbl_find_None: "tbl_find key k t = None \<longleftrightarrow> (\<forall>r\<in>set t. key r \<noteq> k)"
  by (auto simp: tbl_find_def find_None_iff)

lemma tbl_find_unique:
  assumes "unique_keys key t" "r \<in> set t" "key r = k"
  shows "tbl_find key k t = Some r"
proof (cases "tbl_find key k t")
  case None
  with assms show ?thesis by (auto simp: tbl_find_None)
next
  case (Some x)
  then have "x \<in> set t" "key x = key r" using tbl_find_Some assms(3) by fastforce+
  with assms(1,2) have "x = r" unfolding unique_keys_def by (auto simp: distinct_map inj_on_def)
  with Some show ?thesis by simp
qed

lemma tbl_insert_Inr:
  "tbl_insert key r t = Inr t' \<longleftrightarrow> (\<forall>x\<in>set t. key x \<noteq> key r) \<and> t' = t @ [r]"
  by (auto simp: tbl_insert_def)

lemma tbl_find_insert [table]:
  "tbl_insert key r t = Inr t' \<Longrightarrow>
    tbl_find key k t' = (if k = key r then Some r else tbl_find key k t)"
proof -
  assume "tbl_insert key r t = Inr t'"
  then have "\<forall>x\<in>set t. key x \<noteq> key r" and t': "t' = t @ [r]" by (simp_all add: tbl_insert_Inr)
  then have "find (\<lambda>x. key x = key r) t = None" by (simp add: find_None_iff)
  then show ?thesis unfolding t' tbl_find_def by (auto simp: find_append split: option.splits)
qed

lemma tbl_find_update [table]:
  assumes "\<And>r. key (f r) = key r"
  shows "tbl_find key k' (tbl_update key k f t)
    = (if k' = k then map_option f (tbl_find key k t) else tbl_find key k' t)"
  by (induction t) (auto simp: tbl_find_def tbl_update_def assms)

lemma tbl_find_delete [table]:
  "tbl_find key k' (tbl_delete key k t) = (if k' = k then None else tbl_find key k' t)"
  by (induction t) (auto simp: tbl_find_def tbl_delete_def)

lemma unique_keys_insert:
  "unique_keys key t \<Longrightarrow> tbl_insert key r t = Inr t' \<Longrightarrow> unique_keys key t'"
  by (auto simp: unique_keys_def tbl_insert_Inr)

lemma map_tbl_update:
  assumes "\<And>r. key (f r) = key r"
  shows "map key (tbl_update key k f t) = map key t"
  by (simp add: tbl_update_def assms)

lemma unique_keys_map:
  "unique_keys key t \<Longrightarrow> (\<And>r. key (g r) = key r) \<Longrightarrow> unique_keys key (map g t)"
  by (simp add: unique_keys_def comp_def)

lemma unique_keys_filter: "unique_keys key t \<Longrightarrow> unique_keys key (filter p t)"
  by (induction t) (auto simp: unique_keys_def)

lemma unique_keys_update:
  "unique_keys key t \<Longrightarrow> (\<And>r. key (f r) = key r) \<Longrightarrow> unique_keys key (tbl_update key k f t)"
  by (simp add: unique_keys_def map_tbl_update)

lemma unique_keys_delete: "unique_keys key t \<Longrightarrow> unique_keys key (tbl_delete key k t)"
  by (simp add: tbl_delete_def unique_keys_filter)

lemma unique_keys_Nil [simp]: "unique_keys key []"
  by (simp add: unique_keys_def)

lemma set_tbl_delete [simp]: "set (tbl_delete key k t) = {r \<in> set t. key r \<noteq> k}"
  by (auto simp: tbl_delete_def)

lemma order_asc_sort: "order_asc col t = sort_key col t"
  by (simp add: order_asc_def sort_key_def)

lemma set_order_asc [simp]: "set (order_asc col t) = set t"
  by (simp add: order_asc_sort)

lemma set_order_desc [simp]: "set (order_desc col t) = set t"
  by (simp add: order_desc_def order_asc_sort)

lemma length_order_desc [simp]: "length (order_desc col t) = length t"
  by (simp add: order_desc_def order_asc_sort)

lemma mset_order_desc: "mset (order_desc col t) = mset t"
  by (simp add: order_desc_def order_asc_sort)

lemma order_desc_sorted: "sorted_wrt (\<lambda>a b. col b \<le> col a) (order_desc col t)"
proof -
  have "sorted_wrt (\<lambda>a b. col a \<le> col b) (sort_key col (rev t))"
    using sorted_sort_key[of col "rev t"] by (simp add: sorted_wrt_map)
  then show ?thesis by (simp add: order_desc_def order_asc_sort sorted_wrt_rev)
qed

text \<open>Consecutive pages put together are the whole listing.\<close>

lemma pages_append: "page_of a 0 t @ page_of b a t = page_of (a + b) 0 t"
  by (simp add: page_of_def take_add)

lemma pages_cover:
  "length t \<le> n * k \<Longrightarrow> concat (map (\<lambda>i. page_of k (i * k) t) [0..<n]) = t"
proof -
  have "concat (map (\<lambda>i. page_of k (i * k) t) [0..<n]) = take (n * k) t" for n
    by (induction n) (simp_all add: page_of_def take_add[symmetric] add.commute)
  then show "length t \<le> n * k \<Longrightarrow> ?thesis" by simp
qed

section \<open>Rows and the database\<close>

text \<open>
  A row of instances has one column that domain.Instance has not: the hash of
  the enrollment token (control_token_ciphertext).  All other rows have the
  fields of their struct; the joined columns (the test name of a run, the cycle
  name of a cycle run) are filled in by the queries.
\<close>

record InstanceRow = Instance +
  inst_TokenHash :: string

record Setting =
  set_Key :: string
  set_Value :: string
  set_UpdatedAt :: time

record CaseFolder =
  fold_Path :: string
  fold_CreatedAt :: time

record db =
  db_images :: "Image list"
  db_instances :: "InstanceRow list"
  db_operations :: "Operation list"
  db_users :: "User list"
  db_sessions :: "Session list"
  db_audit :: "AuditEvent list"
  db_settings :: "Setting list"
  db_tests :: "Test list"
  db_test_runs :: "TestRun list"
  db_cases :: "TestCase list"
  db_folders :: "CaseFolder list"
  db_cycles :: "TestCycle list"
  db_cycle_runs :: "CycleRun list"
  db_builds :: "Build list"
  db_versions :: "int list"

text \<open>The database that migrate leaves when the file is new: no rows, and the versions applied.\<close>

definition empty_db :: db where
  "empty_db =
    \<lparr>db_images = [], db_instances = [], db_operations = [], db_users = [], db_sessions = [],
     db_audit = [], db_settings = [], db_tests = [], db_test_runs = [], db_cases = [],
     db_folders = [], db_cycles = [], db_cycle_runs = [], db_builds = [],
     db_versions = [1, 2, 3, 4, 5]\<rparr>"

section \<open>Helpers shared by the store\<close>

text \<open>newID: the eight random bytes are an argument.\<close>

definition newID :: "string \<Rightarrow> 8 word list \<Rightarrow> string" where
  "newID p bytes = p @ ''_'' @ hex_encode bytes"

definition nonZero :: "int \<Rightarrow> int \<Rightarrow> int" where
  "nonZero value fallback = (if value \<le> 0 then fallback else value)"

definition IsNotFound :: "go_error \<Rightarrow> bool" where
  "IsNotFound e = err_is e ErrNoRows"

text \<open>row.Scan of a query by key: sql.ErrNoRows when there is no row.\<close>

definition scan_row :: "'r option \<Rightarrow> 'r res" where
  "scan_row r = (case r of None \<Rightarrow> Inl ErrNoRows | Some x \<Rightarrow> Inr x)"

definition first_row :: "'r list \<Rightarrow> 'r option" where
  "first_row t = (case t of [] \<Rightarrow> None | r # _ \<Rightarrow> Some r)"

definition reindexSteps :: "TestStep list \<Rightarrow> TestStep list" where
  "reindexSteps steps = map (\<lambda>(i, s). s\<lparr>ts_Index := int i\<rparr>) (enumerate 0 steps)"

definition boolToInt :: "bool \<Rightarrow> int" where
  "boolToInt v = (if v then 1 else 0)"

lemma newID_inj:
  "length a = length b \<Longrightarrow> newID p a = newID p b \<Longrightarrow> a = b"
proof -
  have hd_inj: "hex_digit i = hex_digit j \<Longrightarrow> i < 16 \<Longrightarrow> j < 16 \<Longrightarrow> i = j" for i j
  proof -
    assume h: "hex_digit i = hex_digit j" and b: "i < 16" "j < 16"
    have v: "(of_char (hex_digit k) :: nat) = (if k < 10 then 48 + k else 87 + k)" if "k < 16" for k
      using that by (simp add: hex_digit_def of_char_of take_bit_eq_mod)
    from h have "(of_char (hex_digit i) :: nat) = of_char (hex_digit j)" by simp
    then show "i = j" using b by (auto simp: v split: if_splits)
  qed
  have byte: "unat (x :: 8 word) div 16 < 16" "unat x mod 16 < 16" for x
  proof -
    have "unat x < 2 ^ LENGTH(8)" by (rule unsigned_less)
    then have "unat x < 256" by simp
    then show "unat x div 16 < 16" "unat x mod 16 < 16" by simp_all
  qed
  have "hex_encode a = hex_encode b \<Longrightarrow> length a = length b \<Longrightarrow> a = b" for a b
  proof (induction a arbitrary: b)
    case (Cons x xs)
    then obtain y ys where b: "b = y # ys" by (cases b) auto
    with Cons.prems have "unat x div 16 = unat y div 16" "unat x mod 16 = unat y mod 16"
      using hd_inj byte by auto
    then have "unat x = unat y" by (metis mult_div_mod_eq)
    then have "x = y" by (simp add: word_unat_eq_iff)
    with Cons b show ?case by simp
  qed simp
  then show "length a = length b \<Longrightarrow> newID p a = newID p b \<Longrightarrow> a = b" by (simp add: newID_def)
qed

lemma reindexSteps_nth:
  "i < length steps \<Longrightarrow> reindexSteps steps ! i = (steps ! i)\<lparr>ts_Index := int i\<rparr>"
  by (simp add: reindexSteps_def nth_enumerate_eq)

lemma length_reindexSteps [simp]: "length (reindexSteps steps) = length steps"
  by (simp add: reindexSteps_def)

lemma first_row_set: "first_row t = Some r \<Longrightarrow> r \<in> set t"
  by (auto simp: first_row_def split: list.splits)

lemma first_row_None [simp]: "first_row t = None \<longleftrightarrow> t = []"
  by (auto simp: first_row_def split: list.splits)

lemma scan_row_simps [simp]:
  "scan_row None = Inl ErrNoRows" "scan_row (Some x) = Inr x"
  by (simp_all add: scan_row_def)

lemma scan_row_Inr: "scan_row r = Inr x \<longleftrightarrow> r = Some x"
  by (cases r) simp_all

lemmas keyed_laws = tbl_find_key tbl_insert_Inr tbl_find_None tbl_find_insert tbl_find_update
  tbl_find_delete unique_keys_insert unique_keys_update unique_keys_delete

lemma tbl_keyed_table:
  "keyed_table key (tbl_find key) (tbl_insert key) (tbl_update key) (tbl_delete key) (unique_keys key)"
proof (rule keyed_table.intro)
  show "is_ok (tbl_insert key r t) \<longleftrightarrow> tbl_find key (key r) t = None" for r t
    by (auto simp: tbl_insert_def tbl_find_None)
qed (fact keyed_laws)+

interpretation images: keyed_table img_ID "tbl_find img_ID" "tbl_insert img_ID"
  "tbl_update img_ID" "tbl_delete img_ID" "unique_keys img_ID"
  by (rule tbl_keyed_table)

interpretation instances: keyed_table inst_ID "tbl_find inst_ID" "tbl_insert inst_ID"
  "tbl_update inst_ID" "tbl_delete inst_ID" "unique_keys inst_ID"
  by (rule tbl_keyed_table)

interpretation runs: keyed_table run_ID "tbl_find run_ID" "tbl_insert run_ID"
  "tbl_update run_ID" "tbl_delete run_ID" "unique_keys run_ID"
  by (rule tbl_keyed_table)

interpretation cycle_runs: keyed_table crun_ID "tbl_find crun_ID" "tbl_insert crun_ID"
  "tbl_update crun_ID" "tbl_delete crun_ID" "unique_keys crun_ID"
  by (rule tbl_keyed_table)

interpretation cycles: keyed_table cyc_ID "tbl_find cyc_ID" "tbl_insert cyc_ID"
  "tbl_update cyc_ID" "tbl_delete cyc_ID" "unique_keys cyc_ID"
  by (rule tbl_keyed_table)

end
