(* ===== verification/Store_Instances.thy ===== *)
theory Store_Instances
  imports Store_Core
begin

text \<open>
  Images, devices and operations: backend/internal/store/sqlite.go, physical.go
  and desktop.go.  Every operation takes the state of the database and what the
  code reads from outside it: the environment (variables and working
  directory), the current instant now, and the random bytes of each new
  identifier.  An operation that can fail returns a result and the database; one
  whose only failure is the driver's returns the database.
\<close>

section \<open>Paths\<close>

text \<open>os.Getenv gives the empty string for a variable that is not set.\<close>

record env =
  env_Getenv :: "string \<Rightarrow> string"
  env_Cwd :: string

text \<open>
  filepath.Clean on a slash-separated path: the components that are empty or a
  dot go, and a dot-dot takes the component before it (at the root of an
  absolute path it goes too).
\<close>

fun clean_comps :: "bool \<Rightarrow> string list \<Rightarrow> string list \<Rightarrow> string list" where
  "clean_comps rooted acc [] = rev acc"
| "clean_comps rooted acc (c # cs) =
    (if c = [] \<or> c = ''.'' then clean_comps rooted acc cs
     else if c = ''..'' then
       (if acc = [] \<or> hd acc = ''..'' then
          (if rooted then clean_comps rooted acc cs else clean_comps rooted (c # acc) cs)
        else clean_comps rooted (tl acc) cs)
     else clean_comps rooted (c # acc) cs)"

definition is_abs :: "string \<Rightarrow> bool" where
  "is_abs p = has_prefix ''/'' p"

definition clean :: "string \<Rightarrow> string" where
  "clean p =
    (if is_abs p then ''/'' @ join ''/'' (clean_comps True [] (split_char (CHR ''/'') (tl p)))
     else (case clean_comps False [] (split_char (CHR ''/'') p) of
             [] \<Rightarrow> ''.'' | cs \<Rightarrow> join ''/'' cs))"

definition abs_path :: "env \<Rightarrow> string \<Rightarrow> string" where
  "abs_path e p = (if is_abs p then clean p else clean (env_Cwd e @ ''/'' @ p))"

text \<open>filepath.Join: the non-empty elements, joined and cleaned.\<close>

definition path_join :: "string list \<Rightarrow> string" where
  "path_join ps = (case filter (\<lambda>p. p \<noteq> []) ps of [] \<Rightarrow> [] | qs \<Rightarrow> clean (join ''/'' qs))"

definition imageRoot :: "env \<Rightarrow> string" where
  "imageRoot e =
    (let root = trim_space (env_Getenv e ''OPENCUTTLES_IMAGE_ROOT'')
     in if root = [] then ''/var/lib/opencuttles/images'' else root)"

text \<open>The part of the file system that the check of an existing image looks at.\<close>

record file_system =
  fs_eval_symlinks :: "string \<Rightarrow> string res"
  fs_is_dir :: "string \<Rightarrow> bool"

definition under_root :: "string \<Rightarrow> string \<Rightarrow> bool" where
  "under_root root p = (p = root \<or> has_prefix (root @ ''/'') p)"

definition ValidateImagePath :: "env \<Rightarrow> file_system \<Rightarrow> string \<Rightarrow> bool \<Rightarrow> unit res" where
  "ValidateImagePath e fs path requireExisting =
    (if trim_space path = [] then Inl (Err ''image path is required'')
     else
       let cleanRoot = abs_path e (clean (imageRoot e)); cleanPath = abs_path e (clean path)
       in if \<not> under_root cleanRoot cleanPath
          then Inl (Err (''image path must be under '' @ cleanRoot))
          else if contains ''/../'' cleanPath then Inl (Err ''invalid image path'')
          else if \<not> requireExisting then Inr ()
          else (case fs_eval_symlinks fs cleanPath of
                  Inl err \<Rightarrow> Inl (ErrWrap ''image path is not readable: '' err)
                | Inr resolved \<Rightarrow>
                    (let r = abs_path e (clean resolved)
                     in if \<not> under_root cleanRoot r
                        then Inl (Err (''resolved image path must remain under '' @ cleanRoot))
                        else if \<not> fs_is_dir fs r
                        then Inl (Err (''image path is not a readable directory: '' @ r))
                        else Inr ())))"

text \<open>The store itself only ever checks the shape of a path, for which no file system is needed.\<close>

definition no_fs :: file_system where
  "no_fs = \<lparr>fs_eval_symlinks = (\<lambda>_. Inl ErrNoRows), fs_is_dir = (\<lambda>_. False)\<rparr>"

text \<open>The columns created_at as the queries sort by them.\<close>

definition img_created_text :: "Image \<Rightarrow> string" where
  "img_created_text r = formatTime (img_CreatedAt r)"

definition inst_created_text :: "InstanceRow \<Rightarrow> string" where
  "inst_created_text r = formatTime (inst_CreatedAt r)"

definition op_created_text :: "Operation \<Rightarrow> string" where
  "op_created_text r = formatTime (op_CreatedAt r)"

section \<open>Images\<close>

definition insertImage :: "Image \<Rightarrow> db \<Rightarrow> db res" where
  "insertImage img d =
    (case tbl_insert img_ID img (db_images d) of
       Inl err \<Rightarrow> Inl err
     | Inr t \<Rightarrow> Inr (d\<lparr>db_images := t\<rparr>))"

definition CreateImage ::
  "env \<Rightarrow> time \<Rightarrow> 8 word list \<Rightarrow> CreateImageRequest \<Rightarrow> db \<Rightarrow> Image res \<times> db" where
  "CreateImage e now rnd req d =
    (case ValidateImagePath e no_fs (cimg_Path req) False of
       Inl err \<Rightarrow> (Inl err, d)
     | Inr _ \<Rightarrow>
         (let img = zero_Image\<lparr>img_ID := newID ''img'' rnd, img_Name := cimg_Name req,
                img_Path := cimg_Path req, img_AndroidAPI := cimg_AndroidAPI req,
                img_Description := cimg_Description req, img_Status := ImageStatusReady,
                img_CreatedAt := now\<rparr>
          in case insertImage img d of Inl err \<Rightarrow> (Inl err, d) | Inr d' \<Rightarrow> (Inr img, d')))"

definition GetOrCreateVersionImage ::
  "env \<Rightarrow> time \<Rightarrow> 8 word list \<Rightarrow> string \<Rightarrow> string \<Rightarrow> string \<Rightarrow> db \<Rightarrow> Image res \<times> db" where
  "GetOrCreateVersionImage e now rnd versionID label buildTarget d =
    (let path = path_join [imageRoot e, versionID] in
     case ValidateImagePath e no_fs path False of
       Inl err \<Rightarrow> (Inl err, d)
     | Inr _ \<Rightarrow>
         (case first_row (order_asc img_created_text
                 (filter (\<lambda>i. img_VersionID i = versionID) (db_images d))) of
            Some img \<Rightarrow>
              (if img_BuildTarget img \<noteq> buildTarget then
                 (let heal = (\<lambda>i. i\<lparr>img_BuildTarget := buildTarget, img_Name := label,
                                  img_Status := ImageStatusPending, img_LastError := []\<rparr>)
                  in (Inr (heal img),
                      d\<lparr>db_images := tbl_update img_ID (img_ID img) heal (db_images d)\<rparr>))
               else (Inr img, d))
          | None \<Rightarrow>
              (let img = zero_Image\<lparr>img_ID := newID ''img'' rnd, img_Name := label,
                     img_Path := path, img_BuildTarget := buildTarget, img_VersionID := versionID,
                     img_Status := ImageStatusPending,
                     img_Description := ''Auto-fetched with cvd fetch by OpenCuttles.'',
                     img_CreatedAt := now\<rparr>
               in case insertImage img d of
                    Inl err \<Rightarrow> (Inl err, d)
                  | Inr d' \<Rightarrow> (Inr img, d'))))"

definition UpdateImageStatus :: "string \<Rightarrow> string \<Rightarrow> int \<Rightarrow> string \<Rightarrow> db \<Rightarrow> db" where
  "UpdateImageStatus iid status sizeBytes lastError d =
    d\<lparr>db_images := tbl_update img_ID iid
        (\<lambda>i. i\<lparr>img_Status := status, img_SizeBytes := sizeBytes, img_LastError := lastError\<rparr>)
        (db_images d)\<rparr>"

definition ListImages :: "db \<Rightarrow> Image list" where
  "ListImages d = order_desc img_created_text (db_images d)"

definition GetImage :: "string \<Rightarrow> db \<Rightarrow> Image res" where
  "GetImage iid d = scan_row (tbl_find img_ID iid (db_images d))"

definition CountInstancesUsingImage :: "string \<Rightarrow> db \<Rightarrow> nat" where
  "CountInstancesUsingImage iid d = length (filter (\<lambda>i. inst_ImageID i = iid) (db_instances d))"

definition DeleteImage :: "string \<Rightarrow> db \<Rightarrow> string res \<times> db" where
  "DeleteImage iid d =
    (case GetImage iid d of
       Inl err \<Rightarrow> (Inl err, d)
     | Inr img \<Rightarrow>
         (let inUse = CountInstancesUsingImage iid d
          in if 0 < inUse
             then (Inl (ErrNote ErrImageInUse ('': '' @ nat_text inUse @ '' instance(s)'')), d)
             else (Inr (img_Path img), d\<lparr>db_images := tbl_delete img_ID iid (db_images d)\<rparr>)))"

definition GetOrCreateDefaultImage :: "env \<Rightarrow> time \<Rightarrow> 8 word list \<Rightarrow> db \<Rightarrow> Image res \<times> db" where
  "GetOrCreateDefaultImage e now rnd d =
    (let configured = trim_space (env_Getenv e ''OPENCUTTLES_DEFAULT_IMAGE_PATH'');
         defaultPath = (if configured = [] then path_join [imageRoot e, ''default''] else configured)
     in case ValidateImagePath e no_fs defaultPath False of
          Inl err \<Rightarrow> (Inl err, d)
        | Inr _ \<Rightarrow>
            (case first_row (order_asc img_created_text
                    (filter (\<lambda>i. img_Path i = defaultPath) (db_images d))) of
               Some img \<Rightarrow> (Inr img, d)
             | None \<Rightarrow> CreateImage e now rnd
                 \<lparr>cimg_Name = ''Default Cuttlefish image'', cimg_Path = defaultPath,
                  cimg_AndroidAPI = [],
                  cimg_Description = ''Automatically registered by OpenCuttles for one-click instance creation.''\<rparr>
                 d))"

section \<open>Devices\<close>

definition basePort :: int where
  "basePort = 6520"

definition webrtcOperatorPort :: int where
  "webrtcOperatorPort = 1443"

text \<open>SELECT MAX over a column: NULL when there is no row.\<close>

fun max_column :: "int list \<Rightarrow> int option" where
  "max_column [] = None"
| "max_column (x # xs) = (case max_column xs of None \<Rightarrow> Some x | Some y \<Rightarrow> Some (max x y))"

definition nextPortsTx :: "db \<Rightarrow> int \<times> int" where
  "nextPortsTx d =
    (case max_column (map inst_ADBPort (db_instances d)) of
       None \<Rightarrow> basePort
     | Some maxADB \<Rightarrow> maxADB + 1, webrtcOperatorPort)"

definition ConsoleClientURL :: "string \<Rightarrow> string \<Rightarrow> string" where
  "ConsoleClientURL instanceID deviceID =
    ''/api/v1/instances/'' @ instanceID @ ''/console/devices/'' @ deviceID @ ''/files/client.html''"

text \<open>
  INSERT INTO instances: the primary key and the foreign key on images.  The
  columns that a statement does not name get the defaults of the schema.
\<close>

definition insert_instance :: "InstanceRow \<Rightarrow> db \<Rightarrow> db res" where
  "insert_instance row d =
    (case tbl_insert inst_ID row (db_instances d) of
       Inl err \<Rightarrow> Inl err
     | Inr t \<Rightarrow>
         (if tbl_find img_ID (inst_ImageID row) (db_images d) = None
          then Inl (ErrConstraint ''FOREIGN KEY'')
          else Inr (d\<lparr>db_instances := t\<rparr>)))"

definition instance_row :: "Instance \<Rightarrow> string \<Rightarrow> InstanceRow" where
  "instance_row i tokenHash = Instance.extend i \<lparr>inst_TokenHash = tokenHash\<rparr>"

definition scanInstance :: "InstanceRow \<Rightarrow> Instance" where
  "scanInstance row =
    (let i = Instance.truncate row
     in if inst_Platform i = [] then i\<lparr>inst_Platform := PlatformAndroid\<rparr> else i)"

lemma scanInstance_fields [simp]:
  "inst_ID (scanInstance r) = inst_ID r" "inst_State (scanInstance r) = inst_State r"
  "inst_LastError (scanInstance r) = inst_LastError r" "inst_ADBTarget (scanInstance r) = inst_ADBTarget r"
  "inst_ImageID (scanInstance r) = inst_ImageID r"
  by (simp_all add: scanInstance_def Let_def Instance.defs)

definition new_cuttlefish ::
  "time \<Rightarrow> string \<Rightarrow> string \<Rightarrow> CreateInstanceRequest \<Rightarrow> int \<times> int \<Rightarrow> Instance" where
  "new_cuttlefish now instanceID imageID req ports =
    (let instanceNumber = fst ports - basePort + 1;
         deviceID = ''cvd_'' @ itoa instanceNumber @ ''-'' @ itoa instanceNumber @ ''-1''
     in zero_Instance\<lparr>inst_ID := instanceID, inst_Name := creq_Name req, inst_HostID := ''local'',
          inst_Platform := PlatformAndroid, inst_ImageID := imageID,
          inst_AndroidVersion := creq_AndroidVersion req, inst_State := StateStopped,
          inst_CPUCores := nonZero (creq_CPUCores req) 2,
          inst_MemoryMB := nonZero (creq_MemoryMB req) 4096,
          inst_DisplayWidth := nonZero (creq_DisplayWidth req) 720,
          inst_DisplayHeight := nonZero (creq_DisplayHeight req) 1280,
          inst_DPI := nonZero (creq_DPI req) 320,
          inst_ADBPort := fst ports, inst_WebRTCPort := snd ports, inst_DeviceID := deviceID,
          inst_ConsoleProvider := ConsoleProviderCuttlefishWebRTC,
          inst_ConsoleURL := ConsoleClientURL instanceID deviceID,
          inst_CreatedAt := now, inst_UpdatedAt := now\<rparr>)"

definition CreateInstance ::
  "env \<Rightarrow> time \<Rightarrow> 8 word list \<Rightarrow> 8 word list \<Rightarrow> CreateInstanceRequest \<Rightarrow> db \<Rightarrow> Instance res \<times> db" where
  "CreateInstance e now rnd_img rnd req d =
    (let requested = trim_space (creq_ImageID req);
         (r, d1) = (if requested = [] then
                      (case GetOrCreateDefaultImage e now rnd_img d of
                         (Inl err, d1) \<Rightarrow> (Inl (ErrWrap ''default image: '' err), d1)
                       | (Inr img, d1) \<Rightarrow> (Inr (img_ID img), d1))
                    else
                      (case GetImage requested d of
                         Inl err \<Rightarrow> (Inl (ErrWrap ''image lookup: '' err), d)
                       | Inr _ \<Rightarrow> (Inr requested, d)))
     in case r of
          Inl err \<Rightarrow> (Inl err, d1)
        | Inr imageID \<Rightarrow>
            (let i = new_cuttlefish now (newID ''cvd'' rnd) imageID req (nextPortsTx d1)
             in case insert_instance (instance_row i []) d1 of
                  Inl err \<Rightarrow> (Inl err, d1)
                | Inr d2 \<Rightarrow> (Inr i, d2)))"

definition ListInstances :: "db \<Rightarrow> Instance list" where
  "ListInstances d =
    map scanInstance (order_desc inst_created_text (db_instances d))"

definition GetInstance :: "string \<Rightarrow> db \<Rightarrow> Instance res" where
  "GetInstance iid d = scan_row (map_option scanInstance (tbl_find inst_ID iid (db_instances d)))"

definition update_instance :: "string \<Rightarrow> (InstanceRow \<Rightarrow> InstanceRow) \<Rightarrow> db \<Rightarrow> db" where
  "update_instance iid f d = d\<lparr>db_instances := tbl_update inst_ID iid f (db_instances d)\<rparr>"

definition UpdateInstanceConsole ::
  "time \<Rightarrow> string \<Rightarrow> string \<Rightarrow> string \<Rightarrow> db \<Rightarrow> Instance res \<times> db" where
  "UpdateInstanceConsole now iid deviceID consoleURL d =
    (let d' = update_instance iid (\<lambda>i. i\<lparr>inst_DeviceID := deviceID, inst_ConsoleURL := consoleURL,
                inst_UpdatedAt := now\<rparr>) d
     in (GetInstance iid d', d'))"

definition UpdateInstanceState ::
  "time \<Rightarrow> string \<Rightarrow> string \<Rightarrow> string \<Rightarrow> db \<Rightarrow> Instance res \<times> db" where
  "UpdateInstanceState now iid state lastError d =
    (let d' = update_instance iid (\<lambda>i. i\<lparr>inst_State := state, inst_LastError := lastError,
                inst_UpdatedAt := now\<rparr>) d
     in (GetInstance iid d', d'))"

definition DeleteInstance :: "string \<Rightarrow> db \<Rightarrow> unit res \<times> db" where
  "DeleteInstance iid d =
    (if tbl_find inst_ID iid (db_instances d) = None then (Inl ErrNoRows, d)
     else (Inr (), d\<lparr>db_instances := tbl_delete inst_ID iid (db_instances d)\<rparr>))"

section \<open>Operations\<close>

definition CreateOperation ::
  "time \<Rightarrow> 8 word list \<Rightarrow> string \<Rightarrow> string \<Rightarrow> string \<Rightarrow> db \<Rightarrow> Operation res \<times> db" where
  "CreateOperation now rnd instanceID action message d =
    (let o1 = \<lparr>op_ID = newID ''op'' rnd, op_InstanceID = instanceID, op_Action = action,
                op_Status = ''running'', op_Message = message, op_CreatedAt = now,
                op_FinishedAt = None\<rparr>
     in case tbl_insert op_ID o1 (db_operations d) of
          Inl err \<Rightarrow> (Inl err, d)
        | Inr t \<Rightarrow> (Inr o1, d\<lparr>db_operations := t\<rparr>))"

definition GetOperation :: "string \<Rightarrow> db \<Rightarrow> Operation res" where
  "GetOperation oid d = scan_row (tbl_find op_ID oid (db_operations d))"

definition FinishOperation ::
  "time \<Rightarrow> string \<Rightarrow> string \<Rightarrow> string \<Rightarrow> db \<Rightarrow> Operation res \<times> db" where
  "FinishOperation now oid status message d =
    (let d' = d\<lparr>db_operations := tbl_update op_ID oid
                (\<lambda>r. r\<lparr>op_Status := status, op_Message := message, op_FinishedAt := Some now\<rparr>)
                (db_operations d)\<rparr>
     in (GetOperation oid d', d'))"

definition ListOperations :: "db \<Rightarrow> Operation list" where
  "ListOperations d = page_of 100 0 (order_desc op_created_text (db_operations d))"

section \<open>Physical handsets\<close>

text \<open>The regular expression adbTargetPattern.\<close>

definition adb_target_char :: "char \<Rightarrow> bool" where
  "adb_target_char c = (is_alnum c \<or> c \<in> set ''._:-'')"

definition matches_adbTargetPattern :: "string \<Rightarrow> bool" where
  "matches_adbTargetPattern t =
    (case t of [] \<Rightarrow> False
     | c # r \<Rightarrow> is_alnum c \<and> length r \<le> 127 \<and> list_all adb_target_char r)"

definition ValidateADBTarget :: "string \<Rightarrow> unit res" where
  "ValidateADBTarget target =
    (let t = trim_space target
     in if t = [] then Inl (Err ''an ADB target is required (a USB serial, or host:port)'')
        else if \<not> matches_adbTargetPattern t
        then Inl (Err (go_quote t @ '' is not a valid ADB target: use a USB serial or host:port '' @
               ''(letters, digits, dot, dash, underscore, colon; must not start with '' @
               [CHR 0x27] @ ''-'' @ [CHR 0x27] @ '')''))
        else Inr ())"

definition CreatePhysicalAndroid ::
  "env \<Rightarrow> time \<Rightarrow> 8 word list \<Rightarrow> 8 word list \<Rightarrow> string \<Rightarrow> string \<Rightarrow> db \<Rightarrow> Instance res \<times> db" where
  "CreatePhysicalAndroid e now rnd_img rnd name adbTarget d =
    (if trim_space name = [] then (Inl (Err ''a device name is required''), d)
     else case ValidateADBTarget adbTarget of
       Inl err \<Rightarrow> (Inl err, d)
     | Inr _ \<Rightarrow>
         (let target = trim_space adbTarget in
          case find (\<lambda>r. inst_ADBTarget r = target \<and> inst_Src r = SourcePhysical) (db_instances d) of
            Some existing \<Rightarrow>
              (Inl (Err (''ADB target '' @ go_quote target @ '' is already registered as '' @
                         go_quote (inst_Name existing))), d)
          | None \<Rightarrow>
              (case GetOrCreateDefaultImage e now rnd_img d of
                 (Inl err, d1) \<Rightarrow> (Inl err, d1)
               | (Inr img, d1) \<Rightarrow>
                   (let i = zero_Instance\<lparr>inst_ID := newID ''phy'' rnd, inst_Name := name,
                          inst_HostID := ''local'', inst_Platform := PlatformAndroid,
                          inst_Src := SourcePhysical, inst_ADBTarget := target,
                          inst_ImageID := img_ID img, inst_State := StateOffline,
                          inst_ConsoleProvider := ConsoleProviderScreenshot,
                          inst_CreatedAt := now, inst_UpdatedAt := now\<rparr>
                    in case insert_instance (instance_row i []) d1 of
                         Inl err \<Rightarrow> (Inl err, d1)
                       | Inr d2 \<Rightarrow> (Inr i, d2)))))"

definition ListPhysicalAndroid :: "db \<Rightarrow> Instance list" where
  "ListPhysicalAndroid d =
    map scanInstance (order_asc inst_Name
      (filter (\<lambda>r. inst_Src r = SourcePhysical) (db_instances d)))"

definition UpdateInstanceDisplay :: "time \<Rightarrow> string \<Rightarrow> int \<Rightarrow> int \<Rightarrow> int \<Rightarrow> db \<Rightarrow> db" where
  "UpdateInstanceDisplay now iid width height dpi d =
    update_instance iid (\<lambda>i. i\<lparr>inst_DisplayWidth := width, inst_DisplayHeight := height,
        inst_DPI := dpi, inst_UpdatedAt := now\<rparr>) d"

section \<open>Desktops\<close>

definition CreateDesktopInstance ::
  "env \<Rightarrow> time \<Rightarrow> 8 word list \<Rightarrow> 8 word list \<Rightarrow> string \<Rightarrow> string \<Rightarrow> string \<Rightarrow> db
     \<Rightarrow> Instance res \<times> db" where
  "CreateDesktopInstance e now rnd_img rnd name platform tokenHash d =
    (case GetOrCreateDefaultImage e now rnd_img d of
       (Inl err, d1) \<Rightarrow> (Inl err, d1)
     | (Inr img, d1) \<Rightarrow>
         (let i = zero_Instance\<lparr>inst_ID := newID ''dev'' rnd, inst_Name := name,
                inst_HostID := ''local'', inst_Platform := platform, inst_Src := SourceRunner,
                inst_ControlEndpoint := ''tunnel'', inst_ImageID := img_ID img,
                inst_State := StateOffline, inst_ConsoleProvider := ConsoleProviderScreenshot,
                inst_CreatedAt := now, inst_UpdatedAt := now\<rparr>
          in case insert_instance (instance_row i tokenHash) d1 of
               Inl err \<Rightarrow> (Inl err, d1)
             | Inr d2 \<Rightarrow> (Inr i, d2)))"

definition SetDesktopTokenHash :: "time \<Rightarrow> string \<Rightarrow> string \<Rightarrow> db \<Rightarrow> bool \<times> db" where
  "SetDesktopTokenHash now iid tokenHash d =
    (let p = (\<lambda>r. inst_ID r = iid \<and> inst_Src r = SourceRunner)
     in (list_ex p (db_instances d),
         d\<lparr>db_instances := map (\<lambda>r. if p r then r\<lparr>inst_TokenHash := tokenHash, inst_UpdatedAt := now\<rparr>
                                  else r) (db_instances d)\<rparr>))"

definition FindDesktopByTokenHash :: "string \<Rightarrow> db \<Rightarrow> Instance res" where
  "FindDesktopByTokenHash tokenHash d =
    (if tokenHash = [] then Inl ErrNoRows
     else scan_row (map_option scanInstance
            (find (\<lambda>r. inst_TokenHash r = tokenHash \<and> inst_Src r = SourceRunner) (db_instances d))))"

section \<open>The one-time classification of old rows\<close>

definition backfillInstanceSource :: "db \<Rightarrow> db" where
  "backfillInstanceSource d =
    (if 5 \<in> set (db_versions d) then d
     else
       let step1 = map (\<lambda>r. if inst_Src r = [] \<and> inst_Platform r \<notin> {[], PlatformAndroid}
                            then r\<lparr>inst_Src := SourceRunner\<rparr> else r) (db_instances d);
           step2 = map (\<lambda>r. if inst_Src r = [] then r\<lparr>inst_Src := SourceCuttlefish\<rparr> else r) step1
       in d\<lparr>db_instances := step2\<rparr>)"

section \<open>The invariant of the fleet tables\<close>

text \<open>
  Identifiers are unique, every device refers to an image that exists, no two
  handsets share an ADB target, a registered target has the validated shape, and
  no two devices share an allocated ADB port (0 stands for none).
\<close>

definition vm_ports :: "InstanceRow list \<Rightarrow> int list" where
  "vm_ports rows = filter (\<lambda>p. p \<noteq> 0) (map inst_ADBPort rows)"

definition physical_targets :: "InstanceRow list \<Rightarrow> string list" where
  "physical_targets rows = map inst_ADBTarget (filter (\<lambda>r. inst_Src r = SourcePhysical) rows)"

definition fleet_inv :: "db \<Rightarrow> bool" where
  "fleet_inv d =
    (unique_keys img_ID (db_images d) \<and> unique_keys inst_ID (db_instances d)
     \<and> unique_keys op_ID (db_operations d)
     \<and> list_all (\<lambda>r. tbl_find img_ID (inst_ImageID r) (db_images d) \<noteq> None) (db_instances d)
     \<and> distinct (physical_targets (db_instances d))
     \<and> list_all matches_adbTargetPattern (physical_targets (db_instances d))
     \<and> distinct (vm_ports (db_instances d))
     \<and> list_all (\<lambda>r. 0 \<le> inst_ADBPort r) (db_instances d))"

text \<open>What a statement on instances may not change for the invariant to stay.\<close>

definition same_identity :: "InstanceRow \<Rightarrow> InstanceRow \<Rightarrow> bool" where
  "same_identity r s =
    (inst_ID r = inst_ID s \<and> inst_ImageID r = inst_ImageID s
     \<and> inst_Src r = inst_Src s \<and> inst_ADBTarget r = inst_ADBTarget s
     \<and> inst_ADBPort r = inst_ADBPort s)"

lemma physical_targets_map:
  "(\<And>r. same_identity (g r) r) \<Longrightarrow> physical_targets (map g rows) = physical_targets rows"
  by (induction rows) (simp_all add: physical_targets_def same_identity_def)

lemma vm_ports_map: "(\<And>r. same_identity (g r) r) \<Longrightarrow> vm_ports (map g rows) = vm_ports rows"
  by (induction rows) (simp_all add: vm_ports_def same_identity_def)

lemma fleet_inv_map:
  assumes "fleet_inv d" "\<And>r. same_identity (g r) r"
  shows "fleet_inv (d\<lparr>db_instances := map g (db_instances d)\<rparr>)"
  using assms physical_targets_map[of g, OF assms(2)] vm_ports_map[of g, OF assms(2)]
  by (auto simp: fleet_inv_def same_identity_def list_all_iff unique_keys_map)

lemma fleet_inv_update_instance:
  assumes "fleet_inv d" "\<And>r. same_identity (f r) r"
  shows "fleet_inv (update_instance iid f d)"
  unfolding update_instance_def tbl_update_def
  using assms(2) by (intro fleet_inv_map[OF assms(1)]) (auto simp: same_identity_def)

lemma fleet_inv_images:
  assumes "fleet_inv d" "unique_keys img_ID t"
    and "\<And>k. tbl_find img_ID k (db_images d) \<noteq> None \<Longrightarrow> tbl_find img_ID k t \<noteq> None"
  shows "fleet_inv (d\<lparr>db_images := t\<rparr>)"
  using assms by (auto simp: fleet_inv_def list_all_iff)

lemma fleet_inv_insertImage:
  assumes "fleet_inv d" "insertImage img d = Inr d'"
  shows "fleet_inv d'"
proof -
  from assms(2) obtain t where t: "tbl_insert img_ID img (db_images d) = Inr t"
    and d': "d' = d\<lparr>db_images := t\<rparr>"
    by (auto simp: insertImage_def split: sum.splits)
  have "unique_keys img_ID t" using assms(1) t by (auto simp: fleet_inv_def intro: unique_keys_insert)
  then show ?thesis unfolding d' using assms(1)
    by (intro fleet_inv_images) (auto simp: tbl_find_insert[OF t])
qed

lemma fleet_inv_CreateImage: "fleet_inv d \<Longrightarrow> fleet_inv (snd (CreateImage e now rnd req d))"
  by (auto simp: CreateImage_def Let_def intro: fleet_inv_insertImage split: sum.splits)

lemma fleet_inv_update_image:
  assumes "fleet_inv d" "\<And>r. img_ID (f r) = img_ID r"
  shows "fleet_inv (d\<lparr>db_images := tbl_update img_ID k f (db_images d)\<rparr>)"
proof (rule fleet_inv_images[OF assms(1)])
  show "unique_keys img_ID (tbl_update img_ID k f (db_images d))"
    using assms by (simp add: fleet_inv_def unique_keys_update)
qed (auto simp: tbl_find_update assms(2))

lemma fleet_inv_GetOrCreateVersionImage:
  "fleet_inv d \<Longrightarrow> fleet_inv (snd (GetOrCreateVersionImage e now rnd v l b d))"
  unfolding GetOrCreateVersionImage_def Let_def
  by (auto intro: fleet_inv_insertImage fleet_inv_update_image split: sum.splits option.splits)

lemma fleet_inv_GetOrCreateDefaultImage:
  "fleet_inv d \<Longrightarrow> fleet_inv (snd (GetOrCreateDefaultImage e now rnd d))"
  unfolding GetOrCreateDefaultImage_def Let_def
  by (auto intro: fleet_inv_CreateImage split: sum.splits option.splits)

lemma fleet_inv_DeleteImage: "fleet_inv d \<Longrightarrow> fleet_inv (snd (DeleteImage k d))"
  by (auto simp: DeleteImage_def CountInstancesUsingImage_def Let_def fleet_inv_def list_all_iff
      unique_keys_delete tbl_find_delete filter_empty_conv split: sum.splits)

text \<open>A row goes into instances only beside its image, and a handset only under a target of its own.\<close>

lemma fleet_inv_insert_instance:
  assumes "fleet_inv d" "insert_instance row d = Inr d'"
    and "inst_Src row = SourcePhysical \<Longrightarrow>
          inst_ADBTarget row \<notin> set (physical_targets (db_instances d))
          \<and> matches_adbTargetPattern (inst_ADBTarget row)"
    and "inst_ADBPort row = 0 \<or> 0 < inst_ADBPort row \<and> inst_ADBPort row \<notin> set (vm_ports (db_instances d))"
  shows "fleet_inv d'"
proof -
  from assms(2) obtain t where t: "tbl_insert inst_ID row (db_instances d) = Inr t"
    and i: "tbl_find img_ID (inst_ImageID row) (db_images d) \<noteq> None"
    and d': "d' = d\<lparr>db_instances := t\<rparr>"
    by (auto simp: insert_instance_def split: sum.splits if_splits)
  from t have ta: "t = db_instances d @ [row]" by (simp add: tbl_insert_Inr)
  have "physical_targets t = physical_targets (db_instances d)
      @ (if inst_Src row = SourcePhysical then [inst_ADBTarget row] else [])"
    by (simp add: ta physical_targets_def)
  moreover have "unique_keys inst_ID t"
    using assms(1) t by (auto simp: fleet_inv_def intro: unique_keys_insert)
  moreover have "vm_ports t = vm_ports (db_instances d)
      @ (if inst_ADBPort row = 0 then [] else [inst_ADBPort row])"
    by (simp add: ta vm_ports_def)
  ultimately show ?thesis using assms(1,3,4) i unfolding d' by (auto simp: fleet_inv_def ta)
qed

lemma GetOrCreateDefaultImage_instances:
  "db_instances (snd (GetOrCreateDefaultImage e now rnd d)) = db_instances d"
  by (auto simp: GetOrCreateDefaultImage_def CreateImage_def insertImage_def Let_def
      split: sum.splits option.splits)

lemma physical_targets_delete:
  "physical_targets (tbl_delete inst_ID iid rows)
    = map inst_ADBTarget (filter (\<lambda>r. inst_ID r \<noteq> iid) (filter (\<lambda>r. inst_Src r = SourcePhysical) rows))"
  by (simp add: physical_targets_def tbl_delete_def conj_commute)

lemma distinct_targets_delete:
  assumes "distinct (physical_targets rows)"
  shows "distinct (physical_targets (tbl_delete inst_ID iid rows))"
  using assms unfolding physical_targets_delete unfolding physical_targets_def
  by (rule distinct_map_filter)

lemma set_targets_delete:
  "set (physical_targets (tbl_delete inst_ID iid rows)) \<subseteq> set (physical_targets rows)"
  unfolding physical_targets_delete by (auto simp: physical_targets_def)

lemma vm_ports_delete:
  assumes "distinct (vm_ports rows)"
  shows "distinct (vm_ports (tbl_delete inst_ID iid rows))"
proof -
  have e: "vm_ports rs = map inst_ADBPort (filter (\<lambda>r. inst_ADBPort r \<noteq> 0) rs)" for rs
    by (simp add: vm_ports_def filter_map comp_def)
  have "vm_ports (tbl_delete inst_ID iid rows)
      = map inst_ADBPort (filter (\<lambda>r. inst_ID r \<noteq> iid) (filter (\<lambda>r. inst_ADBPort r \<noteq> 0) rows))"
    by (simp add: e tbl_delete_def conj_commute)
  with assms show ?thesis unfolding e by (simp only:) (rule distinct_map_filter)
qed

lemma fleet_inv_DeleteInstance:
  assumes "fleet_inv d"
  shows "fleet_inv (snd (DeleteInstance iid d))"
  using assms set_targets_delete[of iid "db_instances d"]
  unfolding DeleteInstance_def fleet_inv_def list_all_iff
  by (auto simp: unique_keys_delete distinct_targets_delete vm_ports_delete)

lemma fleet_inv_operations:
  "fleet_inv d \<Longrightarrow> unique_keys op_ID t \<Longrightarrow> fleet_inv (d\<lparr>db_operations := t\<rparr>)"
  by (simp add: fleet_inv_def)

lemma fleet_inv_CreateOperation:
  "fleet_inv d \<Longrightarrow> fleet_inv (snd (CreateOperation now rnd i a m d))"
  by (auto simp: CreateOperation_def Let_def fleet_inv_def unique_keys_insert
      intro!: fleet_inv_operations split: sum.splits)

lemma fleet_inv_FinishOperation:
  "fleet_inv d \<Longrightarrow> fleet_inv (snd (FinishOperation now k st m d))"
  by (auto simp: FinishOperation_def Let_def fleet_inv_def unique_keys_update)

text \<open>Inserting a device leaves it, and nothing else, at the end of the table.\<close>

lemma insert_instance_rows:
  "insert_instance row d = Inr d' \<Longrightarrow>
    db_instances d' = db_instances d @ [row] \<and> db_images d' = db_images d
    \<and> inst_ID row \<notin> inst_ID ` set (db_instances d)"
  by (auto simp: insert_instance_def tbl_insert_def split: sum.splits if_splits)

lemma instance_row_fields [simp]:
  "inst_ID (instance_row i t) = inst_ID i" "inst_ImageID (instance_row i t) = inst_ImageID i"
  "inst_Src (instance_row i t) = inst_Src i" "inst_ADBTarget (instance_row i t) = inst_ADBTarget i"
  "inst_ADBPort (instance_row i t) = inst_ADBPort i" "inst_State (instance_row i t) = inst_State i"
  "inst_TokenHash (instance_row i t) = t" "inst_Platform (instance_row i t) = inst_Platform i"
  by (simp_all add: instance_row_def Instance.defs)

lemma truncate_instance_row [simp]: "Instance.truncate (instance_row i t) = i"
  by (simp add: instance_row_def Instance.defs)

lemma new_cuttlefish_fields [simp]:
  "inst_ID (new_cuttlefish now iid img req ports) = iid"
  "inst_Src (new_cuttlefish now iid img req ports) = []"
  "inst_ImageID (new_cuttlefish now iid img req ports) = img"
  "inst_ADBPort (new_cuttlefish now iid img req ports) = fst ports"
  "inst_State (new_cuttlefish now iid img req ports) = StateStopped"
  "inst_Platform (new_cuttlefish now iid img req ports) = PlatformAndroid"
  by (simp_all add: new_cuttlefish_def zero_Instance_def Let_def)

lemma fleet_inv_add_row:
  assumes "fleet_inv d"
    and "inst_Src row = SourcePhysical \<Longrightarrow>
          inst_ADBTarget row \<notin> set (physical_targets (db_instances d))
          \<and> matches_adbTargetPattern (inst_ADBTarget row)"
    and "inst_ADBPort row = 0 \<or> 0 < inst_ADBPort row \<and> inst_ADBPort row \<notin> set (vm_ports (db_instances d))"
  shows "fleet_inv (snd (case insert_instance row d of
           Inl err \<Rightarrow> (Inl err, d) | Inr d2 \<Rightarrow> (Inr (i :: Instance), d2)))"
  using assms fleet_inv_insert_instance[of d row] by (auto split: sum.splits)

lemma max_column_None [simp]: "max_column xs = None \<longleftrightarrow> xs = []"
  by (cases xs) (auto split: option.splits)

lemma max_column_ge: "max_column xs = Some m \<Longrightarrow> x \<in> set xs \<Longrightarrow> x \<le> m"
proof (induction xs arbitrary: m)
  case (Cons y ys)
  then show ?case by (cases "max_column ys") auto
qed simp

lemma max_column_in: "max_column xs = Some m \<Longrightarrow> m \<in> set xs"
proof (induction xs arbitrary: m)
  case (Cons y ys)
  then show ?case by (cases "max_column ys") (auto simp: max_def split: if_splits)
qed simp

text \<open>The allocated port is above every port in the table.\<close>

lemma nextPortsTx_above: "r \<in> set (db_instances d) \<Longrightarrow> inst_ADBPort r < fst (nextPortsTx d)"
  by (auto simp: nextPortsTx_def dest: max_column_ge[of _ _ "inst_ADBPort r"] split: option.splits)

lemma nextPortsTx_pos:
  "list_all (\<lambda>r. 0 \<le> inst_ADBPort r) (db_instances d) \<Longrightarrow> 0 < fst (nextPortsTx d)"
  by (auto simp: nextPortsTx_def basePort_def list_all_iff dest!: max_column_in split: option.splits)

lemma nextPortsTx_fresh:
  assumes "fleet_inv d"
  shows "0 < fst (nextPortsTx d) \<and> fst (nextPortsTx d) \<notin> set (vm_ports (db_instances d))"
  using nextPortsTx_above[of _ d] nextPortsTx_pos[of d] assms
  by (force simp: fleet_inv_def vm_ports_def)

lemma fleet_inv_CreateInstance:
  assumes "fleet_inv d"
  shows "fleet_inv (snd (CreateInstance e now ri rnd req d))"
proof -
  have add: "fleet_inv d1 \<Longrightarrow> fleet_inv (snd (let i = new_cuttlefish now iid img req (nextPortsTx d1)
      in case insert_instance (instance_row i []) d1 of
           Inl err \<Rightarrow> (Inl err, d1) | Inr d2 \<Rightarrow> (Inr i, d2)))" for d1 iid img
    unfolding Let_def by (rule fleet_inv_add_row) (use nextPortsTx_fresh in simp_all)
  show ?thesis
  proof (cases "trim_space (creq_ImageID req) = []")
    case True
    obtain r d1 where g: "GetOrCreateDefaultImage e now ri d = (r, d1)" by fastforce
    with fleet_inv_GetOrCreateDefaultImage[OF assms] have "fleet_inv d1" by (metis snd_conv)
    with True g add[of d1] show ?thesis
      by (cases r) (simp_all add: CreateInstance_def)
  next
    case False
    with assms add[of d] show ?thesis
      by (cases "GetImage (trim_space (creq_ImageID req)) d") (simp_all add: CreateInstance_def)
  qed
qed

lemma find_target_None:
  "find (\<lambda>r. inst_ADBTarget r = t \<and> inst_Src r = SourcePhysical) rows = None \<Longrightarrow>
    t \<notin> set (physical_targets rows)"
  by (auto simp: find_None_iff physical_targets_def)

lemma ValidateADBTarget_ok:
  "ValidateADBTarget t = Inr u \<longleftrightarrow> matches_adbTargetPattern (trim_space t)"
  by (auto simp: ValidateADBTarget_def Let_def matches_adbTargetPattern_def)

lemma fleet_inv_CreatePhysicalAndroid:
  assumes "fleet_inv d"
  shows "fleet_inv (snd (CreatePhysicalAndroid e now ri rnd name tgt d))"
proof -
  obtain r d1 where g: "GetOrCreateDefaultImage e now ri d = (r, d1)" by fastforce
  with fleet_inv_GetOrCreateDefaultImage[OF assms] GetOrCreateDefaultImage_instances[of e now ri d]
  have d1: "fleet_inv d1" "db_instances d1 = db_instances d" by (metis snd_conv)+
  show ?thesis
  proof (cases "trim_space name = [] \<or> \<not> is_ok (ValidateADBTarget tgt)
      \<or> find (\<lambda>r. inst_ADBTarget r = trim_space tgt \<and> inst_Src r = SourcePhysical) (db_instances d) \<noteq> None
      \<or> \<not> is_ok r")
    case True
    with assms d1 g show ?thesis
      by (auto simp: CreatePhysicalAndroid_def is_ok_def Let_def split: sum.splits option.splits)
  next
    case False
    then obtain img where "r = Inr img" by (cases r) auto
    moreover have "ValidateADBTarget tgt = Inr ()" using False by (cases "ValidateADBTarget tgt") auto
    ultimately show ?thesis
      using False g unfolding CreatePhysicalAndroid_def Let_def
      by simp (rule fleet_inv_add_row,
        use d1 find_target_None[of "trim_space tgt" "db_instances d"] in
          \<open>auto simp: zero_Instance_def ValidateADBTarget_ok\<close>)
  qed
qed

lemma fleet_inv_CreateDesktopInstance:
  assumes "fleet_inv d"
  shows "fleet_inv (snd (CreateDesktopInstance e now ri rnd name plat h d))"
proof -
  obtain r d1 where g: "GetOrCreateDefaultImage e now ri d = (r, d1)" by fastforce
  with fleet_inv_GetOrCreateDefaultImage[OF assms] have d1: "fleet_inv d1" by (metis snd_conv)
  show ?thesis
  proof (cases r)
    case (Inr img)
    show ?thesis unfolding CreateDesktopInstance_def Let_def g Inr
      by simp (rule fleet_inv_add_row, use d1 in \<open>auto simp: zero_Instance_def\<close>)
  qed (simp add: CreateDesktopInstance_def g d1)
qed

lemma fleet_inv_SetDesktopTokenHash:
  "fleet_inv d \<Longrightarrow> fleet_inv (snd (SetDesktopTokenHash now iid h d))"
  unfolding SetDesktopTokenHash_def Let_def snd_conv
  by (erule fleet_inv_map) (auto simp: same_identity_def)

section \<open>The operations as steps\<close>

text \<open>One rule per operation of the store on these tables, with any arguments.\<close>

inductive fleet_step :: "db \<Rightarrow> db \<Rightarrow> bool" where
  create_image: "fleet_step d (snd (CreateImage e now rnd req d))"
| version_image: "fleet_step d (snd (GetOrCreateVersionImage e now rnd v l b d))"
| default_image: "fleet_step d (snd (GetOrCreateDefaultImage e now rnd d))"
| image_status: "fleet_step d (UpdateImageStatus k st sz err d)"
| delete_image: "fleet_step d (snd (DeleteImage k d))"
| create_instance: "fleet_step d (snd (CreateInstance e now ri rnd creq d))"
| create_physical: "fleet_step d (snd (CreatePhysicalAndroid e now ri rnd name tgt d))"
| create_desktop: "fleet_step d (snd (CreateDesktopInstance e now ri rnd name plat h d))"
| update_state: "fleet_step d (snd (UpdateInstanceState now k st err d))"
| update_console: "fleet_step d (snd (UpdateInstanceConsole now k dev url d))"
| update_display: "fleet_step d (UpdateInstanceDisplay now k wd ht dpi d)"
| set_token: "fleet_step d (snd (SetDesktopTokenHash now k h d))"
| delete_instance: "fleet_step d (snd (DeleteInstance k d))"
| create_operation: "fleet_step d (snd (CreateOperation now rnd k act msg d))"
| finish_operation: "fleet_step d (snd (FinishOperation now k st msg d))"

inductive fleet_reachable :: "db \<Rightarrow> bool" where
  reach_init: "fleet_reachable empty_db"
| reach_step: "fleet_reachable d \<Longrightarrow> fleet_step d d' \<Longrightarrow> fleet_reachable d'"

lemma fleet_step_inv: "fleet_step d d' \<Longrightarrow> fleet_inv d \<Longrightarrow> fleet_inv d'"
proof (induction rule: fleet_step.induct)
  case (image_status d k st sz err)
  then show ?case unfolding UpdateImageStatus_def by (auto intro: fleet_inv_update_image)
next
  case (update_state d now k st err)
  then show ?case unfolding UpdateInstanceState_def Let_def snd_conv
    by (rule fleet_inv_update_instance) (simp add: same_identity_def)
next
  case (update_console d now k dev url)
  then show ?case unfolding UpdateInstanceConsole_def Let_def snd_conv
    by (rule fleet_inv_update_instance) (simp add: same_identity_def)
next
  case (update_display d now k wd ht dpi)
  then show ?case unfolding UpdateInstanceDisplay_def
    by (rule fleet_inv_update_instance) (simp add: same_identity_def)
qed (auto intro: fleet_inv_CreateImage fleet_inv_GetOrCreateVersionImage
    fleet_inv_GetOrCreateDefaultImage fleet_inv_DeleteImage fleet_inv_CreateInstance
    fleet_inv_CreatePhysicalAndroid fleet_inv_CreateDesktopInstance fleet_inv_SetDesktopTokenHash
    fleet_inv_DeleteInstance fleet_inv_CreateOperation fleet_inv_FinishOperation)

section \<open>Properties\<close>

text \<open>In every database that the store's operations can produce from a fresh one, the
  identifiers of images, devices and operations are unique, every device refers to an existing image, no two
  handsets share an ADB target, every registered target has the validated shape, and no two devices
  share an allocated ADB port.\<close>

theorem reachable_fleet_inv: "fleet_reachable d \<Longrightarrow> fleet_inv d"
proof (induction rule: fleet_reachable.induct)
  case reach_init
  show ?case by (simp add: fleet_inv_def empty_db_def physical_targets_def vm_ports_def)
next
  case (reach_step d d')
  then show ?case using fleet_step_inv by blast
qed

definition sample_env :: env where
  "sample_env = \<lparr>env_Getenv = (\<lambda>_. ''/im''), env_Cwd = ''/srv''\<rparr>"

definition sample_request :: CreateInstanceRequest where
  "sample_request = zero_CreateInstanceRequest\<lparr>creq_Name := ''pixel''\<rparr>"

definition sample_phone :: db where
  "sample_phone = snd (CreatePhysicalAndroid sample_env 0 [1] [2] ''phone'' '' R5CT10 '' empty_db)"

definition sample_fleet :: db where
  "sample_fleet = snd (CreateInstance sample_env 5 [3] [4] sample_request sample_phone)"

theorem reachable_fleet_inv_witness:
  "fleet_inv sample_fleet \<and> length (db_instances sample_fleet) = 2"
proof -
  have "fleet_reachable sample_phone" unfolding sample_phone_def
    by (rule reach_step[OF reach_init]) (rule create_physical)
  then have "fleet_reachable sample_fleet" unfolding sample_fleet_def
    by (rule reach_step) (rule create_instance)
  then have "fleet_inv sample_fleet" by (rule reachable_fleet_inv)
  moreover have "length (db_instances sample_fleet) = 2" by code_simp
  ultimately show ?thesis ..
qed

text \<open>C21: a device that CreateInstance returns got an ADB port above every port in use, was
  added as the last row with nothing else changed among the devices, and is what GetInstance returns for its
  identifier.\<close>

theorem CreateInstance_allocates:
  assumes "CreateInstance e now ri rnd req d = (Inr i, d')"
  shows "(\<forall>r\<in>set (db_instances d). inst_ADBPort r < inst_ADBPort i)
    \<and> db_instances d' = db_instances d @ [instance_row i []]
    \<and> GetInstance (inst_ID i) d' = Inr i"
proof -
  obtain d1 img where d1: "db_instances d1 = db_instances d"
    and i: "i = new_cuttlefish now (newID ''cvd'' rnd) img req (nextPortsTx d1)"
    and ins: "insert_instance (instance_row i []) d1 = Inr d'"
    using assms GetOrCreateDefaultImage_instances[of e now ri d]
    by (auto simp: CreateInstance_def Let_def split: sum.splits prod.splits if_splits)
  have rows: "db_instances d' = db_instances d @ [instance_row i []]"
    and new: "inst_ID i \<notin> inst_ID ` set (db_instances d)"
    using insert_instance_rows[OF ins] d1 by simp_all
  have "find (\<lambda>r. inst_ID r = inst_ID i) (db_instances d) = None"
    using new by (simp add: find_None_iff image_iff) metis
  then have "tbl_find inst_ID (inst_ID i) (db_instances d') = Some (instance_row i [])"
    by (simp add: rows tbl_find_def find_append)
  then have "GetInstance (inst_ID i) d' = Inr i"
    by (simp add: GetInstance_def scanInstance_def Let_def i)
  with rows show ?thesis using nextPortsTx_above[of _ d1] d1 by (simp add: i)
qed

theorem CreateInstance_allocates_witness:
  "\<exists>i d'. CreateInstance sample_env 5 [3] [4] sample_request sample_phone = (Inr i, d')
     \<and> db_instances d' = db_instances sample_phone @ [instance_row i []]"
proof -
  have "is_ok (fst (CreateInstance sample_env 5 [3] [4] sample_request sample_phone))" by code_simp
  then obtain i d' where c: "CreateInstance sample_env 5 [3] [4] sample_request sample_phone = (Inr i, d')"
    by (cases "CreateInstance sample_env 5 [3] [4] sample_request sample_phone")
      (auto simp: is_ok_def split: sum.splits)
  from CreateInstance_allocates[OF c] c show ?thesis by blast
qed

text \<open>The port of the first virtual device is 1, not 6520, once a handset is registered.\<close>

lemma port_after_handset:
  "nextPortsTx empty_db = (6520, 1443) \<and> nextPortsTx sample_phone = (1, 1443)
   \<and> map inst_DeviceID (db_instances sample_fleet) = ['''', ''cvd_-6518--6518-1'']"
  by code_simp

text \<open>C22: DeleteImage either removes exactly the named image and returns its path, and then no
  device referred to it; or leaves the database as it was, with ErrNoRows for an image that does not exist
  and an error wrapping ErrImageInUse for one that backs a device.\<close>

theorem DeleteImage_spec:
  "case DeleteImage k d of
     (Inl err, d') \<Rightarrow> d' = d \<and>
        (err = ErrNoRows \<and> GetImage k d = Inl ErrNoRows
         \<or> err_is err ErrImageInUse \<and> list_ex (\<lambda>r. inst_ImageID r = k) (db_instances d))
   | (Inr p, d') \<Rightarrow> p \<in> img_Path ` {i. GetImage k d = Inr i}
        \<and> list_all (\<lambda>r. inst_ImageID r \<noteq> k) (db_instances d)
        \<and> d' = d\<lparr>db_images := db_images d'\<rparr>
        \<and> GetImage j d' = (if j = k then Inl ErrNoRows else GetImage j d)"
proof (cases "tbl_find img_ID k (db_images d)")
  case None
  then show ?thesis by (simp add: DeleteImage_def GetImage_def)
next
  case (Some i)
  then have g: "GetImage k d = Inr i" by (simp add: GetImage_def)
  show ?thesis
  proof (cases "CountInstancesUsingImage k d = 0")
    case True
    then have "list_all (\<lambda>r. inst_ImageID r \<noteq> k) (db_instances d)"
      by (simp add: CountInstancesUsingImage_def filter_empty_conv list_all_iff)
    with True g show ?thesis
      by (auto simp: DeleteImage_def Let_def GetImage_def tbl_find_delete)
  next
    case False
    then have "list_ex (\<lambda>r. inst_ImageID r = k) (db_instances d)"
      by (auto simp: CountInstancesUsingImage_def filter_empty_conv list_ex_iff)
    with False g show ?thesis by (simp add: DeleteImage_def Let_def)
  qed
qed

section \<open>Containment of image paths\<close>

text \<open>The components of a path, and a path below a root with no way back up.\<close>

definition path_comps :: "string \<Rightarrow> string list" where
  "path_comps p = filter (\<lambda>c. c \<noteq> []) (split_char (CHR ''/'') p)"

definition path_within :: "string \<Rightarrow> string \<Rightarrow> bool" where
  "path_within root p =
    (take (length (path_comps root)) (path_comps p) = path_comps root \<and> ''..'' \<notin> set (path_comps p))"

lemma split_char_append_sep: "split_char d (a @ d # s) = split_char d a @ split_char d s"
  by (induction a) (auto split: list.splits)

lemma clean_comps_set:
  "c \<in> set (clean_comps r acc cs) \<Longrightarrow> c \<in> set acc \<or> c \<in> set cs \<and> c \<noteq> []"
proof (induction r acc cs rule: clean_comps.induct)
  case (2 rooted acc c cs)
  then show ?case by (auto split: if_splits dest: list.set_sel(2)[rotated])
qed simp

lemma clean_comps_no_dotdot:
  "''..'' \<notin> set acc \<Longrightarrow> ''..'' \<notin> set (clean_comps True acc cs)"
proof (induction "True" acc cs rule: clean_comps.induct)
  case (2 acc c cs)
  then show ?case by (auto split: if_splits dest: list.set_sel(2)[rotated])
qed simp

lemma path_comps_clean:
  assumes "is_abs p"
  shows "path_comps (clean p) = clean_comps True [] (split_char (CHR ''/'') (tl p))"
proof -
  let ?cs = "clean_comps True [] (split_char (CHR ''/'') (tl p))"
  have c: "c \<noteq> [] \<and> CHR ''/'' \<notin> set c" if "c \<in> set ?cs" for c
    using clean_comps_set[OF that] split_char_no_sep by auto
  have "split_char (CHR ''/'') (''/'' @ join ''/'' ?cs)
      = [] # (if ?cs = [] then [[]] else ?cs)"
    using c by (simp add: split_char_join)
  moreover have "filter (\<lambda>x. x \<noteq> []) ?cs = ?cs" using c by (auto intro: filter_True)
  ultimately show ?thesis using assms by (simp add: path_comps_def clean_def)
qed

lemma is_abs_append: "is_abs a \<Longrightarrow> is_abs (a @ b)"
  by (auto simp: is_abs_def has_prefix_iff)

lemma abs_path_no_dotdot:
  assumes "is_abs (env_Cwd e)"
  shows "''..'' \<notin> set (path_comps (abs_path e p))"
proof (cases "is_abs p")
  case True
  then show ?thesis by (simp add: abs_path_def path_comps_clean clean_comps_no_dotdot)
next
  case False
  have "is_abs (env_Cwd e @ ''/'' @ p)" using assms by (rule is_abs_append)
  then show ?thesis using False
    by (simp add: abs_path_def path_comps_clean clean_comps_no_dotdot)
qed

lemma under_root_comps:
  assumes "under_root root p"
  shows "take (length (path_comps root)) (path_comps p) = path_comps root"
proof (cases "p = root")
  case False
  then obtain s where "p = root @ CHR ''/'' # s"
    using assms by (auto simp: under_root_def has_prefix_iff)
  then show ?thesis by (simp add: path_comps_def split_char_append_sep)
qed simp

text \<open>C23: a path that ValidateImagePath accepts is, once made absolute, the image root or a path
  below it, with no parent component left; with requireExisting the same holds of what its symbolic links
  resolve to, and that is a directory.\<close>

theorem ValidateImagePath_contained:
  assumes "is_abs (env_Cwd e)" and "ValidateImagePath e fs p ex = Inr ()"
  shows "path_within (abs_path e (clean (imageRoot e))) (abs_path e (clean p))
    \<and> (ex \<longrightarrow> (\<exists>r. fs_eval_symlinks fs (abs_path e (clean p)) = Inr r
          \<and> path_within (abs_path e (clean (imageRoot e))) (abs_path e (clean r))
          \<and> fs_is_dir fs (abs_path e (clean r))))"
  using assms(2) abs_path_no_dotdot[OF assms(1)]
  by (auto simp: ValidateImagePath_def Let_def path_within_def under_root_comps
      split: if_splits sum.splits)

definition sample_fs :: file_system where
  "sample_fs = \<lparr>fs_eval_symlinks = Inr, fs_is_dir = (\<lambda>_. True)\<rparr>"

theorem ValidateImagePath_contained_witness:
  "path_within ''/im'' ''/im/b''"
proof -
  have "is_abs (env_Cwd sample_env)" by code_simp
  moreover have "ValidateImagePath sample_env sample_fs ''/im/a/../b'' True = Inr ()" by code_simp
  ultimately have "path_within (abs_path sample_env (clean (imageRoot sample_env)))
      (abs_path sample_env (clean ''/im/a/../b''))"
    by (rule ValidateImagePath_contained[THEN conjunct1])
  moreover have "abs_path sample_env (clean (imageRoot sample_env)) = ''/im''" by code_simp
  moreover have "abs_path sample_env (clean ''/im/a/../b'') = ''/im/b''" by code_simp
  ultimately show ?thesis by simp
qed

text \<open>The root itself is accepted, so it can be registered as an image, and removing that image removes all of them.\<close>

lemma image_root_is_accepted:
  "ValidateImagePath sample_env no_fs ''/im'' False = Inr ()"
  by code_simp

section \<open>Enrollment tokens\<close>

lemma find_map_unchanged: "(\<And>r. P (g r) = P r) \<Longrightarrow> find P (map g t) = map_option g (find P t)"
  by (induction t) auto

text \<open>Once SetDesktopTokenHash has set the token hash of a desktop, only that hash finds the
  device (and no hash when the new one is empty, a revocation); and a new hash that no other desktop has
  does find it.\<close>

theorem SetDesktopTokenHash_exclusive:
  assumes "SetDesktopTokenHash now k h d = (True, d')"
  shows "(\<forall>t i. FindDesktopByTokenHash t d' = Inr i \<and> inst_ID i = k \<longrightarrow> t = h \<and> h \<noteq> [])
    \<and> (h \<noteq> [] \<and> list_all (\<lambda>r. inst_TokenHash r \<noteq> h) (db_instances d)
       \<longrightarrow> (\<exists>i. FindDesktopByTokenHash h d' = Inr i \<and> inst_ID i = k))"
proof (intro conjI allI impI)
  let ?upd = "\<lambda>r. if inst_ID r = k \<and> inst_Src r = SourceRunner
                  then r\<lparr>inst_TokenHash := h, inst_UpdatedAt := now\<rparr> else r"
  have d': "db_instances d' = map ?upd (db_instances d)"
    and found: "\<exists>r\<in>set (db_instances d). inst_ID r = k \<and> inst_Src r = SourceRunner"
    using assms by (auto simp: SetDesktopTokenHash_def Let_def list_ex_iff)
  have scan_id: "inst_ID (scanInstance r) = inst_ID r" for r
    by (simp add: scanInstance_def Let_def Instance.defs)
  {
    fix t i
    assume f: "FindDesktopByTokenHash t d' = Inr i \<and> inst_ID i = k"
    have t: "t \<noteq> []" using f by (simp add: FindDesktopByTokenHash_def split: if_splits)
    with f obtain r where fr: "find (\<lambda>r. inst_TokenHash r = t \<and> inst_Src r = SourceRunner)
        (db_instances d') = Some r" and i: "i = scanInstance r"
      unfolding FindDesktopByTokenHash_def scan_row_Inr by (simp only: if_False scan_row_Inr) blast
    note r = conjunct1[OF find_SomeD[OF fr]] conjunct1[OF conjunct2[OF find_SomeD[OF fr]]]
      conjunct2[OF conjunct2[OF find_SomeD[OF fr]]] i
    have k: "inst_ID r = k" using f unfolding r(4) scan_id by simp
    obtain r0 where "r = ?upd r0" using r(1) unfolding d' set_map by (rule imageE)
    then have "inst_TokenHash r = h" using k r(3)
      by (cases "inst_ID r0 = k \<and> inst_Src r0 = SourceRunner") simp_all
    then have "t = h" using r(2) by metis
    then show "t = h" "h \<noteq> []" using t by blast+
  }
  assume h: "h \<noteq> [] \<and> list_all (\<lambda>r. inst_TokenHash r \<noteq> h) (db_instances d)"
  let ?P = "\<lambda>r. inst_TokenHash r = h \<and> inst_Src r = SourceRunner"
  have only: "inst_ID r = k" if in': "r \<in> set (db_instances d')" and P: "?P r" for r
  proof -
    obtain r0 where r0: "r = ?upd r0" "r0 \<in> set (db_instances d)"
      using in' unfolding d' set_map by (rule imageE)
    have nt: "inst_TokenHash r0 \<noteq> h" using h r0(2) by (simp add: list_all_iff)
    show ?thesis
    proof (cases "inst_ID r0 = k \<and> inst_Src r0 = SourceRunner")
      case True
      then show ?thesis unfolding r0(1) by simp
    next
      case False
      then have "r = r0" using r0(1) by (simp only: if_False)
      with P nt show ?thesis by metis
    qed
  qed
  obtain r1 where r1: "r1 \<in> set (db_instances d)" "inst_ID r1 = k \<and> inst_Src r1 = SourceRunner"
    using found by blast
  have "?upd r1 \<in> set (db_instances d')" unfolding d' set_map using r1(1) by (rule imageI)
  moreover have "?P (?upd r1)" using r1(2) by simp
  ultimately have "\<exists>r\<in>set (db_instances d'). ?P r" by blast
  then obtain r where r: "find ?P (db_instances d') = Some r"
    by (cases "find ?P (db_instances d')") (auto simp: find_None_iff)
  then have "r \<in> set (db_instances d')" "?P r" by (auto dest!: find_SomeD)
  then have "inst_ID (scanInstance r) = k" using only by (simp add: scan_id)
  then show "\<exists>i. FindDesktopByTokenHash h d' = Inr i \<and> inst_ID i = k"
    using r h by (auto simp: FindDesktopByTokenHash_def)
qed

definition sample_desktop :: db where
  "sample_desktop = snd (CreateDesktopInstance sample_env 0 [1] [9] ''bench'' ''linux'' ''old'' empty_db)"

theorem SetDesktopTokenHash_exclusive_witness:
  "\<exists>i. FindDesktopByTokenHash ''new''
        (snd (SetDesktopTokenHash 7 ''dev_09'' ''new'' sample_desktop)) = Inr i \<and> inst_ID i = ''dev_09''"
proof -
  have "fst (SetDesktopTokenHash 7 ''dev_09'' ''new'' sample_desktop)" by code_simp
  then have "SetDesktopTokenHash 7 ''dev_09'' ''new'' sample_desktop
      = (True, snd (SetDesktopTokenHash 7 ''dev_09'' ''new'' sample_desktop))"
    by (simp only: prod_eq_iff fst_conv snd_conv simp_thms)
  moreover have "list_all (\<lambda>r. inst_TokenHash r \<noteq> ''new'') (db_instances sample_desktop)" by code_simp
  ultimately show ?thesis using SetDesktopTokenHash_exclusive by blast
qed

end
