(* ===== verification/Store_Tests.thy ===== *)
theory Store_Tests
  imports Store_Core
begin

text \<open>
  Tests, test cases, cycles, their runs and builds: backend/internal/store/tests.go
  and cases.go.  The list columns (steps, labels, case ids, totals) are JSON in the
  database and lists here, since they are only written and read as a whole.
  The joins that give a run its name are written out in the queries.
\<close>

text \<open>The columns that the queries sort by.\<close>

definition test_created_text :: "Test \<Rightarrow> string" where
  "test_created_text r = formatTime (test_CreatedAt r)"

definition run_started_text :: "TestRun \<Rightarrow> string" where
  "run_started_text r = formatTime (run_StartedAt r)"

definition cyc_created_text :: "TestCycle \<Rightarrow> string" where
  "cyc_created_text r = formatTime (cyc_CreatedAt r)"

definition crun_started_text :: "CycleRun \<Rightarrow> string" where
  "crun_started_text r = formatTime (crun_StartedAt r)"

definition bld_created_text :: "Build \<Rightarrow> string" where
  "bld_created_text r = formatTime (bld_CreatedAt r)"

section \<open>Tests and their runs\<close>

definition CreateTest :: "time \<Rightarrow> 8 word list \<Rightarrow> string \<Rightarrow> string list \<Rightarrow> db \<Rightarrow> Test res \<times> db" where
  "CreateTest now rnd name reqSteps d =
    (let steps = filter (\<lambda>s. s \<noteq> []) (map trim_space reqSteps)
     in if steps = [] then (Inl (Err ''a test needs at least one step''), d)
        else
          let t = \<lparr>test_ID = newID ''test'' rnd, test_Name = trim_space name,
                   test_Steps = steps, test_CreatedAt = now\<rparr>
          in case tbl_insert test_ID t (db_tests d) of
               Inl err \<Rightarrow> (Inl err, d)
             | Inr ts \<Rightarrow> (Inr t, d\<lparr>db_tests := ts\<rparr>))"

definition GetTest :: "string \<Rightarrow> db \<Rightarrow> Test res" where
  "GetTest tid d = scan_row (tbl_find test_ID tid (db_tests d))"

definition ListTests :: "db \<Rightarrow> Test list" where
  "ListTests d = order_desc test_created_text (db_tests d)"

definition DeleteTest :: "string \<Rightarrow> db \<Rightarrow> db" where
  "DeleteTest tid d =
    d\<lparr>db_test_runs := filter (\<lambda>r. run_TestID r \<noteq> tid) (db_test_runs d),
      db_tests := tbl_delete test_ID tid (db_tests d)\<rparr>"

definition CreateTestRun ::
  "time \<Rightarrow> 8 word list \<Rightarrow> string \<Rightarrow> string \<Rightarrow> db \<Rightarrow> TestRun res \<times> db" where
  "CreateTestRun now rnd testID instanceID d =
    (let r = zero_TestRun\<lparr>run_ID := newID ''run'' rnd, run_TestID := testID,
               run_InstanceID := instanceID, run_Status := ''running'', run_StartedAt := now\<rparr>
     in case tbl_insert run_ID r (db_test_runs d) of
          Inl err \<Rightarrow> (Inl err, d)
        | Inr t \<Rightarrow> (Inr r, d\<lparr>db_test_runs := t\<rparr>))"

definition UpdateTestRun :: "TestRun \<Rightarrow> db \<Rightarrow> db" where
  "UpdateTestRun r d =
    d\<lparr>db_test_runs := tbl_update run_ID (run_ID r)
        (\<lambda>x. x\<lparr>run_Status := run_Status r, run_Passed := run_Passed r, run_Steps := run_Steps r,
               run_Video := run_Video r, run_Error := run_Error r,
               run_FinishedAt := run_FinishedAt r\<rparr>) (db_test_runs d)\<rparr>"

text \<open>LEFT JOIN tests: the name of the run's test, empty when it has none.\<close>

definition joined_test_name :: "db \<Rightarrow> TestRun \<Rightarrow> string" where
  "joined_test_name d r =
    (case tbl_find test_ID (run_TestID r) (db_tests d) of None \<Rightarrow> [] | Some t \<Rightarrow> test_Name t)"

text \<open>scanTestRun: the queries behind it do not select the two cycle columns.\<close>

definition scanTestRun :: "db \<Rightarrow> TestRun \<Rightarrow> TestRun" where
  "scanTestRun d r =
    r\<lparr>run_TestName := joined_test_name d r, run_CycleRunID := [], run_CaseID := []\<rparr>"

definition GetTestRun :: "string \<Rightarrow> db \<Rightarrow> TestRun res" where
  "GetTestRun rid d = scan_row (map_option (scanTestRun d) (tbl_find run_ID rid (db_test_runs d)))"

definition ListTestRuns :: "db \<Rightarrow> TestRun list" where
  "ListTestRuns d =
    map (scanTestRun d) (page_of 100 0 (order_desc run_started_text (db_test_runs d)))"

section \<open>Test cases and folders\<close>

definition insertTestCase :: "TestCase \<Rightarrow> db \<Rightarrow> db res" where
  "insertTestCase c d =
    (case tbl_insert case_ID c (db_cases d) of
       Inl err \<Rightarrow> Inl err
     | Inr t \<Rightarrow> Inr (d\<lparr>db_cases := t\<rparr>))"

definition stamp_case :: "time \<Rightarrow> 8 word list \<Rightarrow> TestCase \<Rightarrow> TestCase" where
  "stamp_case now rnd c =
    c\<lparr>case_ID := newID ''case'' rnd, case_CreatedAt := now, case_UpdatedAt := now,
      case_Steps := reindexSteps (case_Steps c)\<rparr>"

definition CreateTestCase ::
  "time \<Rightarrow> 8 word list \<Rightarrow> TestCase \<Rightarrow> db \<Rightarrow> TestCase res \<times> db" where
  "CreateTestCase now rnd c d =
    (if trim_space (case_Summary c) = [] then (Inl (Err ''a test case needs a summary''), d)
     else
       let c' = stamp_case now rnd c
       in case insertTestCase c' d of Inl err \<Rightarrow> (Inl err, d) | Inr d' \<Rightarrow> (Inr c', d'))"

text \<open>
  BulkCreateCases: one transaction, so an insert that fails leaves the database as
  it was.  The random bytes of the n-th case created are rnds n.
\<close>

fun bulk_insert ::
  "time \<Rightarrow> (nat \<Rightarrow> 8 word list) \<Rightarrow> TestCase list \<Rightarrow> nat \<Rightarrow> db \<Rightarrow> go_error + nat \<times> db" where
  "bulk_insert now rnds [] created d = Inr (created, d)"
| "bulk_insert now rnds (c # cs) created d =
    (if trim_space (case_Summary c) = [] then bulk_insert now rnds cs created d
     else (case insertTestCase (stamp_case now (rnds created) c) d of
             Inl err \<Rightarrow> Inl err
           | Inr d' \<Rightarrow> bulk_insert now rnds cs (Suc created) d'))"

definition BulkCreateCases ::
  "time \<Rightarrow> (nat \<Rightarrow> 8 word list) \<Rightarrow> TestCase list \<Rightarrow> db \<Rightarrow> nat res \<times> db" where
  "BulkCreateCases now rnds cs d =
    (case bulk_insert now rnds cs 0 d of
       Inl err \<Rightarrow> (Inl err, d)
     | Inr (n, d') \<Rightarrow> (Inr n, d'))"

definition GetTestCase :: "string \<Rightarrow> db \<Rightarrow> TestCase res" where
  "GetTestCase cid d = scan_row (tbl_find case_ID cid (db_cases d))"

definition ListTestCases :: "db \<Rightarrow> TestCase list" where
  "ListTestCases d = order_asc case_FolderPath (order_asc case_Summary (db_cases d))"

definition ListCaseFolders :: "db \<Rightarrow> string list" where
  "ListCaseFolders d =
    sort (remdups (map fold_Path (db_folders d)
      @ filter (\<lambda>p. p \<noteq> []) (map case_FolderPath (db_cases d))))"

definition folder_key :: "string \<Rightarrow> string" where
  "folder_key path = trim_by (\<lambda>c. c = CHR ''/'') (trim_space path)"

definition CreateCaseFolder :: "time \<Rightarrow> string \<Rightarrow> db \<Rightarrow> unit res \<times> db" where
  "CreateCaseFolder now path d =
    (let p = folder_key path
     in if p = [] then (Inl (Err ''folder path is required''), d)
        else case tbl_insert fold_Path \<lparr>fold_Path = p, fold_CreatedAt = now\<rparr> (db_folders d) of
               Inl _ \<Rightarrow> (Inr (), d)
             | Inr t \<Rightarrow> (Inr (), d\<lparr>db_folders := t\<rparr>))"

definition DeleteCaseFolder :: "string \<Rightarrow> db \<Rightarrow> db" where
  "DeleteCaseFolder path d = d\<lparr>db_folders := tbl_delete fold_Path (folder_key path) (db_folders d)\<rparr>"

definition UpdateTestCase :: "time \<Rightarrow> TestCase \<Rightarrow> db \<Rightarrow> db" where
  "UpdateTestCase now c d =
    d\<lparr>db_cases := tbl_update case_ID (case_ID c)
        (\<lambda>x. c\<lparr>case_ID := case_ID x, case_CreatedAt := case_CreatedAt x, case_UpdatedAt := now,
               case_Steps := reindexSteps (case_Steps c)\<rparr>) (db_cases d)\<rparr>"

definition DeleteTestCase :: "string \<Rightarrow> db \<Rightarrow> db" where
  "DeleteTestCase cid d = d\<lparr>db_cases := tbl_delete case_ID cid (db_cases d)\<rparr>"

section \<open>Cycles\<close>

definition scanTestCycle :: "TestCycle \<Rightarrow> TestCycle" where
  "scanTestCycle c =
    (if cyc_Platform c = [] then c\<lparr>cyc_Platform := PlatformAndroid\<rparr> else c)"

text \<open>writeTestCycle: an insert, or an update of all columns but the creation time.\<close>

definition writeTestCycle :: "TestCycle \<Rightarrow> bool \<Rightarrow> db \<Rightarrow> db res" where
  "writeTestCycle c ins d =
    (if ins then
       (case tbl_insert cyc_ID c (db_cycles d) of
          Inl err \<Rightarrow> Inl err
        | Inr t \<Rightarrow> Inr (d\<lparr>db_cycles := t\<rparr>))
     else Inr (d\<lparr>db_cycles := tbl_update cyc_ID (cyc_ID c)
            (\<lambda>x. c\<lparr>cyc_ID := cyc_ID x, cyc_CreatedAt := cyc_CreatedAt x\<rparr>) (db_cycles d)\<rparr>))"

definition CreateTestCycle ::
  "time \<Rightarrow> 8 word list \<Rightarrow> TestCycle \<Rightarrow> db \<Rightarrow> TestCycle res \<times> db" where
  "CreateTestCycle now rnd c d =
    (if trim_space (cyc_Name c) = [] then (Inl (Err ''a test cycle needs a name''), d)
     else
       let c' = c\<lparr>cyc_ID := newID ''cycle'' rnd, cyc_CreatedAt := now,
                  cyc_Platform := (if cyc_Platform c = [] then PlatformAndroid else cyc_Platform c)\<rparr>
       in case writeTestCycle c' True d of Inl err \<Rightarrow> (Inl err, d) | Inr d' \<Rightarrow> (Inr c', d'))"

definition UpdateTestCycle :: "TestCycle \<Rightarrow> db \<Rightarrow> unit res \<times> db" where
  "UpdateTestCycle c d =
    (case writeTestCycle c False d of Inl err \<Rightarrow> (Inl err, d) | Inr d' \<Rightarrow> (Inr (), d'))"

definition GetTestCycle :: "string \<Rightarrow> db \<Rightarrow> TestCycle res" where
  "GetTestCycle cid d = scan_row (map_option scanTestCycle (tbl_find cyc_ID cid (db_cycles d)))"

definition ListTestCycles :: "db \<Rightarrow> TestCycle list" where
  "ListTestCycles d = map scanTestCycle (order_desc cyc_created_text (db_cycles d))"

text \<open>The foreign key of cycle_runs deletes the runs of the cycle with it.\<close>

definition DeleteTestCycle :: "string \<Rightarrow> db \<Rightarrow> db" where
  "DeleteTestCycle cid d =
    d\<lparr>db_cycles := tbl_delete cyc_ID cid (db_cycles d),
      db_cycle_runs := filter (\<lambda>r. crun_CycleID r \<noteq> cid) (db_cycle_runs d)\<rparr>"

definition SetCycleSchedule :: "string \<Rightarrow> time option \<Rightarrow> time option \<Rightarrow> db \<Rightarrow> db" where
  "SetCycleSchedule cid lastRun nextRun d =
    d\<lparr>db_cycles := tbl_update cyc_ID cid
        (\<lambda>c. c\<lparr>cyc_LastRunAt := lastRun, cyc_NextRunAt := nextRun\<rparr>) (db_cycles d)\<rparr>"

definition in_flight :: "db \<Rightarrow> string \<Rightarrow> bool" where
  "in_flight d cid =
    list_ex (\<lambda>r. crun_CycleID r = cid \<and> crun_Status r = ''running'') (db_cycle_runs d)"

text \<open>The schedule of a cycle asks for a run at the given instant.\<close>

definition schedule_due :: "time \<Rightarrow> TestCycle \<Rightarrow> bool" where
  "schedule_due now c =
    (cyc_Enabled c \<and> cyc_Cron c \<noteq> []
     \<and> (case cyc_NextRunAt c of None \<Rightarrow> False | Some t \<Rightarrow> text_le t now))"

definition ListDueCycles :: "time \<Rightarrow> db \<Rightarrow> TestCycle list" where
  "ListDueCycles now d =
    map scanTestCycle
      (filter (\<lambda>c. schedule_due now c \<and> \<not> in_flight d (cyc_ID c)) (db_cycles d))"

definition ListCyclesForBuild :: "string \<Rightarrow> db \<Rightarrow> TestCycle list" where
  "ListCyclesForBuild platform d =
    map scanTestCycle
      (filter (\<lambda>c. cyc_Enabled c \<and> cyc_OnNewBuild c \<and> cyc_Platform c = platform) (db_cycles d))"

section \<open>Cycle runs\<close>

definition CreateCycleRun ::
  "time \<Rightarrow> 8 word list \<Rightarrow> CycleRun \<Rightarrow> db \<Rightarrow> CycleRun res \<times> db" where
  "CreateCycleRun now rnd r d =
    (let r' = r\<lparr>crun_ID := newID ''cyc'' rnd, crun_Status := ''running'', crun_StartedAt := now\<rparr>
     in case tbl_insert crun_ID (r'\<lparr>crun_FinishedAt := None\<rparr>) (db_cycle_runs d) of
          Inl err \<Rightarrow> (Inl err, d)
        | Inr t \<Rightarrow>
            (if tbl_find cyc_ID (crun_CycleID r) (db_cycles d) = None
             then (Inl (ErrConstraint ''FOREIGN KEY''), d)
             else (Inr r', d\<lparr>db_cycle_runs := t\<rparr>)))"

definition UpdateCycleRun :: "CycleRun \<Rightarrow> db \<Rightarrow> db" where
  "UpdateCycleRun r d =
    d\<lparr>db_cycle_runs := tbl_update crun_ID (crun_ID r)
        (\<lambda>x. x\<lparr>crun_Status := crun_Status r, crun_Totals := crun_Totals r,
               crun_InstanceID := crun_InstanceID r, crun_BuildID := crun_BuildID r,
               crun_FinishedAt := crun_FinishedAt r\<rparr>) (db_cycle_runs d)\<rparr>"

definition scanCycleRun :: "db \<Rightarrow> CycleRun \<Rightarrow> CycleRun" where
  "scanCycleRun d r =
    r\<lparr>crun_CycleName :=
       (case tbl_find cyc_ID (crun_CycleID r) (db_cycles d) of None \<Rightarrow> [] | Some c \<Rightarrow> cyc_Name c)\<rparr>"

definition GetCycleRun :: "string \<Rightarrow> db \<Rightarrow> CycleRun res" where
  "GetCycleRun rid d = scan_row (map_option (scanCycleRun d) (tbl_find crun_ID rid (db_cycle_runs d)))"

definition CountCycleRuns :: "db \<Rightarrow> nat" where
  "CountCycleRuns d = length (db_cycle_runs d)"

definition listCycleRuns :: "nat \<Rightarrow> nat \<Rightarrow> db \<Rightarrow> CycleRun list" where
  "listCycleRuns limit offset d =
    map (scanCycleRun d) (page_of limit offset (order_desc crun_started_text (db_cycle_runs d)))"

definition ListCycleRunsPage :: "int \<Rightarrow> int \<Rightarrow> db \<Rightarrow> CycleRun list \<times> nat" where
  "ListCycleRunsPage limit offset d =
    (let l = (if limit \<le> 0 \<or> 500 < limit then 50 else limit);
         f = (if offset < 0 then 0 else offset)
     in (listCycleRuns (nat l) (nat f) d, CountCycleRuns d))"

definition ListCycleRuns :: "db \<Rightarrow> CycleRun list" where
  "ListCycleRuns d = fst (ListCycleRunsPage 200 0 d)"

definition FailStrandedCycleRuns :: "time \<Rightarrow> string \<Rightarrow> db \<Rightarrow> nat \<times> db" where
  "FailStrandedCycleRuns now reason d =
    (let running = map crun_ID (filter (\<lambda>r. crun_Status r = ''running'') (db_cycle_runs d));
         d1 = d\<lparr>db_test_runs := map (\<lambda>r. if run_Status r = ''running'' \<and> run_CycleRunID r \<in> set running
                   then r\<lparr>run_Status := ''failed'', run_Passed := False, run_Error := reason,
                          run_FinishedAt := Some now\<rparr> else r) (db_test_runs d)\<rparr>;
         d2 = d1\<lparr>db_cycle_runs := map (\<lambda>r. if crun_Status r = ''running''
                   then r\<lparr>crun_Status := ''failed'', crun_FinishedAt := Some now\<rparr> else r)
                   (db_cycle_runs d1)\<rparr>
     in (length running, d2))"

definition DeleteCycleRun :: "string \<Rightarrow> db \<Rightarrow> db" where
  "DeleteCycleRun rid d =
    d\<lparr>db_test_runs := filter (\<lambda>r. run_CycleRunID r \<noteq> rid) (db_test_runs d),
      db_cycle_runs := tbl_delete crun_ID rid (db_cycle_runs d)\<rparr>"

definition CreateCaseRun ::
  "time \<Rightarrow> 8 word list \<Rightarrow> string \<Rightarrow> string \<Rightarrow> string \<Rightarrow> db \<Rightarrow> TestRun res \<times> db" where
  "CreateCaseRun now rnd cycleRunID caseID instanceID d =
    (let r = zero_TestRun\<lparr>run_ID := newID ''run'' rnd, run_InstanceID := instanceID,
               run_Status := ''running'', run_StartedAt := now, run_CycleRunID := cycleRunID,
               run_CaseID := caseID\<rparr>
     in case tbl_insert run_ID r (db_test_runs d) of
          Inl err \<Rightarrow> (Inl err, d)
        | Inr t \<Rightarrow> (Inr r, d\<lparr>db_test_runs := t\<rparr>))"

text \<open>COALESCE(NULLIF(t.name,''), tc.summary, ''): the name of a case run.\<close>

definition scanCaseRun :: "db \<Rightarrow> TestRun \<Rightarrow> TestRun" where
  "scanCaseRun d r =
    r\<lparr>run_TestName :=
       (if joined_test_name d r \<noteq> [] then joined_test_name d r
        else case tbl_find case_ID (run_CaseID r) (db_cases d) of
               None \<Rightarrow> [] | Some c \<Rightarrow> case_Summary c)\<rparr>"

definition ListTestRunsByCycleRun :: "string \<Rightarrow> db \<Rightarrow> TestRun list" where
  "ListTestRunsByCycleRun rid d =
    map (scanCaseRun d)
      (order_asc run_started_text (filter (\<lambda>r. run_CycleRunID r = rid) (db_test_runs d)))"

definition ListRecentCaseRuns :: "int \<Rightarrow> db \<Rightarrow> TestRun list" where
  "ListRecentCaseRuns limit d =
    (let l = (if limit \<le> 0 \<or> 5000 < limit then 2000 else limit)
     in map (scanCaseRun d) (page_of (nat l) 0
          (order_desc run_started_text
            (filter (\<lambda>r. run_CaseID r \<noteq> [] \<and> run_FinishedAt r \<noteq> None) (db_test_runs d)))))"

definition AppendStep :: "string \<Rightarrow> StepResult \<Rightarrow> db \<Rightarrow> unit res \<times> db" where
  "AppendStep rid s d =
    (case GetTestRun rid d of
       Inl err \<Rightarrow> (Inl err, d)
     | Inr r \<Rightarrow>
         (let s' = s\<lparr>step_Index := int (length (run_Steps r))\<rparr>
          in (Inr (), UpdateTestRun (r\<lparr>run_Steps := run_Steps r @ [s']\<rparr>) d)))"

section \<open>Builds\<close>

definition CreateBuild :: "time \<Rightarrow> 8 word list \<Rightarrow> Build \<Rightarrow> db \<Rightarrow> Build res \<times> db" where
  "CreateBuild now rnd b d =
    (let b' = b\<lparr>bld_ID := newID ''build'' rnd, bld_CreatedAt := now,
               bld_Status := (if bld_Status b = [] then ''uploaded'' else bld_Status b)\<rparr>
     in case tbl_insert bld_ID b' (db_builds d) of
          Inl err \<Rightarrow> (Inl err, d)
        | Inr t \<Rightarrow> (Inr b', d\<lparr>db_builds := t\<rparr>))"

definition GetBuild :: "string \<Rightarrow> db \<Rightarrow> Build res" where
  "GetBuild bid d = scan_row (tbl_find bld_ID bid (db_builds d))"

definition ListBuilds :: "string \<Rightarrow> db \<Rightarrow> Build list" where
  "ListBuilds platform d =
    page_of 200 0 (order_desc bld_created_text
      (if platform = [] then db_builds d
       else filter (\<lambda>b. bld_Platform b = platform) (db_builds d)))"

definition UpdateBuildStatus :: "string \<Rightarrow> string \<Rightarrow> string \<Rightarrow> db \<Rightarrow> db" where
  "UpdateBuildStatus bid status nt d =
    d\<lparr>db_builds := tbl_update bld_ID bid
        (\<lambda>b. b\<lparr>bld_Status := status, bld_Note := nt\<rparr>) (db_builds d)\<rparr>"

definition SetBuildLocation :: "string \<Rightarrow> string \<Rightarrow> int \<Rightarrow> string \<Rightarrow> db \<Rightarrow> db" where
  "SetBuildLocation bid path sz sha256 d =
    d\<lparr>db_builds := tbl_update bld_ID bid
        (\<lambda>b. b\<lparr>bld_Path := path, bld_SizeBytes := sz, bld_SHA256 := sha256\<rparr>) (db_builds d)\<rparr>"

section \<open>The invariant of the test tables\<close>

text \<open>Identifiers are unique, and every cycle run belongs to a cycle.\<close>

definition tests_inv :: "db \<Rightarrow> bool" where
  "tests_inv d =
    (unique_keys test_ID (db_tests d) \<and> unique_keys run_ID (db_test_runs d)
     \<and> unique_keys case_ID (db_cases d) \<and> unique_keys fold_Path (db_folders d)
     \<and> unique_keys cyc_ID (db_cycles d) \<and> unique_keys crun_ID (db_cycle_runs d)
     \<and> unique_keys bld_ID (db_builds d)
     \<and> list_all (\<lambda>r. tbl_find cyc_ID (crun_CycleID r) (db_cycles d) \<noteq> None) (db_cycle_runs d))"

inductive tests_step :: "db \<Rightarrow> db \<Rightarrow> bool" where
  create_test: "tests_step d (snd (CreateTest now rnd name steps d))"
| delete_test: "tests_step d (DeleteTest k d)"
| create_run: "tests_step d (snd (CreateTestRun now rnd tid iid d))"
| update_run: "tests_step d (UpdateTestRun r d)"
| append_step: "tests_step d (snd (AppendStep k s d))"
| create_case: "tests_step d (snd (CreateTestCase now rnd c d))"
| bulk_create: "tests_step d (snd (BulkCreateCases now rnds cs d))"
| create_folder: "tests_step d (snd (CreateCaseFolder now path d))"
| delete_folder: "tests_step d (DeleteCaseFolder path d)"
| update_case: "tests_step d (UpdateTestCase now c d)"
| delete_case: "tests_step d (DeleteTestCase k d)"
| create_cycle: "tests_step d (snd (CreateTestCycle now rnd cy d))"
| update_cycle: "tests_step d (snd (UpdateTestCycle cy d))"
| delete_cycle: "tests_step d (DeleteTestCycle k d)"
| set_schedule: "tests_step d (SetCycleSchedule k last_run next_run d)"
| create_cycle_run: "tests_step d (snd (CreateCycleRun now rnd cr d))"
| update_cycle_run: "tests_step d (UpdateCycleRun cr d)"
| fail_stranded: "tests_step d (snd (FailStrandedCycleRuns now reason d))"
| delete_cycle_run: "tests_step d (DeleteCycleRun k d)"
| create_case_run: "tests_step d (snd (CreateCaseRun now rnd crid cid iid d))"
| create_build: "tests_step d (snd (CreateBuild now rnd b d))"
| build_status: "tests_step d (UpdateBuildStatus k st nt d)"
| build_location: "tests_step d (SetBuildLocation k path sz sha d)"

lemma insertTestCase_inv:
  "insertTestCase c d = Inr d' \<Longrightarrow> tests_inv d \<Longrightarrow> tests_inv d'"
  by (auto simp: insertTestCase_def tests_inv_def intro: unique_keys_insert split: sum.splits)

lemma bulk_insert_inv:
  "bulk_insert now rnds cs n d = Inr (m, d') \<Longrightarrow> tests_inv d \<Longrightarrow> tests_inv d'"
  by (induction now rnds cs n d rule: bulk_insert.induct)
    (auto split: if_splits sum.splits dest: insertTestCase_inv)

lemma cycle_runs_inv:
  assumes "tests_inv d" "map crun_ID t = map crun_ID (db_cycle_runs d)"
    and "map crun_CycleID t = map crun_CycleID (db_cycle_runs d)"
  shows "tests_inv (d\<lparr>db_cycle_runs := t\<rparr>)"
proof -
  let ?P = "\<lambda>k. tbl_find cyc_ID k (db_cycles d) \<noteq> None"
  have e: "list_all (\<lambda>r. ?P (crun_CycleID r)) rs = list_all ?P (map crun_CycleID rs)" for rs
    by (simp add: list.pred_map comp_def)
  have "list_all (\<lambda>r. ?P (crun_CycleID r)) t"
    using assms(1) unfolding e assms(3) tests_inv_def by simp
  then show ?thesis using assms(1,2) by (simp add: tests_inv_def unique_keys_def)
qed

lemma cycles_update_inv:
  "tests_inv d \<Longrightarrow> (\<And>c. cyc_ID (f c) = cyc_ID c) \<Longrightarrow>
    tests_inv (d\<lparr>db_cycles := tbl_update cyc_ID k f (db_cycles d)\<rparr>)"
  by (auto simp: tests_inv_def unique_keys_update tbl_find_update list_all_iff)

lemma writeTestCycle_inv:
  assumes "writeTestCycle c ins d = Inr d'" "tests_inv d"
  shows "tests_inv d'"
proof (cases ins)
  case True
  then obtain t where t: "tbl_insert cyc_ID c (db_cycles d) = Inr t" "d' = d\<lparr>db_cycles := t\<rparr>"
    using assms(1) by (auto simp: writeTestCycle_def split: sum.splits)
  then have "unique_keys cyc_ID t" using assms(2) by (auto simp: tests_inv_def intro: unique_keys_insert)
  then show ?thesis using assms(2) unfolding t(2)
    by (auto simp: tests_inv_def list_all_iff tbl_find_insert[OF t(1)])
next
  case False
  then show ?thesis using assms by (auto simp: writeTestCycle_def intro!: cycles_update_inv)
qed

lemma delete_cycle_inv: "tests_inv d \<Longrightarrow> tests_inv (DeleteTestCycle k d)"
  by (auto simp: DeleteTestCycle_def tests_inv_def unique_keys_delete unique_keys_filter
      tbl_find_delete list_all_iff)

lemma CreateCycleRun_inv: "tests_inv d \<Longrightarrow> tests_inv (snd (CreateCycleRun now rnd r d))"
  by (auto simp: CreateCycleRun_def Let_def tests_inv_def tbl_insert_Inr unique_keys_insert
      split: sum.splits) (auto simp: unique_keys_def)

lemma FailStranded_inv: "tests_inv d \<Longrightarrow> tests_inv (snd (FailStrandedCycleRuns now reason d))"
proof -
  assume inv: "tests_inv d"
  have "tests_inv (d\<lparr>db_test_runs := map (\<lambda>r. if P r then g r else r) (db_test_runs d)\<rparr>)"
    if "\<And>r. run_ID (g r) = run_ID r" for P g
    using inv that by (auto simp: tests_inv_def intro!: unique_keys_map)
  then show ?thesis unfolding FailStrandedCycleRuns_def Let_def snd_conv
    by (intro cycle_runs_inv) (auto simp: comp_def)
qed

lemma tests_step_inv: "tests_step d d' \<Longrightarrow> tests_inv d \<Longrightarrow> tests_inv d'"
proof (induction rule: tests_step.induct)
  case (bulk_create d now rnds cs)
  then show ?case
    by (auto simp: BulkCreateCases_def split: sum.splits dest: bulk_insert_inv)
next
  case (create_case d now rnd c)
  then show ?case
    by (auto simp: CreateTestCase_def Let_def split: sum.splits dest: insertTestCase_inv)
next
  case (create_cycle d now rnd cy)
  then show ?case
    by (auto simp: CreateTestCycle_def Let_def split: sum.splits dest: writeTestCycle_inv)
next
  case (update_cycle d cy)
  then show ?case by (auto simp: UpdateTestCycle_def split: sum.splits dest: writeTestCycle_inv)
next
  case (set_schedule d k l n)
  then show ?case unfolding SetCycleSchedule_def by (intro cycles_update_inv) simp_all
next
  case (update_cycle_run d cr)
  then show ?case unfolding UpdateCycleRun_def
    by (intro cycle_runs_inv) (auto simp: tbl_update_def comp_def)
next
  case (delete_cycle_run d k)
  then show ?case
    by (auto simp: DeleteCycleRun_def tests_inv_def unique_keys_delete unique_keys_filter list_all_iff)
next
  case (append_step d k s)
  then show ?case
    by (auto simp: AppendStep_def UpdateTestRun_def tests_inv_def unique_keys_update Let_def split: sum.splits)
next
  case (delete_cycle d k)
  then show ?case by (rule delete_cycle_inv)
next
  case (create_cycle_run d now rnd cr)
  then show ?case by (rule CreateCycleRun_inv)
next
  case (fail_stranded d now reason)
  then show ?case by (rule FailStranded_inv)
qed (auto simp: CreateTest_def DeleteTest_def CreateTestRun_def UpdateTestRun_def CreateCaseFolder_def
    DeleteCaseFolder_def UpdateTestCase_def DeleteTestCase_def CreateCaseRun_def CreateBuild_def
    UpdateBuildStatus_def SetBuildLocation_def tests_inv_def Let_def unique_keys_insert
    unique_keys_update unique_keys_delete unique_keys_filter
    split: sum.splits)

section \<open>Lemmas of the operations\<close>

lemma orphan_step:
  assumes "\<And>r. run_ID (f r) = run_ID r"
  shows "tbl_find run_ID k (tbl_update run_ID rid f t)
    = (if k = rid then map_option f (tbl_find run_ID rid t) else tbl_find run_ID k t)"
  using assms by (rule runs.lookup_update)

text \<open>The steps of a run as AppendStep numbers them, from a first index on.\<close>

definition numbered :: "nat \<Rightarrow> StepResult list \<Rightarrow> StepResult list" where
  "numbered n ss = map (\<lambda>(i, s). s\<lparr>step_Index := int i\<rparr>) (enumerate n ss)"

definition append_all :: "string \<Rightarrow> StepResult list \<Rightarrow> db \<Rightarrow> db" where
  "append_all rid ss d = foldl (\<lambda>d s. snd (AppendStep rid s d)) d ss"

lemma AppendStep_find:
  assumes "tbl_find run_ID rid (db_test_runs d) = Some r"
  shows "tbl_find run_ID k (db_test_runs (snd (AppendStep rid s d)))
    = (if k = rid then Some (r\<lparr>run_Steps := run_Steps r @ [s\<lparr>step_Index := int (length (run_Steps r))\<rparr>]\<rparr>)
       else tbl_find run_ID k (db_test_runs d))"
proof -
  have "run_ID r = rid" using assms by (rule runs.lookup_key)
  then show ?thesis using assms
    by (simp add: AppendStep_def GetTestRun_def scanTestRun_def UpdateTestRun_def orphan_step Let_def)
qed

lemma append_all_find:
  "tbl_find run_ID rid (db_test_runs d) = Some r \<Longrightarrow>
    tbl_find run_ID k (db_test_runs (append_all rid ss d))
    = (if k = rid then Some (r\<lparr>run_Steps := run_Steps r @ numbered (length (run_Steps r)) ss\<rparr>)
       else tbl_find run_ID k (db_test_runs d))"
proof (induction ss arbitrary: d r)
  case Nil
  then show ?case by (simp add: append_all_def numbered_def)
next
  case (Cons s ss)
  let ?r = "r\<lparr>run_Steps := run_Steps r @ [s\<lparr>step_Index := int (length (run_Steps r))\<rparr>]\<rparr>"
  have f: "tbl_find run_ID rid (db_test_runs (snd (AppendStep rid s d))) = Some ?r"
    using AppendStep_find[OF Cons.prems, of rid s] by simp
  have "append_all rid (s # ss) d = append_all rid ss (snd (AppendStep rid s d))"
    by (simp add: append_all_def)
  then show ?case
    using Cons.IH[OF f] AppendStep_find[OF Cons.prems, of k s] by (simp add: numbered_def)
qed

lemma bulk_insert_cases:
  "bulk_insert now rnds cs n d = Inr (m, d') \<Longrightarrow>
    m = n + length (filter (\<lambda>c. trim_space (case_Summary c) \<noteq> []) cs)
    \<and> map case_Summary (db_cases d')
      = map case_Summary (db_cases d) @ map case_Summary (filter (\<lambda>c. trim_space (case_Summary c) \<noteq> []) cs)
    \<and> take (length (db_cases d)) (db_cases d') = db_cases d"
proof (induction now rnds cs n d arbitrary: m d' rule: bulk_insert.induct)
  case (2 now rnds c cs n d)
  show ?case
  proof (cases "trim_space (case_Summary c) = []")
    case True
    then show ?thesis using 2 by simp
  next
    case False
    then obtain d1 where d1: "insertTestCase (stamp_case now (rnds n) c) d = Inr d1"
      and b: "bulk_insert now rnds cs (Suc n) d1 = Inr (m, d')"
      using 2(3) by (auto split: sum.splits)
    have c1: "db_cases d1 = db_cases d @ [stamp_case now (rnds n) c]"
      using d1 by (auto simp: insertTestCase_def tbl_insert_Inr split: sum.splits)
    have "take (length (db_cases d)) (take (length (db_cases d1)) (db_cases d')) = db_cases d"
      using 2(2)[OF False d1 b] c1 by simp
    then show ?thesis using 2(2)[OF False d1 b] False c1
      by (simp add: stamp_case_def min_def split: if_splits)
  qed
qed simp

section \<open>Properties\<close>

inductive tests_reachable :: "db \<Rightarrow> bool" where
  tests_init: "tests_reachable empty_db"
| tests_next: "tests_reachable d \<Longrightarrow> tests_step d d' \<Longrightarrow> tests_reachable d'"

text \<open>In every database that the operations on tests, cases, cycles, runs, folders and
  builds can produce from a fresh one, identifiers are unique in each of these tables and every cycle run
  belongs to an existing cycle.\<close>

theorem reachable_tests_inv: "tests_reachable d \<Longrightarrow> tests_inv d"
proof (induction rule: tests_reachable.induct)
  case tests_init
  show ?case by (simp add: tests_inv_def empty_db_def)
next
  case (tests_next d d')
  then show ?case using tests_step_inv by blast
qed

definition sample_cycle :: TestCycle where
  "sample_cycle = zero_TestCycle\<lparr>cyc_Name := ''smoke'', cyc_Cron := ''5 4 * * *'',
     cyc_Enabled := True, cyc_NextRunAt := Some 0\<rparr>"

definition sample_cycle_db :: db where
  "sample_cycle_db = snd (CreateTestCycle 0 [1] sample_cycle empty_db)"

definition sample_cycle_run :: db where
  "sample_cycle_run = snd (CreateCycleRun 1 [2] (zero_CycleRun\<lparr>crun_CycleID := ''cycle_01''\<rparr>) sample_cycle_db)"

definition sample_case_run :: db where
  "sample_case_run = snd (CreateCaseRun 1 [3] ''cyc_02'' ''case_07'' ''dev_09'' sample_cycle_run)"

theorem reachable_tests_inv_witness:
  "tests_inv sample_case_run \<and> length (db_cycle_runs sample_case_run) = 1"
proof -
  have "tests_reachable sample_cycle_db" unfolding sample_cycle_db_def
    by (rule tests_next[OF tests_init]) (rule create_cycle)
  then have "tests_reachable sample_cycle_run" unfolding sample_cycle_run_def
    by (rule tests_next) (rule create_cycle_run)
  then have "tests_reachable sample_case_run" unfolding sample_case_run_def
    by (rule tests_next) (rule create_case_run)
  then have "tests_inv sample_case_run" by (rule reachable_tests_inv)
  moreover have "length (db_cycle_runs sample_case_run) = 1" by code_simp
  ultimately show ?thesis ..
qed

text \<open>FailStrandedCycleRuns reports the number of runs it swept, leaves no cycle run running
  and no case run running under a swept cycle run, and unblocks the schedule: afterwards ListDueCycles
  returns every cycle whose schedule is due.\<close>

theorem FailStrandedCycleRuns_sweeps:
  assumes "FailStrandedCycleRuns now reason d = (n, d')"
  shows "n = length (filter (\<lambda>r. crun_Status r = ''running'') (db_cycle_runs d))
    \<and> list_all (\<lambda>r. crun_Status r \<noteq> ''running'') (db_cycle_runs d')
    \<and> list_all (\<lambda>r. run_Status r = ''running'' \<longrightarrow>
          \<not> list_ex (\<lambda>c. crun_ID c = run_CycleRunID r \<and> crun_Status c = ''running'') (db_cycle_runs d))
        (db_test_runs d')
    \<and> ListDueCycles t d' = map scanTestCycle (filter (schedule_due t) (db_cycles d))"
proof -
  have runs: "db_cycle_runs d' = map (\<lambda>r. if crun_Status r = ''running''
      then r\<lparr>crun_Status := ''failed'', crun_FinishedAt := Some now\<rparr> else r) (db_cycle_runs d)"
    and cycles: "db_cycles d' = db_cycles d"
    and n: "n = length (filter (\<lambda>r. crun_Status r = ''running'') (db_cycle_runs d))"
    using assms by (auto simp: FailStrandedCycleRuns_def Let_def)
  have none: "crun_Status r \<noteq> ''running''" if "r \<in> set (db_cycle_runs d')" for r
    using that unfolding runs by auto
  then have "\<not> in_flight d' k" for k by (auto simp: in_flight_def list_ex_iff)
  then have "ListDueCycles t d' = map scanTestCycle (filter (schedule_due t) (db_cycles d))"
    by (simp add: ListDueCycles_def cycles)
  moreover have "list_all (\<lambda>r. run_Status r = ''running'' \<longrightarrow>
          \<not> list_ex (\<lambda>c. crun_ID c = run_CycleRunID r \<and> crun_Status c = ''running'') (db_cycle_runs d))
        (db_test_runs d')"
  proof -
    let ?K = "set (map crun_ID (filter (\<lambda>r. crun_Status r = ''running'') (db_cycle_runs d)))"
    let ?g = "\<lambda>r. if run_Status r = ''running'' \<and> run_CycleRunID r \<in> ?K
                then r\<lparr>run_Status := ''failed'', run_Passed := False, run_Error := reason,
                       run_FinishedAt := Some now\<rparr> else r"
    let ?Q = "\<lambda>r. run_Status r = ''running'' \<longrightarrow>
          \<not> list_ex (\<lambda>c. crun_ID c = run_CycleRunID r \<and> crun_Status c = ''running'') (db_cycle_runs d)"
    have t: "db_test_runs d' = map ?g (db_test_runs d)"
      using assms unfolding FailStrandedCycleRuns_def Let_def by auto
    have k: "list_ex (\<lambda>c. crun_ID c = k \<and> crun_Status c = ''running'') (db_cycle_runs d) \<longleftrightarrow> k \<in> ?K" for k
      by (auto simp: list_ex_iff)
    have "?Q (?g r)" for r unfolding k by simp
    then show ?thesis unfolding t list_all_iff set_map by blast
  qed
  ultimately show ?thesis using n none by (simp add: list_all_iff)
qed

theorem FailStrandedCycleRuns_sweeps_witness:
  "ListDueCycles 2000000000 sample_case_run = []
   \<and> map cyc_ID (ListDueCycles 2000000000 (snd (FailStrandedCycleRuns 9 ''restart'' sample_case_run))) = [''cycle_01'']"
proof
  show "ListDueCycles 2000000000 sample_case_run = []" by code_simp
  have "map cyc_ID (map scanTestCycle (filter (schedule_due 2000000000) (db_cycles sample_case_run))) = [''cycle_01'']"
    by code_simp
  then show "map cyc_ID (ListDueCycles 2000000000 (snd (FailStrandedCycleRuns 9 ''restart'' sample_case_run))) = [''cycle_01'']"
    using FailStrandedCycleRuns_sweeps[OF prod.collapse[symmetric], of 9 "''restart''" sample_case_run 2000000000]
    by simp
qed

text \<open>Reading the cycle runs page by page with a permitted limit gives every run exactly once,
  newest first, and each page comes with the total count.\<close>

theorem ListCycleRunsPage_covers:
  assumes "0 < limit" "limit \<le> 500" "CountCycleRuns d \<le> n * nat limit"
  shows "concat (map (\<lambda>i. fst (ListCycleRunsPage limit (int i * limit) d)) [0..<n])
      = map (scanCycleRun d) (order_desc crun_started_text (db_cycle_runs d))
    \<and> snd (ListCycleRunsPage limit offset d) = length (db_cycle_runs d)
    \<and> length (fst (ListCycleRunsPage limit offset d)) \<le> nat limit"
proof -
  let ?t = "order_desc crun_started_text (db_cycle_runs d)"
  have off: "nat (int i * limit) = i * nat limit" for i
    using assms(1) by (simp add: nat_mult_distrib)
  have page: "fst (ListCycleRunsPage limit (int i * limit) d)
      = map (scanCycleRun d) (page_of (nat limit) (i * nat limit) ?t)" for i
    using assms(1,2) off[of i] by (simp add: ListCycleRunsPage_def listCycleRuns_def mult_less_0_iff)
  have cov: "concat (map (\<lambda>i. page_of (nat limit) (i * nat limit) ?t) [0..<n]) = ?t"
    using assms(3) by (intro pages_cover) (simp add: CountCycleRuns_def)
  have "concat (map (\<lambda>i. fst (ListCycleRunsPage limit (int i * limit) d)) [0..<n])
      = map (scanCycleRun d) (concat (map (\<lambda>i. page_of (nat limit) (i * nat limit) ?t) [0..<n]))"
    unfolding page by (simp add: map_concat comp_def)
  then have "concat (map (\<lambda>i. fst (ListCycleRunsPage limit (int i * limit) d)) [0..<n])
      = map (scanCycleRun d) ?t"
    unfolding cov .
  then show ?thesis using assms(1,2)
    by (simp add: ListCycleRunsPage_def listCycleRuns_def page_of_def CountCycleRuns_def)
qed

definition sample_two_runs :: db where
  "sample_two_runs = snd (CreateCycleRun 2000000000 [4] (zero_CycleRun\<lparr>crun_CycleID := ''cycle_01''\<rparr>) sample_cycle_run)"

theorem ListCycleRunsPage_covers_witness:
  "map crun_ID (fst (ListCycleRunsPage 1 0 sample_two_runs) @ fst (ListCycleRunsPage 1 1 sample_two_runs))
    = [''cyc_04'', ''cyc_02'']"
proof -
  have "CountCycleRuns sample_two_runs \<le> 2 * nat 1" by code_simp
  then have "concat (map (\<lambda>i. fst (ListCycleRunsPage 1 (int i * 1) sample_two_runs)) [0..<2])
      = map (scanCycleRun sample_two_runs) (order_desc crun_started_text (db_cycle_runs sample_two_runs))"
    by (intro ListCycleRunsPage_covers[THEN conjunct1]) simp_all
  moreover have "[0..<2] = [0, 1 :: nat]" by (simp add: upt_rec)
  moreover have "map crun_ID (map (scanCycleRun sample_two_runs)
      (order_desc crun_started_text (db_cycle_runs sample_two_runs))) = [''cyc_04'', ''cyc_02'']"
    by code_simp
  ultimately show ?thesis by simp
qed

text \<open>Appending a list of step results to a run one by one, as the executor's tool does,
  adds them in order with consecutive indexes, changes nothing else of the run and no other run.\<close>

theorem AppendStep_sequence:
  assumes "tbl_find run_ID rid (db_test_runs d) = Some r"
  shows "GetTestRun rid (append_all rid ss d)
      = Inr (scanTestRun (append_all rid ss d)
              (r\<lparr>run_Steps := run_Steps r @ numbered (length (run_Steps r)) ss\<rparr>))
    \<and> (k \<noteq> rid \<longrightarrow> tbl_find run_ID k (db_test_runs (append_all rid ss d))
                  = tbl_find run_ID k (db_test_runs d))"
  using append_all_find[OF assms, of _ ss] by (simp add: GetTestRun_def)

definition sample_step :: "string \<Rightarrow> StepResult" where
  "sample_step t = zero_StepResult\<lparr>step_Text := t, step_Status := StepPass\<rparr>"

theorem AppendStep_sequence_witness:
  "\<exists>r. GetTestRun ''run_03'' (append_all ''run_03'' [sample_step ''open'', sample_step ''tap''] sample_case_run) = Inr r
     \<and> map step_Index (run_Steps r) = [0, 1] \<and> map step_Text (run_Steps r) = [''open'', ''tap'']"
proof -
  have "tbl_find run_ID ''run_03'' (db_test_runs sample_case_run) \<noteq> None" by code_simp
  then obtain r where r: "tbl_find run_ID ''run_03'' (db_test_runs sample_case_run) = Some r" by auto
  have "run_Steps (the (tbl_find run_ID ''run_03'' (db_test_runs sample_case_run))) = []" by code_simp
  then have "run_Steps r = []" by (simp add: r)
  with AppendStep_sequence[OF r, of "[sample_step ''open'', sample_step ''tap'']"]
  show ?thesis by (simp add: numbered_def scanTestRun_def sample_step_def zero_StepResult_def)
qed


section \<open>Two observations\<close>

text \<open>Deleting a cycle takes its cycle runs with it and leaves their case runs behind.\<close>

lemma DeleteTestCycle_leaves_case_runs:
  "db_cycle_runs (DeleteTestCycle ''cycle_01'' sample_case_run) = []
   \<and> map run_CycleRunID (db_test_runs (DeleteTestCycle ''cycle_01'' sample_case_run)) = [''cyc_02'']"
  by code_simp

text \<open>A cycle that was due at a whole second is not listed during that second.\<close>

lemma due_within_the_second:
  "\<not> schedule_due 500000000 sample_cycle \<and> schedule_due 0 sample_cycle
   \<and> schedule_due 1000000000 sample_cycle"
  by code_simp

end
