(* ===== verification/Store_Auth.thy ===== *)
theory Store_Auth
  imports Store_Core
begin

text \<open>
  Users, sessions, audit events and settings: backend/internal/store/auth.go and
  settings.go.  The schema makes user names and token hashes unique and ties a
  session to its user.
\<close>

definition UserCount :: "db \<Rightarrow> nat" where
  "UserCount d = length (db_users d)"

definition CreateUser ::
  "time \<Rightarrow> 8 word list \<Rightarrow> string \<Rightarrow> string \<Rightarrow> string \<Rightarrow> string \<Rightarrow> db \<Rightarrow> User res \<times> db" where
  "CreateUser now rnd username displayName role passwordHash d =
    (let u = \<lparr>usr_ID = newID ''usr'' rnd, usr_Username = username, usr_DisplayName = displayName,
              usr_Role = role, usr_PasswordHash = passwordHash, usr_Disabled = False,
              usr_CreatedAt = now, usr_UpdatedAt = now\<rparr>
     in case tbl_insert usr_ID u (db_users d) of
          Inl err \<Rightarrow> (Inl err, d)
        | Inr t \<Rightarrow>
            (if list_ex (\<lambda>x. usr_Username x = username) (db_users d)
             then (Inl (ErrConstraint ''UNIQUE users.username''), d)
             else (Inr u, d\<lparr>db_users := t\<rparr>)))"

definition GetUserByUsername :: "string \<Rightarrow> db \<Rightarrow> User res" where
  "GetUserByUsername username d = scan_row (tbl_find usr_Username username (db_users d))"

definition GetUserByID :: "string \<Rightarrow> db \<Rightarrow> User res" where
  "GetUserByID uid d = scan_row (tbl_find usr_ID uid (db_users d))"

definition CreateSession ::
  "time \<Rightarrow> 8 word list \<Rightarrow> string \<Rightarrow> string \<Rightarrow> time \<Rightarrow> db \<Rightarrow> Session res \<times> db" where
  "CreateSession now rnd userID tokenHash expiresAt d =
    (let s = \<lparr>ses_ID = newID ''ses'' rnd, ses_UserID = userID, ses_TokenHash = tokenHash,
              ses_ExpiresAt = expiresAt, ses_CreatedAt = now\<rparr>
     in case tbl_insert ses_ID s (db_sessions d) of
          Inl err \<Rightarrow> (Inl err, d)
        | Inr t \<Rightarrow>
            (if list_ex (\<lambda>x. ses_TokenHash x = tokenHash) (db_sessions d)
             then (Inl (ErrConstraint ''UNIQUE sessions.token_hash''), d)
             else if tbl_find usr_ID userID (db_users d) = None
             then (Inl (ErrConstraint ''FOREIGN KEY''), d)
             else (Inr s, d\<lparr>db_sessions := t\<rparr>)))"

text \<open>The join of sessions and users, restricted to live sessions of enabled users.\<close>

definition live_session :: "time \<Rightarrow> string \<Rightarrow> db \<Rightarrow> Session \<Rightarrow> bool" where
  "live_session now tokenHash d s =
    (ses_TokenHash s = tokenHash \<and> text_less now (ses_ExpiresAt s)
     \<and> (case tbl_find usr_ID (ses_UserID s) (db_users d) of
          None \<Rightarrow> False | Some u \<Rightarrow> \<not> usr_Disabled u))"

definition GetSessionUser :: "time \<Rightarrow> string \<Rightarrow> db \<Rightarrow> (Session \<times> User) res" where
  "GetSessionUser now tokenHash d =
    (case find (live_session now tokenHash d) (db_sessions d) of
       None \<Rightarrow> Inl ErrNoRows
     | Some s \<Rightarrow>
         (case tbl_find usr_ID (ses_UserID s) (db_users d) of
            None \<Rightarrow> Inl ErrNoRows
          | Some u \<Rightarrow> Inr (s, u)))"

definition DeleteSession :: "string \<Rightarrow> db \<Rightarrow> db" where
  "DeleteSession tokenHash d =
    d\<lparr>db_sessions := filter (\<lambda>s. ses_TokenHash s \<noteq> tokenHash) (db_sessions d)\<rparr>"

definition expired :: "time \<Rightarrow> Session \<Rightarrow> bool" where
  "expired now s = text_le (ses_ExpiresAt s) now"

definition PruneExpiredSessions :: "time \<Rightarrow> db \<Rightarrow> db" where
  "PruneExpiredSessions now d =
    d\<lparr>db_sessions := filter (\<lambda>s. \<not> expired now s) (db_sessions d)\<rparr>"

definition CreateAuditEvent ::
  "time \<Rightarrow> 8 word list \<Rightarrow> AuditEvent \<Rightarrow> db \<Rightarrow> AuditEvent res \<times> db" where
  "CreateAuditEvent now rnd ev d =
    (let ev1 = (if aud_ID ev = [] then ev\<lparr>aud_ID := newID ''aud'' rnd\<rparr> else ev);
         ev2 = (if aud_CreatedAt ev1 = zero_time then ev1\<lparr>aud_CreatedAt := now\<rparr> else ev1)
     in case tbl_insert aud_ID ev2 (db_audit d) of
          Inl err \<Rightarrow> (Inl err, d)
        | Inr t \<Rightarrow> (Inr ev2, d\<lparr>db_audit := t\<rparr>))"

definition aud_created_text :: "AuditEvent \<Rightarrow> string" where
  "aud_created_text r = formatTime (aud_CreatedAt r)"

definition ListAuditEvents :: "int \<Rightarrow> db \<Rightarrow> AuditEvent list" where
  "ListAuditEvents limit d =
    (let l = (if limit \<le> 0 \<or> 500 < limit then 100 else limit)
     in page_of (nat l) 0 (order_desc aud_created_text (db_audit d)))"

definition GetSetting :: "string \<Rightarrow> db \<Rightarrow> string" where
  "GetSetting k d = (case tbl_find set_Key k (db_settings d) of None \<Rightarrow> [] | Some s \<Rightarrow> set_Value s)"

definition SetSetting :: "time \<Rightarrow> string \<Rightarrow> string \<Rightarrow> db \<Rightarrow> db" where
  "SetSetting now k v d =
    d\<lparr>db_settings :=
       (case tbl_insert set_Key \<lparr>set_Key = k, set_Value = v, set_UpdatedAt = now\<rparr> (db_settings d) of
          Inr t \<Rightarrow> t
        | Inl _ \<Rightarrow> tbl_update set_Key k (\<lambda>s. s\<lparr>set_Value := v, set_UpdatedAt := now\<rparr>) (db_settings d))\<rparr>"

section \<open>The invariant of the account tables\<close>

definition auth_inv :: "db \<Rightarrow> bool" where
  "auth_inv d =
    (unique_keys usr_ID (db_users d) \<and> unique_keys usr_Username (db_users d)
     \<and> unique_keys ses_ID (db_sessions d) \<and> unique_keys ses_TokenHash (db_sessions d)
     \<and> unique_keys aud_ID (db_audit d) \<and> unique_keys set_Key (db_settings d)
     \<and> list_all (\<lambda>s. tbl_find usr_ID (ses_UserID s) (db_users d) \<noteq> None) (db_sessions d))"

lemma unique_keys_append:
  "unique_keys key t \<Longrightarrow> key r \<notin> key ` set t \<Longrightarrow> unique_keys key (t @ [r])"
  by (simp add: unique_keys_def)

lemma auth_inv_CreateUser:
  assumes "auth_inv d"
  shows "auth_inv (snd (CreateUser now rnd un dn role ph d))"
proof (cases "is_ok (fst (CreateUser now rnd un dn role ph d))")
  case False
  then show ?thesis using assms
    by (auto simp: CreateUser_def Let_def split: sum.splits if_splits)
next
  case True
  then obtain u t where t: "tbl_insert usr_ID u (db_users d) = Inr t" "usr_Username u = un"
      "\<not> list_ex (\<lambda>x. usr_Username x = un) (db_users d)"
    and d': "snd (CreateUser now rnd un dn role ph d) = d\<lparr>db_users := t\<rparr>"
    by (auto simp: CreateUser_def Let_def split: sum.splits if_splits)
  have "unique_keys usr_Username t" using assms t
    by (auto simp: auth_inv_def tbl_insert_Inr list_ex_iff intro!: unique_keys_append)
  moreover have "unique_keys usr_ID t" using assms t by (auto simp: auth_inv_def unique_keys_insert)
  ultimately show ?thesis using assms unfolding d'
    by (auto simp: auth_inv_def list_all_iff tbl_find_insert[OF t(1)])
qed

lemma auth_inv_CreateSession:
  assumes "auth_inv d"
  shows "auth_inv (snd (CreateSession now rnd uid h ex d))"
proof (cases "is_ok (fst (CreateSession now rnd uid h ex d))")
  case False
  then show ?thesis using assms
    by (auto simp: CreateSession_def Let_def split: sum.splits if_splits)
next
  case True
  then obtain s t where t: "tbl_insert ses_ID s (db_sessions d) = Inr t" "ses_TokenHash s = h"
      "ses_UserID s = uid" "\<not> list_ex (\<lambda>x. ses_TokenHash x = h) (db_sessions d)"
      "tbl_find usr_ID uid (db_users d) \<noteq> None"
    and d': "snd (CreateSession now rnd uid h ex d) = d\<lparr>db_sessions := t\<rparr>"
    by (auto simp: CreateSession_def Let_def split: sum.splits if_splits)
  have "unique_keys ses_TokenHash t" using assms t
    by (auto simp: auth_inv_def tbl_insert_Inr list_ex_iff intro!: unique_keys_append)
  moreover have "unique_keys ses_ID t" using assms t by (auto simp: auth_inv_def unique_keys_insert)
  ultimately show ?thesis using assms t unfolding d'
    by (auto simp: auth_inv_def list_all_iff tbl_insert_Inr)
qed

lemma auth_inv_filter_sessions:
  "auth_inv d \<Longrightarrow> auth_inv (d\<lparr>db_sessions := filter P (db_sessions d)\<rparr>)"
  by (auto simp: auth_inv_def unique_keys_filter list_all_iff)

lemma auth_inv_DeleteSession: "auth_inv d \<Longrightarrow> auth_inv (DeleteSession h d)"
  unfolding DeleteSession_def by (rule auth_inv_filter_sessions)

lemma auth_inv_Prune: "auth_inv d \<Longrightarrow> auth_inv (PruneExpiredSessions now d)"
  unfolding PruneExpiredSessions_def by (rule auth_inv_filter_sessions)

lemma auth_inv_CreateAuditEvent: "auth_inv d \<Longrightarrow> auth_inv (snd (CreateAuditEvent now rnd ev d))"
proof -
  assume inv: "auth_inv d"
  have "auth_inv (snd (case tbl_insert aud_ID e (db_audit d) of
      Inl err \<Rightarrow> (Inl err, d) | Inr t \<Rightarrow> (Inr e, d\<lparr>db_audit := t\<rparr>)))" for e :: AuditEvent
    using inv by (cases "tbl_insert aud_ID e (db_audit d)") (auto simp: auth_inv_def unique_keys_insert)
  then show ?thesis unfolding CreateAuditEvent_def Let_def .
qed

lemma auth_inv_SetSetting: "auth_inv d \<Longrightarrow> auth_inv (SetSetting now k v d)"
  by (auto simp: SetSetting_def auth_inv_def unique_keys_insert unique_keys_update split: sum.splits)

lemma GetSetting_SetSetting: "GetSetting k (SetSetting now k' v d) = (if k = k' then v else GetSetting k d)"
proof (cases "tbl_find set_Key k' (db_settings d)")
  case None
  then obtain t where t: "tbl_insert set_Key \<lparr>set_Key = k', set_Value = v, set_UpdatedAt = now\<rparr> (db_settings d) = Inr t"
    by (auto simp: tbl_find_None tbl_insert_def)
  then show ?thesis by (simp add: GetSetting_def SetSetting_def tbl_find_insert[OF t])
next
  case (Some s)
  then have "\<not> is_ok (tbl_insert set_Key \<lparr>set_Key = k', set_Value = v, set_UpdatedAt = now\<rparr> (db_settings d))"
    by (auto simp: tbl_insert_def dest: tbl_find_Some)
  then show ?thesis using Some
    by (auto simp: GetSetting_def SetSetting_def tbl_find_update split: sum.splits option.splits)
qed

text \<open>A session that is found is a row with the token hash, not expired, of an enabled user.\<close>

lemma GetSessionUser_Inr:
  "GetSessionUser now h d = Inr (s, u) \<Longrightarrow>
    s \<in> set (db_sessions d) \<and> ses_TokenHash s = h \<and> text_less now (ses_ExpiresAt s)
    \<and> tbl_find usr_ID (ses_UserID s) (db_users d) = Some u \<and> \<not> usr_Disabled u"
  by (auto simp: GetSessionUser_def live_session_def dest!: find_SomeD split: option.splits)

lemma GetSessionUser_unique:
  assumes "auth_inv d" "s \<in> set (db_sessions d)" "tbl_find usr_ID (ses_UserID s) (db_users d) = Some u"
    and "\<not> usr_Disabled u" "text_less now (ses_ExpiresAt s)"
  shows "GetSessionUser now (ses_TokenHash s) d = Inr (s, u)"
proof -
  have l: "live_session now (ses_TokenHash s) d s" using assms by (simp add: live_session_def)
  then obtain s' where s': "find (live_session now (ses_TokenHash s) d) (db_sessions d) = Some s'"
    using assms(2) by (cases "find (live_session now (ses_TokenHash s) d) (db_sessions d)")
      (auto simp: find_None_iff)
  then have "s' \<in> set (db_sessions d)" "ses_TokenHash s' = ses_TokenHash s"
    by (auto dest!: find_SomeD simp: live_session_def)
  with assms(1,2) have "s' = s" by (auto simp: auth_inv_def unique_keys_def distinct_map inj_on_def)
  with s' assms(3) show ?thesis by (simp add: GetSessionUser_def)
qed

end
