(* ===== verification/Auth.thy ===== *)
theory Auth
  imports Store_Auth
begin

text \<open>
  The account service, backend/internal/auth/service.go: password hashing,
  bootstrap of the administrator, login, sessions and permissions.  Two functions
  of Go's crypto packages are parameters: hmac is HMAC-SHA-256 (key, message) and
  sha is SHA-256; what the code relies on, that an HMAC has 32 bytes, is a named
  hypothesis where it is used.
\<close>

section \<open>Base 64 without padding\<close>

definition std_alphabet :: string where
  "std_alphabet = ''ABCDEFGHIJKLMNOPQRSTUVWXYZabcdefghijklmnopqrstuvwxyz0123456789+/''"

definition url_alphabet :: string where
  "url_alphabet = ''ABCDEFGHIJKLMNOPQRSTUVWXYZabcdefghijklmnopqrstuvwxyz0123456789-_''"

fun b64_groups :: "8 word list \<Rightarrow> nat list" where
  "b64_groups [] = []"
| "b64_groups [a] = [unat a div 4, unat a mod 4 * 16]"
| "b64_groups [a, b] =
    [unat a div 4, unat a mod 4 * 16 + unat b div 16, unat b mod 16 * 4]"
| "b64_groups (a # b # c # r) =
    [unat a div 4, unat a mod 4 * 16 + unat b div 16, unat b mod 16 * 4 + unat c div 64,
     unat c mod 64] @ b64_groups r"

definition b64_encode :: "string \<Rightarrow> 8 word list \<Rightarrow> string" where
  "b64_encode alph bs = map (\<lambda>n. alph ! n) (b64_groups bs)"

fun position :: "char \<Rightarrow> string \<Rightarrow> nat option" where
  "position c [] = None"
| "position c (x # xs) = (if x = c then Some 0 else map_option Suc (position c xs))"

fun all_some :: "'a option list \<Rightarrow> 'a list option" where
  "all_some [] = Some []"
| "all_some (None # xs) = None"
| "all_some (Some x # xs) = map_option (\<lambda>ys. x # ys) (all_some xs)"

fun b64_bytes :: "nat list \<Rightarrow> 8 word list option" where
  "b64_bytes [] = Some []"
| "b64_bytes [x] = None"
| "b64_bytes [x, y] = Some [of_nat (x * 4 + y div 16)]"
| "b64_bytes [x, y, z] = Some [of_nat (x * 4 + y div 16), of_nat (y mod 16 * 16 + z div 4)]"
| "b64_bytes (x # y # z # w # r) =
    map_option (\<lambda>bs. [of_nat (x * 4 + y div 16), of_nat (y mod 16 * 16 + z div 4),
                      of_nat (z mod 4 * 64 + w)] @ bs) (b64_bytes r)"

text \<open>DecodeString skips line breaks and refuses every other byte outside the alphabet.\<close>

definition b64_decode :: "string \<Rightarrow> string \<Rightarrow> 8 word list option" where
  "b64_decode alph s =
    (case all_some (map (\<lambda>c. position c alph) (filter (\<lambda>c. c \<noteq> CHR 0x0A \<and> c \<noteq> CHR 0x0D) s)) of
       None \<Rightarrow> None
     | Some ns \<Rightarrow> b64_bytes ns)"

lemma position_nth: "distinct xs \<Longrightarrow> n < length xs \<Longrightarrow> position (xs ! n) xs = Some n"
proof (induction xs arbitrary: n)
  case (Cons x xs)
  then show ?case by (cases n) auto
qed simp

lemma unat_byte: "unat (a :: 8 word) < 256"
proof -
  have "unat a < 2 ^ LENGTH(8)" by (rule unsigned_less)
  then show ?thesis by simp
qed

lemma b64_groups_bound: "n \<in> set (b64_groups bs) \<Longrightarrow> n < 64"
proof (induction bs rule: b64_groups.induct)
  case (2 a)
  then show ?case using unat_byte[of a] by auto
next
  case (3 a b)
  then show ?case using unat_byte[of a] unat_byte[of b] by auto
next
  case (4 a b c r)
  then show ?case using unat_byte[of a] unat_byte[of b] unat_byte[of c] by auto
qed simp

lemma b64_bytes_groups: "b64_bytes (b64_groups bs) = Some bs"
proof (induction bs rule: b64_groups.induct)
  case (3 a b)
  have "(unat a mod 4 * 16 + unat b div 16) div 16 = unat a mod 4"
    "(unat a mod 4 * 16 + unat b div 16) mod 16 = unat b div 16"
    using unat_byte[of b] by (simp_all add: div_add1_eq)
  then show ?case by (simp add: mult.commute)
next
  case (4 a b c r)
  have "(unat a mod 4 * 16 + unat b div 16) div 16 = unat a mod 4"
    "(unat a mod 4 * 16 + unat b div 16) mod 16 = unat b div 16"
    "(unat b mod 16 * 4 + unat c div 64) div 4 = unat b mod 16"
    "(unat b mod 16 * 4 + unat c div 64) mod 4 = unat c div 64"
    using unat_byte[of b] unat_byte[of c] by (simp_all add: div_add1_eq)
  with 4 show ?case by (simp add: mult.commute)
qed simp_all

lemma all_some_map: "(\<And>x. x \<in> set xs \<Longrightarrow> f x = Some (g x)) \<Longrightarrow> all_some (map f xs) = Some (map g xs)"
  by (induction xs) auto

lemma std_alphabet_facts:
  "distinct std_alphabet" "length std_alphabet = 64" "CHR ''$'' \<notin> set std_alphabet"
  "CHR 0x0A \<notin> set std_alphabet" "CHR 0x0D \<notin> set std_alphabet"
  by (simp_all add: std_alphabet_def)

lemma b64_encode_set: "c \<in> set (b64_encode std_alphabet bs) \<Longrightarrow> c \<in> set std_alphabet"
  using b64_groups_bound std_alphabet_facts(2) by (auto simp: b64_encode_def)

lemma b64_roundtrip: "b64_decode std_alphabet (b64_encode std_alphabet bs) = Some bs"
proof -
  have "filter (\<lambda>c. c \<noteq> CHR 0x0A \<and> c \<noteq> CHR 0x0D) (b64_encode std_alphabet bs) = b64_encode std_alphabet bs"
    using b64_encode_set std_alphabet_facts(4,5) by (intro filter_True) blast
  moreover have "all_some (map (\<lambda>c. position c std_alphabet) (b64_encode std_alphabet bs))
      = Some (b64_groups bs)"
    using b64_groups_bound[of _ bs] std_alphabet_facts(1,2)
    by (simp add: b64_encode_def comp_def) (subst all_some_map[where g = id], auto simp: position_nth)
  ultimately show ?thesis by (simp add: b64_decode_def b64_bytes_groups)
qed

section \<open>Passwords\<close>

definition pbkdf2Iterations :: int where
  "pbkdf2Iterations = 210000"

definition pbkdf2KeyLen :: nat where
  "pbkdf2KeyLen = 32"

definition sessionDuration :: int where
  "sessionDuration = 12 * hour"

definition bytes_of :: "string \<Rightarrow> 8 word list" where
  "bytes_of s = map (\<lambda>c. of_nat (of_char c)) s"

fun pbkdf2_loop ::
  "(8 word list \<Rightarrow> 8 word list) \<Rightarrow> nat \<Rightarrow> 8 word list \<Rightarrow> 8 word list \<Rightarrow> 8 word list" where
  "pbkdf2_loop prf 0 u t = t"
| "pbkdf2_loop prf (Suc n) u t =
    (let u' = prf u in pbkdf2_loop prf n u' (map2 xor t u'))"

definition pbkdf2_block :: "(8 word list \<Rightarrow> 8 word list) \<Rightarrow> 8 word list \<Rightarrow> int \<Rightarrow> nat \<Rightarrow> 8 word list" where
  "pbkdf2_block prf salt iter i =
    (let block = [of_nat (i div 2 ^ 24), of_nat (i div 2 ^ 16), of_nat (i div 2 ^ 8), of_nat i];
         u = prf (salt @ block)
     in pbkdf2_loop prf (nat (iter - 1)) u u)"

definition pbkdf2Key ::
  "(8 word list \<Rightarrow> 8 word list \<Rightarrow> 8 word list) \<Rightarrow> 8 word list \<Rightarrow> 8 word list \<Rightarrow> int \<Rightarrow> nat \<Rightarrow> 8 word list" where
  "pbkdf2Key hmac password salt iter keyLen =
    (let hashLen = 32; numBlocks = (keyLen + hashLen - 1) div hashLen
     in take keyLen (concat (map (pbkdf2_block (hmac password) salt iter) [1..<numBlocks + 1])))"

definition HashPassword ::
  "(8 word list \<Rightarrow> 8 word list \<Rightarrow> 8 word list) \<Rightarrow> 8 word list \<Rightarrow> string \<Rightarrow> string" where
  "HashPassword hmac salt password =
    (let key = pbkdf2Key hmac (bytes_of password) salt pbkdf2Iterations pbkdf2KeyLen
     in ''pbkdf2-sha256$'' @ itoa pbkdf2Iterations @ ''$'' @ b64_encode std_alphabet salt @ ''$''
        @ b64_encode std_alphabet key)"

text \<open>fmt.Sscanf with the verb percent-d: leading blanks, a sign, the longest run of digits.\<close>

definition sscanf_d :: "string \<Rightarrow> int option" where
  "sscanf_d s =
    (let t = dropWhile is_space s;
         sgn = (case t of c # _ \<Rightarrow> if c = CHR ''-'' \<or> c = CHR ''+'' then [c] else [] | [] \<Rightarrow> []);
         ds = takeWhile is_digit (drop (length sgn) t)
     in if ds = [] then None else atoi (sgn @ ds))"

definition VerifyPassword ::
  "(8 word list \<Rightarrow> 8 word list \<Rightarrow> 8 word list) \<Rightarrow> string \<Rightarrow> string \<Rightarrow> bool" where
  "VerifyPassword hmac password encoded =
    (case split_char (CHR ''$'') encoded of
       [scheme, iters, salt64, key64] \<Rightarrow>
         scheme = ''pbkdf2-sha256'' \<and>
         (case (sscanf_d iters, b64_decode std_alphabet salt64, b64_decode std_alphabet key64) of
            (Some iterations, Some salt, Some expected) \<Rightarrow>
              pbkdf2Key hmac (bytes_of password) salt iterations (length expected) = expected
          | _ \<Rightarrow> False)
     | _ \<Rightarrow> False)"

section \<open>The service\<close>

definition ErrUnauthorized :: go_error where
  "ErrUnauthorized = Err ''unauthorized''"

definition TokenHash :: "(8 word list \<Rightarrow> 8 word list) \<Rightarrow> string \<Rightarrow> string" where
  "TokenHash sha token = hex_encode (sha (bytes_of token))"

definition normalizeUsername :: "string \<Rightarrow> string" where
  "normalizeUsername username = to_lower (trim_space username)"

definition randomToken :: "8 word list \<Rightarrow> string" where
  "randomToken bytes = b64_encode url_alphabet bytes"

definition PermissionsForRole :: "string \<Rightarrow> string list" where
  "PermissionsForRole role =
    (if role = RoleAdmin then [PermissionAdmin, PermissionOperate, PermissionOpenConsole,
        PermissionControl, PermissionTest, PermissionView]
     else if role = RoleOperator then [PermissionOperate, PermissionOpenConsole,
        PermissionControl, PermissionTest, PermissionView]
     else [PermissionView])"

definition PrincipalForUser :: "User \<Rightarrow> Principal" where
  "PrincipalForUser u =
    \<lparr>prin_UserID = usr_ID u, prin_Username = usr_Username u, prin_DisplayName = usr_DisplayName u,
     prin_Role = usr_Role u, prin_Permissions = PermissionsForRole (usr_Role u)\<rparr>"

definition HasPermission :: "Principal \<Rightarrow> string \<Rightarrow> bool" where
  "HasPermission p permission =
    list_ex (\<lambda>c. c = permission \<or> c = PermissionAdmin) (prin_Permissions p)"

definition BootstrapRequired :: "db \<Rightarrow> bool" where
  "BootstrapRequired d = (UserCount d = 0)"

text \<open>The random bytes are those of the user's identifier and of the salt.\<close>

definition BootstrapAdmin ::
  "(8 word list \<Rightarrow> 8 word list \<Rightarrow> 8 word list) \<Rightarrow> time \<Rightarrow> 8 word list \<Rightarrow> 8 word list
    \<Rightarrow> string \<Rightarrow> string \<Rightarrow> string \<Rightarrow> db \<Rightarrow> Principal res \<times> db" where
  "BootstrapAdmin hmac now rnd salt reqUsername reqDisplayName password d =
    (if \<not> BootstrapRequired d then (Inl (Err ''admin user already exists''), d)
     else
       let username = normalizeUsername reqUsername in
       if username = [] \<or> length password < 12
       then (Inl (Err ''username and a 12 character password are required''), d)
       else
         let t = trim_space reqDisplayName;
             displayName = (if t = [] then username else t)
         in case CreateUser now rnd username displayName RoleAdmin (HashPassword hmac salt password) d of
              (Inl err, d') \<Rightarrow> (Inl err, d')
            | (Inr u, d') \<Rightarrow> (Inr (PrincipalForUser u), d'))"

definition Login ::
  "(8 word list \<Rightarrow> 8 word list \<Rightarrow> 8 word list) \<Rightarrow> (8 word list \<Rightarrow> 8 word list) \<Rightarrow> time
    \<Rightarrow> 8 word list \<Rightarrow> 8 word list \<Rightarrow> string \<Rightarrow> string \<Rightarrow> db \<Rightarrow> (string \<times> Principal \<times> time) res \<times> db" where
  "Login hmac sha now rnd tokenBytes reqUsername password d =
    (case GetUserByUsername (normalizeUsername reqUsername) d of
       Inl _ \<Rightarrow> (Inl ErrUnauthorized, d)
     | Inr u \<Rightarrow>
         (if usr_Disabled u then (Inl ErrUnauthorized, d)
          else if \<not> VerifyPassword hmac password (usr_PasswordHash u) then (Inl ErrUnauthorized, d)
          else
            let token = randomToken tokenBytes; expiresAt = now + sessionDuration
            in case CreateSession now rnd (usr_ID u) (TokenHash sha token) expiresAt d of
                 (Inl err, d') \<Rightarrow> (Inl err, d')
               | (Inr _, d') \<Rightarrow> (Inr (token, PrincipalForUser u, expiresAt), d')))"

text \<open>The request is seen through its session cookie, None when there is none.\<close>

definition AuthenticateRequest ::
  "(8 word list \<Rightarrow> 8 word list) \<Rightarrow> time \<Rightarrow> string option \<Rightarrow> db \<Rightarrow> (Principal \<times> string) res" where
  "AuthenticateRequest sha now cookie d =
    (case cookie of
       None \<Rightarrow> Inl ErrUnauthorized
     | Some v \<Rightarrow>
         (if v = [] then Inl ErrUnauthorized
          else case GetSessionUser now (TokenHash sha v) d of
                 Inl _ \<Rightarrow> Inl ErrUnauthorized
               | Inr (_, u) \<Rightarrow> Inr (PrincipalForUser u, v)))"

definition Logout :: "(8 word list \<Rightarrow> 8 word list) \<Rightarrow> string \<Rightarrow> db \<Rightarrow> db" where
  "Logout sha token d = (if token = [] then d else DeleteSession (TokenHash sha token) d)"

section \<open>Properties of the password hash\<close>

lemma itoa_iterations: "itoa pbkdf2Iterations = ''210000''"
  by code_simp

lemma sscanf_iterations: "sscanf_d ''210000'' = Some pbkdf2Iterations"
  by (simp add: sscanf_d_def atoi_def is_space_def is_digit_def pbkdf2Iterations_def Let_def)

lemma length_pbkdf2_loop:
  "(\<And>m. length (prf m) = 32) \<Longrightarrow> length t = 32 \<Longrightarrow> length (pbkdf2_loop prf n u t) = 32"
  by (induction n arbitrary: u t) (simp_all add: Let_def)

lemma length_pbkdf2Key:
  assumes "\<And>k m. length (hmac k m) = 32"
  shows "length (pbkdf2Key hmac pw salt iter pbkdf2KeyLen) = pbkdf2KeyLen"
proof -
  have "length (pbkdf2_block (hmac pw) salt iter i) = 32" for i
    using assms by (simp add: pbkdf2_block_def Let_def length_pbkdf2_loop)
  then show ?thesis by (simp add: pbkdf2Key_def pbkdf2KeyLen_def Let_def)
qed

lemma HashPassword_parts:
  "split_char (CHR ''$'') (HashPassword hmac salt pw)
    = [''pbkdf2-sha256'', ''210000'', b64_encode std_alphabet salt,
       b64_encode std_alphabet (pbkdf2Key hmac (bytes_of pw) salt pbkdf2Iterations pbkdf2KeyLen)]"
proof -
  have no: "CHR ''$'' \<notin> set (b64_encode std_alphabet bs)" for bs
    using b64_encode_set std_alphabet_facts(3) by blast
  have h: "HashPassword hmac salt pw = ''pbkdf2-sha256'' @ CHR ''$'' # ''210000'' @ CHR ''$'' #
      b64_encode std_alphabet salt @ CHR ''$'' #
      b64_encode std_alphabet (pbkdf2Key hmac (bytes_of pw) salt pbkdf2Iterations pbkdf2KeyLen)"
    by (simp add: HashPassword_def itoa_iterations Let_def)
  show ?thesis unfolding h
    by (subst split_char_append, simp)+ (simp add: split_char_id no split_char_append)
qed

section \<open>Properties\<close>

text \<open>A stored password hash accepts exactly the passwords that derive the same key: the
  hash that HashPassword writes is read back by VerifyPassword (encoding, iteration count and salt
  included), and in particular the password itself is accepted.\<close>

theorem VerifyPassword_HashPassword:
  assumes "\<And>k m. length (hmac k m) = 32"
  shows "VerifyPassword hmac q (HashPassword hmac salt p)
    \<longleftrightarrow> pbkdf2Key hmac (bytes_of q) salt pbkdf2Iterations pbkdf2KeyLen
        = pbkdf2Key hmac (bytes_of p) salt pbkdf2Iterations pbkdf2KeyLen"
  by (simp add: VerifyPassword_def HashPassword_parts b64_roundtrip sscanf_iterations
      length_pbkdf2Key[OF assms])

definition toy_hmac :: "8 word list \<Rightarrow> 8 word list \<Rightarrow> 8 word list" where
  "toy_hmac k m = take 32 (k @ m @ replicate 32 0)"

theorem VerifyPassword_HashPassword_witness:
  "VerifyPassword toy_hmac ''correct horse'' (HashPassword toy_hmac [1, 2, 3] ''correct horse'')"
proof -
  have "length (toy_hmac k m) = 32" for k m by (simp add: toy_hmac_def)
  from VerifyPassword_HashPassword[of toy_hmac "''correct horse''" "[1, 2, 3]" "''correct horse''", OF this]
  show ?thesis by blast
qed

text \<open>A stored hash with an empty key part would accept every password.\<close>

lemma VerifyPassword_empty_key: "VerifyPassword hmac q ''pbkdf2-sha256$1$$''"
  by (simp add: VerifyPassword_def sscanf_d_def atoi_def is_space_def is_digit_def Let_def
      b64_decode_def pbkdf2Key_def)

lemma randomToken_Nil_iff: "randomToken bs = [] \<longleftrightarrow> bs = []"
  by (cases bs rule: b64_groups.cases) (simp_all add: randomToken_def b64_encode_def)

text \<open>What a successful login did.\<close>

lemma Login_Inr:
  assumes "Login hmac sha now rnd tb un pw d = (Inr (tok, p, ex), d')"
  obtains u s where "GetUserByUsername (normalizeUsername un) d = Inr u" "\<not> usr_Disabled u"
    "VerifyPassword hmac pw (usr_PasswordHash u)" "tok = randomToken tb" "p = PrincipalForUser u"
    "ex = now + sessionDuration"
    "CreateSession now rnd (usr_ID u) (TokenHash sha tok) ex d = (Inr s, d')"
  using assms by (auto simp: Login_def Let_def split: sum.splits if_splits prod.splits)

lemma CreateSession_Inr:
  assumes "CreateSession now rnd uid h ex d = (Inr s, d')"
  shows "s \<in> set (db_sessions d')" "ses_TokenHash s = h" "ses_UserID s = uid"
    "ses_ExpiresAt s = ex" "db_users d' = db_users d"
  using assms by (auto simp: CreateSession_def Let_def tbl_insert_Inr split: sum.splits if_splits)

lemma GetUserByUsername_find:
  assumes "auth_inv d" "GetUserByUsername un d = Inr u"
  shows "tbl_find usr_ID (usr_ID u) (db_users d) = Some u"
  using assms by (auto simp: GetUserByUsername_def scan_row_Inr auth_inv_def
      dest!: tbl_find_Some intro: tbl_find_unique)

text \<open>C15: the token of a successful login authenticates as the user that logged in until the
  second of its expiry, twelve hours later, is not accepted once that second has passed, and is not accepted
  any more after Logout.\<close>

theorem Login_session:
  assumes "auth_inv d" and "Login hmac sha now rnd tb un pw d = (Inr (tok, p, ex), d')" and "tb \<noteq> []"
    and "in_range t" and "in_range ex"
  shows "ex = now + 12 * hour
    \<and> (t div second < ex div second \<longrightarrow> AuthenticateRequest sha t (Some tok) d' = Inr (p, tok))
    \<and> (ex div second < t div second \<longrightarrow> AuthenticateRequest sha t (Some tok) d' = Inl ErrUnauthorized)
    \<and> AuthenticateRequest sha t (Some tok) (Logout sha tok d') = Inl ErrUnauthorized"
proof -
  obtain u s where u: "GetUserByUsername (normalizeUsername un) d = Inr u" "\<not> usr_Disabled u"
    and tok: "tok = randomToken tb" and p: "p = PrincipalForUser u" and ex: "ex = now + sessionDuration"
    and cs: "CreateSession now rnd (usr_ID u) (TokenHash sha tok) ex d = (Inr s, d')"
    using Login_Inr[OF assms(2)] by metis
  note s = CreateSession_Inr[OF cs]
  have inv: "auth_inv d'" using auth_inv_CreateSession[OF assms(1)] cs by (metis snd_conv)
  have ne: "tok \<noteq> []" using assms(3) tok by (simp add: randomToken_Nil_iff)
  have usr: "tbl_find usr_ID (ses_UserID s) (db_users d') = Some u"
    using GetUserByUsername_find[OF assms(1) u(1)] s by simp
  have le: "0 \<le> t" "0 \<le> ex" using assms(4,5) by (simp_all add: in_range_def)
  have 1: "AuthenticateRequest sha t (Some tok) d' = Inr (p, tok)" if "t div second < ex div second"
  proof -
    have "text_less t (ses_ExpiresAt s)"
      using formatTime_less[OF le(1) assms(5) that] s by (simp add: text_less_def)
    then have "GetSessionUser t (TokenHash sha tok) d' = Inr (s, u)"
      using GetSessionUser_unique[OF inv s(1) usr u(2)] s by simp
    then show ?thesis using ne p by (simp add: AuthenticateRequest_def)
  qed
  have 2: "AuthenticateRequest sha t (Some tok) d' = Inl ErrUnauthorized" if "ex div second < t div second"
  proof (cases "GetSessionUser t (TokenHash sha tok) d'")
    case (Inr r)
    obtain s' u' where r: "r = (s', u')" by fastforce
    note g = GetSessionUser_Inr[OF Inr[unfolded r]]
    have "s' = s" using g s inv by (auto simp: auth_inv_def unique_keys_def distinct_map inj_on_def)
    then have "text_less t ex" using g s by simp
    moreover have "formatTime ex < formatTime t"
      using formatTime_less[OF le(2) assms(4) that] .
    ultimately show ?thesis by (simp add: text_less_def)
  qed (simp add: AuthenticateRequest_def ne)
  have "\<not> live_session t (TokenHash sha tok) (Logout sha tok d') x"
    if "x \<in> set (db_sessions (Logout sha tok d'))" for x
    using that ne by (auto simp: Logout_def DeleteSession_def live_session_def)
  then have "GetSessionUser t (TokenHash sha tok) (Logout sha tok d') = Inl ErrNoRows"
    by (auto simp: GetSessionUser_def find_None_iff split: option.splits dest!: find_SomeD)
  then have 3: "AuthenticateRequest sha t (Some tok) (Logout sha tok d') = Inl ErrUnauthorized"
    by (simp add: AuthenticateRequest_def ne)
  from 1 2 3 ex show ?thesis by (simp add: sessionDuration_def)
qed

text \<open>The permissions of a role: the administrator has every permission, an operator
  exactly the five that are listed, and every other role, viewer included, only view.\<close>

theorem HasPermission_roles:
  "HasPermission (PrincipalForUser u) perm \<longleftrightarrow>
     usr_Role u = RoleAdmin
     \<or> usr_Role u = RoleOperator \<and>
        perm \<in> {PermissionOperate, PermissionOpenConsole, PermissionControl, PermissionTest, PermissionView}
     \<or> perm = PermissionView"
  by (auto simp: HasPermission_def PrincipalForUser_def PermissionsForRole_def)

text \<open>Every password change of the model needs a user; only BootstrapAdmin makes one.\<close>

inductive auth_step ::
  "(8 word list \<Rightarrow> 8 word list \<Rightarrow> 8 word list) \<Rightarrow> (8 word list \<Rightarrow> 8 word list) \<Rightarrow> db \<Rightarrow> db \<Rightarrow> bool"
  for hmac sha where
  bootstrap: "auth_step hmac sha d (snd (BootstrapAdmin hmac now rnd salt un dn pw d))"
| login: "auth_step hmac sha d (snd (Login hmac sha now rnd tb un pw d))"
| logout: "auth_step hmac sha d (Logout sha token d)"
| prune: "auth_step hmac sha d (PruneExpiredSessions now d)"
| audit: "auth_step hmac sha d (snd (CreateAuditEvent now rnd ev d))"
| setting: "auth_step hmac sha d (SetSetting now k v d)"

inductive auth_reachable ::
  "(8 word list \<Rightarrow> 8 word list \<Rightarrow> 8 word list) \<Rightarrow> (8 word list \<Rightarrow> 8 word list) \<Rightarrow> db \<Rightarrow> bool"
  for hmac sha where
  auth_init: "auth_reachable hmac sha empty_db"
| auth_next: "auth_reachable hmac sha d \<Longrightarrow> auth_step hmac sha d d' \<Longrightarrow> auth_reachable hmac sha d'"

definition one_admin :: "db \<Rightarrow> bool" where
  "one_admin d = (auth_inv d \<and> UserCount d \<le> 1 \<and> list_all (\<lambda>u. usr_Role u = RoleAdmin) (db_users d))"

lemma one_admin_same_users:
  "one_admin d \<Longrightarrow> auth_inv d' \<Longrightarrow> db_users d' = db_users d \<Longrightarrow> one_admin d'"
  by (simp add: one_admin_def UserCount_def)

lemma one_admin_bootstrap:
  assumes "one_admin d"
  shows "one_admin (snd (BootstrapAdmin hmac now rnd salt un dn pw d))"
proof (cases "\<not> BootstrapRequired d \<or> normalizeUsername un = [] \<or> length pw < 12")
  case True
  then show ?thesis using assms by (auto simp: BootstrapAdmin_def Let_def)
next
  case False
  define dn' where "dn' = (if trim_space dn = [] then normalizeUsername un else trim_space dn)"
  obtain r d' where c: "CreateUser now rnd (normalizeUsername un) dn' RoleAdmin (HashPassword hmac salt pw) d = (r, d')"
    by fastforce
  have "snd (BootstrapAdmin hmac now rnd salt un dn pw d) = d'"
    using False c by (auto simp: BootstrapAdmin_def Let_def dn'_def split: sum.splits)
  moreover have "auth_inv d'" using auth_inv_CreateUser c assms by (metis one_admin_def snd_conv)
  moreover have "UserCount d' \<le> 1 \<and> list_all (\<lambda>u. usr_Role u = RoleAdmin) (db_users d')"
    using c False assms
    by (auto simp: CreateUser_def Let_def BootstrapRequired_def UserCount_def tbl_insert_Inr one_admin_def
        split: sum.splits if_splits)
  ultimately show ?thesis by (simp add: one_admin_def)
qed

lemma Login_users:
  "db_users (snd (Login hmac sha now rnd tb un pw d)) = db_users d"
  by (auto simp: Login_def CreateSession_def Let_def split: sum.splits if_splits)

lemma auth_inv_Login: "auth_inv d \<Longrightarrow> auth_inv (snd (Login hmac sha now rnd tb un pw d))"
proof -
  assume inv: "auth_inv d"
  have "CreateSession now rnd uid h ex d = (r, d') \<Longrightarrow> auth_inv d'" for uid h ex r d'
    using auth_inv_CreateSession[OF inv] by (metis snd_conv)
  then show ?thesis using inv by (auto simp: Login_def Let_def split: sum.splits prod.splits)
qed

lemma CreateAuditEvent_users: "db_users (snd (CreateAuditEvent now rnd ev d)) = db_users d"
  by (simp add: CreateAuditEvent_def Let_def split: sum.split)

lemma auth_step_one_admin: "auth_step hmac sha d d' \<Longrightarrow> one_admin d \<Longrightarrow> one_admin d'"
proof (induction rule: auth_step.induct)
  case (bootstrap d now rnd salt un dn pw)
  then show ?case by (rule one_admin_bootstrap)
next
  case (login d now rnd tb un pw)
  then show ?case
    by (rule one_admin_same_users) (simp_all add: Login_users auth_inv_Login login[unfolded one_admin_def])
next
  case (logout d token)
  then show ?case
    by (rule one_admin_same_users)
      (simp_all add: Logout_def DeleteSession_def auth_inv_filter_sessions logout[unfolded one_admin_def])
next
  case (prune d now)
  then show ?case
    by (rule one_admin_same_users)
      (simp_all add: PruneExpiredSessions_def auth_inv_filter_sessions prune[unfolded one_admin_def])
next
  case (audit d now rnd ev)
  show ?case using audit
    by (rule one_admin_same_users)
      (simp_all add: auth_inv_CreateAuditEvent audit[unfolded one_admin_def] CreateAuditEvent_users)
next
  case (setting d now k v)
  then show ?case
    by (rule one_admin_same_users) (simp_all add: auth_inv_SetSetting setting[unfolded one_admin_def],
        simp add: SetSetting_def)
qed


definition sample_admin :: db where
  "sample_admin = snd (CreateUser 0 [1] ''root'' ''Root'' RoleAdmin ''pbkdf2-sha256$1$AA$Y29y'' empty_db)"

definition sample_bootstrapped :: db where
  "sample_bootstrapped = snd (BootstrapAdmin toy_hmac 0 [1] [2] '' Root '' '''' ''correct horse'' empty_db)"


theorem Login_session_witness:
  "AuthenticateRequest id (5 * second) (Some (randomToken [7])) (snd (Login toy_hmac id 0 [3] [7] ''Root'' ''correct'' sample_admin))
    = Inr (PrincipalForUser (hd (db_users sample_admin)), randomToken [7])"
proof -
  have inv: "auth_inv sample_admin" unfolding sample_admin_def
    by (rule auth_inv_CreateUser) (simp add: auth_inv_def empty_db_def)
  have ok: "fst (Login toy_hmac id 0 [3] [7] ''Root'' ''correct'' sample_admin)
      = Inr (randomToken [7], PrincipalForUser (hd (db_users sample_admin)), 12 * hour)"
    by code_simp
  have l: "Login toy_hmac id 0 [3] [7] ''Root'' ''correct'' sample_admin
      = (Inr (randomToken [7], PrincipalForUser (hd (db_users sample_admin)), 12 * hour),
         snd (Login toy_hmac id 0 [3] [7] ''Root'' ''correct'' sample_admin))"
    using ok by (simp only: prod_eq_iff fst_conv snd_conv simp_thms)
  have "in_range (5 * second)" "in_range (12 * hour)" by code_simp+
  moreover have "5 * second div second < 12 * hour div second" by code_simp
  ultimately show ?thesis using Login_session[OF inv l] by blast
qed

end
