(* ===== verification/Database.thy ===== *)
theory Database
  imports Store_Instances Store_Tests Auth
begin

text \<open>
  The database as a whole: the statements of the three groups of tables (devices, tests, accounts)
  put together as one step relation, and the invariant that they keep together.  A statement of one
  group leaves the tables of the others alone, so the invariants of the groups add up.
\<close>

section \<open>The tables of the groups\<close>

definition fleet_tables :: "db \<Rightarrow> Image list \<times> InstanceRow list \<times> Operation list" where
  "fleet_tables d = (db_images d, db_instances d, db_operations d)"

definition test_tables ::
  "db \<Rightarrow> Test list \<times> TestRun list \<times> TestCase list \<times> CaseFolder list \<times> TestCycle list \<times> CycleRun list \<times> Build list" where
  "test_tables d =
    (db_tests d, db_test_runs d, db_cases d, db_folders d, db_cycles d, db_cycle_runs d, db_builds d)"

definition account_tables :: "db \<Rightarrow> User list \<times> Session list \<times> AuditEvent list \<times> Setting list" where
  "account_tables d = (db_users d, db_sessions d, db_audit d, db_settings d)"

lemma fleet_inv_frame: "fleet_tables d' = fleet_tables d \<Longrightarrow> fleet_inv d' = fleet_inv d"
  by (simp add: fleet_tables_def fleet_inv_def)

lemma tests_inv_frame: "test_tables d' = test_tables d \<Longrightarrow> tests_inv d' = tests_inv d"
  by (simp add: test_tables_def tests_inv_def)

lemma one_admin_frame: "account_tables d' = account_tables d \<Longrightarrow> one_admin d' = one_admin d"
  by (simp add: account_tables_def one_admin_def auth_inv_def UserCount_def)

lemmas tables = fleet_tables_def test_tables_def account_tables_def

section \<open>Statements leave the other groups alone\<close>

definition not_fleet :: "db \<Rightarrow> _" where
  "not_fleet d = (test_tables d, account_tables d)"

lemma not_fleet_update [simp]:
  "not_fleet (d\<lparr>db_images := x\<rparr>) = not_fleet d" "not_fleet (d\<lparr>db_instances := y\<rparr>) = not_fleet d"
  "not_fleet (d\<lparr>db_operations := z\<rparr>) = not_fleet d"
  by (simp_all add: not_fleet_def tables)

lemma insertImage_frame: "insertImage img d = Inr d' \<Longrightarrow> not_fleet d' = not_fleet d"
  by (auto simp: insertImage_def split: sum.splits)

lemma insert_instance_frame: "insert_instance row d = Inr d' \<Longrightarrow> not_fleet d' = not_fleet d"
  by (auto simp: insert_instance_def split: sum.splits option.splits if_splits)

lemma CreateImage_frame [simp]: "not_fleet (snd (CreateImage e now rnd req d)) = not_fleet d"
  by (auto simp: CreateImage_def Let_def split: sum.splits dest: insertImage_frame)

lemma version_image_frame [simp]: "not_fleet (snd (GetOrCreateVersionImage e now rnd v l b d)) = not_fleet d"
  unfolding GetOrCreateVersionImage_def Let_def
  by (auto split: sum.splits option.splits dest: insertImage_frame)

lemma default_image_frame [simp]: "not_fleet (snd (GetOrCreateDefaultImage e now rnd d)) = not_fleet d"
  unfolding GetOrCreateDefaultImage_def Let_def by (auto split: sum.splits option.splits)

lemma default_image_pair:
  "GetOrCreateDefaultImage e now rnd d = (r, d') \<Longrightarrow> not_fleet d' = not_fleet d"
  using default_image_frame by (metis snd_conv)

lemma create_instance_frame [simp]: "not_fleet (snd (CreateInstance e now ri rnd creq d)) = not_fleet d"
  unfolding CreateInstance_def Let_def
  by (auto split: sum.splits prod.splits if_splits dest!: default_image_pair insert_instance_frame)

lemma create_physical_frame [simp]: "not_fleet (snd (CreatePhysicalAndroid e now ri rnd name tgt d)) = not_fleet d"
  unfolding CreatePhysicalAndroid_def Let_def
  by (auto split: sum.splits prod.splits option.splits dest!: default_image_pair insert_instance_frame)

lemma create_desktop_frame [simp]: "not_fleet (snd (CreateDesktopInstance e now ri rnd name plat h d)) = not_fleet d"
  unfolding CreateDesktopInstance_def Let_def
  by (auto split: sum.splits prod.splits dest!: default_image_pair insert_instance_frame)

lemma fleet_step_frame: "fleet_step d d' \<Longrightarrow> not_fleet d' = not_fleet d"
  by (induction rule: fleet_step.induct)
    (auto simp: UpdateImageStatus_def DeleteImage_def UpdateInstanceState_def UpdateInstanceConsole_def
      UpdateInstanceDisplay_def update_instance_def SetDesktopTokenHash_def DeleteInstance_def
      CreateOperation_def FinishOperation_def Let_def split: sum.splits)

definition not_tests :: "db \<Rightarrow> _" where
  "not_tests d = (fleet_tables d, account_tables d)"

lemma not_tests_update [simp]:
  "not_tests (d\<lparr>db_tests := a\<rparr>) = not_tests d" "not_tests (d\<lparr>db_test_runs := b\<rparr>) = not_tests d"
  "not_tests (d\<lparr>db_cases := c\<rparr>) = not_tests d" "not_tests (d\<lparr>db_folders := f\<rparr>) = not_tests d"
  "not_tests (d\<lparr>db_cycles := g\<rparr>) = not_tests d" "not_tests (d\<lparr>db_cycle_runs := h\<rparr>) = not_tests d"
  "not_tests (d\<lparr>db_builds := i\<rparr>) = not_tests d"
  by (simp_all add: not_tests_def tables)

lemma insertTestCase_frame: "insertTestCase c d = Inr d' \<Longrightarrow> not_tests d' = not_tests d"
  by (auto simp: insertTestCase_def split: sum.splits)

lemma bulk_insert_frame: "bulk_insert now rnds cs n d = Inr (m, d') \<Longrightarrow> not_tests d' = not_tests d"
  by (induction now rnds cs n d rule: bulk_insert.induct)
    (auto split: if_splits sum.splits dest: insertTestCase_frame)

lemma writeTestCycle_frame: "writeTestCycle c ins d = Inr d' \<Longrightarrow> not_tests d' = not_tests d"
  by (auto simp: writeTestCycle_def split: if_splits sum.splits)

lemma tests_step_frame: "tests_step d d' \<Longrightarrow> not_tests d' = not_tests d"
  by (induction rule: tests_step.induct)
    (auto simp: CreateTest_def DeleteTest_def CreateTestRun_def UpdateTestRun_def AppendStep_def CreateTestCase_def
      BulkCreateCases_def CreateCaseFolder_def DeleteCaseFolder_def UpdateTestCase_def DeleteTestCase_def
      CreateTestCycle_def UpdateTestCycle_def DeleteTestCycle_def SetCycleSchedule_def CreateCycleRun_def
      UpdateCycleRun_def FailStrandedCycleRuns_def DeleteCycleRun_def CreateCaseRun_def CreateBuild_def
      UpdateBuildStatus_def SetBuildLocation_def Let_def
      split: sum.splits dest: insertTestCase_frame bulk_insert_frame writeTestCycle_frame)

definition not_accounts :: "db \<Rightarrow> _" where
  "not_accounts d = (fleet_tables d, test_tables d)"

lemma not_accounts_update [simp]:
  "not_accounts (d\<lparr>db_users := a\<rparr>) = not_accounts d" "not_accounts (d\<lparr>db_sessions := b\<rparr>) = not_accounts d"
  "not_accounts (d\<lparr>db_audit := c\<rparr>) = not_accounts d" "not_accounts (d\<lparr>db_settings := f\<rparr>) = not_accounts d"
  by (simp_all add: not_accounts_def tables)

lemma CreateUser_frame: "CreateUser now rnd un dn role ph d = (r, d') \<Longrightarrow> not_accounts d' = not_accounts d"
  by (auto simp: CreateUser_def Let_def split: sum.splits if_splits)

lemma CreateSession_frame: "CreateSession now rnd u h ex d = (r, d') \<Longrightarrow> not_accounts d' = not_accounts d"
  by (auto simp: CreateSession_def Let_def split: sum.splits if_splits)

lemma BootstrapAdmin_frame [simp]:
  "not_accounts (snd (BootstrapAdmin hmac now rnd salt un dn pw d)) = not_accounts d"
  unfolding BootstrapAdmin_def Let_def
  by (auto simp del: One_nat_def split: sum.splits prod.splits dest: CreateUser_frame)

lemma Login_frame [simp]: "not_accounts (snd (Login hmac sha now rnd tb un pw d)) = not_accounts d"
  unfolding Login_def Let_def by (auto split: sum.splits prod.splits dest: CreateSession_frame)

lemma audit_frame [simp]: "not_accounts (snd (CreateAuditEvent now rnd ev d)) = not_accounts d"
proof -
  have "not_accounts (snd (case tbl_insert aud_ID e (db_audit d) of
      Inl err \<Rightarrow> (Inl err, d) | Inr t \<Rightarrow> (Inr e, d\<lparr>db_audit := t\<rparr>))) = not_accounts d" for e :: AuditEvent
    by (simp split: sum.split)
  then show ?thesis unfolding CreateAuditEvent_def Let_def .
qed

lemma auth_step_frame: "auth_step hmac sha d d' \<Longrightarrow> not_accounts d' = not_accounts d"
  by (induction rule: auth_step.induct)
    (simp_all add: Logout_def DeleteSession_def PruneExpiredSessions_def SetSetting_def)

section \<open>Every statement keeps the invariant of the database\<close>

inductive db_step ::
  "(8 word list \<Rightarrow> 8 word list \<Rightarrow> 8 word list) \<Rightarrow> (8 word list \<Rightarrow> 8 word list) \<Rightarrow> db \<Rightarrow> db \<Rightarrow> bool"
  for hmac sha where
  on_fleet: "fleet_step d d' \<Longrightarrow> db_step hmac sha d d'"
| on_tests: "tests_step d d' \<Longrightarrow> db_step hmac sha d d'"
| on_accounts: "auth_step hmac sha d d' \<Longrightarrow> db_step hmac sha d d'"

definition db_inv :: "db \<Rightarrow> bool" where
  "db_inv d = (fleet_inv d \<and> tests_inv d \<and> one_admin d)"

lemma db_inv_empty: "db_inv empty_db"
  by (simp add: db_inv_def fleet_inv_def tests_inv_def one_admin_def auth_inv_def UserCount_def empty_db_def
      physical_targets_def vm_ports_def)

lemma db_step_inv: "db_step hmac sha d d' \<Longrightarrow> db_inv d \<Longrightarrow> db_inv d'"
proof (induction rule: db_step.induct)
  case (on_fleet d d')
  then have "not_fleet d' = not_fleet d" by (simp add: fleet_step_frame)
  then have "tests_inv d' = tests_inv d" "one_admin d' = one_admin d"
    by (simp_all add: not_fleet_def tests_inv_frame[of d' d] one_admin_frame[of d' d])
  then show ?case using on_fleet fleet_step_inv[of d d'] by (simp add: db_inv_def)
next
  case (on_tests d d')
  then have "not_tests d' = not_tests d" by (simp add: tests_step_frame)
  then have "fleet_inv d' = fleet_inv d" "one_admin d' = one_admin d"
    by (simp_all add: not_tests_def fleet_inv_frame[of d' d] one_admin_frame[of d' d])
  then show ?case using on_tests tests_step_inv[of d d'] by (simp add: db_inv_def)
next
  case (on_accounts d d')
  then have "not_accounts d' = not_accounts d" by (simp add: auth_step_frame)
  then have "fleet_inv d' = fleet_inv d" "tests_inv d' = tests_inv d"
    by (simp_all add: not_accounts_def fleet_inv_frame[of d' d] tests_inv_frame[of d' d])
  then show ?case using on_accounts auth_step_one_admin[of hmac sha d d'] by (simp add: db_inv_def)
qed

lemma db_steps_inv: "(db_step hmac sha)\<^sup>*\<^sup>* d d' \<Longrightarrow> db_inv d \<Longrightarrow> db_inv d'"
  by (induction rule: rtranclp_induct) (auto dest: db_step_inv)

end
