(* ===== verification/Orchestrator.thy ===== *)
theory Orchestrator
  imports Store_Instances
begin

text \<open>
  The lifecycle of Cuttlefish devices, backend/internal/orchestrator/service.go.
  A handler (StartInstance, Deploy, StopInstance, DeleteInstance) checks the state
  of the device, records an operation and a new state, and hands the rest to a
  background job (runStart, runDeploy, runStop, runDelete).  The host is a
  parameter: what a command prints and whether it fails may depend on every
  command run before it.  The world is the database and the log of the commands
  run so far.  All writes of one job carry the same instant now, since no
  step of a job compares instants; the context deadlines show as failures of the host.
\<close>

text \<open>A command: working directory (empty for none), program, arguments.\<close>

type_synonym command = "string \<times> string \<times> string list"

record host =
  host_exec :: "command list \<Rightarrow> command \<Rightarrow> string \<times> go_error option"
  host_look :: "string \<Rightarrow> bool"
  host_polls :: nat
  host_webrtc :: "go_error option"
  host_discover :: "Instance \<Rightarrow> string option"
  host_mkdir :: "string \<Rightarrow> go_error option"
  host_populated :: "string \<Rightarrow> bool"
  host_fs :: file_system

record world =
  w_db :: db
  w_log :: "command list"

definition run_command ::
  "host \<Rightarrow> string \<Rightarrow> string \<Rightarrow> string list \<Rightarrow> world \<Rightarrow> (string \<times> go_error option) \<times> world" where
  "run_command h dir cmd args w =
    (host_exec h (w_log w) (dir, cmd, args), w\<lparr>w_log := w_log w @ [(dir, cmd, args)]\<rparr>)"

definition realCuttlefishExecutionEnabled :: "env \<Rightarrow> bool" where
  "realCuttlefishExecutionEnabled e = (env_Getenv e ''OPENCUTTLES_EXECUTE_CVD'' = ''1'')"

definition instanceRoot :: "env \<Rightarrow> string" where
  "instanceRoot e =
    (let root = trim_space (env_Getenv e ''OPENCUTTLES_INSTANCE_ROOT'')
     in if root = [] then ''/var/lib/opencuttles/instances'' else root)"

definition groupName :: "int \<Rightarrow> string" where
  "groupName instanceNumber = ''cvd_'' @ itoa instanceNumber"

definition instance_number :: "Instance \<Rightarrow> int" where
  "instance_number i = inst_ADBPort i - 6520 + 1"

definition isPossiblyLive :: "string \<Rightarrow> bool" where
  "isPossiblyLive state =
    (state \<in> {StateStarting, StateBooting, StateRunning, StateStopping, StateError})"

text \<open>setState and finishOp only log a failed write.\<close>

definition setState :: "time \<Rightarrow> string \<Rightarrow> string \<Rightarrow> string \<Rightarrow> world \<Rightarrow> world" where
  "setState now iid state message w =
    w\<lparr>w_db := snd (UpdateInstanceState now iid state message (w_db w))\<rparr>"

definition finishOp :: "time \<Rightarrow> string \<Rightarrow> string \<Rightarrow> string \<Rightarrow> world \<Rightarrow> world" where
  "finishOp now oid status message w =
    w\<lparr>w_db := snd (FinishOperation now oid status message (w_db w))\<rparr>"

definition command_failed :: "string \<Rightarrow> go_error \<Rightarrow> string \<Rightarrow> go_error" where
  "command_failed what err output = ErrWrap (what @ '' failed: '') (ErrNote err ('': '' @ output))"

section \<open>Commands to Cuttlefish\<close>

definition startCommand ::
  "host \<Rightarrow> string list \<Rightarrow> string \<Rightarrow> string \<Rightarrow> string \<Rightarrow> string \<times> string list" where
  "startCommand h launchArgs imagePath instanceDir grp =
    (if host_look h ''launch_cvd''
     then (''launch_cvd'', launchArgs @ [''--system_image_dir='' @ imagePath, ''--instance_dir='' @ instanceDir])
     else (''cvd'', [''create''] @ launchArgs @
           [''--host_path='' @ imagePath, ''--product_path='' @ imagePath, ''--group_name='' @ grp]))"

definition clearStaleGroup :: "host \<Rightarrow> string \<Rightarrow> int \<Rightarrow> world \<Rightarrow> world" where
  "clearStaleGroup h dir instanceNumber w =
    (if host_look h ''launch_cvd'' then w
     else
       let grp = groupName instanceNumber;
           w1 = snd (run_command h dir ''cvd'' [''stop'', ''--group_name='' @ grp] w)
       in snd (run_command h dir ''cvd'' [''remove'', ''--group_name='' @ grp] w1))"

definition launch_args :: "Instance \<Rightarrow> string list" where
  "launch_args i =
    [''--num_instances=1'', ''--base_instance_num='' @ itoa (instance_number i), ''--start_webrtc=true'',
     ''--cpus='' @ itoa (inst_CPUCores i), ''--memory_mb='' @ itoa (inst_MemoryMB i)]
    @ (if 0 < inst_DisplayWidth i \<and> 0 < inst_DisplayHeight i
       then [''--x_res='' @ itoa (inst_DisplayWidth i), ''--y_res='' @ itoa (inst_DisplayHeight i)] else [])
    @ (if 0 < inst_DPI i then [''--dpi='' @ itoa (inst_DPI i)] else [])"

definition launch :: "env \<Rightarrow> host \<Rightarrow> Instance \<Rightarrow> world \<Rightarrow> unit res \<times> world" where
  "launch e h i w =
    (case GetImage (inst_ImageID i) (w_db w) of
       Inl err \<Rightarrow> (Inl (ErrWrap ''image lookup: '' err), w)
     | Inr img \<Rightarrow>
         (case ValidateImagePath e (host_fs h) (img_Path img) (realCuttlefishExecutionEnabled e) of
            Inl err \<Rightarrow> (Inl err, w)
          | Inr _ \<Rightarrow>
              (if \<not> realCuttlefishExecutionEnabled e then (Inr (), w)
               else
                 let dir = path_join [instanceRoot e, inst_ID i] in
                 case host_mkdir h dir of
                   Some err \<Rightarrow> (Inl (ErrWrap ''create instance dir: '' err), w)
                 | None \<Rightarrow>
                     (let w1 = clearStaleGroup h dir (instance_number i) w;
                          (cmd, args) = startCommand h (launch_args i) (img_Path img) dir
                                          (groupName (instance_number i));
                          ((output, err), w2) = run_command h dir cmd args w1
                      in case err of
                           Some er \<Rightarrow> (Inl (command_failed cmd er output), w2)
                         | None \<Rightarrow> (Inr (), w2)))))"

definition stopCommand :: "host \<Rightarrow> int \<Rightarrow> string \<times> string list" where
  "stopCommand h instanceNumber =
    (if host_look h ''stop_cvd'' then (''stop_cvd'', [''--instance_num='' @ itoa instanceNumber])
     else (''cvd'', [''stop'', ''--group_name='' @ groupName instanceNumber]))"

definition stop :: "env \<Rightarrow> host \<Rightarrow> Instance \<Rightarrow> world \<Rightarrow> unit res \<times> world" where
  "stop e h i w =
    (if \<not> realCuttlefishExecutionEnabled e then (Inr (), w)
     else
       let (cmd, args) = stopCommand h (instance_number i);
           ((output, err), w1) = run_command h (path_join [instanceRoot e, inst_ID i]) cmd args w
       in case err of
            Some er \<Rightarrow> (Inl (command_failed cmd er output), w1)
          | None \<Rightarrow> (Inr (), w1))"

definition isADBReachable :: "env \<Rightarrow> host \<Rightarrow> Instance \<Rightarrow> world \<Rightarrow> bool \<times> world" where
  "isADBReachable e h i w =
    (if \<not> realCuttlefishExecutionEnabled e then (True, w)
     else
       let ((output, err), w1) = run_command h [] ''adb''
             [''-s'', ''127.0.0.1:'' @ itoa (inst_ADBPort i), ''get-state''] w
       in (err = None \<and> contains ''device'' output, w1))"

text \<open>
  The polling loop of waitReady: host_polls is the number of polls that fit before the
  deadline, and waitWebRTC, which only does network requests, is a result of the host.
\<close>

fun poll_boot :: "host \<Rightarrow> string \<Rightarrow> nat \<Rightarrow> world \<Rightarrow> unit res \<times> world" where
  "poll_boot h target 0 w = (Inl (Err ''timed out waiting for Android boot completion''), w)"
| "poll_boot h target (Suc n) w =
    (let ((output, err), w1) = run_command h [] ''adb''
           [''-s'', target, ''shell'', ''getprop'', ''sys.boot_completed''] w
     in if err = None \<and> trim_space output = ''1''
        then (case host_webrtc h of None \<Rightarrow> (Inr (), w1) | Some er \<Rightarrow> (Inl er, w1))
        else poll_boot h target n w1)"

definition waitReady :: "env \<Rightarrow> host \<Rightarrow> Instance \<Rightarrow> world \<Rightarrow> unit res \<times> world" where
  "waitReady e h i w =
    (if \<not> realCuttlefishExecutionEnabled e then (Inr (), w)
     else
       let target = ''127.0.0.1:'' @ itoa (inst_ADBPort i);
           ((output, err), w1) = run_command h [] ''adb'' [''connect'', target] w
       in case err of
            Some er \<Rightarrow> (Inl (command_failed ''adb connect'' er output), w1)
          | None \<Rightarrow> poll_boot h target (host_polls h) w1)"

definition finalizeConsole :: "env \<Rightarrow> host \<Rightarrow> time \<Rightarrow> Instance \<Rightarrow> world \<Rightarrow> world" where
  "finalizeConsole e h now i w =
    (if \<not> realCuttlefishExecutionEnabled e then w
     else case host_discover h i of
            None \<Rightarrow> w
          | Some deviceID \<Rightarrow>
              w\<lparr>w_db := snd (UpdateInstanceConsole now (inst_ID i) deviceID
                          (ConsoleClientURL (inst_ID i) deviceID) (w_db w))\<rparr>)"

text \<open>ensureImage; keeping cvd's cache beside the image directory has no effect on the result.\<close>

definition ensureImage :: "env \<Rightarrow> host \<Rightarrow> Image \<Rightarrow> world \<Rightarrow> unit res \<times> world" where
  "ensureImage e h img w =
    (let mark = (\<lambda>st err w. w\<lparr>w_db := UpdateImageStatus (img_ID img) st 0 err (w_db w)\<rparr>) in
     if \<not> realCuttlefishExecutionEnabled e \<or> trim_space (img_BuildTarget img) = []
     then (Inr (), if img_Status img \<noteq> ImageStatusReady then mark ImageStatusReady [] w else w)
     else if img_Status img = ImageStatusReady \<and> host_populated h (img_Path img) then (Inr (), w)
     else
       let w1 = mark ImageStatusFetching [] w in
       case host_mkdir h (img_Path img) of
         Some err \<Rightarrow> (Inl (ErrWrap ''create image dir: '' err), mark ImageStatusError (err_text err) w1)
       | None \<Rightarrow>
           (let ((output, err), w2) = run_command h [] ''cvd''
                  [''fetch'', ''--default_build='' @ img_BuildTarget img,
                   ''--target_directory='' @ img_Path img] w1
            in case err of
                 Some er \<Rightarrow>
                   (let msg = err_text (command_failed ''cvd fetch'' er output)
                    in (Inl (Err msg), mark ImageStatusError msg w2))
               | None \<Rightarrow> (Inr (), mark ImageStatusReady [] w2)))"

section \<open>Handlers and background jobs\<close>

definition StartInstance ::
  "time \<Rightarrow> 8 word list \<Rightarrow> string \<Rightarrow> world \<Rightarrow> (Instance \<times> Operation) res \<times> world" where
  "StartInstance now rnd iid w =
    (case GetInstance iid (w_db w) of
       Inl err \<Rightarrow> (Inl err, w)
     | Inr current \<Rightarrow>
         (if inst_State current \<noteq> StateStopped \<and> inst_State current \<noteq> StateError
          then (Inl (Err (''cannot start instance from state '' @ go_quote (inst_State current))), w)
          else case CreateOperation now rnd iid ''start'' ''starting Cuttlefish instance'' (w_db w) of
                 (Inl err, d) \<Rightarrow> (Inl err, w\<lparr>w_db := d\<rparr>)
               | (Inr operation, d) \<Rightarrow>
                   (case UpdateInstanceState now iid StateStarting [] d of
                      (Inl err, d') \<Rightarrow> (Inl err, w\<lparr>w_db := d'\<rparr>)
                    | (Inr i, d') \<Rightarrow> (Inr (i, operation), w\<lparr>w_db := d'\<rparr>))))"

text \<open>The write of a state in a job: the result the job looks at, and the new world.\<close>

definition put_state :: "time \<Rightarrow> string \<Rightarrow> string \<Rightarrow> world \<Rightarrow> Instance res \<times> world" where
  "put_state now iid state w =
    (let (r, d) = UpdateInstanceState now iid state [] (w_db w) in (r, w\<lparr>w_db := d\<rparr>))"

definition fail_job :: "time \<Rightarrow> string \<Rightarrow> string \<Rightarrow> go_error \<Rightarrow> world \<Rightarrow> world" where
  "fail_job now iid oid err w =
    finishOp now oid ''failed'' (err_text err) (setState now iid StateError (err_text err) w)"

definition finish_failed :: "time \<Rightarrow> string \<Rightarrow> go_error \<Rightarrow> world \<Rightarrow> world" where
  "finish_failed now oid err w = finishOp now oid ''failed'' (err_text err) w"

definition runStart :: "env \<Rightarrow> host \<Rightarrow> time \<Rightarrow> string \<Rightarrow> string \<Rightarrow> world \<Rightarrow> world" where
  "runStart e h now iid oid w =
    (case GetInstance iid (w_db w) of
       Inl err \<Rightarrow> finish_failed now oid err w
     | Inr i \<Rightarrow>
         (case launch e h i w of
            (Inl err, w1) \<Rightarrow> fail_job now iid oid err w1
          | (Inr _, w1) \<Rightarrow>
              (case put_state now iid StateBooting w1 of
                 (Inl err, w2) \<Rightarrow> finish_failed now oid err w2
               | (Inr i2, w2) \<Rightarrow>
                   (case waitReady e h i2 w2 of
                      (Inl err, w3) \<Rightarrow> fail_job now iid oid err w3
                    | (Inr _, w3) \<Rightarrow>
                        (case put_state now iid StateRunning w3 of
                           (Inl err, w4) \<Rightarrow> finish_failed now oid err w4
                         | (Inr i4, w4) \<Rightarrow>
                             finishOp now oid ''succeeded'' ''instance is running''
                               (finalizeConsole e h now i4 w4))))))"

definition Deploy :: "time \<Rightarrow> 8 word list \<Rightarrow> string \<Rightarrow> world \<Rightarrow> Operation res \<times> world" where
  "Deploy now rnd iid w =
    (case GetInstance iid (w_db w) of
       Inl err \<Rightarrow> (Inl err, w)
     | Inr current \<Rightarrow>
         (if inst_State current \<noteq> StateStopped \<and> inst_State current \<noteq> StateError
          then (Inl (Err (''cannot deploy instance from state '' @ go_quote (inst_State current))), w)
          else case CreateOperation now rnd iid ''deploy'' ''deploying Android instance'' (w_db w) of
                 (Inl err, d) \<Rightarrow> (Inl err, w\<lparr>w_db := d\<rparr>)
               | (Inr operation, d) \<Rightarrow>
                   (case UpdateInstanceState now iid StateProvisioning [] d of
                      (Inl err, d') \<Rightarrow> (Inl err, w\<lparr>w_db := d'\<rparr>)
                    | (Inr _, d') \<Rightarrow> (Inr operation, w\<lparr>w_db := d'\<rparr>))))"

definition runDeploy :: "env \<Rightarrow> host \<Rightarrow> time \<Rightarrow> string \<Rightarrow> string \<Rightarrow> world \<Rightarrow> world" where
  "runDeploy e h now iid oid w =
    (case GetInstance iid (w_db w) of
       Inl err \<Rightarrow> finish_failed now oid err w
     | Inr i \<Rightarrow>
         (case GetImage (inst_ImageID i) (w_db w) of
            Inl err \<Rightarrow> fail_job now iid oid (ErrWrap ''image lookup: '' err) w
          | Inr img \<Rightarrow>
              (case ensureImage e h img w of
                 (Inl err, w1) \<Rightarrow> fail_job now iid oid err w1
               | (Inr _, w1) \<Rightarrow>
                   (case put_state now iid StateStarting w1 of
                      (Inl err, w2) \<Rightarrow> fail_job now iid oid err w2
                    | (Inr _, w2) \<Rightarrow>
                        (case launch e h i w2 of
                           (Inl err, w3) \<Rightarrow> fail_job now iid oid err w3
                         | (Inr _, w3) \<Rightarrow>
                             (case put_state now iid StateBooting w3 of
                                (Inl err, w4) \<Rightarrow> fail_job now iid oid err w4
                              | (Inr _, w4) \<Rightarrow>
                                  (case waitReady e h i w4 of
                                     (Inl err, w5) \<Rightarrow> fail_job now iid oid err w5
                                   | (Inr _, w5) \<Rightarrow>
                                       (case put_state now iid StateRunning w5 of
                                          (Inl err, w6) \<Rightarrow> fail_job now iid oid err w6
                                        | (Inr _, w6) \<Rightarrow>
                                            finishOp now oid ''succeeded'' ''instance is running''
                                              (finalizeConsole e h now i w6)))))))))"

definition StopInstance ::
  "time \<Rightarrow> 8 word list \<Rightarrow> string \<Rightarrow> world \<Rightarrow> (Instance \<times> Operation) res \<times> world" where
  "StopInstance now rnd iid w =
    (case GetInstance iid (w_db w) of
       Inl err \<Rightarrow> (Inl err, w)
     | Inr current \<Rightarrow>
         (if \<not> isPossiblyLive (inst_State current)
          then (Inl (Err (''cannot stop instance from state '' @ go_quote (inst_State current))), w)
          else case CreateOperation now rnd iid ''stop'' ''stopping Cuttlefish instance'' (w_db w) of
                 (Inl err, d) \<Rightarrow> (Inl err, w\<lparr>w_db := d\<rparr>)
               | (Inr operation, d) \<Rightarrow>
                   (case UpdateInstanceState now iid StateStopping [] d of
                      (Inl err, d') \<Rightarrow> (Inl err, w\<lparr>w_db := d'\<rparr>)
                    | (Inr i, d') \<Rightarrow> (Inr (i, operation), w\<lparr>w_db := d'\<rparr>))))"

text \<open>runStop works on the instance that the handler read.\<close>

definition runStop :: "env \<Rightarrow> host \<Rightarrow> time \<Rightarrow> string \<Rightarrow> string \<Rightarrow> Instance \<Rightarrow> world \<Rightarrow> world" where
  "runStop e h now iid oid i w =
    (case stop e h i w of
       (Inl err, w1) \<Rightarrow> fail_job now iid oid err w1
     | (Inr _, w1) \<Rightarrow>
         (case put_state now iid StateStopped w1 of
            (Inl err, w2) \<Rightarrow> finish_failed now oid err w2
          | (Inr _, w2) \<Rightarrow> finishOp now oid ''succeeded'' ''instance is stopped'' w2))"

text \<open>The instance that the delete handler hands on is the one it has just marked as deleting.\<close>

definition DeleteInstance_handler ::
  "time \<Rightarrow> 8 word list \<Rightarrow> string \<Rightarrow> world \<Rightarrow> (Instance \<times> Operation) res \<times> world" where
  "DeleteInstance_handler now rnd iid w =
    (case GetInstance iid (w_db w) of
       Inl err \<Rightarrow> (Inl err, w)
     | Inr current \<Rightarrow>
         (if inst_State current = StateDeleting
          then (Inl (Err ''instance is already deleting''), w)
          else case CreateOperation now rnd iid ''delete'' ''deleting Cuttlefish instance'' (w_db w) of
                 (Inl err, d) \<Rightarrow> (Inl err, w\<lparr>w_db := d\<rparr>)
               | (Inr operation, d) \<Rightarrow>
                   (case UpdateInstanceState now iid StateDeleting [] d of
                      (Inl err, d') \<Rightarrow> (Inl err, w\<lparr>w_db := d'\<rparr>)
                    | (Inr i, d') \<Rightarrow> (Inr (i, operation), w\<lparr>w_db := d'\<rparr>))))"

definition runDelete :: "env \<Rightarrow> host \<Rightarrow> time \<Rightarrow> string \<Rightarrow> string \<Rightarrow> Instance \<Rightarrow> world \<Rightarrow> world" where
  "runDelete e h now iid oid i w =
    (case (if isPossiblyLive (inst_State i) then stop e h i w else (Inr (), w)) of
       (Inl err, w1) \<Rightarrow> fail_job now iid oid err w1
     | (Inr _, w1) \<Rightarrow>
         (let w2 = (if realCuttlefishExecutionEnabled e
                    then clearStaleGroup h (path_join [instanceRoot e, inst_ID i]) (instance_number i) w1
                    else w1)
          in case DeleteInstance iid (w_db w2) of
               (Inl err, d) \<Rightarrow> finish_failed now oid err (w2\<lparr>w_db := d\<rparr>)
             | (Inr _, d) \<Rightarrow>
                 finishOp now oid ''succeeded'' ''instance deleted'' (w2\<lparr>w_db := d\<rparr>)))"

section \<open>Startup\<close>

definition reconcile_one :: "env \<Rightarrow> host \<Rightarrow> time \<Rightarrow> Instance \<Rightarrow> world \<Rightarrow> world" where
  "reconcile_one e h now i w =
    (if inst_State i \<in> {StateStarting, StateBooting} then
       (let interrupted = setState now (inst_ID i) StateError ''startup reconciliation found interrupted launch''
        in if realCuttlefishExecutionEnabled e
           then (case waitReady e h i w of
                   (Inr _, w1) \<Rightarrow> setState now (inst_ID i) StateRunning [] w1
                 | (Inl _, w1) \<Rightarrow> interrupted w1)
           else interrupted w)
     else if inst_State i = StateRunning then
       (if realCuttlefishExecutionEnabled e
        then (case isADBReachable e h i w of
                (True, w1) \<Rightarrow> w1
              | (False, w1) \<Rightarrow> setState now (inst_ID i) StateError ''startup reconciliation could not reach ADB'' w1)
        else w)
     else if inst_State i \<in> {StateStopping, StateDeleting} then
       setState now (inst_ID i) StateError ''startup reconciliation found interrupted operation'' w
     else w)"

definition Reconcile :: "env \<Rightarrow> host \<Rightarrow> time \<Rightarrow> world \<Rightarrow> world" where
  "Reconcile e h now w = foldl (\<lambda>w i. reconcile_one e h now i w) w (ListInstances (w_db w))"

section \<open>Health\<close>

record HealthCheck =
  hc_Name :: string
  hc_Status :: string
  hc_Message :: string

record Prerequisite =
  pre_Name :: string
  pre_OK :: bool
  pre_Detail :: string

definition executionMode :: "env \<Rightarrow> string" where
  "executionMode e =
    (if realCuttlefishExecutionEnabled e then ''live Cuttlefish execution enabled''
     else ''dry-run mode; set OPENCUTTLES_EXECUTE_CVD=1 for live execution'')"

text \<open>
  Health over the results of its probes: the database ping, the prerequisites of the
  host, and the disk and vision checks, each with its flag (an empty name: not reported).
\<close>

definition Health ::
  "env \<Rightarrow> go_error option \<Rightarrow> Prerequisite list \<Rightarrow> HealthCheck \<times> bool \<Rightarrow> HealthCheck \<times> bool
    \<Rightarrow> string \<times> HealthCheck list" where
  "Health e ping prereqs disk vision =
    (let db_check = (case ping of
                 Some err \<Rightarrow> \<lparr>hc_Name = ''database'', hc_Status = ''failed'', hc_Message = err_text err\<rparr>
               | None \<Rightarrow> \<lparr>hc_Name = ''database'', hc_Status = ''ok'', hc_Message = ''SQLite ping succeeded''\<rparr>);
         mode = \<lparr>hc_Name = ''execution_mode'', hc_Status = ''ok'', hc_Message = executionMode e\<rparr>;
         pres = map (\<lambda>p. \<lparr>hc_Name = pre_Name p, hc_Status = (if pre_OK p then ''ok'' else ''failed''),
                         hc_Message = pre_Detail p\<rparr>) prereqs;
         opt = (\<lambda>c. if hc_Name (fst c) \<noteq> [] then [fst c] else []);
         degraded = (ping \<noteq> None \<or> list_ex (\<lambda>p. \<not> pre_OK p) prereqs
                     \<or> hc_Name (fst disk) \<noteq> [] \<and> snd disk \<or> hc_Name (fst vision) \<noteq> [] \<and> snd vision)
     in (if degraded then ''degraded'' else ''ok'', [db_check, mode] @ pres @ opt disk @ opt vision))"

section \<open>What the steps leave alone\<close>

text \<open>Commands only go to the log.\<close>

lemma run_command_db [simp]: "w_db (snd (run_command h dir c args w)) = w_db w"
  by (simp add: run_command_def)

lemma clearStaleGroup_db [simp]: "w_db (clearStaleGroup h dir n w) = w_db w"
  by (simp add: clearStaleGroup_def Let_def)

lemma poll_boot_db [simp]: "w_db (snd (poll_boot h t n w)) = w_db w"
  by (induction h t n w rule: poll_boot.induct)
    (auto simp: Let_def run_command_def split: prod.splits option.splits)

lemma waitReady_db [simp]: "w_db (snd (waitReady e h i w)) = w_db w"
  by (auto simp: waitReady_def Let_def run_command_def split: prod.splits option.splits)

lemma stop_db [simp]: "w_db (snd (stop e h i w)) = w_db w"
  by (auto simp: stop_def Let_def run_command_def split: prod.splits option.splits)

lemma launch_db [simp]: "w_db (snd (launch e h i w)) = w_db w"
proof -
  have w1: "w_db w' = d" if "run_command h dir c args (clearStaleGroup h dir n w) = (r, w')" "d = w_db w"
    for dir c args n r w' d
    using that run_command_db[of h dir c args "clearStaleGroup h dir n w"] by simp
  show ?thesis
    by (auto simp: launch_def Let_def split: sum.split option.split prod.split dest: w1)
qed

lemma isADBReachable_db [simp]: "w_db (snd (isADBReachable e h i w)) = w_db w"
  by (auto simp: isADBReachable_def Let_def run_command_def split: prod.splits)

lemma ensureImage_db:
  "\<exists>t. w_db (snd (ensureImage e h img w)) = (w_db w)\<lparr>db_images := t\<rparr>"
proof -
  have mark: "\<exists>t. UpdateImageStatus k st sz err d = d\<lparr>db_images := t\<rparr>" for k st sz err d
    by (auto simp: UpdateImageStatus_def)
  have self: "\<exists>t. d = d\<lparr>db_images := t\<rparr>" for d :: db
    by (rule exI[of _ "db_images d"]) simp
  show ?thesis
    by (auto simp: ensureImage_def Let_def run_command_def UpdateImageStatus_def intro: self
        split: option.splits prod.splits)
qed

text \<open>A device with a state and an error, an operation with a status and a message.\<close>

definition inst_at :: "world \<Rightarrow> string \<Rightarrow> string \<Rightarrow> string \<Rightarrow> bool" where
  "inst_at w iid st msg =
    (case GetInstance iid (w_db w) of
       Inl _ \<Rightarrow> False | Inr i \<Rightarrow> inst_State i = st \<and> inst_LastError i = msg)"

definition op_at :: "world \<Rightarrow> string \<Rightarrow> string \<Rightarrow> string \<Rightarrow> bool" where
  "op_at w oid st msg =
    (case GetOperation oid (w_db w) of
       Inl _ \<Rightarrow> False | Inr r \<Rightarrow> op_Status r = st \<and> op_Message r = msg \<and> op_FinishedAt r \<noteq> None)"

definition has_inst :: "world \<Rightarrow> string \<Rightarrow> bool" where
  "has_inst w iid = (tbl_find inst_ID iid (db_instances (w_db w)) \<noteq> None)"

definition has_op :: "world \<Rightarrow> string \<Rightarrow> bool" where
  "has_op w oid = (tbl_find op_ID oid (db_operations (w_db w)) \<noteq> None)"

lemma GetInstance_update:
  assumes "\<And>r. inst_ID (f r) = inst_ID r"
  shows "GetInstance k (update_instance iid f d)
    = (if k = iid then scan_row (map_option (\<lambda>r. scanInstance (f r)) (tbl_find inst_ID iid (db_instances d)))
       else GetInstance k d)"
  using instances.lookup_update[of f k iid "db_instances d"] assms
  by (cases "tbl_find inst_ID iid (db_instances d)") (simp_all add: GetInstance_def update_instance_def)

lemma GetInstance_has: "GetInstance iid (w_db w) = Inr i \<Longrightarrow> has_inst w iid"
  by (auto simp: GetInstance_def has_inst_def scan_row_Inr)

lemma has_inst_Get: "has_inst w iid \<Longrightarrow> \<exists>i. GetInstance iid (w_db w) = Inr i"
  by (auto simp: GetInstance_def has_inst_def)

text \<open>Writing a state of an existing device.\<close>

lemma UpdateInstanceState_exists:
  assumes "has_inst w iid"
  obtains i d where "UpdateInstanceState now iid st msg (w_db w) = (Inr i, d)" "inst_ID i = iid"
    "inst_State i = st" "inst_at (w\<lparr>w_db := d\<rparr>) iid st msg" "has_inst (w\<lparr>w_db := d\<rparr>) iid"
    "db_operations d = db_operations (w_db w)" "db_images d = db_images (w_db w)"
proof -
  let ?f = "\<lambda>i. i\<lparr>inst_State := st, inst_LastError := msg, inst_UpdatedAt := now\<rparr>"
  obtain r where r: "tbl_find inst_ID iid (db_instances (w_db w)) = Some r"
    using assms by (auto simp: has_inst_def)
  then have k: "inst_ID r = iid" by (rule instances.lookup_key)
  have g: "GetInstance iid (update_instance iid ?f (w_db w)) = Inr (scanInstance (?f r))"
    by (subst GetInstance_update) (simp_all add: r)
  show ?thesis
  proof (rule that)
    show "UpdateInstanceState now iid st msg (w_db w)
        = (Inr (scanInstance (?f r)), update_instance iid ?f (w_db w))"
      using g by (simp add: UpdateInstanceState_def Let_def)
    show "inst_at (w\<lparr>w_db := update_instance iid ?f (w_db w)\<rparr>) iid st msg"
      using g by (simp add: inst_at_def)
    show "has_inst (w\<lparr>w_db := update_instance iid ?f (w_db w)\<rparr>) iid"
      using g by (simp add: GetInstance_has)
  qed (simp_all add: k update_instance_def)
qed

lemma has_op_db: "db_operations (w_db w') = db_operations (w_db w) \<Longrightarrow> has_op w' oid = has_op w oid"
  by (simp add: has_op_def)

lemma setState_exists:
  assumes "has_inst w iid"
  shows "inst_at (setState now iid st msg w) iid st msg" "has_inst (setState now iid st msg w) iid"
    "has_op (setState now iid st msg w) oid = has_op w oid"
proof -
  obtain i d where d: "UpdateInstanceState now iid st msg (w_db w) = (Inr i, d)"
    "inst_at (w\<lparr>w_db := d\<rparr>) iid st msg" "has_inst (w\<lparr>w_db := d\<rparr>) iid"
    "db_operations d = db_operations (w_db w)"
    using UpdateInstanceState_exists[OF assms, of now st msg] by metis
  have s: "setState now iid st msg w = w\<lparr>w_db := d\<rparr>" using d(1) by (simp add: setState_def)
  show "inst_at (setState now iid st msg w) iid st msg" "has_inst (setState now iid st msg w) iid"
    "has_op (setState now iid st msg w) oid = has_op w oid"
    unfolding s using d by (auto intro!: has_op_db)
qed

lemma put_state_exists:
  assumes "has_inst w iid"
  obtains i w' where "put_state now iid st w = (Inr i, w')" "inst_ID i = iid" "inst_at w' iid st []"
    "has_inst w' iid" "\<And>oid. has_op w' oid = has_op w oid" "db_images (w_db w') = db_images (w_db w)"
proof -
  obtain i d where d: "UpdateInstanceState now iid st [] (w_db w) = (Inr i, d)" "inst_ID i = iid"
    "inst_at (w\<lparr>w_db := d\<rparr>) iid st []" "has_inst (w\<lparr>w_db := d\<rparr>) iid"
    "db_operations d = db_operations (w_db w)" "db_images d = db_images (w_db w)"
    using UpdateInstanceState_exists[OF assms, of now st "[]"] by metis
  show ?thesis
    by (rule that[of i "w\<lparr>w_db := d\<rparr>"]) (use d in \<open>auto simp: put_state_def intro!: has_op_db\<close>)
qed

lemma finishOp_at: "has_op w oid \<Longrightarrow> op_at (finishOp now oid st msg w) oid st msg"
  by (auto simp: has_op_def op_at_def finishOp_def FinishOperation_def GetOperation_def Let_def tbl_find_update)

lemma finishOp_inst [simp]: "inst_at (finishOp now oid st msg w) iid s m = inst_at w iid s m"
  by (simp add: inst_at_def finishOp_def FinishOperation_def GetInstance_def Let_def)

lemma has_inst_db: "w_db w' = w_db w \<Longrightarrow> has_inst w' iid = has_inst w iid"
  by (simp add: has_inst_def)

lemma inst_at_db: "w_db w' = w_db w \<Longrightarrow> inst_at w' iid st m = inst_at w iid st m"
  by (simp add: inst_at_def)

lemma pair_db: "w_db (snd (f w)) = w_db w \<Longrightarrow> f w = (r, w1) \<Longrightarrow> w_db w1 = w_db w"
  by simp

lemmas launch_pair = pair_db[where f = "launch e h i" for e h i, OF launch_db]
lemmas waitReady_pair = pair_db[where f = "waitReady e h i" for e h i, OF waitReady_db]
lemmas stop_pair = pair_db[where f = "stop e h i" for e h i, OF stop_db]

lemma ensureImage_pair:
  "ensureImage e h img w = (r, w1) \<Longrightarrow> has_inst w1 iid = has_inst w iid \<and> has_op w1 oid = has_op w oid"
  using ensureImage_db[of e h img w] by (auto simp: has_inst_def has_op_def)

text \<open>How a job can end for a device that is there and its operation.\<close>

definition job_outcome :: "string \<Rightarrow> string \<Rightarrow> string \<Rightarrow> world \<Rightarrow> bool" where
  "job_outcome iid oid target w =
    ((\<exists>m. op_at w oid ''succeeded'' m) \<and> inst_at w iid target []
     \<or> (\<exists>m. op_at w oid ''failed'' m \<and> inst_at w iid StateError m))"

lemma job_succeeds:
  "has_op w oid \<Longrightarrow> inst_at w iid target [] \<Longrightarrow>
    job_outcome iid oid target (finishOp now oid ''succeeded'' m w)"
  using finishOp_at by (fastforce simp: job_outcome_def)

lemma job_fails:
  assumes "has_op w oid" "has_inst w iid"
  shows "job_outcome iid oid target (fail_job now iid oid err w)"
proof -
  note s = setState_exists[OF assms(2), of now StateError "err_text err"]
  have "has_op (setState now iid StateError (err_text err) w) oid" using s(3) assms(1) by simp
  then have "op_at (fail_job now iid oid err w) oid ''failed'' (err_text err)"
    unfolding fail_job_def by (rule finishOp_at)
  moreover have "inst_at (fail_job now iid oid err w) iid StateError (err_text err)"
    using s(1) by (simp add: fail_job_def)
  ultimately show ?thesis by (auto simp: job_outcome_def)
qed

lemma finalizeConsole_keeps:
  assumes "inst_at w iid st []" "inst_ID i = iid" "has_op w oid"
  shows "inst_at (finalizeConsole e h now i w) iid st []" "has_op (finalizeConsole e h now i w) oid"
proof -
  obtain r where r: "tbl_find inst_ID iid (db_instances (w_db w)) = Some r"
      "inst_State r = st" "inst_LastError r = []"
    using assms(1) by (cases "tbl_find inst_ID iid (db_instances (w_db w))")
      (auto simp: inst_at_def GetInstance_def)
  have g: "inst_at (w\<lparr>w_db := update_instance iid (\<lambda>i. i\<lparr>inst_DeviceID := dv, inst_ConsoleURL := u,
      inst_UpdatedAt := now\<rparr>) (w_db w)\<rparr>) iid st []" for dv u
    by (simp add: inst_at_def GetInstance_update r)
  show "inst_at (finalizeConsole e h now i w) iid st []"
    using g assms(1,2) by (auto simp: finalizeConsole_def UpdateInstanceConsole_def Let_def split: option.split)
  show "has_op (finalizeConsole e h now i w) oid"
    using assms(3) by (auto simp: finalizeConsole_def UpdateInstanceConsole_def Let_def has_op_def
        update_instance_def split: option.split)
qed

lemma runStart_outcome:
  assumes "has_inst w iid" "has_op w oid"
  shows "job_outcome iid oid StateRunning (runStart e h now iid oid w)"
proof -
  obtain i where i: "GetInstance iid (w_db w) = Inr i" using has_inst_Get[OF assms(1)] by blast
  obtain r1 w1 where l: "launch e h i w = (r1, w1)" by fastforce
  have w1: "has_inst w1 iid" "has_op w1 oid"
    using launch_pair[OF l] assms by (simp_all add: has_inst_def has_op_def)
  show ?thesis
  proof (cases r1)
    case (Inl err)
    then show ?thesis using i l job_fails[OF w1(2,1)] by (simp add: runStart_def)
  next
    case (Inr u1)
    obtain i2 w2 where p2: "put_state now iid StateBooting w1 = (Inr i2, w2)" "has_inst w2 iid" "has_op w2 oid"
      using put_state_exists[OF w1(1), of now StateBooting] w1(2) by metis
    obtain r3 w3 where w3: "waitReady e h i2 w2 = (r3, w3)" by fastforce
    have k3: "has_inst w3 iid" "has_op w3 oid"
      using waitReady_pair[OF w3] p2(2,3) by (simp_all add: has_inst_def has_op_def)
    show ?thesis
    proof (cases r3)
      case (Inl err)
      then show ?thesis using i l Inr p2(1) w3 job_fails[OF k3(2,1)] by (simp add: runStart_def)
    next
      case r3: (Inr u3)
      obtain i4 w4 where p4: "put_state now iid StateRunning w3 = (Inr i4, w4)" "inst_ID i4 = iid"
          "inst_at w4 iid StateRunning []" "has_op w4 oid"
        using put_state_exists[OF k3(1), of now StateRunning] k3(2) by metis
      note f = finalizeConsole_keeps[OF p4(3,2,4), of e h now]
      then show ?thesis using i l Inr p2(1) w3 r3 p4(1) job_succeeds[OF f(2,1)]
        by (simp add: runStart_def)
    qed
  qed
qed

lemma runStop_outcome:
  assumes "has_inst w iid" "has_op w oid"
  shows "job_outcome iid oid StateStopped (runStop e h now iid oid i w)"
proof -
  obtain r1 w1 where s: "stop e h i w = (r1, w1)" by fastforce
  have w1: "has_inst w1 iid" "has_op w1 oid"
    using stop_pair[OF s] assms by (simp_all add: has_inst_def has_op_def)
  obtain i2 w2 where p2: "put_state now iid StateStopped w1 = (Inr i2, w2)"
      "inst_at w2 iid StateStopped []" "has_op w2 oid"
    using put_state_exists[OF w1(1), of now StateStopped] w1(2) by metis
  show ?thesis using s job_fails[OF w1(2,1)] p2(1) job_succeeds[OF p2(3,2)]
    by (cases r1) (simp_all add: runStop_def)
qed

text \<open>The steps of runDeploy after the image is there.\<close>

lemma runDeploy_outcome:
  assumes "has_inst w iid" "has_op w oid"
  shows "job_outcome iid oid StateRunning (runDeploy e h now iid oid w)"
proof -
  obtain i where i: "GetInstance iid (w_db w) = Inr i" using has_inst_Get[OF assms(1)] by blast
  have iid: "inst_ID i = iid"
    using i by (auto simp: GetInstance_def scan_row_Inr dest: instances.lookup_key)
  show ?thesis
  proof (cases "GetImage (inst_ImageID i) (w_db w)")
    case (Inl err)
    then show ?thesis using i job_fails[OF assms(2,1)] by (simp add: runDeploy_def)
  next
    case img: (Inr img)
    obtain r1 w1 where e1: "ensureImage e h img w = (r1, w1)" by fastforce
    have k1: "has_inst w1 iid" "has_op w1 oid" using ensureImage_pair[OF e1] assms by simp_all
    obtain i2 w2 where p2: "put_state now iid StateStarting w1 = (Inr i2, w2)" "has_inst w2 iid" "has_op w2 oid"
      using put_state_exists[OF k1(1), of now StateStarting] k1(2) by metis
    obtain r3 w3 where l3: "launch e h i w2 = (r3, w3)" by fastforce
    have k3: "has_inst w3 iid" "has_op w3 oid"
      using launch_pair[OF l3] p2(2,3) by (simp_all add: has_inst_def has_op_def)
    obtain i4 w4 where p4: "put_state now iid StateBooting w3 = (Inr i4, w4)" "has_inst w4 iid" "has_op w4 oid"
      using put_state_exists[OF k3(1), of now StateBooting] k3(2) by metis
    obtain r5 w5 where w5: "waitReady e h i w4 = (r5, w5)" by fastforce
    have k5: "has_inst w5 iid" "has_op w5 oid"
      using waitReady_pair[OF w5] p4(2,3) by (simp_all add: has_inst_def has_op_def)
    obtain i6 w6 where p6: "put_state now iid StateRunning w5 = (Inr i6, w6)"
        "inst_at w6 iid StateRunning []" "has_op w6 oid"
      using put_state_exists[OF k5(1), of now StateRunning] k5(2) by metis
    note f = finalizeConsole_keeps[OF p6(2) iid p6(3), of e h now]
    note steps = i img e1 p2(1) l3 p4(1) w5 p6(1)
    show ?thesis
      using steps job_fails[OF k1(2,1)] job_fails[OF k3(2,1)] job_fails[OF k5(2,1)] job_succeeds[OF f(2,1)]
      by (cases r1; cases r3; cases r5) (simp_all add: runDeploy_def)
  qed
qed

section \<open>The handlers\<close>

definition state_of :: "world \<Rightarrow> string \<Rightarrow> string" where
  "state_of w iid = (case GetInstance iid (w_db w) of Inl _ \<Rightarrow> [] | Inr i \<Rightarrow> inst_State i)"

text \<open>What a handler leaves behind: the device in its new state, and a running operation for it.\<close>

definition began :: "world \<Rightarrow> string \<Rightarrow> string \<Rightarrow> Operation \<Rightarrow> bool" where
  "began w iid st r =
    (inst_at w iid st [] \<and> has_inst w iid \<and> has_op w (op_ID r)
     \<and> op_Status r = ''running'' \<and> op_InstanceID r = iid)"

lemma begin_operation:
  assumes "has_inst w iid"
    and c: "CreateOperation now rnd iid act msg (w_db w) = (r, d)"
    and u: "UpdateInstanceState now iid st [] d = (ri, d')"
  shows "(\<forall>err. r = Inl err \<longrightarrow> d = w_db w)
    \<and> (\<forall>x. r = Inr x \<longrightarrow> (\<exists>i. ri = Inr i \<and> inst_ID i = iid \<and> inst_State i = st \<and> began (w\<lparr>w_db := d'\<rparr>) iid st x))"
proof (cases r)
  case (Inl err)
  then show ?thesis using c by (auto simp: CreateOperation_def Let_def split: sum.splits)
next
  case (Inr x)
  then have x: "op_Status x = ''running''" "op_InstanceID x = iid"
    and t: "tbl_insert op_ID x (db_operations (w_db w)) = Inr (db_operations d)"
    and di: "db_instances d = db_instances (w_db w)"
    using c by (auto simp: CreateOperation_def Let_def split: sum.splits)
  have hi: "has_inst (w\<lparr>w_db := d\<rparr>) iid" using assms(1) di by (simp add: has_inst_def)
  have ho: "tbl_find op_ID (op_ID x) (db_operations d) \<noteq> None"
    using tbl_find_insert[OF t, of "op_ID x"] by simp
  obtain i d2 where d2: "UpdateInstanceState now iid st [] (w_db (w\<lparr>w_db := d\<rparr>)) = (Inr i, d2)" "inst_ID i = iid"
      "inst_State i = st" "inst_at (w\<lparr>w_db := d, w_db := d2\<rparr>) iid st []"
      "has_inst (w\<lparr>w_db := d, w_db := d2\<rparr>) iid" "db_operations d2 = db_operations (w_db (w\<lparr>w_db := d\<rparr>))"
    by (rule UpdateInstanceState_exists[OF hi, of now st "[]"])
  from d2[simplified] show ?thesis using Inr u x ho by (auto simp: began_def has_op_def)
qed

lemma StartInstance_spec:
  "case StartInstance now rnd iid w of
     (Inl err, w') \<Rightarrow> w' = w
   | (Inr (i, r), w') \<Rightarrow> state_of w iid \<in> {StateStopped, StateError} \<and> began w' iid StateStarting r
       \<and> inst_ID i = iid \<and> inst_State i = StateStarting"
proof (cases "GetInstance iid (w_db w)")
  case (Inr c)
  obtain r d where c: "CreateOperation now rnd iid ''start'' ''starting Cuttlefish instance'' (w_db w) = (r, d)"
    by fastforce
  obtain ri d' where u: "UpdateInstanceState now iid StateStarting [] d = (ri, d')" by fastforce
  show ?thesis using Inr begin_operation[OF GetInstance_has[OF Inr] c u]
    by (cases r; cases ri) (auto simp: StartInstance_def state_of_def c u)
qed (simp add: StartInstance_def)

lemma Deploy_spec:
  "case Deploy now rnd iid w of
     (Inl err, w') \<Rightarrow> w' = w
   | (Inr r, w') \<Rightarrow> state_of w iid \<in> {StateStopped, StateError} \<and> began w' iid StateProvisioning r"
proof (cases "GetInstance iid (w_db w)")
  case (Inr c)
  obtain r d where c: "CreateOperation now rnd iid ''deploy'' ''deploying Android instance'' (w_db w) = (r, d)"
    by fastforce
  obtain ri d' where u: "UpdateInstanceState now iid StateProvisioning [] d = (ri, d')" by fastforce
  show ?thesis using Inr begin_operation[OF GetInstance_has[OF Inr] c u]
    by (cases r; cases ri) (auto simp: Deploy_def state_of_def c u)
qed (simp add: Deploy_def)

lemma StopInstance_spec:
  "case StopInstance now rnd iid w of
     (Inl err, w') \<Rightarrow> w' = w
   | (Inr (i, r), w') \<Rightarrow>
       state_of w iid \<in> {StateStarting, StateBooting, StateRunning, StateStopping, StateError}
       \<and> began w' iid StateStopping r \<and> inst_ID i = iid"
proof (cases "GetInstance iid (w_db w)")
  case (Inr c)
  obtain r d where c: "CreateOperation now rnd iid ''stop'' ''stopping Cuttlefish instance'' (w_db w) = (r, d)"
    by fastforce
  obtain ri d' where u: "UpdateInstanceState now iid StateStopping [] d = (ri, d')" by fastforce
  show ?thesis using Inr begin_operation[OF GetInstance_has[OF Inr] c u]
    by (cases r; cases ri) (auto simp: StopInstance_def state_of_def isPossiblyLive_def c u)
qed (simp add: StopInstance_def)

lemma DeleteInstance_handler_spec:
  "case DeleteInstance_handler now rnd iid w of
     (Inl err, w') \<Rightarrow> w' = w
   | (Inr (i, r), w') \<Rightarrow> state_of w iid \<noteq> StateDeleting \<and> began w' iid StateDeleting r
       \<and> inst_ID i = iid \<and> inst_State i = StateDeleting \<and> w_log w' = w_log w"
proof (cases "GetInstance iid (w_db w)")
  case (Inr c)
  obtain r d where c: "CreateOperation now rnd iid ''delete'' ''deleting Cuttlefish instance'' (w_db w) = (r, d)"
    by fastforce
  obtain ri d' where u: "UpdateInstanceState now iid StateDeleting [] d = (ri, d')" by fastforce
  show ?thesis using Inr begin_operation[OF GetInstance_has[OF Inr] c u]
    by (cases r; cases ri) (auto simp: DeleteInstance_handler_def state_of_def c u)
qed (simp add: DeleteInstance_handler_def)

section \<open>Delete, dry run, startup\<close>

lemma DeleteInstance_gone:
  assumes "has_inst w iid"
  obtains d where "DeleteInstance iid (w_db w) = (Inr (), d)" "tbl_find inst_ID iid (db_instances d) = None"
    "db_operations d = db_operations (w_db w)"
  using assms by (auto simp: DeleteInstance_def has_inst_def tbl_find_delete)

lemma finishOp_log [simp]: "w_log (finishOp now oid st m w) = w_log w"
  by (simp add: finishOp_def)

lemma setState_log [simp]: "w_log (setState now iid st m w) = w_log w"
  by (simp add: setState_def)

lemma fail_job_log [simp]: "w_log (fail_job now iid oid err w) = w_log w"
  by (simp add: fail_job_def)

lemma finish_failed_log [simp]: "w_log (finish_failed now oid err w) = w_log w"
  by (simp add: finish_failed_def)

lemma put_state_log: "put_state now iid st w = (r, w') \<Longrightarrow> w_log w' = w_log w"
  by (auto simp: put_state_def split: prod.splits)

text \<open>In dry-run mode nothing reaches the host.\<close>

lemma dry_steps:
  assumes "\<not> realCuttlefishExecutionEnabled e"
  shows "w_log (snd (launch e h i w)) = w_log w" "w_log (snd (stop e h i w)) = w_log w"
    "w_log (snd (waitReady e h i w)) = w_log w" "w_log (snd (ensureImage e h img w)) = w_log w"
    "w_log (finalizeConsole e h now i w) = w_log w"
  using assms by (auto simp: launch_def stop_def waitReady_def ensureImage_def finalizeConsole_def Let_def
      split: sum.split)

lemma dry_pairs:
  assumes "\<not> realCuttlefishExecutionEnabled e"
  shows "launch e h i w = (r1, w1) \<Longrightarrow> w_log w1 = w_log w" "stop e h i w = (r2, w1) \<Longrightarrow> w_log w1 = w_log w"
    "waitReady e h i w = (r3, w1) \<Longrightarrow> w_log w1 = w_log w"
    "ensureImage e h img w = (r4, w1) \<Longrightarrow> w_log w1 = w_log w"
  using dry_steps[OF assms] by (metis snd_conv)+

lemma dry_runStart:
  assumes "\<not> realCuttlefishExecutionEnabled e"
  shows "w_log (runStart e h now iid oid w) = w_log w"
  using assms by (auto simp: runStart_def dry_steps[OF assms] split: sum.split prod.split dest!: dry_pairs[OF assms] put_state_log)

lemma dry_runStop:
  assumes "\<not> realCuttlefishExecutionEnabled e"
  shows "w_log (runStop e h now iid oid i w) = w_log w"
  using assms by (auto simp: runStop_def split: sum.split prod.split dest!: dry_pairs[OF assms] put_state_log)

lemma dry_runDeploy:
  assumes "\<not> realCuttlefishExecutionEnabled e"
  shows "w_log (runDeploy e h now iid oid w) = w_log w"
  using assms by (auto simp: runDeploy_def dry_steps[OF assms] split: sum.split prod.split dest!: dry_pairs[OF assms] put_state_log)

lemma dry_runDelete:
  assumes "\<not> realCuttlefishExecutionEnabled e"
  shows "w_log (runDelete e h now iid oid i w) = w_log w"
  using assms by (auto simp: runDelete_def Let_def split: sum.split prod.split dest!: dry_pairs[OF assms])

lemma dry_reconcile_one:
  "\<not> realCuttlefishExecutionEnabled e \<Longrightarrow> w_log (reconcile_one e h now i w) = w_log w"
  by (auto simp: reconcile_one_def Let_def)

lemma dry_Reconcile:
  assumes "\<not> realCuttlefishExecutionEnabled e"
  shows "w_log (Reconcile e h now w) = w_log w"
proof -
  have "w_log (foldl (\<lambda>w i. reconcile_one e h now i w) w xs) = w_log w" for xs
    by (induction xs arbitrary: w) (simp_all add: dry_reconcile_one[OF assms])
  then show ?thesis by (simp add: Reconcile_def)
qed

text \<open>The effect of one step of Reconcile on the rows: only rows of that device change.\<close>

definition settled :: "string \<Rightarrow> bool" where
  "settled st = (st \<notin> {StateStarting, StateBooting, StateStopping, StateDeleting})"

lemma setState_rows:
  "db_instances (w_db (setState now iid st m w))
    = map (\<lambda>r. if inst_ID r = iid then r\<lparr>inst_State := st, inst_LastError := m, inst_UpdatedAt := now\<rparr> else r)
        (db_instances (w_db w))"
  by (simp add: setState_def UpdateInstanceState_def update_instance_def tbl_update_def Let_def)

lemma setState_row:
  assumes "r' \<in> set (db_instances (w_db (setState now iid st m w)))"
  shows "inst_ID r' = iid \<and> inst_State r' = st
    \<or> inst_ID r' \<noteq> iid \<and> r' \<in> set (db_instances (w_db w))"
proof -
  obtain r where "r' = (if inst_ID r = iid then r\<lparr>inst_State := st, inst_LastError := m, inst_UpdatedAt := now\<rparr> else r)"
      "r \<in> set (db_instances (w_db w))"
    using assms unfolding setState_rows set_map by (rule imageE)
  then show ?thesis by (cases "inst_ID r = iid") simp_all
qed

lemma reconcile_one_row:
  assumes "r' \<in> set (db_instances (w_db (reconcile_one e h now i w)))"
  shows "inst_ID r' = inst_ID i \<and> settled (inst_State r')
    \<or> r' \<in> set (db_instances (w_db w)) \<and> (inst_ID r' = inst_ID i \<longrightarrow> settled (inst_State i))"
proof -
  have wr: "db_instances (w_db w1) = db_instances (w_db w)" if "waitReady e h i w = (r, w1)" for r w1
    using waitReady_pair[OF that] by simp
  have ar: "db_instances (w_db w1) = db_instances (w_db w)" if "isADBReachable e h i w = (b, w1)" for b w1
    using pair_db[where f = "isADBReachable e h i", OF isADBReachable_db that] by simp
  have fin: "settled StateError" "settled StateRunning" by (simp_all add: settled_def)
  obtain rw w1 where w1: "waitReady e h i w = (rw, w1)" by fastforce
  obtain b w2 where w2: "isADBReachable e h i w = (b, w2)" by fastforce
  show ?thesis
    using assms fin unfolding reconcile_one_def Let_def w1 w2
    by (auto simp: settled_def wr[OF w1] ar[OF w2] dest!: setState_row
        split: if_splits sum.splits bool.splits)
qed

lemma Reconcile_fold:
  assumes "\<forall>r\<in>set (db_instances (w_db w)). \<forall>i\<in>set is. inst_ID i = inst_ID r \<longrightarrow> inst_State i = inst_State r"
    and "distinct (map inst_ID is)"
    and "r' \<in> set (db_instances (w_db (foldl (\<lambda>w i. reconcile_one e h now i w) w is)))"
  shows "settled (inst_State r') \<or> r' \<in> set (db_instances (w_db w)) \<and> inst_ID r' \<notin> inst_ID ` set is"
  using assms
proof (induction "is" arbitrary: w)
  case (Cons i js)
  let ?w1 = "reconcile_one e h now i w"
  have "\<forall>r\<in>set (db_instances (w_db ?w1)). \<forall>j\<in>set js. inst_ID j = inst_ID r \<longrightarrow> inst_State j = inst_State r"
  proof (intro ballI impI)
    fix r j
    assume r: "r \<in> set (db_instances (w_db ?w1))" and j: "j \<in> set js" "inst_ID j = inst_ID r"
    with Cons.prems(2) have "inst_ID r \<noteq> inst_ID i" by (auto simp: image_iff)
    with reconcile_one_row[OF r] have "r \<in> set (db_instances (w_db w))" by blast
    with Cons.prems(1) j show "inst_State j = inst_State r" by simp
  qed
  from Cons.IH[OF this] Cons.prems(2,3)
  have "settled (inst_State r') \<or> r' \<in> set (db_instances (w_db ?w1)) \<and> inst_ID r' \<notin> inst_ID ` set js" by simp
  moreover have "settled (inst_State r') \<or> r' \<in> set (db_instances (w_db w)) \<and> inst_ID r' \<noteq> inst_ID i"
    if "r' \<in> set (db_instances (w_db ?w1))"
  proof -
    from reconcile_one_row[OF that] Cons.prems(1) show ?thesis by (metis list.set_intros(1))
  qed
  ultimately show ?case by auto
qed simp

section \<open>Properties\<close>

text \<open>C17: the handlers only act in the permitted states: a start or a deploy needs a stopped or
  failed device, a stop a device that may be live, a delete one that is not being deleted; on success the
  device is in the transitional state of the action and a running operation for it exists, and a refused request
  changes nothing.\<close>

theorem handlers_guard:
  "(case StartInstance now rnd iid w of
      (Inl err, w') \<Rightarrow> w' = w
    | (Inr (i, r), w') \<Rightarrow> state_of w iid \<in> {StateStopped, StateError} \<and> began w' iid StateStarting r)
   \<and> (case Deploy now rnd iid w of
      (Inl err, w') \<Rightarrow> w' = w
    | (Inr r, w') \<Rightarrow> state_of w iid \<in> {StateStopped, StateError} \<and> began w' iid StateProvisioning r)
   \<and> (case StopInstance now rnd iid w of
      (Inl err, w') \<Rightarrow> w' = w
    | (Inr (i, r), w') \<Rightarrow>
        state_of w iid \<in> {StateStarting, StateBooting, StateRunning, StateStopping, StateError}
        \<and> began w' iid StateStopping r)
   \<and> (case DeleteInstance_handler now rnd iid w of
      (Inl err, w') \<Rightarrow> w' = w
    | (Inr (i, r), w') \<Rightarrow> state_of w iid \<noteq> StateDeleting \<and> began w' iid StateDeleting r)"
  using StartInstance_spec[where now = now and rnd = rnd and iid = iid and w = w] Deploy_spec[where now = now and rnd = rnd and iid = iid and w = w]
    StopInstance_spec[where now = now and rnd = rnd and iid = iid and w = w] DeleteInstance_handler_spec[where now = now and rnd = rnd and iid = iid and w = w]
  by (simp split: prod.splits sum.splits)


definition sample_host :: host where
  "sample_host = \<lparr>host_exec = (\<lambda>log c. (if snd (snd c) \<noteq> [] \<and> last (snd (snd c)) = ''sys.boot_completed'' \<and> 5 < length log
       then ''1'' else [], None)), host_look = (\<lambda>p. p = ''launch_cvd''), host_polls = 80,
     host_webrtc = None, host_discover = (\<lambda>_. Some ''cvd_1-1-1''), host_mkdir = (\<lambda>_. None),
     host_populated = (\<lambda>_. True), host_fs = sample_fs\<rparr>"

definition live_env :: env where
  "live_env = \<lparr>env_Getenv = (\<lambda>v. if v = ''OPENCUTTLES_EXECUTE_CVD'' then ''1'' else ''/im''), env_Cwd = ''/srv''\<rparr>"

definition sample_image :: Image where
  "sample_image = zero_Image\<lparr>img_ID := ''img'', img_Path := ''/im/a'', img_Status := ImageStatusReady\<rparr>"

definition sample_vm :: "string \<Rightarrow> InstanceRow" where
  "sample_vm st = instance_row (zero_Instance\<lparr>inst_ID := ''vm'', inst_ImageID := ''img'',
     inst_State := st, inst_ADBPort := 6520, inst_CPUCores := 2, inst_MemoryMB := 4096\<rparr>) []"

definition sample_world :: "string \<Rightarrow> world" where
  "sample_world st = \<lparr>w_db = empty_db\<lparr>db_images := [sample_image], db_instances := [sample_vm st]\<rparr>, w_log = []\<rparr>"

definition sample_started :: world where
  "sample_started = snd (StartInstance 0 [1] ''vm'' (sample_world StateStopped))"




text \<open>After Reconcile no device is left in the starting, booting, stopping or deleting
  state, whatever the host answers.\<close>

theorem Reconcile_settles:
  assumes "unique_keys inst_ID (db_instances (w_db w))"
    and "r' \<in> set (db_instances (w_db (Reconcile e h now w)))"
  shows "inst_State r' \<notin> {StateStarting, StateBooting, StateStopping, StateDeleting}"
proof -
  let ?is = "ListInstances (w_db w)"
  have perm: "mset (map inst_ID ?is) = mset (map inst_ID (db_instances (w_db w)))"
    by (simp add: ListInstances_def comp_def mset_order_desc)
  then have dist: "distinct (map inst_ID ?is)"
    using assms(1) by (metis mset_eq_imp_distinct_iff unique_keys_def)
  have set_is: "set ?is = scanInstance ` set (db_instances (w_db w))" by (simp add: ListInstances_def)
  have "\<forall>r\<in>set (db_instances (w_db w)). \<forall>i\<in>set ?is. inst_ID i = inst_ID r \<longrightarrow> inst_State i = inst_State r"
    using assms(1) unfolding set_is by (auto simp: unique_keys_def distinct_map inj_on_def)
  from Reconcile_fold[OF this dist assms(2)[unfolded Reconcile_def]]
  have "settled (inst_State r')" by (auto simp: set_is image_iff)
  then show ?thesis by (simp add: settled_def)
qed

theorem Reconcile_settles_witness:
  "map inst_State (db_instances (w_db (Reconcile live_env sample_host 5 (sample_world StateBooting)))) \<noteq> [StateBooting]
   \<and> map inst_State (db_instances (w_db (Reconcile live_env sample_host 5 (sample_world StateBooting)))) = [StateRunning]"
proof -
  have u: "unique_keys inst_ID (db_instances (w_db (sample_world StateBooting)))"
    by (simp add: sample_world_def unique_keys_def)
  have s: "map inst_State (db_instances (w_db (Reconcile live_env sample_host 5 (sample_world StateBooting)))) = [StateRunning]"
    by code_simp
  obtain r where "db_instances (w_db (Reconcile live_env sample_host 5 (sample_world StateBooting))) = [r]"
    using s by (cases "db_instances (w_db (Reconcile live_env sample_host 5 (sample_world StateBooting)))") auto
  with Reconcile_settles[OF u, of r live_env sample_host 5] s show ?thesis by simp
qed

text \<open>Without OPENCUTTLES_EXECUTE_CVD=1 no command reaches the host: every background job
  and the reconciliation at startup leave the log of commands as it was.\<close>

theorem dry_run_runs_nothing:
  assumes "\<not> realCuttlefishExecutionEnabled e"
  shows "w_log (runStart e h now iid oid w) = w_log w \<and> w_log (runDeploy e h now iid oid w) = w_log w
    \<and> w_log (runStop e h now iid oid i w) = w_log w \<and> w_log (runDelete e h now iid oid i w) = w_log w
    \<and> w_log (Reconcile e h now w) = w_log w"
  using assms by (simp add: dry_runStart dry_runDeploy dry_runStop dry_runDelete dry_Reconcile)

theorem dry_run_runs_nothing_witness:
  "w_log (runStart sample_env sample_host 5 ''vm'' ''op_01'' sample_started) = w_log sample_started"
proof -
  have "\<not> realCuttlefishExecutionEnabled sample_env" by code_simp
  from dry_run_runs_nothing[OF this] show ?thesis by blast
qed

text \<open>The health report is degraded exactly when one of its checks has failed, and the
  database and every missing prerequisite are reported as such.\<close>

theorem Health_degraded_iff:
  assumes "snd disk = (hc_Status (fst disk) = ''failed'')" "snd vis = (hc_Status (fst vis) = ''failed'')"
    and "Health e ping prereqs disk vis = (status, checks)"
  shows "(status = ''degraded'') = list_ex (\<lambda>c. hc_Status c = ''failed'') checks
    \<and> (status = ''degraded'' \<or> status = ''ok'')
    \<and> (ping \<noteq> None \<or> list_ex (\<lambda>p. \<not> pre_OK p) prereqs \<longrightarrow> status = ''degraded'')"
  using assms by (auto simp: Health_def Let_def list_ex_iff split: option.splits if_splits)

definition no_check :: "HealthCheck \<times> bool" where
  "no_check = (\<lparr>hc_Name = [], hc_Status = [], hc_Message = []\<rparr>, False)"

theorem Health_degraded_iff_witness:
  "fst (Health sample_env None [\<lparr>pre_Name = ''adb'', pre_OK = False, pre_Detail = ''not found on PATH''\<rparr>]
      no_check no_check) = ''degraded''"
proof -
  have c: "snd no_check = (hc_Status (fst no_check) = ''failed'')" by (simp add: no_check_def)
  show ?thesis
    using Health_degraded_iff[OF c c prod.collapse[symmetric], of sample_env None
        "[\<lparr>pre_Name = ''adb'', pre_OK = False, pre_Detail = ''not found on PATH''\<rparr>]"] by simp
qed

section \<open>Two observations\<close>

text \<open>A device that was being provisioned when the process died stays in that state, from which no handler but delete accepts it.\<close>

lemma provisioning_is_stranded:
  "map inst_State (db_instances (w_db (Reconcile sample_env sample_host 5 (sample_world StateProvisioning)))) = [StateProvisioning]
   \<and> \<not> is_ok (fst (StartInstance 0 [1] ''vm'' (sample_world StateProvisioning)))
   \<and> \<not> is_ok (fst (Deploy 0 [1] ''vm'' (sample_world StateProvisioning)))
   \<and> \<not> is_ok (fst (StopInstance 0 [1] ''vm'' (sample_world StateProvisioning)))"
  by code_simp

text \<open>A stop that is asked for and carried out while the start job has not yet begun is undone by it.\<close>

definition stop_before_start :: world where
  "stop_before_start =
    (case StopInstance 1 [2] ''vm'' sample_started of
       (Inr (i, r), w) \<Rightarrow> runStop sample_env sample_host 2 ''vm'' (op_ID r) i w
     | (Inl _, w) \<Rightarrow> w)"

lemma start_job_overtakes_stop:
  "state_of stop_before_start ''vm'' = StateStopped
   \<and> state_of (runStart sample_env sample_host 3 ''vm'' ''op_01'' stop_before_start) ''vm'' = StateRunning"
  by code_simp

end
