(* ===== verification/Runner_Hub.thy ===== *)
theory Runner_Hub
  imports Store_Instances
begin

text \<open>
  The tunnel to the desktop runners, backend/internal/runnerhub/hub.go.  A runner dials in
  with an event stream; calls put commands into the outbox of its session and wait for the
  result that the runner posts back.  Sessions are numbered in the order in which
  they are opened, as the code allocates them; a session stays in the list when it is over.  The
  critical sections of the code are functions of the hub; hub_step lets the streams, the calls,
  the posted results and revocations interleave.  The JSON of parameters and results is
  kept as text, and seq is a natural number (a session does not make 2^64 calls).
\<close>

section \<open>The data of the hub\<close>

record command =
  cmd_ID :: string
  cmd_Method :: string
  cmd_Params :: string

record reply =
  rep_ID :: string
  rep_Result :: string
  rep_Error :: string

text \<open>
  A session: its outbox, the calls that wait with the buffer of their channel, the counter of the
  identifiers, whether its done channel is closed and whether its stream handler still runs.
\<close>

record session =
  rs_deviceID :: string
  rs_outbox :: "command list"
  rs_pending :: "string \<rightharpoonup> reply option"
  rs_seq :: nat
  rs_done :: bool
  rs_live :: bool

record hub =
  hub_sessions :: "string \<rightharpoonup> nat"
  hub_all :: "session list"
  hub_notes :: "(string \<times> bool) list"

definition new_hub :: hub where
  "new_hub = \<lparr>hub_sessions = Map.empty, hub_all = [], hub_notes = []\<rparr>"

definition outboxSize :: nat where
  "outboxSize = 16"

definition on_session :: "nat \<Rightarrow> (session \<Rightarrow> session) \<Rightarrow> hub \<Rightarrow> hub" where
  "on_session n f h = h\<lparr>hub_all := (hub_all h)[n := f (hub_all h ! n)]\<rparr>"

section \<open>Calls\<close>

text \<open>The first critical section of call: a new identifier and an empty buffer for its result.\<close>

definition next_id :: "nat \<Rightarrow> hub \<Rightarrow> string" where
  "next_id n h = nat_text (rs_seq (hub_all h ! n) + 1)"

definition begin_in :: "session \<Rightarrow> session" where
  "begin_in s = s\<lparr>rs_seq := rs_seq s + 1, rs_pending := (rs_pending s)(nat_text (rs_seq s + 1) \<mapsto> None)\<rparr>"

definition begin_call :: "nat \<Rightarrow> hub \<Rightarrow> hub" where
  "begin_call n h = on_session n begin_in h"

text \<open>The send on the outbox, which blocks while the buffer is full.\<close>

definition queue_command :: "nat \<Rightarrow> command \<Rightarrow> hub \<Rightarrow> hub option" where
  "queue_command n c h =
    (if length (rs_outbox (hub_all h ! n)) < outboxSize
     then Some (on_session n (\<lambda>s. s\<lparr>rs_outbox := rs_outbox s @ [c]\<rparr>) h) else None)"

text \<open>The deferred end of call.\<close>

definition end_call :: "nat \<Rightarrow> string \<Rightarrow> hub \<Rightarrow> hub" where
  "end_call n k h = on_session n (\<lambda>s. s\<lparr>rs_pending := (rs_pending s)(k := None)\<rparr>) h"

definition answered :: "nat \<Rightarrow> string \<Rightarrow> hub \<Rightarrow> reply option" where
  "answered n k h = (case rs_pending (hub_all h ! n) k of None \<Rightarrow> None | Some b \<Rightarrow> b)"

definition call_result :: "string \<Rightarrow> reply \<Rightarrow> string res" where
  "call_result dev r =
    (if rep_Error r \<noteq> [] then Inl (Err (''runner '' @ dev @ '': '' @ rep_Error r))
     else Inr (rep_Result r))"

text \<open>resolve: the result goes to the waiting call of its identifier, once, or nowhere.\<close>

definition resolve_in :: "reply \<Rightarrow> session \<Rightarrow> session" where
  "resolve_in r s =
    (case rs_pending s (rep_ID r) of
       Some None \<Rightarrow> s\<lparr>rs_pending := (rs_pending s)(rep_ID r \<mapsto> Some r)\<rparr>
     | _ \<Rightarrow> s)"

definition resolve :: "nat \<Rightarrow> reply \<Rightarrow> hub \<Rightarrow> hub" where
  "resolve n r h = on_session n (resolve_in r) h"

section \<open>Streams\<close>

definition Online :: "string \<Rightarrow> hub \<Rightarrow> bool" where
  "Online dev h = (hub_sessions h dev \<noteq> None)"

definition close_session :: "nat \<Rightarrow> hub \<Rightarrow> hub" where
  "close_session n h = on_session n (\<lambda>s. s\<lparr>rs_done := True\<rparr>) h"

definition Disconnect :: "string \<Rightarrow> hub \<Rightarrow> bool \<times> hub" where
  "Disconnect dev h =
    (case hub_sessions h dev of
       None \<Rightarrow> (False, h)
     | Some n \<Rightarrow> (True, close_session n (h\<lparr>hub_sessions := (hub_sessions h)(dev := None)\<rparr>)))"

definition new_session :: "string \<Rightarrow> session" where
  "new_session dev =
    \<lparr>rs_deviceID = dev, rs_outbox = [], rs_pending = Map.empty, rs_seq = 0, rs_done = False, rs_live = True\<rparr>"

text \<open>StreamHandler up to its loop, for an authenticated device.\<close>

definition supersede :: "string \<Rightarrow> hub \<Rightarrow> hub" where
  "supersede dev h = (case hub_sessions h dev of None \<Rightarrow> h | Some n \<Rightarrow> close_session n h)"

definition open_stream :: "string \<Rightarrow> hub \<Rightarrow> hub" where
  "open_stream dev h =
    (let h1 = supersede dev h
     in h1\<lparr>hub_all := hub_all h1 @ [new_session dev],
           hub_sessions := (hub_sessions h1)(dev \<mapsto> length (hub_all h1)),
           hub_notes := hub_notes h1 @ [(dev, True)]\<rparr>)"

text \<open>One round of the loop: a command is written to the stream.\<close>

definition send_next :: "nat \<Rightarrow> hub \<Rightarrow> hub" where
  "send_next n h = on_session n (\<lambda>s. s\<lparr>rs_outbox := tl (rs_outbox s)\<rparr>) h"

text \<open>The end of StreamHandler with its deferred function.\<close>

definition end_stream :: "nat \<Rightarrow> hub \<Rightarrow> hub" where
  "end_stream n h =
    (let dev = rs_deviceID (hub_all h ! n);
         h1 = on_session n (\<lambda>s. s\<lparr>rs_live := False\<rparr>) h
     in h1\<lparr>hub_sessions := (if hub_sessions h dev = Some n then (hub_sessions h)(dev := None) else hub_sessions h),
           hub_notes := hub_notes h1 @ [(dev, False)]\<rparr>)"

text \<open>What the API server makes of a note: the state of the device in the database.\<close>

definition OnOnline :: "time \<Rightarrow> string \<times> bool \<Rightarrow> db \<Rightarrow> db" where
  "OnOnline now note d =
    (case note of (dev, up) \<Rightarrow>
       snd (UpdateInstanceState now dev (if up then StateOnline else StateOffline) [] d))"

section \<open>Interleaving\<close>

datatype call_phase =
    Looked
  | Queuing string
  | Awaiting string
  | Answered string reply
  | Failed string

record hub_call =
  hc_dev :: string
  hc_session :: nat
  hc_method :: string
  hc_params :: string
  hc_phase :: call_phase

record tunnel =
  tn_hub :: hub
  tn_calls :: "hub_call list"
  tn_posts :: "(string \<times> nat \<times> reply) list"
  tn_sent :: "(nat \<times> command) list"

fun phase_id :: "call_phase \<Rightarrow> string option" where
  "phase_id Looked = None"
| "phase_id (Queuing k) = Some k"
| "phase_id (Awaiting k) = Some k"
| "phase_id (Answered k _) = Some k"
| "phase_id (Failed k) = Some k"

definition command_of :: "hub_call \<Rightarrow> string \<Rightarrow> command" where
  "command_of c k = \<lparr>cmd_ID = k, cmd_Method = hc_method c, cmd_Params = hc_params c\<rparr>"

definition move_call :: "nat \<Rightarrow> call_phase \<Rightarrow> hub \<Rightarrow> tunnel \<Rightarrow> tunnel" where
  "move_call i p h t =
    t\<lparr>tn_hub := h, tn_calls := (tn_calls t)[i := (tn_calls t ! i)\<lparr>hc_phase := p\<rparr>]\<rparr>"

abbreviation calls_in :: "tunnel \<Rightarrow> nat \<Rightarrow> call_phase \<Rightarrow> bool" where
  "calls_in t i p \<equiv> i < length (tn_calls t) \<and> hc_phase (tn_calls t ! i) = p"

text \<open>
  Call looks the session up and goes through the sections of call; ResultHandler looks the
  session up and resolves the result in it, possibly after the session was replaced.  The
  lists of posts and of commands sent are kept only to state what happened.
\<close>

inductive hub_step :: "tunnel \<Rightarrow> tunnel \<Rightarrow> bool" where
  connect: "hub_step t (t\<lparr>tn_hub := open_stream dev (tn_hub t)\<rparr>)"
| stream_ends: "n < length (hub_all (tn_hub t)) \<Longrightarrow> rs_live (hub_all (tn_hub t) ! n) \<Longrightarrow>
    hub_step t (t\<lparr>tn_hub := end_stream n (tn_hub t)\<rparr>)"
| send: "n < length (hub_all (tn_hub t)) \<Longrightarrow> rs_live (hub_all (tn_hub t) ! n) \<Longrightarrow>
    rs_outbox (hub_all (tn_hub t) ! n) = c # cs \<Longrightarrow>
    hub_step t (t\<lparr>tn_hub := send_next n (tn_hub t), tn_sent := tn_sent t @ [(n, c)]\<rparr>)"
| revoke: "hub_step t (t\<lparr>tn_hub := snd (Disconnect dev (tn_hub t))\<rparr>)"
| look_up: "hub_sessions (tn_hub t) dev = Some n \<Longrightarrow>
    hub_step t (t\<lparr>tn_calls := tn_calls t @
      [\<lparr>hc_dev = dev, hc_session = n, hc_method = m, hc_params = ps, hc_phase = Looked\<rparr>]\<rparr>)"
| begin_call: "calls_in t i Looked \<Longrightarrow> n = hc_session (tn_calls t ! i) \<Longrightarrow>
    hub_step t (move_call i (Queuing (next_id n (tn_hub t))) (begin_call n (tn_hub t)) t)"
| queue: "calls_in t i (Queuing k) \<Longrightarrow>
    queue_command (hc_session (tn_calls t ! i)) (command_of (tn_calls t ! i) k) (tn_hub t) = Some h \<Longrightarrow>
    hub_step t (move_call i (Awaiting k) h t)"
| answer: "calls_in t i (Awaiting k) \<Longrightarrow> answered (hc_session (tn_calls t ! i)) k (tn_hub t) = Some r \<Longrightarrow>
    hub_step t (move_call i (Answered k r) (end_call (hc_session (tn_calls t ! i)) k (tn_hub t)) t)"
| give_up: "calls_in t i p \<Longrightarrow> p = Queuing k \<or> p = Awaiting k \<Longrightarrow>
    hub_step t (move_call i (Failed k) (end_call (hc_session (tn_calls t ! i)) k (tn_hub t)) t)"
| post: "hub_sessions (tn_hub t) dev = Some n \<Longrightarrow>
    hub_step t (t\<lparr>tn_posts := tn_posts t @ [(dev, n, r)]\<rparr>)"
| deliver: "(dev, n, r) \<in> set (tn_posts t) \<Longrightarrow>
    hub_step t (t\<lparr>tn_hub := resolve n r (tn_hub t)\<rparr>)"

inductive hub_reachable :: "tunnel \<Rightarrow> bool" where
  start: "hub_reachable \<lparr>tn_hub = new_hub, tn_calls = [], tn_posts = [], tn_sent = []\<rparr>"
| step: "hub_reachable t \<Longrightarrow> hub_step t t' \<Longrightarrow> hub_reachable t'"

section \<open>The invariants of the tunnel\<close>

lemma on_session_fields [simp]:
  "hub_sessions (on_session n f h) = hub_sessions h" "hub_notes (on_session n f h) = hub_notes h"
  "length (hub_all (on_session n f h)) = length (hub_all h)"
  by (simp_all add: on_session_def)

lemma on_session_nth:
  "m < length (hub_all h) \<Longrightarrow>
    hub_all (on_session n f h) ! m = (if m = n then f (hub_all h ! m) else hub_all h ! m)"
  by (auto simp: on_session_def nth_list_update)

text \<open>Who is registered: exactly the sessions whose stream runs and was not closed, one for each device.\<close>

definition registered :: "hub \<Rightarrow> bool" where
  "registered h =
    ((\<forall>dev n. hub_sessions h dev = Some n \<longrightarrow>
        n < length (hub_all h) \<and> rs_deviceID (hub_all h ! n) = dev
        \<and> rs_live (hub_all h ! n) \<and> \<not> rs_done (hub_all h ! n))
     \<and> (\<forall>n<length (hub_all h). rs_live (hub_all h ! n) \<longrightarrow> \<not> rs_done (hub_all h ! n) \<longrightarrow>
          hub_sessions h (rs_deviceID (hub_all h ! n)) = Some n))"

lemma registeredI:
  assumes "\<And>dev n. hub_sessions h dev = Some n \<Longrightarrow> n < length (hub_all h) \<and> rs_deviceID (hub_all h ! n) = dev
      \<and> rs_live (hub_all h ! n) \<and> \<not> rs_done (hub_all h ! n)"
    and "\<And>n. n < length (hub_all h) \<Longrightarrow> rs_live (hub_all h ! n) \<Longrightarrow> \<not> rs_done (hub_all h ! n) \<Longrightarrow>
      hub_sessions h (rs_deviceID (hub_all h ! n)) = Some n"
  shows "registered h"
  using assms unfolding registered_def by blast

lemma registeredD:
  assumes "registered h" "hub_sessions h dev = Some n"
  shows "n < length (hub_all h)" "rs_deviceID (hub_all h ! n) = dev" "rs_live (hub_all h ! n)" "\<not> rs_done (hub_all h ! n)"
  using assms unfolding registered_def by blast+

lemma registered_live:
  "registered h \<Longrightarrow> n < length (hub_all h) \<Longrightarrow> rs_live (hub_all h ! n) \<Longrightarrow> \<not> rs_done (hub_all h ! n) \<Longrightarrow>
    hub_sessions h (rs_deviceID (hub_all h ! n)) = Some n"
  unfolding registered_def by blast

lemma registered_same:
  assumes "registered h" "\<And>s. rs_deviceID (f s) = rs_deviceID s" "\<And>s. rs_live (f s) = rs_live s"
    "\<And>s. rs_done (f s) = rs_done s"
  shows "registered (on_session n f h)"
proof (rule registeredI)
  fix dev m assume "hub_sessions (on_session n f h) dev = Some m"
  then have "hub_sessions h dev = Some m" by simp
  from registeredD[OF assms(1) this]
  show "m < length (hub_all (on_session n f h)) \<and> rs_deviceID (hub_all (on_session n f h) ! m) = dev
      \<and> rs_live (hub_all (on_session n f h) ! m) \<and> \<not> rs_done (hub_all (on_session n f h) ! m)"
    using assms(2-4) by (auto simp: on_session_nth)
next
  fix m assume "m < length (hub_all (on_session n f h))" "rs_live (hub_all (on_session n f h) ! m)"
    "\<not> rs_done (hub_all (on_session n f h) ! m)"
  then show "hub_sessions (on_session n f h) (rs_deviceID (hub_all (on_session n f h) ! m)) = Some m"
    using registered_live[OF assms(1), of m] assms(2-4) by (simp add: on_session_nth split: if_splits)
qed

text \<open>Taking a device out of the registry while its session ends or is closed.\<close>

lemma registered_drop:
  assumes "registered h" "hub_sessions h dev = Some n" "\<And>s. rs_deviceID (f s) = rs_deviceID s"
    "\<And>s. \<not> (rs_live (f s) \<and> \<not> rs_done (f s))"
  shows "registered ((on_session n f h)\<lparr>hub_sessions := (hub_sessions h)(dev := None)\<rparr>)"
proof (rule registeredI)
  fix d m assume "hub_sessions ((on_session n f h)\<lparr>hub_sessions := (hub_sessions h)(dev := None)\<rparr>) d = Some m"
  then have d: "d \<noteq> dev" "hub_sessions h d = Some m" by (auto split: if_splits)
  have "m \<noteq> n" using registeredD(2)[OF assms(1) d(2)] registeredD(2)[OF assms(1,2)] d(1) by auto
  then show "m < length (hub_all ((on_session n f h)\<lparr>hub_sessions := (hub_sessions h)(dev := None)\<rparr>))
      \<and> rs_deviceID (hub_all ((on_session n f h)\<lparr>hub_sessions := (hub_sessions h)(dev := None)\<rparr>) ! m) = d
      \<and> rs_live (hub_all ((on_session n f h)\<lparr>hub_sessions := (hub_sessions h)(dev := None)\<rparr>) ! m)
      \<and> \<not> rs_done (hub_all ((on_session n f h)\<lparr>hub_sessions := (hub_sessions h)(dev := None)\<rparr>) ! m)"
    using registeredD[OF assms(1) d(2)] by (simp add: on_session_nth)
next
  let ?h = "(on_session n f h)\<lparr>hub_sessions := (hub_sessions h)(dev := None)\<rparr>"
  fix m assume m: "m < length (hub_all ?h)" "rs_live (hub_all ?h ! m)" "\<not> rs_done (hub_all ?h ! m)"
  then have "m \<noteq> n" using assms(4)[of "hub_all h ! n"] by (auto simp: on_session_nth)
  then have l: "hub_sessions h (rs_deviceID (hub_all h ! m)) = Some m"
    using m registered_live[OF assms(1), of m] by (simp add: on_session_nth)
  then have "rs_deviceID (hub_all h ! m) \<noteq> dev" using assms(2) \<open>m \<noteq> n\<close> by auto
  then show "hub_sessions ?h (rs_deviceID (hub_all ?h ! m)) = Some m"
    using l m \<open>m \<noteq> n\<close> by (simp add: on_session_nth)
qed

lemma registered_Disconnect: "registered h \<Longrightarrow> registered (snd (Disconnect dev h))"
proof (cases "hub_sessions h dev")
  case (Some n)
  assume r: "registered h"
  have "snd (Disconnect dev h)
      = (on_session n (\<lambda>s. s\<lparr>rs_done := True\<rparr>) h)\<lparr>hub_sessions := (hub_sessions h)(dev := None)\<rparr>"
    using Some by (simp add: Disconnect_def close_session_def on_session_def)
  then show ?thesis using registered_drop[OF r Some, of "\<lambda>s. s\<lparr>rs_done := True\<rparr>"] by simp
qed (simp add: Disconnect_def)

text \<open>A stream that ends without being registered was closed before, or ended already.\<close>

lemma registered_notes: "registered (h\<lparr>hub_notes := ns\<rparr>) = registered h"
  by (simp add: registered_def)

lemma registered_gone:
  assumes "registered h" "hub_sessions h (rs_deviceID (hub_all h ! n)) \<noteq> Some n" "n < length (hub_all h)"
  shows "registered (on_session n (\<lambda>s. s\<lparr>rs_live := False\<rparr>) h)"
proof (rule registeredI)
  fix dev m assume "hub_sessions (on_session n (\<lambda>s. s\<lparr>rs_live := False\<rparr>) h) dev = Some m"
  then have s: "hub_sessions h dev = Some m" by simp
  note d = registeredD[OF assms(1) this]
  have "m \<noteq> n" using s d(2) assms(2) by auto
  then show "m < length (hub_all (on_session n (\<lambda>s. s\<lparr>rs_live := False\<rparr>) h))
      \<and> rs_deviceID (hub_all (on_session n (\<lambda>s. s\<lparr>rs_live := False\<rparr>) h) ! m) = dev
      \<and> rs_live (hub_all (on_session n (\<lambda>s. s\<lparr>rs_live := False\<rparr>) h) ! m)
      \<and> \<not> rs_done (hub_all (on_session n (\<lambda>s. s\<lparr>rs_live := False\<rparr>) h) ! m)"
    using d by (simp add: on_session_nth)
next
  fix m assume "m < length (hub_all (on_session n (\<lambda>s. s\<lparr>rs_live := False\<rparr>) h))"
    "rs_live (hub_all (on_session n (\<lambda>s. s\<lparr>rs_live := False\<rparr>) h) ! m)"
    "\<not> rs_done (hub_all (on_session n (\<lambda>s. s\<lparr>rs_live := False\<rparr>) h) ! m)"
  then show "hub_sessions (on_session n (\<lambda>s. s\<lparr>rs_live := False\<rparr>) h)
      (rs_deviceID (hub_all (on_session n (\<lambda>s. s\<lparr>rs_live := False\<rparr>) h) ! m)) = Some m"
    using registered_live[OF assms(1), of m] by (simp add: on_session_nth split: if_splits)
qed

lemma registered_end:
  assumes "registered h" "n < length (hub_all h)"
  shows "registered (end_stream n h)"
proof (cases "hub_sessions h (rs_deviceID (hub_all h ! n)) = Some n")
  case True
  from registered_drop[OF assms(1) this, of "\<lambda>s. s\<lparr>rs_live := False\<rparr>"] True show ?thesis
    by (simp add: end_stream_def Let_def registered_def)
next
  case False
  from registered_gone[OF assms(1) this assms(2)] False show ?thesis
    by (simp add: end_stream_def Let_def registered_def on_session_def)
qed

lemma registered_open:
  assumes "registered h"
  shows "registered (open_stream dev h)"
proof (rule registeredI)
  let ?h = "open_stream dev h"
  have all: "hub_all ?h = hub_all (supersede dev h) @ [new_session dev]"
    and len: "length (hub_all (supersede dev h)) = length (hub_all h)"
    and ses: "hub_sessions ?h = (hub_sessions h)(dev \<mapsto> length (hub_all h))"
    by (simp_all add: open_stream_def supersede_def close_session_def Let_def split: option.split)
  have old: "hub_all (supersede dev h) ! m =
      (if hub_sessions h dev = Some m then (hub_all h ! m)\<lparr>rs_done := True\<rparr> else hub_all h ! m)"
    if "m < length (hub_all h)" for m
    using that by (auto simp: supersede_def close_session_def on_session_nth split: option.split)
  {
    fix d m assume d: "hub_sessions ?h d = Some m"
    show "m < length (hub_all ?h) \<and> rs_deviceID (hub_all ?h ! m) = d \<and> rs_live (hub_all ?h ! m) \<and> \<not> rs_done (hub_all ?h ! m)"
    proof (cases "d = dev")
      case True
      then show ?thesis using d by (simp add: all len ses nth_append new_session_def)
    next
      case False
      then have s: "hub_sessions h d = Some m" using d by (simp add: ses)
      note r = registeredD[OF assms s]
      have "hub_sessions h dev \<noteq> Some m" using registeredD(2)[OF assms, of dev m] r(2) False by auto
      then show ?thesis using r by (simp add: all len nth_append old)
    qed
  next
    fix m assume m: "m < length (hub_all ?h)" "rs_live (hub_all ?h ! m)" "\<not> rs_done (hub_all ?h ! m)"
    show "hub_sessions ?h (rs_deviceID (hub_all ?h ! m)) = Some m"
    proof (cases "m = length (hub_all h)")
      case True
      then show ?thesis by (simp add: all len ses nth_append new_session_def)
    next
      case False
      then have lt: "m < length (hub_all h)" using m(1) by (simp add: all len)
      then have e: "hub_all ?h ! m = hub_all (supersede dev h) ! m" by (simp add: all len nth_append)
      then have n: "hub_sessions h dev \<noteq> Some m" using m(3) old[OF lt] by auto
      then have l: "hub_sessions h (rs_deviceID (hub_all h ! m)) = Some m"
        using m e old[OF lt] registered_live[OF assms lt] by simp
      then have "rs_deviceID (hub_all h ! m) \<noteq> dev" using n by auto
      then show ?thesis using l n e old[OF lt] by (simp add: ses)
    qed
  }
qed

text \<open>How an operation changes the sessions: no session is lost or given to another device.\<close>

definition extends :: "hub \<Rightarrow> hub \<Rightarrow> bool" where
  "extends h h' =
    (length (hub_all h) \<le> length (hub_all h')
     \<and> (\<forall>n<length (hub_all h). rs_deviceID (hub_all h' ! n) = rs_deviceID (hub_all h ! n)
          \<and> rs_seq (hub_all h ! n) \<le> rs_seq (hub_all h' ! n)))"

text \<open>A change of who is connected leaves outboxes and waiting calls alone; a new session has none.\<close>

definition same_queues :: "hub \<Rightarrow> hub \<Rightarrow> bool" where
  "same_queues h h' =
    (\<forall>n<length (hub_all h').
       (n < length (hub_all h) \<and> rs_outbox (hub_all h' ! n) = rs_outbox (hub_all h ! n)
          \<and> rs_pending (hub_all h' ! n) = rs_pending (hub_all h ! n))
       \<or> rs_outbox (hub_all h' ! n) = [] \<and> rs_pending (hub_all h' ! n) = Map.empty)"

lemma extends_refl [simp]: "extends h h" and same_queues_refl [simp]: "same_queues h h"
  by (auto simp: extends_def same_queues_def)

lemma extends_session:
  assumes "\<And>s. rs_deviceID (f s) = rs_deviceID s" "\<And>s. rs_seq s \<le> rs_seq (f s)"
  shows "extends h (on_session n f h)"
  using assms by (auto simp: extends_def on_session_nth)

lemma connections:
  "extends h (open_stream dev h)" "same_queues h (open_stream dev h)"
  "extends h (end_stream n h)" "same_queues h (end_stream n h)"
  "extends h (snd (Disconnect dev h))" "same_queues h (snd (Disconnect dev h))"
  unfolding extends_def same_queues_def open_stream_def supersede_def end_stream_def Disconnect_def close_session_def
  by (auto simp: on_session_nth Let_def nth_append new_session_def less_Suc_eq split: option.splits)

lemma sections:
  "extends h (begin_call n h)" "extends h (end_call n k h)" "extends h (resolve n r h)" "extends h (send_next n h)"
  "queue_command n c h = Some h' \<Longrightarrow> extends h h'"
  unfolding begin_call_def end_call_def resolve_def send_next_def queue_command_def resolve_in_def begin_in_def
  by (auto intro!: extends_session split: option.splits if_splits)

definition call_ok :: "hub \<Rightarrow> hub_call \<Rightarrow> bool" where
  "call_ok h c =
    (hc_session c < length (hub_all h) \<and> rs_deviceID (hub_all h ! hc_session c) = hc_dev c
     \<and> (\<forall>k. phase_id (hc_phase c) = Some k \<longrightarrow>
          (\<exists>j. 1 \<le> j \<and> j \<le> rs_seq (hub_all h ! hc_session c) \<and> k = nat_text j)))"

definition calls_ok :: "tunnel \<Rightarrow> bool" where
  "calls_ok t = list_all (call_ok (tn_hub t)) (tn_calls t)"

definition posts_ok :: "tunnel \<Rightarrow> bool" where
  "posts_ok t = (\<forall>(dev, n, r)\<in>set (tn_posts t).
      n < length (hub_all (tn_hub t)) \<and> rs_deviceID (hub_all (tn_hub t) ! n) = dev)"

text \<open>Two calls on one session never share an identifier.\<close>

definition separate_ids :: "tunnel \<Rightarrow> bool" where
  "separate_ids t =
    (\<forall>i j k. i < length (tn_calls t) \<and> j < length (tn_calls t) \<and> i \<noteq> j
       \<and> hc_session (tn_calls t ! i) = hc_session (tn_calls t ! j)
       \<and> phase_id (hc_phase (tn_calls t ! i)) = Some k \<longrightarrow> phase_id (hc_phase (tn_calls t ! j)) \<noteq> Some k)"

definition buffers_ok :: "tunnel \<Rightarrow> bool" where
  "buffers_ok t =
    (\<forall>n k r. n < length (hub_all (tn_hub t)) \<and> rs_pending (hub_all (tn_hub t) ! n) k = Some (Some r) \<longrightarrow>
       rep_ID r = k \<and> (rs_deviceID (hub_all (tn_hub t) ! n), n, r) \<in> set (tn_posts t))"

text \<open>An answer carries the identifier of its call and was posted by the device that was called.\<close>

definition answers_ok :: "tunnel \<Rightarrow> bool" where
  "answers_ok t =
    (\<forall>c\<in>set (tn_calls t). \<forall>k r. hc_phase c = Answered k r \<longrightarrow>
       rep_ID r = k \<and> (hc_dev c, hc_session c, r) \<in> set (tn_posts t))"

text \<open>A command is only ever given to the stream of the device that was called.\<close>

definition made :: "tunnel \<Rightarrow> nat \<Rightarrow> command \<Rightarrow> bool" where
  "made t n c =
    (\<exists>i<length (tn_calls t). hc_session (tn_calls t ! i) = n
       \<and> (\<exists>k. phase_id (hc_phase (tn_calls t ! i)) = Some k \<and> c = command_of (tn_calls t ! i) k))"

definition commands_ok :: "tunnel \<Rightarrow> bool" where
  "commands_ok t =
    ((\<forall>n<length (hub_all (tn_hub t)). list_all (made t n) (rs_outbox (hub_all (tn_hub t) ! n)))
     \<and> list_all (\<lambda>(n, c). made t n c) (tn_sent t))"

definition tunnel_inv :: "tunnel \<Rightarrow> bool" where
  "tunnel_inv t =
    (registered (tn_hub t) \<and> calls_ok t \<and> posts_ok t \<and> separate_ids t \<and> buffers_ok t
     \<and> answers_ok t \<and> commands_ok t)"

section \<open>Connections keep the invariant\<close>

lemma call_ok_extends: "extends h h' \<Longrightarrow> call_ok h c \<Longrightarrow> call_ok h' c"
  unfolding extends_def call_ok_def by (metis le_trans less_le_trans)

lemma made_same [simp]: "made (t\<lparr>tn_hub := h\<rparr>) = made t" "made (t\<lparr>tn_posts := ps\<rparr>) = made t"
  "made (t\<lparr>tn_sent := cs\<rparr>) = made t"
  by (simp_all add: made_def fun_eq_iff)

lemma same_calls [simp]: "separate_ids (t\<lparr>tn_hub := h\<rparr>) = separate_ids t"
  "answers_ok (t\<lparr>tn_hub := h\<rparr>) = answers_ok t"
  "separate_ids (t\<lparr>tn_sent := cs\<rparr>) = separate_ids t" "answers_ok (t\<lparr>tn_sent := cs\<rparr>) = answers_ok t"
  "posts_ok (t\<lparr>tn_calls := xs\<rparr>) = posts_ok t" "buffers_ok (t\<lparr>tn_calls := xs\<rparr>) = buffers_ok t"
  by (simp_all add: separate_ids_def answers_ok_def posts_ok_def buffers_ok_def)

lemma inv_connection:
  assumes "tunnel_inv t" "registered h" "extends (tn_hub t) h" "same_queues (tn_hub t) h"
  shows "tunnel_inv (t\<lparr>tn_hub := h\<rparr>)"
proof -
  have "calls_ok (t\<lparr>tn_hub := h\<rparr>)"
    using assms call_ok_extends by (auto simp: tunnel_inv_def calls_ok_def list_all_iff)
  moreover have "posts_ok (t\<lparr>tn_hub := h\<rparr>)"
    using assms by (fastforce simp: tunnel_inv_def posts_ok_def extends_def)
  moreover have "buffers_ok (t\<lparr>tn_hub := h\<rparr>)"
    unfolding buffers_ok_def
  proof (intro allI impI)
    fix n k r assume "n < length (hub_all (tn_hub (t\<lparr>tn_hub := h\<rparr>)))
        \<and> rs_pending (hub_all (tn_hub (t\<lparr>tn_hub := h\<rparr>)) ! n) k = Some (Some r)"
    then have n: "n < length (hub_all h)" "rs_pending (hub_all h ! n) k = Some (Some r)" by simp_all
    then have "n < length (hub_all (tn_hub t))" "rs_pending (hub_all (tn_hub t) ! n) k = Some (Some r)"
      using assms(4) by (auto simp: same_queues_def)
    then show "rep_ID r = k \<and> (rs_deviceID (hub_all (tn_hub (t\<lparr>tn_hub := h\<rparr>)) ! n), n, r) \<in> set (tn_posts (t\<lparr>tn_hub := h\<rparr>))"
      using assms(1,3) by (auto simp: tunnel_inv_def buffers_ok_def extends_def)
  qed
  moreover have "commands_ok (t\<lparr>tn_hub := h\<rparr>)"
    unfolding commands_ok_def
  proof (intro conjI allI impI)
    fix n assume "n < length (hub_all (tn_hub (t\<lparr>tn_hub := h\<rparr>)))"
    then have "rs_outbox (hub_all h ! n) = []
        \<or> n < length (hub_all (tn_hub t)) \<and> rs_outbox (hub_all h ! n) = rs_outbox (hub_all (tn_hub t) ! n)"
      using assms(4) by (auto simp: same_queues_def)
    then show "list_all (made (t\<lparr>tn_hub := h\<rparr>) n) (rs_outbox (hub_all (tn_hub (t\<lparr>tn_hub := h\<rparr>)) ! n))"
      using assms(1) by (auto simp: tunnel_inv_def commands_ok_def)
  next
    show "list_all (\<lambda>(n, c). made (t\<lparr>tn_hub := h\<rparr>) n c) (tn_sent (t\<lparr>tn_hub := h\<rparr>))"
      using assms(1) by (simp add: tunnel_inv_def commands_ok_def)
  qed
  ultimately show ?thesis
    using assms by (simp add: tunnel_inv_def)
qed

section \<open>A section of a call keeps the invariant\<close>

lemma move_call_fields [simp]:
  "tn_hub (move_call i p h t) = h" "tn_posts (move_call i p h t) = tn_posts t" "tn_sent (move_call i p h t) = tn_sent t"
  "length (tn_calls (move_call i p h t)) = length (tn_calls t)"
  by (simp_all add: move_call_def)

lemma move_call_nth:
  "j < length (tn_calls t) \<Longrightarrow>
    tn_calls (move_call i p h t) ! j = (if j = i then (tn_calls t ! j)\<lparr>hc_phase := p\<rparr> else tn_calls t ! j)"
  by (auto simp: move_call_def nth_list_update)

lemma calls_move:
  assumes "calls_ok t" "extends (tn_hub t) h" "i < length (tn_calls t)"
    "call_ok h ((tn_calls t ! i)\<lparr>hc_phase := p\<rparr>)"
  shows "calls_ok (move_call i p h t)"
  using assms call_ok_extends[OF assms(2)]
  by (auto simp: calls_ok_def list_all_length move_call_nth)

lemma posts_hub:
  "posts_ok t \<Longrightarrow> extends (tn_hub t) h \<Longrightarrow> tn_posts t' = tn_posts t \<Longrightarrow> tn_hub t' = h \<Longrightarrow> posts_ok t'"
  by (fastforce simp: posts_ok_def extends_def)

lemma separate_move:
  assumes "separate_ids t" "i < length (tn_calls t)"
    "\<And>k j. phase_id p = Some k \<Longrightarrow> phase_id (hc_phase (tn_calls t ! i)) \<noteq> Some k \<Longrightarrow> j < length (tn_calls t) \<Longrightarrow>
      hc_session (tn_calls t ! j) = hc_session (tn_calls t ! i) \<Longrightarrow> phase_id (hc_phase (tn_calls t ! j)) \<noteq> Some k"
  shows "separate_ids (move_call i p h t)"
  unfolding separate_ids_def
proof (intro allI impI)
  fix a b k
  assume "a < length (tn_calls (move_call i p h t)) \<and> b < length (tn_calls (move_call i p h t)) \<and> a \<noteq> b
    \<and> hc_session (tn_calls (move_call i p h t) ! a) = hc_session (tn_calls (move_call i p h t) ! b)
    \<and> phase_id (hc_phase (tn_calls (move_call i p h t) ! a)) = Some k"
  then have ab: "a < length (tn_calls t)" "b < length (tn_calls t)" "a \<noteq> b"
    "hc_session (tn_calls t ! a) = hc_session (tn_calls t ! b)"
    "phase_id (if a = i then p else hc_phase (tn_calls t ! a)) = Some k"
    by (auto simp: move_call_nth split: if_splits)
  have old: "phase_id (hc_phase (tn_calls t ! x)) = Some k \<Longrightarrow> phase_id (hc_phase (tn_calls t ! y)) \<noteq> Some k"
    if "x < length (tn_calls t)" "y < length (tn_calls t)" "x \<noteq> y"
      "hc_session (tn_calls t ! x) = hc_session (tn_calls t ! y)" for x y
    using assms(1) that unfolding separate_ids_def by blast
  have "phase_id (if b = i then p else hc_phase (tn_calls t ! b)) \<noteq> Some k"
  proof (cases "b = i")
    case True
    then have a: "phase_id (hc_phase (tn_calls t ! a)) = Some k" using ab(3,5) by simp
    then have "phase_id (hc_phase (tn_calls t ! i)) \<noteq> Some k" using old[of a i] ab True by simp
    then show ?thesis using a assms(3)[of k a] ab True by auto
  next
    case False
    show ?thesis
    proof (cases "a = i \<and> phase_id (hc_phase (tn_calls t ! i)) \<noteq> Some k")
      case True
      then show ?thesis using assms(3)[of k b] ab False by simp
    next
      case old_id: False
      then have "phase_id (hc_phase (tn_calls t ! a)) = Some k" using ab(5) by (auto split: if_splits)
      then show ?thesis using old[of a b] ab False by simp
    qed
  qed
  then show "phase_id (hc_phase (tn_calls (move_call i p h t) ! b)) \<noteq> Some k"
    using ab(2) by (auto simp: move_call_nth)
qed

lemma made_move:
  assumes "made t n c" "phase_id (hc_phase (tn_calls t ! i)) \<in> {None, phase_id p}"
  shows "made (move_call i p h t) n c"
proof -
  from assms(1) obtain j k where j: "j < length (tn_calls t)" "hc_session (tn_calls t ! j) = n"
    "phase_id (hc_phase (tn_calls t ! j)) = Some k" "c = command_of (tn_calls t ! j) k"
    by (auto simp: made_def)
  then show ?thesis
    using assms(2) unfolding made_def
    by (intro exI[of _ j]) (auto simp: move_call_nth command_of_def)
qed

text \<open>What a section may add to an outbox and to a buffer.\<close>

definition queues_from :: "tunnel \<Rightarrow> hub \<Rightarrow> tunnel \<Rightarrow> bool" where
  "queues_from t h t' =
    (\<forall>n<length (hub_all h). n < length (hub_all (tn_hub t))
       \<and> (\<forall>c\<in>set (rs_outbox (hub_all h ! n)). c \<in> set (rs_outbox (hub_all (tn_hub t) ! n)) \<or> made t' n c)
       \<and> (\<forall>k r. rs_pending (hub_all h ! n) k = Some (Some r) \<longrightarrow>
            rs_pending (hub_all (tn_hub t) ! n) k = Some (Some r)
            \<or> rep_ID r = k \<and> (rs_deviceID (hub_all (tn_hub t) ! n), n, r) \<in> set (tn_posts t)))"

lemma buffers_hub:
  assumes "buffers_ok t" "queues_from t h t'" "extends (tn_hub t) h" "tn_hub t' = h" "tn_posts t' = tn_posts t"
  shows "buffers_ok t'"
  using assms unfolding buffers_ok_def queues_from_def extends_def by simp metis

lemma commands_hub:
  assumes "commands_ok t" "queues_from t h t'" "tn_hub t' = h" "tn_sent t' = tn_sent t"
    "\<And>n c. made t n c \<Longrightarrow> made t' n c"
  shows "commands_ok t'"
  using assms unfolding commands_ok_def queues_from_def list_all_iff by fastforce

lemma inv_move:
  assumes inv: "tunnel_inv t" and i: "i < length (tn_calls t)"
    and h: "registered h" "extends (tn_hub t) h" "queues_from t h (move_call i p h t)"
    and ids: "phase_id (hc_phase (tn_calls t ! i)) \<in> {None, phase_id p}"
    and ok: "call_ok h ((tn_calls t ! i)\<lparr>hc_phase := p\<rparr>)"
    and new: "\<And>k j. phase_id p = Some k \<Longrightarrow> phase_id (hc_phase (tn_calls t ! i)) \<noteq> Some k \<Longrightarrow> j < length (tn_calls t) \<Longrightarrow>
      hc_session (tn_calls t ! j) = hc_session (tn_calls t ! i) \<Longrightarrow> phase_id (hc_phase (tn_calls t ! j)) \<noteq> Some k"
    and ans: "\<And>k r. p = Answered k r \<Longrightarrow> rep_ID r = k
      \<and> (hc_dev (tn_calls t ! i), hc_session (tn_calls t ! i), r) \<in> set (tn_posts t)"
  shows "tunnel_inv (move_call i p h t)"
proof -
  have "answers_ok (move_call i p h t)"
    unfolding answers_ok_def
  proof (intro ballI allI impI)
    fix c k r assume c: "c \<in> set (tn_calls (move_call i p h t))" "hc_phase c = Answered k r"
    then obtain j where j: "j < length (tn_calls t)" "c = tn_calls (move_call i p h t) ! j"
      by (auto simp: in_set_conv_nth)
    show "rep_ID r = k \<and> (hc_dev c, hc_session c, r) \<in> set (tn_posts (move_call i p h t))"
    proof (cases "j = i")
      case True
      then show ?thesis using c(2) j ans by (simp add: move_call_nth)
    next
      case False
      then have "c \<in> set (tn_calls t)" using j by (simp add: move_call_nth)
      then show ?thesis using inv c(2) by (simp add: tunnel_inv_def answers_ok_def)
    qed
  qed
  moreover have "calls_ok (move_call i p h t)"
    using inv i h(2) ok by (intro calls_move) (simp_all add: tunnel_inv_def)
  moreover have "posts_ok (move_call i p h t)"
    by (rule posts_hub[OF _ h(2)]) (use inv in \<open>simp_all add: tunnel_inv_def\<close>)
  moreover have "separate_ids (move_call i p h t)"
    using inv i new by (intro separate_move) (simp_all add: tunnel_inv_def)
  moreover have "buffers_ok (move_call i p h t)"
    by (rule buffers_hub[OF _ h(3,2)]) (use inv in \<open>simp_all add: tunnel_inv_def\<close>)
  moreover have "commands_ok (move_call i p h t)"
  proof (rule commands_hub[OF _ h(3)])
    show "commands_ok t" using inv by (simp add: tunnel_inv_def)
    show "made t n c \<Longrightarrow> made (move_call i p h t) n c" for n c using ids by (rule made_move[rotated])
  qed simp_all
  ultimately show ?thesis using h(1) by (simp add: tunnel_inv_def)
qed

lemma inv_call:
  assumes "tunnel_inv t" "i < length (tn_calls t)"
  shows "hc_session (tn_calls t ! i) < length (hub_all (tn_hub t))"
    "rs_deviceID (hub_all (tn_hub t) ! hc_session (tn_calls t ! i)) = hc_dev (tn_calls t ! i)"
    "phase_id (hc_phase (tn_calls t ! i)) = Some k \<Longrightarrow>
      \<exists>j. 1 \<le> j \<and> j \<le> rs_seq (hub_all (tn_hub t) ! hc_session (tn_calls t ! i)) \<and> k = nat_text j"
  using assms by (simp_all add: tunnel_inv_def calls_ok_def list_all_length call_ok_def)

lemma buffer_post:
  assumes "buffers_ok t" "n < length (hub_all (tn_hub t))" "rs_pending (hub_all (tn_hub t) ! n) k = Some (Some r)"
  shows "rep_ID r = k \<and> (rs_deviceID (hub_all (tn_hub t) ! n), n, r) \<in> set (tn_posts t)"
  using assms unfolding buffers_ok_def by blast

lemma inv_begin:
  assumes inv: "tunnel_inv t" and i: "i < length (tn_calls t)" "hc_phase (tn_calls t ! i) = Looked"
  shows "tunnel_inv (move_call i (Queuing (next_id (hc_session (tn_calls t ! i)) (tn_hub t)))
           (begin_call (hc_session (tn_calls t ! i)) (tn_hub t)) t)"
proof (rule inv_move[OF inv i(1)])
  let ?n = "hc_session (tn_calls t ! i)"
  let ?h = "begin_call ?n (tn_hub t)"
  note n = inv_call[OF inv i(1)]
  show "registered ?h"
    unfolding begin_call_def by (rule registered_same) (use inv in \<open>simp_all add: tunnel_inv_def begin_in_def\<close>)
  show "extends (tn_hub t) ?h" by (rule sections)
  show "queues_from t ?h (move_call i (Queuing (next_id ?n (tn_hub t))) ?h t)"
    by (auto simp: queues_from_def begin_call_def begin_in_def on_session_nth split: if_splits)
  show "phase_id (hc_phase (tn_calls t ! i)) \<in> {None, phase_id (Queuing (next_id ?n (tn_hub t)))}" by (simp add: i)
  show "call_ok ?h ((tn_calls t ! i)\<lparr>hc_phase := Queuing (next_id ?n (tn_hub t))\<rparr>)"
    using n by (auto simp: call_ok_def begin_call_def begin_in_def on_session_nth next_id_def)
  show "phase_id (hc_phase (tn_calls t ! j)) \<noteq> Some k"
    if new: "phase_id (Queuing (next_id ?n (tn_hub t))) = Some k" "phase_id (hc_phase (tn_calls t ! i)) \<noteq> Some k"
      "j < length (tn_calls t)" "hc_session (tn_calls t ! j) = ?n" for k j
  proof
    assume "phase_id (hc_phase (tn_calls t ! j)) = Some k"
    from inv_call(3)[OF inv new(3) this] obtain m where "m \<le> rs_seq (hub_all (tn_hub t) ! ?n)" "k = nat_text m"
      using new(4) by auto
    then show False using new(1) by (auto simp: next_id_def dest: nat_text_inj)
  qed
qed simp

lemma inv_queue:
  assumes inv: "tunnel_inv t" and i: "i < length (tn_calls t)" "hc_phase (tn_calls t ! i) = Queuing k"
    and q: "queue_command (hc_session (tn_calls t ! i)) (command_of (tn_calls t ! i) k) (tn_hub t) = Some h"
  shows "tunnel_inv (move_call i (Awaiting k) h t)"
proof (rule inv_move[OF inv i(1)])
  let ?n = "hc_session (tn_calls t ! i)"
  let ?c = "command_of (tn_calls t ! i) k"
  have h: "h = on_session ?n (\<lambda>s. s\<lparr>rs_outbox := rs_outbox s @ [?c]\<rparr>) (tn_hub t)"
    using q by (simp add: queue_command_def split: if_splits)
  show "registered h" unfolding h by (rule registered_same) (use inv in \<open>simp_all add: tunnel_inv_def\<close>)
  show "extends (tn_hub t) h" using q by (rule sections)
  have "made (move_call i (Awaiting k) h t) ?n ?c"
    unfolding made_def using i(1) by (intro exI[of _ i]) (simp add: move_call_nth command_of_def)
  then show "queues_from t h (move_call i (Awaiting k) h t)"
    by (auto simp: queues_from_def h on_session_nth split: if_splits)
  show "call_ok h ((tn_calls t ! i)\<lparr>hc_phase := Awaiting k\<rparr>)"
    using inv_call[OF inv i(1)] i(2) by (auto simp: call_ok_def h on_session_nth)
qed (simp_all add: i)

lemma inv_finish:
  assumes inv: "tunnel_inv t" and i: "i < length (tn_calls t)" "phase_id (hc_phase (tn_calls t ! i)) = Some k"
    and p: "phase_id p = Some k"
    and ans: "\<And>k' r. p = Answered k' r \<Longrightarrow> rep_ID r = k'
      \<and> (hc_dev (tn_calls t ! i), hc_session (tn_calls t ! i), r) \<in> set (tn_posts t)"
  shows "tunnel_inv (move_call i p (end_call (hc_session (tn_calls t ! i)) k (tn_hub t)) t)"
proof (rule inv_move[OF inv i(1)])
  let ?n = "hc_session (tn_calls t ! i)"
  let ?h = "end_call ?n k (tn_hub t)"
  show "registered ?h"
    unfolding end_call_def by (rule registered_same) (use inv in \<open>simp_all add: tunnel_inv_def\<close>)
  show "extends (tn_hub t) ?h" by (rule sections)
  show "queues_from t ?h (move_call i p ?h t)"
    by (auto simp: queues_from_def end_call_def on_session_nth split: if_splits)
  show "call_ok ?h ((tn_calls t ! i)\<lparr>hc_phase := p\<rparr>)"
    using inv_call[OF inv i(1)] i(2) p by (auto simp: call_ok_def end_call_def on_session_nth)
qed (use i p ans in simp_all)

section \<open>The other steps\<close>

lemma inv_posts:
  assumes inv: "tunnel_inv t" and s: "hub_sessions (tn_hub t) dev = Some n"
  shows "tunnel_inv (t\<lparr>tn_posts := tn_posts t @ [(dev, n, r)]\<rparr>)"
  using inv registeredD(1,2)[OF _ s]
  by (auto simp: tunnel_inv_def calls_ok_def posts_ok_def separate_ids_def buffers_ok_def answers_ok_def commands_ok_def)

lemma inv_deliver:
  assumes inv: "tunnel_inv t" and p: "(dev, n, r) \<in> set (tn_posts t)"
  shows "tunnel_inv (t\<lparr>tn_hub := resolve n r (tn_hub t)\<rparr>)"
proof -
  let ?h = "resolve n r (tn_hub t)" let ?t = "t\<lparr>tn_hub := ?h\<rparr>"
  have dev: "rs_deviceID (hub_all (tn_hub t) ! n) = dev" using inv p by (auto simp: tunnel_inv_def posts_ok_def)
  have f: "rs_deviceID (resolve_in r s) = rs_deviceID s" "rs_live (resolve_in r s) = rs_live s"
    "rs_done (resolve_in r s) = rs_done s" "rs_outbox (resolve_in r s) = rs_outbox s" for s
    by (simp_all add: resolve_in_def split: option.split)
  have pend: "rs_pending s k = Some (Some r') \<or> r' = r \<and> k = rep_ID r"
    if "rs_pending (resolve_in r s) k = Some (Some r')" for s k r'
    using that by (auto simp: resolve_in_def split: option.splits if_splits)
  have ext: "extends (tn_hub t) ?h" by (rule sections)
  have q: "queues_from t ?h ?t"
    using p dev by (auto simp: queues_from_def resolve_def on_session_nth f dest!: pend split: if_splits)
  have "registered ?h"
    unfolding resolve_def by (rule registered_same) (use inv in \<open>simp_all add: tunnel_inv_def f\<close>)
  moreover have "calls_ok ?t"
    using inv call_ok_extends[OF ext] by (auto simp: tunnel_inv_def calls_ok_def list_all_iff)
  moreover have "posts_ok ?t" by (rule posts_hub[OF _ ext]) (use inv in \<open>simp_all add: tunnel_inv_def\<close>)
  moreover have "buffers_ok ?t" by (rule buffers_hub[OF _ q ext]) (use inv in \<open>simp_all add: tunnel_inv_def\<close>)
  moreover have "commands_ok ?t" by (rule commands_hub[OF _ q]) (use inv in \<open>simp_all add: tunnel_inv_def\<close>)
  ultimately show ?thesis using inv by (simp add: tunnel_inv_def)
qed

lemma inv_send:
  assumes inv: "tunnel_inv t" and n: "n < length (hub_all (tn_hub t))" "rs_outbox (hub_all (tn_hub t) ! n) = c # cs"
  shows "tunnel_inv (t\<lparr>tn_hub := send_next n (tn_hub t), tn_sent := tn_sent t @ [(n, c)]\<rparr>)"
proof -
  let ?h = "send_next n (tn_hub t)" let ?t = "t\<lparr>tn_hub := ?h, tn_sent := tn_sent t @ [(n, c)]\<rparr>"
  have made: "made ?t = made t" by (simp add: made_def fun_eq_iff)
  have ext: "extends (tn_hub t) ?h" by (rule sections)
  have tl: "x \<in> set (tl xs) \<Longrightarrow> x \<in> set xs" for x :: command and xs by (cases xs) auto
  have q: "queues_from t ?h ?t"
    by (auto simp: queues_from_def send_next_def on_session_nth dest: tl split: if_splits)
  have "registered ?h"
    unfolding send_next_def by (rule registered_same) (use inv in \<open>simp_all add: tunnel_inv_def\<close>)
  moreover have "calls_ok ?t"
    using inv call_ok_extends[OF ext] by (auto simp: tunnel_inv_def calls_ok_def list_all_iff)
  moreover have "posts_ok ?t" by (rule posts_hub[OF _ ext]) (use inv in \<open>simp_all add: tunnel_inv_def\<close>)
  moreover have "buffers_ok ?t" by (rule buffers_hub[OF _ q ext]) (use inv in \<open>simp_all add: tunnel_inv_def\<close>)
  moreover have "commands_ok ?t"
  proof -
    have boxes: "\<forall>m<length (hub_all (tn_hub t)). list_all (made t m) (rs_outbox (hub_all (tn_hub t) ! m))"
      and sent: "list_all (\<lambda>(n, c). made t n c) (tn_sent t)" using inv by (simp_all add: tunnel_inv_def commands_ok_def)
    from boxes n have "made t n c" by (metis list.set_intros(1) list_all_iff)
    moreover have "list_all (made t m) (rs_outbox (hub_all ?h ! m))" if "m < length (hub_all ?h)" for m
      using boxes n that by (auto simp: send_next_def on_session_nth)
    ultimately show ?thesis using sent by (simp add: commands_ok_def made)
  qed
  moreover have "separate_ids ?t" "answers_ok ?t"
    using inv by (simp_all add: tunnel_inv_def)
  ultimately show ?thesis by (simp add: tunnel_inv_def)
qed

lemma inv_look_up:
  assumes inv: "tunnel_inv t" and s: "hub_sessions (tn_hub t) dev = Some n"
    and c: "hc_dev c = dev" "hc_session c = n" "hc_phase c = Looked"
  shows "tunnel_inv (t\<lparr>tn_calls := tn_calls t @ [c]\<rparr>)"
proof -
  let ?t = "t\<lparr>tn_calls := tn_calls t @ [c]\<rparr>"
  have reg: "registered (tn_hub t)" using inv by (simp add: tunnel_inv_def)
  have old: "made t m x \<Longrightarrow> made ?t m x" for m x
    by (auto simp: made_def nth_append intro: less_SucI)
  have "call_ok (tn_hub t) c" using registeredD(1,2)[OF reg s] c by (simp add: call_ok_def)
  then have "calls_ok ?t" using inv by (simp add: tunnel_inv_def calls_ok_def)
  moreover have "posts_ok ?t" "buffers_ok ?t" using inv by (simp_all add: tunnel_inv_def)
  moreover have "answers_ok ?t" using inv c(3) by (auto simp: tunnel_inv_def answers_ok_def)
  moreover have "commands_ok ?t"
    using inv old by (auto simp: tunnel_inv_def commands_ok_def list_all_iff)
  moreover have "separate_ids ?t"
  proof -
    have "separate_ids t" using inv by (simp add: tunnel_inv_def)
    then show ?thesis using c(3) by (auto simp: separate_ids_def nth_append less_Suc_eq)
  qed
  ultimately show ?thesis using reg by (simp add: tunnel_inv_def)
qed

lemma tunnel_inv_step: "hub_step t t' \<Longrightarrow> tunnel_inv t \<Longrightarrow> tunnel_inv t'"
proof (induction rule: hub_step.induct)
  case (connect t dev)
  then show ?case by (intro inv_connection connections registered_open) (simp_all add: tunnel_inv_def)
next
  case (stream_ends n t)
  then show ?case by (intro inv_connection connections registered_end) (simp_all add: tunnel_inv_def)
next
  case (revoke t dev)
  then show ?case by (intro inv_connection connections registered_Disconnect) (simp_all add: tunnel_inv_def)
next
  case (send n t c cs)
  then show ?case by (intro inv_send) simp_all
next
  case (look_up t dev n m ps)
  then show ?case by (intro inv_look_up[of t dev n]) simp_all
next
  case (begin_call t i n)
  then show ?case using inv_begin[of t i] by simp
next
  case (queue t i k h)
  then show ?case using inv_queue[of t i k h] by simp
next
  case (answer t i k r)
  let ?c = "tn_calls t ! i"
  have "rs_pending (hub_all (tn_hub t) ! hc_session ?c) k = Some (Some r)"
    using answer.hyps(2) by (auto simp: answered_def split: option.splits)
  then have "rep_ID r = k \<and> (hc_dev ?c, hc_session ?c, r) \<in> set (tn_posts t)"
    using buffer_post[of t "hc_session ?c" k r] answer inv_call(1,2)[OF answer.prems, of i] by (simp add: tunnel_inv_def)
  then show ?case using answer by (intro inv_finish) auto
next
  case (give_up t i p k)
  then show ?case by (intro inv_finish) auto
next
  case (post t dev n r)
  then show ?case by (intro inv_posts)
next
  case (deliver dev n r t)
  then show ?case by (intro inv_deliver)
qed

lemma tunnel_inv_start: "tunnel_inv \<lparr>tn_hub = new_hub, tn_calls = [], tn_posts = [], tn_sent = []\<rparr>"
  by (simp add: tunnel_inv_def registered_def calls_ok_def posts_ok_def separate_ids_def buffers_ok_def
      answers_ok_def commands_ok_def new_hub_def)

lemma hub_reachable_inv: "hub_reachable t \<Longrightarrow> tunnel_inv t"
  by (induction rule: hub_reachable.induct) (auto intro: tunnel_inv_start tunnel_inv_step)

text \<open>C9: however runners, calls, results and revocations interleave, a device is connected through at most
  one session, exactly the one whose stream runs and was not closed; calls on one session have different
  identifiers; an answer carries the identifier of its call and was posted by the device that was called, to the session
  of the call; and a command is only queued for and sent to the device that was called.\<close>

theorem tunnel_keeps_devices_apart:
  assumes "hub_reachable t"
  shows "registered (tn_hub t) \<and> separate_ids t \<and> answers_ok t \<and> calls_ok t \<and> commands_ok t"
  using hub_reachable_inv[OF assms] by (simp add: tunnel_inv_def)

section \<open>Concrete runs\<close>

text \<open>An executable form of the steps, to run a scenario.\<close>

datatype action =
    AConnect string
  | AEnd nat
  | ASend nat
  | ALook string string
  | ABegin nat
  | AQueue nat
  | AAnswer nat
  | AGiveUp nat
  | APost string reply
  | ADeliver nat

fun queued_phase :: "call_phase \<Rightarrow> string option" where
  "queued_phase (Queuing k) = Some k"
| "queued_phase _ = None"

fun awaiting_phase :: "call_phase \<Rightarrow> string option" where
  "awaiting_phase (Awaiting k) = Some k"
| "awaiting_phase _ = None"

fun deliver_post :: "tunnel \<Rightarrow> string \<times> nat \<times> reply \<Rightarrow> tunnel" where
  "deliver_post t (dev, n, r) = t\<lparr>tn_hub := resolve n r (tn_hub t)\<rparr>"

fun end_with :: "tunnel \<Rightarrow> nat \<Rightarrow> string \<Rightarrow> reply option \<Rightarrow> tunnel option" where
  "end_with t i k None = None"
| "end_with t i k (Some r) =
    Some (move_call i (Answered k r) (end_call (hc_session (tn_calls t ! i)) k (tn_hub t)) t)"

fun answer_call :: "tunnel \<Rightarrow> nat \<Rightarrow> string option \<Rightarrow> tunnel option" where
  "answer_call t i None = None"
| "answer_call t i (Some k) = end_with t i k (answered (hc_session (tn_calls t ! i)) k (tn_hub t))"

fun act :: "tunnel \<Rightarrow> action \<Rightarrow> tunnel option" where
  "act t (AConnect dev) = Some (t\<lparr>tn_hub := open_stream dev (tn_hub t)\<rparr>)"
| "act t (AEnd n) =
    (if n < length (hub_all (tn_hub t)) \<and> rs_live (hub_all (tn_hub t) ! n)
     then Some (t\<lparr>tn_hub := end_stream n (tn_hub t)\<rparr>) else None)"
| "act t (ASend n) =
    (if n < length (hub_all (tn_hub t)) \<and> rs_live (hub_all (tn_hub t) ! n)
     then case rs_outbox (hub_all (tn_hub t) ! n) of
         [] \<Rightarrow> None
       | c # _ \<Rightarrow> Some (t\<lparr>tn_hub := send_next n (tn_hub t), tn_sent := tn_sent t @ [(n, c)]\<rparr>)
     else None)"
| "act t (ALook dev m) =
    (case hub_sessions (tn_hub t) dev of None \<Rightarrow> None
     | Some n \<Rightarrow> Some (t\<lparr>tn_calls := tn_calls t @
         [\<lparr>hc_dev = dev, hc_session = n, hc_method = m, hc_params = [], hc_phase = Looked\<rparr>]\<rparr>))"
| "act t (ABegin i) =
    (if i < length (tn_calls t) \<and> hc_phase (tn_calls t ! i) = Looked
     then Some (move_call i (Queuing (next_id (hc_session (tn_calls t ! i)) (tn_hub t)))
            (begin_call (hc_session (tn_calls t ! i)) (tn_hub t)) t) else None)"
| "act t (AQueue i) =
    (if i < length (tn_calls t) then
       case queued_phase (hc_phase (tn_calls t ! i)) of None \<Rightarrow> None
       | Some k \<Rightarrow> map_option (\<lambda>h. move_call i (Awaiting k) h t)
           (queue_command (hc_session (tn_calls t ! i)) (command_of (tn_calls t ! i) k) (tn_hub t))
     else None)"
| "act t (AAnswer i) =
    (if i < length (tn_calls t) then answer_call t i (awaiting_phase (hc_phase (tn_calls t ! i))) else None)"
| "act t (AGiveUp i) =
    (if i < length (tn_calls t) then
       case awaiting_phase (hc_phase (tn_calls t ! i)) of None \<Rightarrow> None
       | Some k \<Rightarrow> Some (move_call i (Failed k) (end_call (hc_session (tn_calls t ! i)) k (tn_hub t)) t)
     else None)"
| "act t (APost dev r) =
    (case hub_sessions (tn_hub t) dev of None \<Rightarrow> None
     | Some n \<Rightarrow> Some (t\<lparr>tn_posts := tn_posts t @ [(dev, n, r)]\<rparr>))"
| "act t (ADeliver j) =
    (if j < length (tn_posts t) then Some (deliver_post t (tn_posts t ! j)) else None)"

lemma phases: "queued_phase p = Some k \<longleftrightarrow> p = Queuing k" "awaiting_phase p = Some k \<longleftrightarrow> p = Awaiting k"
  by (cases p; auto)+

lemma end_with_Some:
  "end_with t i k b = Some t' \<longleftrightarrow>
    (\<exists>r. b = Some r \<and> t' = move_call i (Answered k r) (end_call (hc_session (tn_calls t ! i)) k (tn_hub t)) t)"
  by (cases b) auto

lemma answer_call_Some:
  "answer_call t i b = Some t' \<longleftrightarrow>
    (\<exists>k. b = Some k \<and> end_with t i k (answered (hc_session (tn_calls t ! i)) k (tn_hub t)) = Some t')"
  by (cases b) auto

lemma act_step: "act t a = Some t' \<Longrightarrow> hub_step t t'"
proof (cases a)
  case (AGiveUp i)
  assume "act t a = Some t'"
  then show ?thesis using AGiveUp
    by (auto simp: phases split: if_splits option.splits intro!: hub_step.give_up)
next
  case (ADeliver j)
  assume "act t a = Some t'"
  moreover obtain dev n r where p: "tn_posts t ! j = (dev, n, r)" by (metis prod_cases3)
  ultimately have "(dev, n, r) \<in> set (tn_posts t)" "t' = t\<lparr>tn_hub := resolve n r (tn_hub t)\<rparr>"
    using ADeliver nth_mem[of j "tn_posts t"] by (auto split: if_splits)
  then show ?thesis by (simp add: hub_step.deliver)
qed (auto simp: phases end_with_Some answer_call_Some split: if_splits option.splits list.splits intro: hub_step.intros)

fun replay :: "action list \<Rightarrow> tunnel option \<Rightarrow> tunnel option" where
  "replay as None = None"
| "replay [] (Some t) = Some t"
| "replay (a # as) (Some t) = replay as (act t a)"

lemma replay_None [simp]: "replay as None = None"
  by (cases as) simp_all

lemma replay_reachable: "replay as (Some t) = Some t' \<Longrightarrow> hub_reachable t \<Longrightarrow> hub_reachable t'"
proof (induction as arbitrary: t)
  case (Cons a as)
  then show ?case by (cases "act t a") (auto dest: act_step intro: hub_reachable.step)
qed simp

definition empty_tunnel :: tunnel where
  "empty_tunnel = \<lparr>tn_hub = new_hub, tn_calls = [], tn_posts = [], tn_sent = []\<rparr>"

fun phases_of :: "tunnel option \<Rightarrow> call_phase list" where
  "phases_of None = []"
| "phases_of (Some t) = map hc_phase (tn_calls t)"

definition screen :: reply where
  "screen = \<lparr>rep_ID = ''1'', rep_Result = ''png'', rep_Error = []\<rparr>"

definition one_call :: "action list" where
  "one_call = [AConnect ''desk'', ALook ''desk'' ''screenshot'', ABegin 0, AQueue 0, ASend 0,
     APost ''desk'' screen, ADeliver 0, AAnswer 0]"

lemma replay_phases:
  assumes "phases_of (replay as (Some empty_tunnel)) = ps" "ps \<noteq> []"
  obtains t where "replay as (Some empty_tunnel) = Some t" "hub_reachable t" "map hc_phase (tn_calls t) = ps"
  using assms replay_reachable[of as empty_tunnel] hub_reachable.start
  by (cases "replay as (Some empty_tunnel)") (auto simp: empty_tunnel_def)

theorem tunnel_keeps_devices_apart_witness:
  "\<exists>t. registered (tn_hub t) \<and> separate_ids t \<and> answers_ok t \<and> calls_ok t \<and> commands_ok t
     \<and> map hc_phase (tn_calls t) = [Answered ''1'' screen]"
proof -
  have "phases_of (replay one_call (Some empty_tunnel)) = [Answered ''1'' screen]" by code_simp
  then obtain t where t: "hub_reachable t" "map hc_phase (tn_calls t) = [Answered ''1'' screen]"
    by (rule replay_phases) simp_all
  from tunnel_keeps_devices_apart[OF t(1)] t(2) show ?thesis by (intro exI[of _ t]) simp
qed

text \<open>
  The identifiers start again with every session: the result of a call that was given up,
  posted after the runner has dialled in anew, answers the first call of the new session, even
  one whose command has not been sent yet.
\<close>

lemma late_result_answers_another_call:
  "phases_of (replay [AConnect ''desk'', ALook ''desk'' ''screenshot'', ABegin 0, AQueue 0, ASend 0, AGiveUp 0,
      AConnect ''desk'', ALook ''desk'' ''click'', ABegin 1, AQueue 1,
      APost ''desk'' screen, ADeliver 0, AAnswer 1] (Some empty_tunnel))
    = [Failed ''1'', Answered ''1'' screen]"
  by code_simp

text \<open>
  A stream that was superseded still reports the device as offline when it ends, although the
  new stream is connected.
\<close>

lemma superseded_stream_reports_offline:
  "map_option (\<lambda>t. (hub_notes (tn_hub t), Online ''desk'' (tn_hub t)))
      (replay [AConnect ''desk'', AConnect ''desk'', AEnd 0] (Some empty_tunnel))
    = Some ([(''desk'', True), (''desk'', True), (''desk'', False)], True)"
  by code_simp

end
