(* ===== verification/Insights.thy ===== *)
theory Insights
  imports Store_Tests Complex_Main "HOL-Library.Product_Lexorder"
begin

text \<open>
  The health of the test cases over their recent runs, backend/internal/insights/insights.go.
  Two things the language leaves open are parameters: the order in which a map is
  walked, and how sort.Slice orders runs that start at the same instant.  The pass rate, a
  quotient of two small integers, is a rational number: different quotients of numbers up to 20
  are different as float64 and in the same order.
\<close>

section \<open>The verdict of a run\<close>

definition step_has :: "string \<Rightarrow> TestRun \<Rightarrow> bool" where
  "step_has st r = list_ex (\<lambda>s. step_Status s = st) (run_Steps r)"

definition runStatus :: "TestRun \<Rightarrow> string" where
  "runStatus r =
    (if run_Passed r then StepPass
     else if step_has StepFail r then StepFail
     else if run_Steps r = [] \<and> run_Status r = [] then StepBlocked
     else if step_has StepBlocked r then StepBlocked
     else StepBlocked)"

text \<open>time.Sub saturates; the milliseconds of a positive duration are rounded down.\<close>

definition time_sub :: "time \<Rightarrow> time \<Rightarrow> int" where
  "time_sub t u = max (- (2 ^ 63)) (min (2 ^ 63 - 1) (t - u))"

definition run_ms :: "TestRun \<Rightarrow> int" where
  "run_ms r =
    (case run_FinishedAt r of None \<Rightarrow> 0
     | Some t \<Rightarrow> max 0 (time_sub t (run_StartedAt r) div millisecond))"

section \<open>The health of a case\<close>

record HistoryPoint =
  hp_RunID :: string
  hp_CycleRunID :: string
  hp_Status :: string
  hp_StartedAt :: time
  hp_DurationMs :: int

record CaseHealth =
  ch_CaseID :: string
  ch_Summary :: string
  ch_Runs :: nat
  ch_Pass :: nat
  ch_Fail :: nat
  ch_Blocked :: nat
  ch_PassRate :: rat
  ch_Flips :: nat
  ch_Flaky :: bool
  ch_LastStatus :: string
  ch_AvgMs :: int
  ch_History :: "HistoryPoint list"

definition maxHistory :: nat where
  "maxHistory = 20"

definition new_health :: "string \<Rightarrow> nat \<Rightarrow> CaseHealth" where
  "new_health caseID n =
    \<lparr>ch_CaseID = caseID, ch_Summary = [], ch_Runs = n, ch_Pass = 0, ch_Fail = 0, ch_Blocked = 0,
     ch_PassRate = 0, ch_Flips = 0, ch_Flaky = False, ch_LastStatus = [], ch_AvgMs = 0, ch_History = []\<rparr>"

definition point_of :: "TestRun \<Rightarrow> HistoryPoint" where
  "point_of r =
    \<lparr>hp_RunID = run_ID r, hp_CycleRunID = run_CycleRunID r, hp_Status = runStatus r,
     hp_StartedAt = run_StartedAt r, hp_DurationMs = run_ms r\<rparr>"

definition count_status :: "string \<Rightarrow> CaseHealth \<Rightarrow> CaseHealth" where
  "count_status st h =
    (if st = StepPass then h\<lparr>ch_Pass := ch_Pass h + 1\<rparr>
     else if st = StepBlocked then h\<lparr>ch_Blocked := ch_Blocked h + 1\<rparr>
     else h\<lparr>ch_Fail := ch_Fail h + 1\<rparr>)"

definition count_flip :: "string \<Rightarrow> string \<Rightarrow> CaseHealth \<Rightarrow> CaseHealth" where
  "count_flip prev st h = (if prev \<noteq> [] \<and> prev \<noteq> st then h\<lparr>ch_Flips := ch_Flips h + 1\<rparr> else h)"

definition name_case :: "TestRun \<Rightarrow> CaseHealth \<Rightarrow> CaseHealth" where
  "name_case r h = (if run_TestName r \<noteq> [] then h\<lparr>ch_Summary := run_TestName r\<rparr> else h)"

text \<open>The loop over the runs of a case: the health so far, the total time and the previous status.\<close>

fun health_loop :: "TestRun list \<Rightarrow> CaseHealth \<times> int \<times> string \<Rightarrow> CaseHealth \<times> int \<times> string" where
  "health_loop [] acc = acc"
| "health_loop (r # rs) (h, totalMs, prev) =
    health_loop rs
      ((name_case r (count_flip prev (runStatus r) (count_status (runStatus r) h)))
         \<lparr>ch_History := ch_History h @ [point_of r]\<rparr>,
       totalMs + run_ms r, runStatus r)"

definition seal :: "CaseHealth \<times> int \<times> string \<Rightarrow> CaseHealth" where
  "seal acc =
    (case acc of (h, totalMs, prev) \<Rightarrow>
      (let h1 = h\<lparr>ch_LastStatus := prev\<rparr>;
           h2 = (if 0 < ch_Runs h1 then
                   h1\<lparr>ch_PassRate := of_nat (ch_Pass h1) / of_nat (ch_Runs h1),
                      ch_AvgMs := totalMs div int (ch_Runs h1)\<rparr>
                 else h1)
       in h2\<lparr>ch_Flaky := (2 \<le> ch_Flips h2 \<and> 0 < ch_Pass h2 \<and> 0 < ch_Fail h2 + ch_Blocked h2)\<rparr>))"

definition recent :: "TestRun list \<Rightarrow> TestRun list" where
  "recent rs = drop (length rs - maxHistory) rs"

definition case_health :: "(TestRun list \<Rightarrow> TestRun list) \<Rightarrow> TestRun list \<Rightarrow> string \<Rightarrow> CaseHealth" where
  "case_health by_start runs caseID =
    (let caseRuns = recent (by_start (filter (\<lambda>r. run_CaseID r = caseID) runs))
     in seal (health_loop caseRuns (new_health caseID (length caseRuns), 0, [])))"

section \<open>All cases\<close>

text \<open>The order of the result: flaky cases first, then by pass rate, then by identifier.\<close>

definition rank :: "CaseHealth \<Rightarrow> bool \<times> rat \<times> string" where
  "rank h = (\<not> ch_Flaky h, ch_PassRate h, ch_CaseID h)"

definition case_keys :: "TestRun list \<Rightarrow> string list" where
  "case_keys runs = remdups (map run_CaseID (filter (\<lambda>r. run_CaseID r \<noteq> []) runs))"

definition CaseHealthFrom ::
  "(string list \<Rightarrow> string list) \<Rightarrow> (TestRun list \<Rightarrow> TestRun list) \<Rightarrow> TestRun list \<Rightarrow> CaseHealth list" where
  "CaseHealthFrom walk by_start runs =
    sort_key rank (map (case_health by_start runs) (walk (case_keys runs)))"

section \<open>The result depends on the runs only\<close>

definition arranges :: "(TestRun list \<Rightarrow> TestRun list) \<Rightarrow> bool" where
  "arranges f = (\<forall>rs. mset (f rs) = mset rs \<and> sorted (map run_StartedAt (f rs)))"

definition walks :: "(string list \<Rightarrow> string list) \<Rightarrow> bool" where
  "walks f = (\<forall>ks. mset (f ks) = mset ks)"

definition separate_starts :: "TestRun list \<Rightarrow> bool" where
  "separate_starts runs =
    (\<forall>r\<in>set runs. \<forall>r'\<in>set runs. run_CaseID r = run_CaseID r' \<and> run_StartedAt r = run_StartedAt r' \<longrightarrow> r = r')"

lemma case_health_CaseID [simp]: "ch_CaseID (case_health by_start runs k) = k"
proof -
  have "ch_CaseID (fst (health_loop rs acc)) = ch_CaseID (fst acc)" for rs acc
    by (induction rs acc rule: health_loop.induct)
      (auto simp: name_case_def count_flip_def count_status_def)
  moreover have "ch_CaseID (seal acc) = ch_CaseID (fst acc)" for acc
    by (cases acc) (simp add: seal_def Let_def)
  ultimately show ?thesis by (simp add: case_health_def Let_def new_health_def)
qed

lemma arranged_once:
  assumes "arranges f" "mset rs = mset rs'" "separate_starts rs'" "\<forall>r\<in>set rs'. run_CaseID r = k"
  shows "f rs = sort_key run_StartedAt rs'"
proof (rule sym, rule sort_key_inj_key_eq)
  show "mset rs' = mset (f rs)" "sorted (map run_StartedAt (f rs))"
    using assms(1,2) by (simp_all add: arranges_def)
  show "inj_on run_StartedAt (set rs')"
    using assms(3,4) by (auto simp: inj_on_def separate_starts_def)
qed

lemma case_health_once:
  assumes "arranges f" "mset runs = mset runs'" "separate_starts runs'"
  shows "case_health f runs k = case_health (sort_key run_StartedAt) runs' k"
proof -
  have "mset (filter (\<lambda>r. run_CaseID r = k) runs) = mset (filter (\<lambda>r. run_CaseID r = k) runs')"
    using assms(2) by simp
  moreover have "separate_starts (filter (\<lambda>r. run_CaseID r = k) runs')"
    using assms(3) by (auto simp: separate_starts_def)
  ultimately have "f (filter (\<lambda>r. run_CaseID r = k) runs)
      = sort_key run_StartedAt (filter (\<lambda>r. run_CaseID r = k) runs')"
    by (rule arranged_once[OF assms(1), where k = k]) simp
  then show ?thesis by (simp only: case_health_def)
qed

lemma set_case_keys: "set (case_keys runs) = run_CaseID ` set runs - {[]}"
  by (auto simp: case_keys_def)

lemma distinct_case_keys: "distinct (case_keys runs)"
  by (simp add: case_keys_def)

lemma walked_keys:
  assumes "walks w"
  shows "distinct (w (case_keys runs))" "set (w (case_keys runs)) = run_CaseID ` set runs - {[]}"
proof -
  have m: "mset (w (case_keys runs)) = mset (case_keys runs)" using assms by (simp add: walks_def)
  show "distinct (w (case_keys runs))" unfolding mset_eq_imp_distinct_iff[OF m] by (rule distinct_case_keys)
  show "set (w (case_keys runs)) = run_CaseID ` set runs - {[]}" by (rule trans[OF mset_eq_setD[OF m] set_case_keys])
qed

text \<open>C29: the report is a function of the collection of runs: neither the order in which the runs come,
  nor the order in which the map is walked, nor the way the sort arranges its input changes it, as long as two
  runs of one case do not start at the same instant.\<close>

theorem CaseHealthFrom_any_order:
  assumes "walks walk" "arranges by_start" "mset runs = mset runs'" "separate_starts runs'"
  shows "CaseHealthFrom walk by_start runs = CaseHealthFrom id (sort_key run_StartedAt) runs'"
proof -
  have eq: "case_health by_start runs = case_health (sort_key run_StartedAt) runs'"
    by (rule ext) (rule case_health_once[OF assms(2-4)])
  have sets: "set runs = set runs'" using assms(3) by (rule mset_eq_setD)
  have "set (walk (case_keys runs)) = set (case_keys runs')"
    unfolding walked_keys(2)[OF assms(1)] set_case_keys sets ..
  then have "mset (walk (case_keys runs)) = mset (case_keys runs')"
    using walked_keys(1)[OF assms(1)] distinct_case_keys set_eq_iff_mset_eq_distinct by blast
  then have m: "mset (map (case_health by_start runs) (walk (case_keys runs)))
      = mset (map (case_health (sort_key run_StartedAt) runs') (case_keys runs'))"
    unfolding eq by simp
  have "inj_on rank (set (map (case_health by_start runs) (walk (case_keys runs))))"
    by (auto simp: inj_on_def rank_def)
  note inj = this
  show ?thesis
    unfolding CaseHealthFrom_def id_apply
    by (rule sort_key_inj_key_eq[OF _ inj]) (simp_all only: mset_sort m sorted_sort_key)
qed

section \<open>What the numbers mean\<close>

lemma loop_counts:
  "ch_Pass (fst (health_loop rs acc)) = ch_Pass (fst acc) + count_list (map runStatus rs) StepPass"
  "ch_Blocked (fst (health_loop rs acc)) = ch_Blocked (fst acc) + count_list (map runStatus rs) StepBlocked"
  "ch_Fail (fst (health_loop rs acc)) = ch_Fail (fst acc) + count_list (map runStatus rs) StepFail"
  "ch_History (fst (health_loop rs acc)) = ch_History (fst acc) @ map point_of rs"
  "ch_Runs (fst (health_loop rs acc)) = ch_Runs (fst acc)"
  "snd (snd (health_loop rs acc)) = last (snd (snd acc) # map runStatus rs)"
  by (induction rs acc rule: health_loop.induct)
    (auto simp: name_case_def count_flip_def count_status_def runStatus_def)

fun changes :: "string list \<Rightarrow> nat" where
  "changes (a # b # ss) = (if a \<noteq> b then 1 else 0) + changes (b # ss)"
| "changes _ = 0"

lemma runStatus_not_Nil [simp]: "runStatus r \<noteq> []"
  by (simp add: runStatus_def)

lemma loop_flips:
  "prev \<noteq> [] \<Longrightarrow> ch_Flips (fst (health_loop rs (h, t, prev))) = ch_Flips h + changes (prev # map runStatus rs)"
  by (induction rs arbitrary: h t prev) (simp_all add: name_case_def count_flip_def count_status_def)

lemma loop_flips_first:
  "ch_Flips (fst (health_loop rs (h, t, []))) = ch_Flips h + changes (map runStatus rs)"
  by (cases rs) (simp_all add: loop_flips name_case_def count_flip_def count_status_def)

definition newest_runs :: "TestRun list \<Rightarrow> TestRun list \<Rightarrow> bool" where
  "newest_runs all rs =
    (length rs = min maxHistory (length all) \<and> sorted (map run_StartedAt rs)
     \<and> (\<exists>older. mset all = mset older + mset rs
          \<and> (\<forall>o'\<in>set older. \<forall>r\<in>set rs. run_StartedAt o' \<le> run_StartedAt r)))"

lemma recent_newest:
  assumes "arranges f"
  shows "newest_runs all (recent (f all))"
proof -
  let ?n = "length (f all) - maxHistory"
  have m: "mset (f all) = mset all" and s: "sorted (map run_StartedAt (f all))"
    using assms by (simp_all add: arranges_def)
  have len: "length (f all) = length all" using m by (rule mset_eq_length)
  have split: "f all = take ?n (f all) @ recent (f all)" by (simp add: recent_def)
  then have "sorted (map run_StartedAt (take ?n (f all)) @ map run_StartedAt (recent (f all)))"
    using s by (metis map_append)
  then have order: "sorted (map run_StartedAt (recent (f all)))"
    "\<forall>o'\<in>set (take ?n (f all)). \<forall>r\<in>set (recent (f all)). run_StartedAt o' \<le> run_StartedAt r"
    by (auto simp: sorted_append)
  have "mset all = mset (take ?n (f all)) + mset (recent (f all))"
    using m split by (metis mset_append)
  then show ?thesis using order len by (auto simp: newest_runs_def recent_def)
qed

definition health_of :: "TestRun list \<Rightarrow> CaseHealth \<Rightarrow> bool" where
  "health_of rs h =
    (let sts = map runStatus rs
     in ch_History h = map point_of rs \<and> ch_Runs h = length rs
        \<and> ch_Pass h = count_list sts StepPass \<and> ch_Fail h = count_list sts StepFail
        \<and> ch_Blocked h = count_list sts StepBlocked \<and> ch_Pass h + ch_Fail h + ch_Blocked h = ch_Runs h
        \<and> ch_PassRate h * of_nat (ch_Runs h) = of_nat (ch_Pass h)
        \<and> ch_Flips h = changes sts \<and> ch_LastStatus h = last sts
        \<and> (ch_Flaky h \<longleftrightarrow> 2 \<le> changes sts \<and> StepPass \<in> set sts \<and> (\<exists>s\<in>set sts. s \<noteq> StepPass)))"

lemma statuses_counted:
  "count_list (map runStatus rs) StepPass + count_list (map runStatus rs) StepFail
     + count_list (map runStatus rs) StepBlocked = length rs"
  by (induction rs) (auto simp: runStatus_def)

lemma other_status:
  "(\<exists>s\<in>set (map runStatus rs). s \<noteq> StepPass) \<longleftrightarrow>
    0 < count_list (map runStatus rs) StepFail + count_list (map runStatus rs) StepBlocked"
  by (induction rs) (auto simp: runStatus_def)

lemma count_list_pos: "0 < count_list xs x \<longleftrightarrow> x \<in> set xs"
  by (metis count_list_0_iff neq0_conv)

lemma seal_health:
  assumes "rs \<noteq> []"
  shows "health_of rs (seal (health_loop rs (new_health k (length rs), 0, [])))"
proof -
  obtain h t p where acc: "health_loop rs (new_health k (length rs), 0, []) = (h, t, p)" by (metis prod_cases3)
  note l = loop_counts[of rs "(new_health k (length rs), 0, [])", unfolded acc]
    loop_flips_first[of rs "new_health k (length rs)" 0, unfolded acc]
  have h: "ch_Pass h = count_list (map runStatus rs) StepPass" "ch_Fail h = count_list (map runStatus rs) StepFail"
    "ch_Blocked h = count_list (map runStatus rs) StepBlocked" "ch_History h = map point_of rs"
    "ch_Runs h = length rs" "ch_Flips h = changes (map runStatus rs)" "p = last (map runStatus rs)"
    using l assms by (simp_all add: new_health_def)
  show ?thesis
    using assms statuses_counted[of rs]
    unfolding acc health_of_def Let_def other_status
    by (simp add: seal_def Let_def h count_list_pos)
qed

text \<open>The report has one entry for each case that has runs, in the order flaky first, then by pass
  rate, then by identifier; each entry counts the statuses of the newest runs of its case, at most twenty, oldest
  first: the counts add up to the number of runs, the flips are the changes of status, and a case is flaky exactly
  when it changed at least twice and both passed and did not pass.\<close>

theorem CaseHealthFrom_spec:
  assumes "walks walk" "arranges by_start"
  shows "sorted (map rank (CaseHealthFrom walk by_start runs))
    \<and> distinct (map ch_CaseID (CaseHealthFrom walk by_start runs))
    \<and> ch_CaseID ` set (CaseHealthFrom walk by_start runs) = run_CaseID ` set runs - {[]}
    \<and> (\<forall>h\<in>set (CaseHealthFrom walk by_start runs).
        \<exists>rs. newest_runs (filter (\<lambda>r. run_CaseID r = ch_CaseID h) runs) rs \<and> health_of rs h)"
proof -
  let ?out = "CaseHealthFrom walk by_start runs"
  let ?hs = "map (case_health by_start runs) (walk (case_keys runs))"
  have m: "mset ?out = mset ?hs" by (simp add: CaseHealthFrom_def)
  have "map ch_CaseID ?hs = walk (case_keys runs)" by (simp add: comp_def)
  moreover have "mset (map ch_CaseID ?out) = mset (map ch_CaseID ?hs)" using m by (simp only: mset_map)
  ultimately have ids: "distinct (map ch_CaseID ?out)" "set (map ch_CaseID ?out) = run_CaseID ` set runs - {[]}"
    using walked_keys[OF assms(1), of runs] by (metis mset_eq_imp_distinct_iff, metis mset_eq_setD)
  have "\<exists>rs. newest_runs (filter (\<lambda>r. run_CaseID r = ch_CaseID h) runs) rs \<and> health_of rs h" if h: "h \<in> set ?out" for h
  proof -
    have "h \<in> set ?hs" using h mset_eq_setD[OF m] by simp
    then obtain k where k: "k \<in> run_CaseID ` set runs" "h = case_health by_start runs k"
      using walked_keys(2)[OF assms(1), of runs] by auto
    let ?all = "filter (\<lambda>r. run_CaseID r = k) runs"
    let ?rs = "recent (by_start ?all)"
    have new: "newest_runs ?all ?rs" by (rule recent_newest[OF assms(2)])
    have "?all \<noteq> []" using k(1) by (auto simp: filter_empty_conv)
    then have "0 < length ?rs" using new by (simp add: newest_runs_def maxHistory_def del: filter_False)
    then have "health_of ?rs h" using seal_health[of ?rs k] by (simp add: k(2) case_health_def Let_def)
    then show ?thesis using new k(2) by auto
  qed
  then show ?thesis using ids by (simp add: CaseHealthFrom_def)
qed

section \<open>A concrete report\<close>

definition sample_run_of :: "string \<Rightarrow> int \<Rightarrow> bool \<Rightarrow> TestRun" where
  "sample_run_of k t ok = zero_TestRun\<lparr>run_CaseID := k, run_StartedAt := t, run_Passed := ok\<rparr>"

definition sample_runs :: "TestRun list" where
  "sample_runs =
    [sample_run_of ''case_b'' 5 True, sample_run_of ''case_a'' 3 True, sample_run_of ''case_b'' 2 True,
     sample_run_of ''case_b'' 4 False]"

lemma stable_sort: "arranges (sort_key run_StartedAt)" and in_order: "walks id"
  by (simp_all add: arranges_def walks_def)

lemma backwards: "walks rev"
  by (simp add: walks_def)

theorem CaseHealthFrom_spec_witness:
  "map ch_CaseID (CaseHealthFrom id (sort_key run_StartedAt) sample_runs) = [''case_b'', ''case_a'']
    \<and> (\<exists>rs. newest_runs (filter (\<lambda>r. run_CaseID r = ''case_b'') sample_runs) rs
          \<and> health_of rs (hd (CaseHealthFrom id (sort_key run_StartedAt) sample_runs)))"
proof -
  let ?out = "CaseHealthFrom id (sort_key run_StartedAt) sample_runs"
  have out: "map ch_CaseID ?out = [''case_b'', ''case_a'']" by code_simp
  then obtain h hs where h: "?out = h # hs" "ch_CaseID h = ''case_b''" by (cases ?out) auto
  then have "h \<in> set ?out" by simp
  then have "\<exists>rs. newest_runs (filter (\<lambda>r. run_CaseID r = ch_CaseID h) sample_runs) rs \<and> health_of rs h"
    using CaseHealthFrom_spec[OF in_order stable_sort, of sample_runs] by blast
  then show ?thesis using out h by simp
qed

theorem CaseHealthFrom_any_order_witness:
  "map ch_CaseID (CaseHealthFrom rev (sort_key run_StartedAt) (rev sample_runs)) = [''case_b'', ''case_a'']"
proof -
  have "separate_starts sample_runs" by (simp add: separate_starts_def sample_runs_def sample_run_of_def)
  from CaseHealthFrom_any_order[OF backwards stable_sort _ this, of "rev sample_runs"]
  have "CaseHealthFrom rev (sort_key run_StartedAt) (rev sample_runs)
      = CaseHealthFrom id (sort_key run_StartedAt) sample_runs" by simp
  moreover have "map ch_CaseID (CaseHealthFrom id (sort_key run_StartedAt) sample_runs) = [''case_b'', ''case_a'']"
    by code_simp
  ultimately show ?thesis by simp
qed

end
