(* ===== verification/Device_Control.thy ===== *)
theory Device_Control
  imports Auth Store_Instances "HOL-Library.Signed_Division"
begin

text \<open>
  Interactive control of a device, backend/internal/devicecontrol: service.go,
  driver.go, adb_driver.go, mcp_driver.go and parse.go.  An operation resolves the
  instance, picks the driver by the source of the device and sends requests: commands of
  adb, or calls through the tunnel of the desktop runner.  The trace holds the requests
  sent so far, and every answer may depend on it.  What answers (adb, the
  runner, the XML decoder) is the parameter dev_env.  JSON values are the type json,
  so that Marshal and Unmarshal are the identity on it.
  The deadlines of contexts show as errors of the answers.
\<close>

section \<open>Requests and actions\<close>

datatype json =
    JNull
  | JStr string
  | JInt int
  | JArr "json list"
  | JObj "(string \<times> json) list"

datatype request =
    Adb "string list"
  | Call string string json

datatype xmlNode =
  XmlNode (xml_Text: string) (xml_ResourceID: string) (xml_Class: string)
    (xml_ContentDesc: string) (xml_Package: string) (xml_Clickable: string)
    (xml_Scrollable: string) (xml_Focused: string) (xml_Bounds: string)
    (xml_Nodes: "xmlNode list")

record dev_env =
  de_execute :: bool
  de_run :: "request list \<Rightarrow> string list \<Rightarrow> string \<times> go_error option"
  de_tunnel :: bool
  de_online :: "request list \<Rightarrow> string \<Rightarrow> bool"
  de_call :: "request list \<Rightarrow> string \<Rightarrow> string \<Rightarrow> json \<Rightarrow> json option res"
  de_polls :: nat
  de_xml :: "string \<Rightarrow> xmlNode list res"

type_synonym 'a act = "request list \<Rightarrow> 'a res \<times> request list"

definition ErrUnsupported :: go_error where
  "ErrUnsupported = Err ''operation not supported for this device platform''"

definition ErrExecutionDisabled :: go_error where
  "ErrExecutionDisabled = Err ''device control requires OPENCUTTLES_EXECUTE_CVD=1''"

definition ErrNotRunning :: go_error where
  "ErrNotRunning = Err ''instance is not running''"

definition DeadlineExceeded :: go_error where
  "DeadlineExceeded = Err ''context deadline exceeded''"

definition unsupported :: "string \<Rightarrow> go_error" where
  "unsupported t = ErrNote ErrUnsupported ('': '' @ t)"

section \<open>Where a device may be driven\<close>

definition isAndroid :: "string \<Rightarrow> bool" where
  "isAndroid platform = (platform = [] \<or> platform = PlatformAndroid)"

definition is_up :: "Instance \<Rightarrow> bool" where
  "is_up i = (inst_State i = StateOnline \<or> inst_State i = StateRunning)"

definition checkResolvable :: "bool \<Rightarrow> Instance \<Rightarrow> unit res" where
  "checkResolvable execute i =
    (if Source i = SourceCuttlefish then
       (if \<not> execute then Inl ErrExecutionDisabled
        else if inst_State i \<noteq> StateRunning then Inl ErrNotRunning
        else if inst_ADBPort i = 0 then Inl (Err (''instance '' @ inst_ID i @ '' has no ADB port''))
        else Inr ())
     else if Source i = SourcePhysical then
       (if trim_space (inst_ADBTarget i) = []
        then Inl (Err (''device '' @ inst_ID i @ '' has no ADB target''))
        else if \<not> is_up i then Inl ErrNotRunning
        else Inr ())
     else
       (if inst_ControlEndpoint i = []
        then Inl (Err (''device '' @ inst_ID i @ '' has no control endpoint''))
        else if \<not> is_up i then Inl ErrNotRunning
        else Inr ()))"

definition resolve :: "dev_env \<Rightarrow> db \<Rightarrow> string \<Rightarrow> Instance res" where
  "resolve e d iid =
    (case GetInstance iid d of
       Inl err \<Rightarrow> Inl err
     | Inr i \<Rightarrow> (case checkResolvable (de_execute e) i of Inl err \<Rightarrow> Inl err | Inr _ \<Rightarrow> Inr i))"

section \<open>ADB\<close>

definition adbTarget :: "Instance \<Rightarrow> string res" where
  "adbTarget i =
    (let t = trim_space (inst_ADBTarget i)
     in if t \<noteq> [] then Inr t
        else if 0 < inst_ADBPort i then Inr (''127.0.0.1:'' @ itoa (inst_ADBPort i))
        else Inl (unsupported (''device '' @ inst_ID i @ '' has no ADB address'')))"

definition isTCPTarget :: "string \<Rightarrow> bool" where
  "isTCPTarget target = contains '':'' target"

definition isDeviceNotFound :: "string \<Rightarrow> go_error option \<Rightarrow> bool" where
  "isDeviceNotFound out err =
    (case err of None \<Rightarrow> False
     | Some er \<Rightarrow>
         (let combined = to_lower (out @ '' '' @ err_text er)
          in contains ''not found'' combined \<or> contains ''device offline'' combined
             \<or> contains ''no devices/emulators found'' combined))"

definition run_adb :: "dev_env \<Rightarrow> string list \<Rightarrow> request list \<Rightarrow> (string \<times> go_error option) \<times> request list" where
  "run_adb e args tr = (de_run e tr args, tr @ [Adb args])"

text \<open>
  Service.adb: the reconnect and the single retry of a TCP target.  On an error the
  output of adb is part of the error, and no caller reads it otherwise.
\<close>

definition adb_error :: "string list \<Rightarrow> string \<Rightarrow> go_error \<Rightarrow> go_error" where
  "adb_error args out er =
    ErrNote (ErrWrap (''adb '' @ join '' '' args @ '': '') er) ('': '' @ trim_space out)"

definition adb :: "dev_env \<Rightarrow> Instance \<Rightarrow> string list \<Rightarrow> string act" where
  "adb e i args tr =
    (if Source i = SourceRunner
     then (Inl (unsupported ''ADB operations need an ADB-reachable device''), tr)
     else case adbTarget i of
       Inl err \<Rightarrow> (Inl err, tr)
     | Inr target \<Rightarrow>
         (let full = ''-s'' # target # args;
              ((out, err), tr1) = run_adb e full tr
          in case err of
               None \<Rightarrow> (Inr out, tr1)
             | Some er \<Rightarrow>
                 (if isTCPTarget target \<and> isDeviceNotFound out err then
                    (let ((_, cErr), tr2) = run_adb e [''connect'', target] tr1
                     in if cErr = None then
                          (let ((out2, err2), tr3) = run_adb e full tr2
                           in case err2 of
                                None \<Rightarrow> (Inr out2, tr3)
                              | Some er2 \<Rightarrow> (Inl (adb_error args out2 er2), tr3))
                        else (Inl (adb_error args out er), tr2))
                  else (Inl (adb_error args out er), tr1))))"

definition adbShell :: "dev_env \<Rightarrow> Instance \<Rightarrow> string list \<Rightarrow> string act" where
  "adbShell e i args = bnd (adb e i (''shell'' # args)) (\<lambda>out. ret (trim_space out))"

definition adb_unit :: "dev_env \<Rightarrow> Instance \<Rightarrow> string list \<Rightarrow> unit act" where
  "adb_unit e i args = unit_of (adbShell e i args)"

text \<open>strings.NewReplacer on single characters.\<close>

definition escape_char :: "char \<Rightarrow> string" where
  "escape_char c =
    (if c = CHR '' '' then ''%s''
     else if c \<in> {CHR 0x27, CHR 0x22, CHR ''&'', CHR ''<'', CHR ''>'', CHR ''('', CHR '')'',
                  CHR ''|'', CHR '';''} then [CHR 0x5C, c]
     else [c])"

definition escapeInputText :: "string \<Rightarrow> string" where
  "escapeInputText t = concat (map escape_char t)"

definition normalizeKeycode :: "string \<Rightarrow> string" where
  "normalizeKeycode code0 =
    (let code = trim_space code0
     in if code = [] then ''KEYCODE_UNKNOWN''
        else if atoi code \<noteq> None then code
        else let upper = to_upper code
             in if has_prefix ''KEYCODE_'' upper then upper else ''KEYCODE_'' @ upper)"

section \<open>The drivers\<close>

record Capabilities =
  cap_UITree :: bool
  cap_Apps :: bool
  cap_Shell :: bool
  cap_Rotate :: bool
  cap_Logcat :: bool
  cap_InstallApp :: bool
  cap_ScreenRecord :: bool
  cap_Wheel :: bool
  cap_MouseButtons :: bool
  cap_Chord :: bool

text \<open>adbDriver: a handset or a virtual device.\<close>

definition adb_Screenshot :: "dev_env \<Rightarrow> Instance \<Rightarrow> string act" where
  "adb_Screenshot e i = adb e i [''exec-out'', ''screencap'', ''-p'']"

definition adb_Tap :: "dev_env \<Rightarrow> Instance \<Rightarrow> int \<Rightarrow> int \<Rightarrow> unit act" where
  "adb_Tap e i x y = adb_unit e i [''input'', ''tap'', itoa x, itoa y]"

definition adb_Swipe :: "dev_env \<Rightarrow> Instance \<Rightarrow> int \<Rightarrow> int \<Rightarrow> int \<Rightarrow> int \<Rightarrow> int \<Rightarrow> unit act" where
  "adb_Swipe e i x1 y1 x2 y2 durationMs =
    adb_unit e i ([''input'', ''swipe'', itoa x1, itoa y1, itoa x2, itoa y2] @
                  (if 0 < durationMs then [itoa durationMs] else []))"

definition adb_Text :: "dev_env \<Rightarrow> Instance \<Rightarrow> string \<Rightarrow> unit act" where
  "adb_Text e i t = adb_unit e i [''input'', ''text'', escapeInputText t]"

definition adb_Key :: "dev_env \<Rightarrow> Instance \<Rightarrow> string \<Rightarrow> unit act" where
  "adb_Key e i k = adb_unit e i [''input'', ''keyevent'', normalizeKeycode k]"

primrec repeat_act :: "nat \<Rightarrow> unit act \<Rightarrow> unit act" where
  "repeat_act 0 m = ret ()"
| "repeat_act (Suc n) m = bnd m (\<lambda>_. repeat_act n m)"

definition adb_Click :: "dev_env \<Rightarrow> Instance \<Rightarrow> int \<Rightarrow> int \<Rightarrow> string \<Rightarrow> int \<Rightarrow> unit act" where
  "adb_Click e i x y button n =
    (let b = to_upper (trim_space button)
     in if b \<noteq> [] \<and> b \<noteq> ''LEFT''
        then fail (unsupported (''a touchscreen has no '' @ button @ '' button''))
        else repeat_act (nat (if n \<le> 0 then 1 else n)) (adb_Tap e i x y))"

definition clamp :: "int \<Rightarrow> int \<Rightarrow> int \<Rightarrow> int" where
  "clamp v lo hi = (if v < lo then lo else if hi < v then hi else v)"

text \<open>
  The gesture of adbDriver.Scroll: from where to where.  Products and
  differences are those of 64-bit integers, sdiv truncates as the division of Go does.
\<close>

definition display_of :: "Instance \<Rightarrow> int \<times> int" where
  "display_of i =
    (if inst_DisplayWidth i \<le> 0 \<or> inst_DisplayHeight i \<le> 0 then (720, 1280)
     else (inst_DisplayWidth i, inst_DisplayHeight i))"

definition scroll_gesture :: "Instance \<Rightarrow> int \<Rightarrow> int \<Rightarrow> int \<Rightarrow> int \<Rightarrow> (int \<times> int) \<times> (int \<times> int)" where
  "scroll_gesture i x0 y0 dx dy =
    (let (w, h) = display_of i;
         (x, y) = (if x0 \<le> 0 \<and> y0 \<le> 0 then (w sdiv 2, h sdiv 2) else (x0, y0));
         dxPx = wrap64 (dx * w) sdiv 3;
         dyPx = wrap64 (dy * h) sdiv 3
     in ((x, y), (clamp (wrap64 (x - dxPx)) 1 (w - 1), clamp (wrap64 (y - dyPx)) 1 (h - 1))))"

definition adb_Scroll :: "dev_env \<Rightarrow> Instance \<Rightarrow> int \<Rightarrow> int \<Rightarrow> int \<Rightarrow> int \<Rightarrow> unit act" where
  "adb_Scroll e i x0 y0 dx dy =
    (let ((x, y), (x2, y2)) = scroll_gesture i x0 y0 dx dy
     in if x2 = x \<and> y2 = y then ret () else adb_Swipe e i x y x2 y2 300)"

definition adb_Chord :: "string list \<Rightarrow> unit act" where
  "adb_Chord ks = fail (unsupported ''modifier chords are desktop-only; use press_key on Android'')"

definition adb_Capabilities :: Capabilities where
  "adb_Capabilities =
    \<lparr>cap_UITree = True, cap_Apps = True, cap_Shell = True, cap_Rotate = True, cap_Logcat = True,
     cap_InstallApp = True, cap_ScreenRecord = True, cap_Wheel = False, cap_MouseButtons = False,
     cap_Chord = False\<rparr>"

text \<open>mcpDriver: a desktop, through the tunnel of its runner.  Decoding of a reply.\<close>

definition run_call :: "dev_env \<Rightarrow> string \<Rightarrow> string \<Rightarrow> json \<Rightarrow> json option act" where
  "run_call e iid method params tr = (de_call e tr iid method params, tr @ [Call iid method params])"

definition json_mismatch :: go_error where
  "json_mismatch = Err ''json: cannot unmarshal value into Go struct field''"

definition json_object :: "json option \<Rightarrow> (string \<times> json) list res" where
  "json_object r =
    (case r of None \<Rightarrow> Inr [] | Some JNull \<Rightarrow> Inr [] | Some (JObj fs) \<Rightarrow> Inr fs
     | Some _ \<Rightarrow> Inl json_mismatch)"

definition json_string :: "string \<Rightarrow> (string \<times> json) list \<Rightarrow> string res" where
  "json_string k fs =
    (case map_of (rev fs) k of None \<Rightarrow> Inr [] | Some JNull \<Rightarrow> Inr [] | Some (JStr s) \<Rightarrow> Inr s
     | Some _ \<Rightarrow> Inl json_mismatch)"

fun json_texts :: "json list \<Rightarrow> string list res" where
  "json_texts [] = Inr []"
| "json_texts (JStr s # r) = map_sum id (\<lambda>t. s # t) (json_texts r)"
| "json_texts (JNull # r) = map_sum id (\<lambda>t. [] # t) (json_texts r)"
| "json_texts (_ # r) = Inl json_mismatch"

definition json_strings :: "string \<Rightarrow> (string \<times> json) list \<Rightarrow> string list res" where
  "json_strings k fs =
    (case map_of (rev fs) k of None \<Rightarrow> Inr [] | Some JNull \<Rightarrow> Inr []
     | Some (JArr xs) \<Rightarrow> json_texts xs | Some _ \<Rightarrow> Inl json_mismatch)"

definition mcp_send :: "dev_env \<Rightarrow> Instance \<Rightarrow> string \<Rightarrow> (string \<times> json) list \<Rightarrow> unit act" where
  "mcp_send e i method ps = unit_of (run_call e (inst_ID i) method (JObj ps))"

text \<open>base64.StdEncoding: groups of four with padding at the end.\<close>

definition std_decode :: "string \<Rightarrow> string res" where
  "std_decode s =
    (let t = filter (\<lambda>c. c \<noteq> CHR 0x0A \<and> c \<noteq> CHR 0x0D) s
     in if length t mod 4 \<noteq> 0 then Inl (Err ''illegal base64 data'')
        else case b64_decode std_alphabet (trim_suffix ''='' (trim_suffix ''='' t)) of
               None \<Rightarrow> Inl (Err ''illegal base64 data'')
             | Some bs \<Rightarrow> Inr (map (\<lambda>b. char_of (unat b)) bs))"

definition mcp_Screenshot :: "dev_env \<Rightarrow> Instance \<Rightarrow> string act" where
  "mcp_Screenshot e i =
    bnd (run_call e (inst_ID i) ''screenshot'' (JObj [])) (\<lambda>raw.
    bnd (lift (json_object raw)) (\<lambda>fs.
    bnd (lift (json_string ''pngBase64'' fs)) (\<lambda>s. lift (std_decode s))))"

definition mcp_Click :: "dev_env \<Rightarrow> Instance \<Rightarrow> int \<Rightarrow> int \<Rightarrow> string \<Rightarrow> int \<Rightarrow> unit act" where
  "mcp_Click e i x y button n =
    mcp_send e i ''click'' [(''x'', JInt x), (''y'', JInt y), (''button'', JStr button), (''count'', JInt n)]"

definition mcp_Tap :: "dev_env \<Rightarrow> Instance \<Rightarrow> int \<Rightarrow> int \<Rightarrow> unit act" where
  "mcp_Tap e i x y = mcp_Click e i x y ''left'' 1"

definition mcp_Scroll :: "dev_env \<Rightarrow> Instance \<Rightarrow> int \<Rightarrow> int \<Rightarrow> int \<Rightarrow> int \<Rightarrow> unit act" where
  "mcp_Scroll e i x y dx dy =
    mcp_send e i ''scroll'' [(''x'', JInt x), (''y'', JInt y), (''dx'', JInt dx), (''dy'', JInt dy)]"

definition mcp_Chord :: "dev_env \<Rightarrow> Instance \<Rightarrow> string list \<Rightarrow> unit act" where
  "mcp_Chord e i ks = mcp_send e i ''chord'' [(''keys'', JArr (map JStr ks))]"

definition mcp_Swipe :: "dev_env \<Rightarrow> Instance \<Rightarrow> int \<Rightarrow> int \<Rightarrow> int \<Rightarrow> int \<Rightarrow> int \<Rightarrow> unit act" where
  "mcp_Swipe e i x1 y1 x2 y2 durationMs =
    mcp_send e i ''drag'' [(''x1'', JInt x1), (''y1'', JInt y1), (''x2'', JInt x2), (''y2'', JInt y2),
                           (''durationMs'', JInt durationMs)]"

definition mcp_Text :: "dev_env \<Rightarrow> Instance \<Rightarrow> string \<Rightarrow> unit act" where
  "mcp_Text e i t = mcp_send e i ''type'' [(''text'', JStr t)]"

definition mcp_Key :: "dev_env \<Rightarrow> Instance \<Rightarrow> string \<Rightarrow> unit act" where
  "mcp_Key e i k = mcp_send e i ''key'' [(''key'', JStr k)]"

definition mcp_Capabilities :: Capabilities where
  "mcp_Capabilities =
    \<lparr>cap_UITree = False, cap_Apps = True, cap_Shell = False, cap_Rotate = False, cap_Logcat = False,
     cap_InstallApp = False, cap_ScreenRecord = False, cap_Wheel = True, cap_MouseButtons = True,
     cap_Chord = True\<rparr>"

section \<open>Reading what a device prints\<close>

definition lines_of :: "string \<Rightarrow> string list" where
  "lines_of out = split_char (CHR 0x0A) out"

text \<open>strings.SplitN(val, x, 2) cuts at the first x.\<close>

definition cut_at :: "char \<Rightarrow> string \<Rightarrow> (string \<times> string) option" where
  "cut_at c s =
    (case dropWhile (\<lambda>d. d \<noteq> c) s of [] \<Rightarrow> None | _ # r \<Rightarrow> Some (takeWhile (\<lambda>d. d \<noteq> c) s, r))"

definition sizeAfter :: "string \<Rightarrow> string \<Rightarrow> (int \<times> int) option" where
  "sizeAfter line prefix =
    (if \<not> has_prefix prefix line then None
     else case cut_at (CHR ''x'') (trim_space (trim_prefix prefix line)) of
       None \<Rightarrow> None
     | Some (a, b) \<Rightarrow>
         (case (atoi (trim_space a), atoi (trim_space b)) of
            (Some w, Some h) \<Rightarrow> if w \<le> 0 \<or> h \<le> 0 then None else Some (w, h)
          | _ \<Rightarrow> None))"

text \<open>The loop of ParseWMSize: the physical and the override size read so far.\<close>

definition wm_line :: "(int \<times> int) \<times> (int \<times> int) \<Rightarrow> string \<Rightarrow> (int \<times> int) \<times> (int \<times> int)" where
  "wm_line st line0 =
    (let line = trim_space line0; (phys, ovr) = st
     in case sizeAfter line ''Override size:'' of
          Some wh \<Rightarrow> (phys, wh)
        | None \<Rightarrow> (case sizeAfter line ''Physical size:'' of Some wh \<Rightarrow> (wh, ovr) | None \<Rightarrow> st))"

definition ParseWMSize :: "string \<Rightarrow> (int \<times> int) res" where
  "ParseWMSize out =
    (let ((physW, physH), (ovrW, ovrH)) = foldl wm_line ((0, 0), (0, 0)) (lines_of out)
     in if 0 < ovrW \<and> 0 < ovrH then Inr (ovrW, ovrH)
        else if 0 < physW \<and> 0 < physH then Inr (physW, physH)
        else Inl (Err (''could not parse wm size: '' @ go_quote out)))"

record Point =
  pt_X :: int
  pt_Y :: int

datatype UINode =
  UINode (ui_Text: string) (ui_ResourceID: string) (ui_Class: string) (ui_ContentDesc: string)
    (ui_Package: string) (ui_Clickable: bool) (ui_Scrollable: bool) (ui_Focused: bool)
    (ui_Bounds: string) (ui_Center: "Point option") (ui_Children: "UINode list")

record PerfSnapshot =
  perf_Package :: string
  perf_BatteryLevel :: int
  perf_TotalPSSKB :: int

definition is_bracket :: "char \<Rightarrow> bool" where
  "is_bracket c = (c \<in> {CHR ''['', CHR '']'', CHR '',''})"

definition centerOfBounds :: "string \<Rightarrow> Point option" where
  "centerOfBounds bounds =
    (let b = map (\<lambda>c. if is_bracket c then CHR '' '' else c) bounds
     in case map atoi (Go_Base.fields b) of
          [Some a, Some b', Some c, Some d] \<Rightarrow>
            Some \<lparr>pt_X = wrap64 (a + c) sdiv 2, pt_Y = wrap64 (b' + d) sdiv 2\<rparr>
        | _ \<Rightarrow> None)"

fun convertNode :: "xmlNode \<Rightarrow> UINode" where
  "convertNode (XmlNode t rid cls cd pkg clickable scrollable focused bounds ns) =
    UINode (trim_space t) rid cls (trim_space cd) pkg (clickable = ''true'') (scrollable = ''true'')
      (focused = ''true'') bounds (centerOfBounds bounds) (map convertNode ns)"

text \<open>strings.LastIndex for a non-empty pattern.\<close>

fun last_index_of :: "string \<Rightarrow> string \<Rightarrow> nat option" where
  "last_index_of p [] = (if p = [] then Some 0 else None)"
| "last_index_of p (c # s) =
    (case last_index_of p s of Some n \<Rightarrow> Some (Suc n)
     | None \<Rightarrow> if has_prefix p (c # s) then Some 0 else None)"

definition isolateXML :: "string \<Rightarrow> string option" where
  "isolateXML s =
    (let start = (case index_of ''<?xml'' s of None \<Rightarrow> index_of ''<hierarchy'' s | Some n \<Rightarrow> Some n)
     in case start of None \<Rightarrow> Some []
        | Some a \<Rightarrow>
            (case last_index_of ''</hierarchy>'' s of None \<Rightarrow> Some []
             | Some z \<Rightarrow>
                 (let stop = z + length ''</hierarchy>''
                  in if stop < a then None else Some (take (stop - a) (drop a s)))))"

text \<open>
  None is the panic of the slice expression when the last closing tag comes before
  the start of the document.
\<close>

definition ParseUIHierarchy :: "dev_env \<Rightarrow> string \<Rightarrow> UINode res option" where
  "ParseUIHierarchy e raw =
    (case isolateXML raw of
       None \<Rightarrow> None
     | Some xmlDoc \<Rightarrow>
         Some (if xmlDoc = [] then Inl (Err ''no UI hierarchy found in dump output'')
               else case de_xml e xmlDoc of
                 Inl err \<Rightarrow> Inl (ErrWrap ''parse ui hierarchy: '' err)
               | Inr ns \<Rightarrow> Inr (UINode [] [] ''hierarchy'' [] [] False False False [] None
                                  (map convertNode ns))))"

definition extractComponent :: "string \<Rightarrow> string" where
  "extractComponent line =
    (let b = map (\<lambda>c. if c = CHR ''{'' \<or> c = CHR ''}'' then CHR '' '' else c) line
     in case find (\<lambda>tok. contains ''/'' tok \<and> contains ''.'' tok \<and> \<not> contains ''://'' tok) (Go_Base.fields b) of
          None \<Rightarrow> [] | Some tok \<Rightarrow> trim_suffix ''}'' tok)"

fun resumed_in :: "string list \<Rightarrow> string" where
  "resumed_in [] = []"
| "resumed_in (l # ls) =
    (let line = trim_space l;
         comp = (if contains ''ResumedActivity'' line \<or> contains ''mCurrentFocus'' line
                 then extractComponent line else [])
     in if comp \<noteq> [] then comp else resumed_in ls)"

definition parseResumedActivity :: "string \<Rightarrow> string" where
  "parseResumedActivity dump = resumed_in (lines_of dump)"

fun battery_in :: "string list \<Rightarrow> int" where
  "battery_in [] = -1"
| "battery_in (l # ls) =
    (let line = trim_space l
     in case (if has_prefix ''level:'' line then atoi (trim_space (trim_prefix ''level:'' line)) else None) of
          Some v \<Rightarrow> v | None \<Rightarrow> battery_in ls)"

definition parseBatteryLevel :: "string \<Rightarrow> int" where
  "parseBatteryLevel dump = battery_in (lines_of dump)"

fun pss_in :: "string list \<Rightarrow> int" where
  "pss_in [] = 0"
| "pss_in (l # ls) =
    (case Go_Base.fields l of
       a # b # _ \<Rightarrow>
         (case (if has_prefix ''TOTAL'' a then atoi b else None) of Some v \<Rightarrow> v | None \<Rightarrow> pss_in ls)
     | _ \<Rightarrow> pss_in ls)"

definition parseTotalPSS :: "string \<Rightarrow> int" where
  "parseTotalPSS dump = pss_in (lines_of dump)"

section \<open>The service\<close>

datatype driver = AdbDriver Instance | McpDriver Instance

definition driverFor :: "dev_env \<Rightarrow> Instance \<Rightarrow> driver act" where
  "driverFor e i tr =
    (if Source i \<noteq> SourceRunner then (Inr (AdbDriver i), tr)
     else if \<not> de_tunnel e then (Inl (unsupported ''desktop control tunnel is not configured''), tr)
     else if \<not> de_online e tr (inst_ID i)
     then (Inl (Err (''device '' @ inst_ID i @ '' is offline (no runner connected)'')), tr)
     else (Inr (McpDriver i), tr))"

definition service_Capabilities :: "dev_env \<Rightarrow> db \<Rightarrow> string \<Rightarrow> Capabilities act" where
  "service_Capabilities e d iid =
    bnd (lift (GetInstance iid d)) (\<lambda>i.
    bnd (driverFor e i) (\<lambda>drv.
    ret (case drv of AdbDriver _ \<Rightarrow> adb_Capabilities | McpDriver _ \<Rightarrow> mcp_Capabilities)))"

text \<open>The common beginning of the operations: resolve the instance, then its driver.\<close>

definition with_driver :: "dev_env \<Rightarrow> db \<Rightarrow> string \<Rightarrow> (driver \<Rightarrow> 'a act) \<Rightarrow> 'a act" where
  "with_driver e d iid f =
    bnd (lift (resolve e d iid)) (\<lambda>i. bnd (driverFor e i) f)"

definition Screenshot :: "dev_env \<Rightarrow> db \<Rightarrow> string \<Rightarrow> string act" where
  "Screenshot e d iid = with_driver e d iid (\<lambda>drv.
     case drv of AdbDriver i \<Rightarrow> adb_Screenshot e i | McpDriver i \<Rightarrow> mcp_Screenshot e i)"

definition Tap :: "dev_env \<Rightarrow> db \<Rightarrow> string \<Rightarrow> int \<Rightarrow> int \<Rightarrow> unit act" where
  "Tap e d iid x y = with_driver e d iid (\<lambda>drv.
     case drv of AdbDriver i \<Rightarrow> adb_Tap e i x y | McpDriver i \<Rightarrow> mcp_Tap e i x y)"

definition Click :: "dev_env \<Rightarrow> db \<Rightarrow> string \<Rightarrow> int \<Rightarrow> int \<Rightarrow> string \<Rightarrow> int \<Rightarrow> unit act" where
  "Click e d iid x y button n = with_driver e d iid (\<lambda>drv.
     case drv of AdbDriver i \<Rightarrow> adb_Click e i x y button n | McpDriver i \<Rightarrow> mcp_Click e i x y button n)"

definition Scroll :: "dev_env \<Rightarrow> db \<Rightarrow> string \<Rightarrow> int \<Rightarrow> int \<Rightarrow> int \<Rightarrow> int \<Rightarrow> unit act" where
  "Scroll e d iid x y dx dy = with_driver e d iid (\<lambda>drv.
     case drv of AdbDriver i \<Rightarrow> adb_Scroll e i x y dx dy | McpDriver i \<Rightarrow> mcp_Scroll e i x y dx dy)"

definition Chord :: "dev_env \<Rightarrow> db \<Rightarrow> string \<Rightarrow> string list \<Rightarrow> unit act" where
  "Chord e d iid ks = with_driver e d iid (\<lambda>drv.
     case drv of AdbDriver i \<Rightarrow> adb_Chord ks | McpDriver i \<Rightarrow> mcp_Chord e i ks)"

definition Swipe :: "dev_env \<Rightarrow> db \<Rightarrow> string \<Rightarrow> int \<Rightarrow> int \<Rightarrow> int \<Rightarrow> int \<Rightarrow> int \<Rightarrow> unit act" where
  "Swipe e d iid x1 y1 x2 y2 durationMs = with_driver e d iid (\<lambda>drv.
     case drv of AdbDriver i \<Rightarrow> adb_Swipe e i x1 y1 x2 y2 durationMs
     | McpDriver i \<Rightarrow> mcp_Swipe e i x1 y1 x2 y2 durationMs)"

definition LongPress :: "dev_env \<Rightarrow> db \<Rightarrow> string \<Rightarrow> int \<Rightarrow> int \<Rightarrow> int \<Rightarrow> unit act" where
  "LongPress e d iid x y durationMs =
    Swipe e d iid x y x y (if durationMs \<le> 0 then 800 else durationMs)"

definition Text :: "dev_env \<Rightarrow> db \<Rightarrow> string \<Rightarrow> string \<Rightarrow> unit act" where
  "Text e d iid t = with_driver e d iid (\<lambda>drv.
     case drv of AdbDriver i \<Rightarrow> adb_Text e i t | McpDriver i \<Rightarrow> mcp_Text e i t)"

definition Key :: "dev_env \<Rightarrow> db \<Rightarrow> string \<Rightarrow> string \<Rightarrow> unit act" where
  "Key e d iid k = with_driver e d iid (\<lambda>drv.
     case drv of AdbDriver i \<Rightarrow> adb_Key e i k | McpDriver i \<Rightarrow> mcp_Key e i k)"

text \<open>The outer option of ParseUIHierarchy is its panic, which ends the request.\<close>

definition UITree :: "dev_env \<Rightarrow> db \<Rightarrow> string \<Rightarrow> UINode res option act" where
  "UITree e d iid =
    bnd (lift (resolve e d iid)) (\<lambda>i.
    bnd (adb e i [''exec-out'', ''uiautomator'', ''dump'', ''/dev/tty'']) (\<lambda>out.
    ret (ParseUIHierarchy e out)))"

definition callRunner :: "dev_env \<Rightarrow> string \<Rightarrow> string \<Rightarrow> (string \<times> json) list \<Rightarrow> json option act" where
  "callRunner e iid method params =
    (if \<not> de_tunnel e then fail (unsupported ''desktop control tunnel is not configured'')
     else run_call e iid method (JObj params))"

definition runner_text :: "dev_env \<Rightarrow> string \<Rightarrow> string \<Rightarrow> (string \<times> json) list \<Rightarrow> string \<Rightarrow> string act" where
  "runner_text e iid method params field =
    bnd (callRunner e iid method params) (\<lambda>raw.
    bnd (lift (json_object raw)) (\<lambda>fs. lift (json_string field fs)))"

definition package_names :: "string \<Rightarrow> string list" where
  "package_names out =
    filter (\<lambda>l. l \<noteq> [])
      (map (\<lambda>l. trim_space (trim_prefix ''package:'' (trim_space l))) (lines_of out))"

definition ListApps :: "dev_env \<Rightarrow> db \<Rightarrow> string \<Rightarrow> bool \<Rightarrow> string list act" where
  "ListApps e d iid thirdPartyOnly =
    bnd (lift (resolve e d iid)) (\<lambda>i.
      if \<not> isAndroid (inst_Platform i) then
        bnd (callRunner e iid ''list_apps'' []) (\<lambda>raw.
        bnd (lift (json_object raw)) (\<lambda>fs. lift (json_strings ''apps'' fs)))
      else
        bnd (adbShell e i ([''pm'', ''list'', ''packages''] @ (if thirdPartyOnly then [''-3''] else [])))
          (\<lambda>out. ret (package_names out)))"

definition LaunchApp :: "dev_env \<Rightarrow> db \<Rightarrow> string \<Rightarrow> string \<Rightarrow> unit act" where
  "LaunchApp e d iid pkg =
    bnd (lift (resolve e d iid)) (\<lambda>i.
      adb_unit e i [''monkey'', ''-p'', pkg, ''-c'', ''android.intent.category.LAUNCHER'', ''1''])"

definition CurrentActivity :: "dev_env \<Rightarrow> db \<Rightarrow> string \<Rightarrow> string act" where
  "CurrentActivity e d iid =
    bnd (lift (resolve e d iid)) (\<lambda>i.
      if \<not> isAndroid (inst_Platform i) then runner_text e iid ''current_activity'' [] ''activity''
      else bnd (adbShell e i [''dumpsys'', ''activity'', ''activities''])
             (\<lambda>out. ret (parseResumedActivity out)))"

definition OpenApp :: "dev_env \<Rightarrow> db \<Rightarrow> string \<Rightarrow> string \<Rightarrow> string act" where
  "OpenApp e d iid name =
    bnd (lift (resolve e d iid)) (\<lambda>i.
      if Source i \<noteq> SourceRunner
      then fail (unsupported ''open_app needs a desktop runner; use launch_app for Android'')
      else bnd (runner_text e iid ''open_app'' [(''name'', JStr name)] ''opened'')
             (\<lambda>opened. ret (if opened = [] then name else opened)))"

definition InputSize :: "dev_env \<Rightarrow> db \<Rightarrow> string \<Rightarrow> (int \<times> int) act" where
  "InputSize e d iid =
    bnd (lift (resolve e d iid)) (\<lambda>i.
      if \<not> isAndroid (inst_Platform i) then ret (0, 0)
      else bnd (adbShell e i [''wm'', ''size'']) (\<lambda>out. lift (ParseWMSize out)))"

text \<open>InstallAPK, with the package verification of a provisioned device switched off first.\<close>

definition put_global :: "dev_env \<Rightarrow> Instance \<Rightarrow> string \<Rightarrow> string res act" where
  "put_global e i key = attempt (adbShell e i [''settings'', ''put'', ''global'', key, ''0''])"

definition disableInstallVerification :: "dev_env \<Rightarrow> Instance \<Rightarrow> unit act" where
  "disableInstallVerification e i =
    (if \<not> IsProvisioned i then ret ()
     else bnd (put_global e i ''verifier_verify_adb_installs'') (\<lambda>_.
          unit_of (put_global e i ''package_verifier_enable'')))"

definition InstallAPK :: "dev_env \<Rightarrow> db \<Rightarrow> string \<Rightarrow> string \<Rightarrow> unit act" where
  "InstallAPK e d iid hostPath =
    bnd (lift (resolve e d iid)) (\<lambda>i.
    bnd (disableInstallVerification e i) (\<lambda>_.
    bnd (attempt (adb e i [''install'', ''-r'', hostPath])) (\<lambda>r.
      case r of
        Inr _ \<Rightarrow> ret ()
      | Inl err \<Rightarrow>
          fail (if err_is err DeadlineExceeded
                then Err (''adb install timed out after 4m '' @ em_dash @ '' the device may be busy or the APK is incompatible'')
                else err))))"

text \<open>de_polls bounds the polls of install_status that fit in the six minutes.\<close>

primrec poll_install :: "dev_env \<Rightarrow> string \<Rightarrow> string \<Rightarrow> nat \<Rightarrow> unit act" where
  "poll_install e iid buildID 0 = fail (Err ''desktop install timed out'')"
| "poll_install e iid buildID (Suc n) =
    bnd (callRunner e iid ''install_status'' [(''buildId'', JStr buildID)]) (\<lambda>raw.
    bnd (lift (json_object raw)) (\<lambda>fs.
    bnd (lift (json_string ''status'' fs)) (\<lambda>status.
    bnd (lift (json_string ''detail'' fs)) (\<lambda>detail.
      if status = ''done'' then ret ()
      else if status = ''error'' then fail (Err (''desktop install failed: '' @ detail))
      else poll_install e iid buildID n))))"

definition InstallDesktopBuild :: "dev_env \<Rightarrow> db \<Rightarrow> string \<Rightarrow> string \<Rightarrow> string \<Rightarrow> string \<Rightarrow> unit act" where
  "InstallDesktopBuild e d iid buildID filename args =
    bnd (lift (resolve e d iid)) (\<lambda>i.
      if Source i \<noteq> SourceRunner
      then fail (unsupported ''desktop build install needs a runner; Android uses APK install'')
      else bnd (callRunner e iid ''install_app''
                  [(''buildId'', JStr buildID), (''filename'', JStr filename), (''args'', JStr args)])
             (\<lambda>_. poll_install e iid buildID (de_polls e)))"

definition Rotate :: "dev_env \<Rightarrow> db \<Rightarrow> string \<Rightarrow> int \<Rightarrow> unit act" where
  "Rotate e d iid orientation =
    bnd (lift (resolve e d iid)) (\<lambda>i.
      if orientation < 0 \<or> 3 < orientation then fail (Err ''orientation must be 0..3'')
      else bnd (adb_unit e i [''settings'', ''put'', ''system'', ''accelerometer_rotation'', ''0'']) (\<lambda>_.
           adb_unit e i [''settings'', ''put'', ''system'', ''user_rotation'', itoa orientation]))"

definition Shell :: "dev_env \<Rightarrow> db \<Rightarrow> string \<Rightarrow> string \<Rightarrow> string act" where
  "Shell e d iid command = bnd (lift (resolve e d iid)) (\<lambda>i. adbShell e i [command])"

definition Logcat :: "dev_env \<Rightarrow> db \<Rightarrow> string \<Rightarrow> int \<Rightarrow> string act" where
  "Logcat e d iid n =
    bnd (lift (resolve e d iid)) (\<lambda>i.
      adbShell e i [''logcat'', ''-d'', ''-t'', itoa (if n \<le> 0 \<or> 5000 < n then 500 else n)])"

abbreviation recordPath :: string where "recordPath \<equiv> ''/sdcard/opencuttles-rec.mp4''"

definition StartRecording :: "dev_env \<Rightarrow> db \<Rightarrow> string \<Rightarrow> unit act" where
  "StartRecording e d iid =
    bnd (lift (resolve e d iid)) (\<lambda>i.
    bnd (attempt (adbShell e i [''pkill'', ''-INT'', ''screenrecord''])) (\<lambda>_.
    adb_unit e i [''nohup'', ''screenrecord'', ''--time-limit'', ''180'', recordPath,
                  ''>/dev/null'', ''2>&1'', ''&'']))"

definition StopRecording :: "dev_env \<Rightarrow> db \<Rightarrow> string \<Rightarrow> string act" where
  "StopRecording e d iid =
    bnd (lift (resolve e d iid)) (\<lambda>i.
    bnd (attempt (adbShell e i [''pkill'', ''-INT'', ''screenrecord''])) (\<lambda>_.
    bnd (adb e i [''exec-out'', ''cat'', recordPath]) (\<lambda>video.
    bnd (attempt (adbShell e i [''rm'', ''-f'', recordPath])) (\<lambda>_.
      if length video < 1024
      then fail (Err (''recording too small ('' @ itoa (int (length video)) @
                      '' bytes); screenrecord may not have started''))
      else ret video))))"

definition Perf :: "dev_env \<Rightarrow> db \<Rightarrow> string \<Rightarrow> string \<Rightarrow> PerfSnapshot act" where
  "Perf e d iid pkg =
    bnd (lift (resolve e d iid)) (\<lambda>i.
    bnd (attempt (adbShell e i [''dumpsys'', ''battery''])) (\<lambda>b.
    bnd (if pkg = [] then ret (Inr []) else attempt (adbShell e i [''dumpsys'', ''meminfo'', pkg])) (\<lambda>m.
    ret \<lparr>perf_Package = pkg,
         perf_BatteryLevel = (case b of Inl _ \<Rightarrow> 0 | Inr out \<Rightarrow> parseBatteryLevel out),
         perf_TotalPSSKB = (if pkg = [] then 0 else case m of Inl _ \<Rightarrow> 0 | Inr out \<Rightarrow> parseTotalPSS out)\<rparr>)))"

section \<open>What an action sends\<close>

text \<open>sends P m: whatever was sent before, m appends only requests that satisfy P.\<close>

definition sends :: "(request \<Rightarrow> bool) \<Rightarrow> 'a act \<Rightarrow> bool" where
  "sends P m = (\<forall>tr. \<exists>s. snd (m tr) = tr @ s \<and> list_all P s)"

named_theorems sends_intros

lemma sendsI: "(\<And>tr. \<exists>s. snd (m tr) = tr @ s \<and> list_all P s) \<Longrightarrow> sends P m"
  by (simp add: sends_def)

lemma sendsD: "sends P m \<Longrightarrow> \<exists>s. snd (m tr) = tr @ s \<and> list_all P s"
  by (simp add: sends_def)

lemma sends_silent: "(\<And>tr. snd (m tr) = tr) \<Longrightarrow> sends P m"
  by (rule sendsI) (rule exI[of _ "[]"], simp)

lemma sends_one: "(\<And>tr. snd (m tr) = tr @ [r]) \<Longrightarrow> P r \<Longrightarrow> sends P m"
  by (rule sendsI) (rule exI[of _ "[r]"], simp)

lemma sends_ret [sends_intros]: "sends P (ret x)"
  by (rule sends_silent) (simp add: ret_def)

lemma sends_fail [sends_intros]: "sends P (fail x)"
  by (rule sends_silent) (simp add: fail_def)

lemma sends_lift [sends_intros]: "sends P (lift r)"
  by (rule sends_silent) (simp add: lift_def)

lemma sends_driverFor [sends_intros]: "sends P (driverFor e i)"
  by (rule sends_silent) (simp add: driverFor_def)

lemma sends_bnd [sends_intros]:
  assumes m: "sends P m" and f: "\<And>x. sends P (f x)"
  shows "sends P (bnd m f)"
proof (rule sendsI)
  fix tr
  obtain s where s: "snd (m tr) = tr @ s" "list_all P s" using sendsD[OF m] by blast
  show "\<exists>s. snd (bnd m f tr) = tr @ s \<and> list_all P s"
  proof (cases "m tr")
    case (Pair r tr1)
    then show ?thesis
    proof (cases r)
      case (Inr x)
      obtain s' where s': "snd (f x tr1) = tr1 @ s'" "list_all P s'" using sendsD[OF f] by blast
      have "snd (bnd m f tr) = tr @ (s @ s')" using Pair Inr s s' by (simp add: bnd_def)
      then show ?thesis using s s' by (intro exI[of _ "s @ s'"]) simp
    qed (use Pair s in \<open>simp add: bnd_def\<close>)
  qed
qed

lemma sends_attempt [sends_intros]: "sends P m \<Longrightarrow> sends P (attempt m)"
  by (simp add: sends_def attempt_def)

lemma sends_unit_of [sends_intros]: "sends P m \<Longrightarrow> sends P (unit_of m)"
  unfolding unit_of_def by (intro sends_intros)

lemma sends_if [sends_intros]: "(b \<Longrightarrow> sends P m) \<Longrightarrow> (\<not> b \<Longrightarrow> sends P n) \<Longrightarrow> sends P (if b then m else n)"
  by simp

lemma sends_sum [sends_intros]:
  "(\<And>x. r = Inl x \<Longrightarrow> sends P (f x)) \<Longrightarrow> (\<And>x. r = Inr x \<Longrightarrow> sends P (g x)) \<Longrightarrow> sends P (case_sum f g r)"
  by (cases r) simp_all

lemma sends_resolved:
  assumes "\<And>i. resolve e d iid = Inr i \<Longrightarrow> sends P (f i)"
  shows "sends P (bnd (lift (resolve e d iid)) f)"
proof (cases "resolve e d iid")
  case (Inl err)
  then show ?thesis by (intro sends_silent) (simp add: bnd_def lift_def)
next
  case (Inr i)
  then have "bnd (lift (resolve e d iid)) f = f i" by (intro ext) (simp add: bnd_def lift_def)
  then show ?thesis using assms[OF Inr] by simp
qed

lemma sends_driver:
  assumes "Source i \<noteq> SourceRunner \<Longrightarrow> sends P (f (AdbDriver i))"
    and "Source i = SourceRunner \<Longrightarrow> sends P (f (McpDriver i))"
  shows "sends P (bnd (driverFor e i) f)"
proof (rule sendsI)
  fix tr
  show "\<exists>s. snd (bnd (driverFor e i) f tr) = tr @ s \<and> list_all P s"
  proof (cases "Source i = SourceRunner")
    case True
    have "snd (bnd (driverFor e i) f tr) \<in> {tr, snd (f (McpDriver i) tr)}"
      using True by (simp add: bnd_def driverFor_def)
    then show ?thesis using sendsD[OF assms(2)[OF True], of tr] by auto
  next
    case False
    then show ?thesis using sendsD[OF assms(1)[OF False], of tr] by (simp add: bnd_def driverFor_def)
  qed
qed

text \<open>The requests that concern one device.\<close>

fun concerns :: "Instance \<Rightarrow> request \<Rightarrow> bool" where
  "concerns i (Adb (a # t # rest)) =
    (Source i \<noteq> SourceRunner \<and> adbTarget i = Inr t \<and> (a = ''-s'' \<or> (a = ''connect'' \<and> rest = [])))"
| "concerns i (Adb _) = False"
| "concerns i (Call k _ _) = (k = inst_ID i)"

lemma sends_adb [sends_intros]: "sends (concerns i) (adb e i args)"
proof (rule sendsI)
  fix tr
  show "\<exists>s. snd (adb e i args tr) = tr @ s \<and> list_all (concerns i) s"
    by (simp add: adb_def run_adb_def Let_def split: sum.split option.split prod.split)
qed

lemma sends_adbShell [sends_intros]: "sends (concerns i) (adbShell e i args)"
  unfolding adbShell_def by (intro sends_intros)

lemma sends_adb_unit [sends_intros]: "sends (concerns i) (adb_unit e i args)"
  unfolding adb_unit_def by (intro sends_intros)

lemma sends_run_call [sends_intros]: "sends (concerns i) (run_call e (inst_ID i) m ps)"
  by (rule sends_one[of _ "Call (inst_ID i) m ps"]) (simp_all add: run_call_def)

lemma sends_callRunner [sends_intros]: "inst_ID i = iid \<Longrightarrow> sends (concerns i) (callRunner e iid m ps)"
  unfolding callRunner_def by (auto intro!: sends_intros)

lemma sends_mcp_send [sends_intros]: "sends (concerns i) (mcp_send e i m ps)"
  unfolding mcp_send_def by (intro sends_intros)

section \<open>The contract of a driver\<close>

datatype gesture =
    GShot
  | GTap int int
  | GSwipe int int int int int
  | GText string
  | GKey string
  | GClick int int string int
  | GScroll int int int int
  | GChord "string list"

text \<open>
  What the service relies on: a driver talks to its own device only, and refuses, without a
  request, a chord or a button that its capabilities do not advertise.
\<close>

definition refuses :: "'a act \<Rightarrow> bool" where
  "refuses m = (\<forall>tr. \<exists>err. m tr = (Inl err, tr) \<and> err_is err ErrUnsupported)"

locale device_driver =
  fixes own :: "request \<Rightarrow> bool"
    and gesture_act :: "gesture \<Rightarrow> unit act"
    and caps :: Capabilities
  assumes own_requests: "sends own (gesture_act g)"
    and no_chord: "\<not> cap_Chord caps \<Longrightarrow> refuses (gesture_act (GChord ks))"
    and no_button: "\<not> cap_MouseButtons caps \<Longrightarrow> to_upper (trim_space b) \<notin> {[], ''LEFT''} \<Longrightarrow>
      refuses (gesture_act (GClick x y b n))"
begin

primrec script :: "gesture list \<Rightarrow> unit act" where
  "script [] = ret ()"
| "script (g # gs) = bnd (gesture_act g) (\<lambda>_. script gs)"

lemma script_own: "sends own (script gs)"
  by (induction gs) (auto intro!: sends_intros own_requests)

lemma script_stops_at_chord:
  assumes "\<not> cap_Chord caps"
  shows "script (GChord ks # gs) tr = (fst (script (GChord ks # gs) tr), tr)
         \<and> \<not> is_ok (fst (script (GChord ks # gs) tr))"
  using no_chord[OF assms, of ks] unfolding refuses_def
  by (auto simp: bnd_def dest!: spec[of _ tr])

lemma script_stops_at_button:
  assumes "\<not> cap_MouseButtons caps" "to_upper (trim_space b) \<notin> {[], ''LEFT''}"
  shows "script (GClick x y b n # gs) tr = (fst (script (GClick x y b n # gs) tr), tr)
         \<and> \<not> is_ok (fst (script (GClick x y b n # gs) tr))"
  using no_button[OF assms, of x y n] unfolding refuses_def
  by (auto simp: bnd_def dest!: spec[of _ tr])

end

fun adb_gesture :: "dev_env \<Rightarrow> Instance \<Rightarrow> gesture \<Rightarrow> unit act" where
  "adb_gesture e i GShot = unit_of (adb_Screenshot e i)"
| "adb_gesture e i (GTap x y) = adb_Tap e i x y"
| "adb_gesture e i (GSwipe x1 y1 x2 y2 ms) = adb_Swipe e i x1 y1 x2 y2 ms"
| "adb_gesture e i (GText t) = adb_Text e i t"
| "adb_gesture e i (GKey k) = adb_Key e i k"
| "adb_gesture e i (GClick x y b n) = adb_Click e i x y b n"
| "adb_gesture e i (GScroll x y dx dy) = adb_Scroll e i x y dx dy"
| "adb_gesture e i (GChord ks) = adb_Chord ks"

fun mcp_gesture :: "dev_env \<Rightarrow> Instance \<Rightarrow> gesture \<Rightarrow> unit act" where
  "mcp_gesture e i GShot = unit_of (mcp_Screenshot e i)"
| "mcp_gesture e i (GTap x y) = mcp_Tap e i x y"
| "mcp_gesture e i (GSwipe x1 y1 x2 y2 ms) = mcp_Swipe e i x1 y1 x2 y2 ms"
| "mcp_gesture e i (GText t) = mcp_Text e i t"
| "mcp_gesture e i (GKey k) = mcp_Key e i k"
| "mcp_gesture e i (GClick x y b n) = mcp_Click e i x y b n"
| "mcp_gesture e i (GScroll x y dx dy) = mcp_Scroll e i x y dx dy"
| "mcp_gesture e i (GChord ks) = mcp_Chord e i ks"

lemma sends_repeat [sends_intros]: "sends P m \<Longrightarrow> sends P (repeat_act n m)"
  by (induction n) (auto intro: sends_intros)

lemma adb_gesture_concerns: "sends (concerns i) (adb_gesture e i g)"
proof (cases g)
  case (GClick x y b n)
  then show ?thesis
    by (simp add: adb_Click_def adb_Tap_def Let_def sends_fail sends_repeat sends_adb_unit)
next
  case (GScroll x y dx dy)
  then show ?thesis
    by (simp add: adb_Scroll_def adb_Swipe_def Let_def sends_ret sends_adb_unit split: prod.split)
qed (simp_all add: adb_Screenshot_def adb_Tap_def adb_Swipe_def adb_Text_def adb_Key_def adb_Chord_def
       sends_adb sends_unit_of sends_adb_unit sends_fail)

lemma sends_mcp_Screenshot: "sends (concerns i) (mcp_Screenshot e i)"
  unfolding mcp_Screenshot_def by (intro sends_intros)

lemma mcp_gesture_concerns: "sends (concerns i) (mcp_gesture e i g)"
  by (cases g) (simp_all add: mcp_Tap_def mcp_Click_def mcp_Swipe_def mcp_Text_def mcp_Key_def mcp_Scroll_def
       mcp_Chord_def sends_mcp_send sends_unit_of sends_mcp_Screenshot)

lemma refuses_fail: "err_is err ErrUnsupported \<Longrightarrow> refuses (fail err)"
  by (simp add: refuses_def fail_def)

lemma unsupported_is: "err_is (unsupported t) ErrUnsupported"
  by (simp add: unsupported_def ErrUnsupported_def)

interpretation adb_drv: device_driver "concerns i" "adb_gesture e i" adb_Capabilities for e i
proof unfold_locales
  show "sends (concerns i) (adb_gesture e i g)" for g by (rule adb_gesture_concerns)
  show "refuses (adb_gesture e i (GChord ks))" for ks
    by (simp add: adb_Chord_def refuses_fail unsupported_is)
  show "refuses (adb_gesture e i (GClick x y b n))" if "to_upper (trim_space b) \<notin> {[], ''LEFT''}" for x y b n
    using that by (simp add: adb_Click_def Let_def refuses_fail unsupported_is)
qed

interpretation mcp_drv: device_driver "concerns i" "mcp_gesture e i" mcp_Capabilities for e i
  by unfold_locales (simp_all add: mcp_gesture_concerns mcp_Capabilities_def)

section \<open>Every operation stays on its device\<close>

datatype device_op =
    OpShot
  | OpTap int int
  | OpClick int int string int
  | OpScroll int int int int
  | OpChord "string list"
  | OpSwipe int int int int int
  | OpLongPress int int int
  | OpText string
  | OpKey string
  | OpUITree
  | OpListApps bool
  | OpLaunchApp string
  | OpCurrentActivity
  | OpOpenApp string
  | OpInputSize
  | OpInstallAPK string
  | OpInstallDesktopBuild string string string
  | OpRotate int
  | OpShell string
  | OpLogcat int
  | OpStartRecording
  | OpStopRecording
  | OpPerf string

fun perform :: "dev_env \<Rightarrow> db \<Rightarrow> string \<Rightarrow> device_op \<Rightarrow> unit act" where
  "perform e d iid OpShot = unit_of (Screenshot e d iid)"
| "perform e d iid (OpTap x y) = Tap e d iid x y"
| "perform e d iid (OpClick x y b n) = Click e d iid x y b n"
| "perform e d iid (OpScroll x y dx dy) = Scroll e d iid x y dx dy"
| "perform e d iid (OpChord ks) = Chord e d iid ks"
| "perform e d iid (OpSwipe x1 y1 x2 y2 ms) = Swipe e d iid x1 y1 x2 y2 ms"
| "perform e d iid (OpLongPress x y ms) = LongPress e d iid x y ms"
| "perform e d iid (OpText t) = Text e d iid t"
| "perform e d iid (OpKey k) = Key e d iid k"
| "perform e d iid OpUITree = unit_of (UITree e d iid)"
| "perform e d iid (OpListApps b) = unit_of (ListApps e d iid b)"
| "perform e d iid (OpLaunchApp p) = LaunchApp e d iid p"
| "perform e d iid OpCurrentActivity = unit_of (CurrentActivity e d iid)"
| "perform e d iid (OpOpenApp n) = unit_of (OpenApp e d iid n)"
| "perform e d iid OpInputSize = unit_of (InputSize e d iid)"
| "perform e d iid (OpInstallAPK p) = InstallAPK e d iid p"
| "perform e d iid (OpInstallDesktopBuild b f a) = InstallDesktopBuild e d iid b f a"
| "perform e d iid (OpRotate n) = Rotate e d iid n"
| "perform e d iid (OpShell c) = unit_of (Shell e d iid c)"
| "perform e d iid (OpLogcat n) = unit_of (Logcat e d iid n)"
| "perform e d iid OpStartRecording = StartRecording e d iid"
| "perform e d iid OpStopRecording = unit_of (StopRecording e d iid)"
| "perform e d iid (OpPerf p) = unit_of (Perf e d iid p)"

definition addressed :: "dev_env \<Rightarrow> db \<Rightarrow> string \<Rightarrow> request \<Rightarrow> bool" where
  "addressed e d iid r = (case resolve e d iid of Inl _ \<Rightarrow> False | Inr i \<Rightarrow> concerns i r)"

lemma GetInstance_ID: "GetInstance iid d = Inr i \<Longrightarrow> inst_ID i = iid"
  by (auto simp: GetInstance_def scan_row_def scanInstance_def tbl_find_def find_Some_iff Let_def
      Instance.defs split: option.splits if_splits)

lemma resolve_ID: "resolve e d iid = Inr i \<Longrightarrow> inst_ID i = iid"
  by (auto simp: resolve_def dest: GetInstance_ID split: sum.splits)

lemma sends_weaken:
  assumes "sends P m" and "\<And>r. P r \<Longrightarrow> Q r"
  shows "sends Q m"
proof (rule sendsI)
  fix tr
  obtain s where "snd (m tr) = tr @ s" "list_all P s" using sendsD[OF assms(1)] by blast
  then show "\<exists>s. snd (m tr) = tr @ s \<and> list_all Q s"
    using assms(2) by (auto simp: list_all_iff)
qed

lemma sends_addressed:
  assumes "\<And>i. inst_ID i = iid \<Longrightarrow> sends (concerns i) (f i)"
  shows "sends (addressed e d iid) (bnd (lift (resolve e d iid)) f)"
proof (rule sends_resolved)
  fix i assume r: "resolve e d iid = Inr i"
  show "sends (addressed e d iid) (f i)"
    by (rule sends_weaken[OF assms[OF resolve_ID[OF r]]]) (simp add: addressed_def r)
qed

lemma sends_with_driver:
  assumes "\<And>i. sends (concerns i) (f (AdbDriver i))" and "\<And>i. sends (concerns i) (f (McpDriver i))"
  shows "sends (addressed e d iid) (with_driver e d iid f)"
  unfolding with_driver_def by (intro sends_addressed sends_driver assms)

lemma sends_adb_ops:
  "sends (concerns i) (adb_Screenshot e i)" "sends (concerns i) (adb_Tap e i x y)"
  "sends (concerns i) (adb_Click e i x y b n)" "sends (concerns i) (adb_Scroll e i x y dx dy)"
  "sends (concerns i) (adb_Chord ks)" "sends (concerns i) (adb_Swipe e i x y dx dy n)"
  "sends (concerns i) (adb_Text e i t)" "sends (concerns i) (adb_Key e i k)"
  using adb_gesture_concerns[of i e "GTap x y"] adb_gesture_concerns[of i e "GClick x y b n"]
    adb_gesture_concerns[of i e "GScroll x y dx dy"] adb_gesture_concerns[of i e "GChord ks"]
    adb_gesture_concerns[of i e "GSwipe x y dx dy n"] adb_gesture_concerns[of i e "GText t"]
    adb_gesture_concerns[of i e "GKey k"]
  by (simp_all add: adb_Screenshot_def sends_adb)

lemma sends_mcp_ops:
  "sends (concerns i) (mcp_Tap e i x y)" "sends (concerns i) (mcp_Click e i x y b n)"
  "sends (concerns i) (mcp_Scroll e i x y dx dy)" "sends (concerns i) (mcp_Chord e i ks)"
  "sends (concerns i) (mcp_Swipe e i x y dx dy n)" "sends (concerns i) (mcp_Text e i t)"
  "sends (concerns i) (mcp_Key e i k)"
  using mcp_gesture_concerns[of i e "GTap x y"] mcp_gesture_concerns[of i e "GClick x y b n"]
    mcp_gesture_concerns[of i e "GScroll x y dx dy"] mcp_gesture_concerns[of i e "GChord ks"]
    mcp_gesture_concerns[of i e "GSwipe x y dx dy n"] mcp_gesture_concerns[of i e "GText t"]
    mcp_gesture_concerns[of i e "GKey k"]
  by simp_all

lemma sends_poll_install [sends_intros]:
  "inst_ID i = iid \<Longrightarrow> sends (concerns i) (poll_install e iid b n)"
  by (induction n) (auto intro!: sends_intros)

lemma sends_runner_text [sends_intros]:
  "inst_ID i = iid \<Longrightarrow> sends (concerns i) (runner_text e iid m ps f)"
  unfolding runner_text_def by (intro sends_intros)

lemma sends_put_global [sends_intros]: "sends (concerns i) (put_global e i key)"
  unfolding put_global_def by (intro sends_intros)

lemma sends_disable [sends_intros]: "sends (concerns i) (disableInstallVerification e i)"
  unfolding disableInstallVerification_def by (intro sends_intros)

lemmas gesture_ops_sends = sends_with_driver sends_adb_ops sends_mcp_ops sends_mcp_Screenshot

lemma sends_gestures:
  "sends (addressed e d iid) (Screenshot e d iid)" "sends (addressed e d iid) (Tap e d iid x y)"
  "sends (addressed e d iid) (Click e d iid x y b n)" "sends (addressed e d iid) (Scroll e d iid x y dx dy)"
  "sends (addressed e d iid) (Chord e d iid ks)" "sends (addressed e d iid) (Swipe e d iid x y dx dy n)"
  "sends (addressed e d iid) (LongPress e d iid x y n)" "sends (addressed e d iid) (Text e d iid t)"
  "sends (addressed e d iid) (Key e d iid k)"
  unfolding Screenshot_def Tap_def Click_def Scroll_def Chord_def Swipe_def LongPress_def Text_def Key_def
  by (simp_all add: gesture_ops_sends)

lemma sends_queries:
  "sends (addressed e d iid) (UITree e d iid)" "sends (addressed e d iid) (ListApps e d iid b)"
  "sends (addressed e d iid) (CurrentActivity e d iid)" "sends (addressed e d iid) (OpenApp e d iid n)"
  "sends (addressed e d iid) (InputSize e d iid)" "sends (addressed e d iid) (Shell e d iid c)"
  "sends (addressed e d iid) (Logcat e d iid k)" "sends (addressed e d iid) (Perf e d iid p)"
  "sends (addressed e d iid) (StopRecording e d iid)"
  unfolding UITree_def ListApps_def CurrentActivity_def OpenApp_def InputSize_def Shell_def Logcat_def
    Perf_def StopRecording_def
  by (intro sends_addressed sends_intros; assumption)+

lemma sends_changes:
  "sends (addressed e d iid) (LaunchApp e d iid p)" "sends (addressed e d iid) (InstallAPK e d iid p)"
  "sends (addressed e d iid) (InstallDesktopBuild e d iid b f a)" "sends (addressed e d iid) (Rotate e d iid k)"
  "sends (addressed e d iid) (StartRecording e d iid)"
  unfolding LaunchApp_def InstallAPK_def InstallDesktopBuild_def Rotate_def StartRecording_def
  by (intro sends_addressed sends_intros; assumption)+

lemma sends_perform: "sends (addressed e d iid) (perform e d iid op)"
  by (cases op) (simp_all add: sends_gestures sends_queries sends_changes sends_unit_of)

text \<open>C14: an operation appends to the requests sent so far, and every request it sends is for
  the device it was called with: an adb command naming the ADB target of that device or a call to
  its runner; when the device cannot be driven (unknown, not running, execution off) it sends nothing.\<close>

theorem operations_stay_on_their_device:
  "(case resolve e d iid of
      Inl err \<Rightarrow> snd (perform e d iid op tr) = tr
    | Inr i \<Rightarrow> inst_ID i = iid \<and> (\<exists>s. snd (perform e d iid op tr) = tr @ s \<and> list_all (concerns i) s))"
proof (cases "resolve e d iid")
  case (Inl err)
  then have "addressed e d iid = (\<lambda>_. False)" by (simp add: addressed_def fun_eq_iff)
  then show ?thesis
    using Inl sendsD[OF sends_perform[of e d iid op], of tr] by (auto simp: list_all_iff)
next
  case (Inr i)
  then have "addressed e d iid = concerns i" by (simp add: addressed_def fun_eq_iff)
  then show ?thesis
    using Inr sendsD[OF sends_perform[of e d iid op], of tr] resolve_ID[OF Inr] by simp
qed

section \<open>Installing on a handset\<close>

definition install_request :: "Instance \<Rightarrow> string \<Rightarrow> request \<Rightarrow> bool" where
  "install_request i path r =
    (case adbTarget i of Inl _ \<Rightarrow> False
     | Inr t \<Rightarrow> r = Adb [''-s'', t, ''install'', ''-r'', path] \<or> r = Adb [''connect'', t])"

lemma sends_adb_exactly:
  assumes "\<And>t. adbTarget i = Inr t \<Longrightarrow> P (Adb (''-s'' # t # args)) \<and> P (Adb [''connect'', t])"
  shows "sends P (adb e i args)"
proof (rule sendsI)
  fix tr
  show "\<exists>s. snd (adb e i args tr) = tr @ s \<and> list_all P s"
    using assms by (simp add: adb_def run_adb_def Let_def split: sum.split option.split prod.split)
qed

lemma sends_resolved_to:
  assumes "resolve e d iid = Inr i" "sends P (f i)"
  shows "sends P (bnd (lift (resolve e d iid)) f)"
  by (rule sends_resolved) (use assms in simp)

text \<open>C25: InstallAPK on a device that the appliance did not provision (a handset) sends only the
  install itself and reconnects: the settings that switch off package verification are never written there.\<close>

theorem InstallAPK_keeps_verification:
  assumes "resolve e d iid = Inr i" "\<not> IsProvisioned i"
  shows "\<exists>s. snd (InstallAPK e d iid path tr) = tr @ s \<and> list_all (install_request i path) s"
proof (rule sendsD)
  have "sends (install_request i path) (adb e i [''install'', ''-r'', path])"
    by (rule sends_adb_exactly) (simp add: install_request_def)
  then show "sends (install_request i path) (InstallAPK e d iid path)"
    unfolding InstallAPK_def using assms
    by (intro sends_resolved_to[OF assms(1)])
      (auto simp: disableInstallVerification_def intro!: sends_intros)
qed

text \<open>An adb that answers everything with the empty text, and runners that are all connected.\<close>

definition quiet_env :: dev_env where
  "quiet_env =
    \<lparr>de_execute = True, de_run = (\<lambda>_ _. ([], None)), de_tunnel = True, de_online = (\<lambda>_ _. True),
     de_call = (\<lambda>_ _ _ _. Inr None), de_polls = 3, de_xml = (\<lambda>_. Inr [])\<rparr>"

definition sample_handset :: Instance where
  "sample_handset = zero_Instance\<lparr>inst_ID := ''phy_1'', inst_Platform := PlatformAndroid,
     inst_Src := SourcePhysical, inst_ADBTarget := ''10.0.0.7:5555'', inst_State := StateOnline,
     inst_DisplayWidth := 1080, inst_DisplayHeight := 2400\<rparr>"

definition sample_desk :: Instance where
  "sample_desk = zero_Instance\<lparr>inst_ID := ''dev_1'', inst_Platform := PlatformWindows,
     inst_Src := SourceRunner, inst_ControlEndpoint := ''tunnel'', inst_State := StateOnline\<rparr>"

definition sample_devices :: db where
  "sample_devices = empty_db\<lparr>db_instances := [instance_row sample_handset [], instance_row sample_desk []]\<rparr>"

lemma sample_resolve: "resolve quiet_env sample_devices ''phy_1'' = Inr sample_handset"
  by code_simp

lemma InstallAPK_keeps_verification_witness:
  "\<exists>s. snd (InstallAPK quiet_env sample_devices ''phy_1'' ''/b.apk'' []) = [] @ s
       \<and> list_all (install_request sample_handset ''/b.apk'') s"
  by (rule InstallAPK_keeps_verification[OF sample_resolve]) code_simp

section \<open>The scroll gesture of a touch screen\<close>

lemma clamp_between: "lo \<le> hi \<Longrightarrow> lo \<le> clamp v lo hi \<and> clamp v lo hi \<le> hi"
  by (simp add: clamp_def)

lemma display_of_pos: "0 < fst (display_of i) \<and> 0 < snd (display_of i)"
  by (simp add: display_of_def)

text \<open>The swipe that stands for a scroll ends inside the display, whatever the point and the
  number of notches asked for (64-bit overflow included).\<close>

theorem scroll_ends_on_screen:
  assumes "display_of i = (w, h)" "2 \<le> w" "2 \<le> h"
    and "scroll_gesture i x y dx dy = (start, (x2, y2))"
  shows "1 \<le> x2 \<and> x2 < w \<and> 1 \<le> y2 \<and> y2 < h"
proof -
  obtain px py where p: "(if x \<le> 0 \<and> y \<le> 0 then (w sdiv 2, h sdiv 2) else (x, y)) = (px, py)"
    by (cases "if x \<le> 0 \<and> y \<le> 0 then (w sdiv 2, h sdiv 2) else (x, y)")
  then have "x2 = clamp (wrap64 (px - wrap64 (dx * w) sdiv 3)) 1 (w - 1)"
    "y2 = clamp (wrap64 (py - wrap64 (dy * h) sdiv 3)) 1 (h - 1)"
    using assms(1,4) unfolding scroll_gesture_def by (simp_all only: Let_def prod.case prod.inject)
  then show ?thesis
    using clamp_between[of 1 "w - 1" "wrap64 (px - wrap64 (dx * w) sdiv 3)"]
      clamp_between[of 1 "h - 1" "wrap64 (py - wrap64 (dy * h) sdiv 3)"] assms(2,3) by simp
qed

lemma scroll_ends_on_screen_witness:
  "1 \<le> (540::int) \<and> (540::int) < 1080 \<and> 1 \<le> (1::int) \<and> (1::int) < 2400"
  by (rule scroll_ends_on_screen[of sample_handset 1080 2400 0 0 0 3 "(540, 1200)"]) code_simp+

text \<open>
  The product with the display overflows for a very large notch count: a scroll down
  by 2 to the power of 52 notches drags the finger down, which scrolls up.
\<close>

lemma scroll_overflow_reverses:
  "scroll_gesture sample_handset 0 0 0 3 = ((540, 1200), (540, 1))"
  "scroll_gesture sample_handset 0 0 0 (2 ^ 52) = ((540, 1200), (540, 2399))"
  by code_simp+

section \<open>Reading back what a device prints\<close>

lemma itoa_set: "c \<in> set (itoa n) \<Longrightarrow> is_digit c \<or> c = CHR ''-''"
  by (auto simp: itoa_def split: if_splits dest: nat_text_digits)

lemma itoa_not_Nil [simp]: "itoa n \<noteq> []"
  by (simp add: itoa_def)

lemma itoa_clean: "c \<in> set (itoa n) \<Longrightarrow> \<not> is_space c \<and> c \<noteq> CHR ''x'' \<and> \<not> is_bracket c"
  using itoa_set[of c n] by (auto simp: is_digit_def is_space_def is_bracket_def)

lemma newline_is_space: "is_space (CHR 0x0A)"
  by (simp add: is_space_def)

lemma itoa_ends [simp]: "\<not> is_space (hd (itoa n))" "\<not> is_space (last (itoa n))"
  using itoa_clean[of "hd (itoa n)" n] itoa_clean[of "last (itoa n)" n] by simp_all

lemma trim_space_itoa [simp]: "trim_space (itoa n) = itoa n"
  unfolding trim_space_def by (rule trim_by_id) simp

definition wm_text :: "string \<Rightarrow> int \<Rightarrow> int \<Rightarrow> string" where
  "wm_text label w h = label @ '' '' @ itoa w @ ''x'' @ itoa h"

lemma cut_at_append: "c \<notin> set a \<Longrightarrow> cut_at c (a @ c # b) = Some (a, b)"
proof -
  assume "c \<notin> set a"
  then have "dropWhile (\<lambda>d. d \<noteq> c) (a @ c # b) = c # b" "takeWhile (\<lambda>d. d \<noteq> c) (a @ c # b) = a"
    by (induction a) auto
  then show ?thesis by (simp add: cut_at_def)
qed

lemma dropWhile_hd: "\<not> P (hd t) \<Longrightarrow> dropWhile P t = t"
  by (cases t) auto

lemma wm_tail: "trim_space ('' '' @ itoa w @ ''x'' @ itoa h) = itoa w @ ''x'' @ itoa h"
proof -
  have d: "dropWhile is_space ('' '' @ t) = t" if "t \<noteq> []" "\<not> is_space (hd t)" for t
    using that by (cases t) (auto simp: is_space_def)
  have "trim_space ('' '' @ itoa w @ ''x'' @ itoa h) = trim_space (itoa w @ ''x'' @ itoa h)"
  proof -
    have h: "\<not> is_space (hd (itoa w @ ''x'' @ itoa h))" using itoa_clean[of "hd (itoa w)" w] by simp
    have "dropWhile is_space (itoa w @ ''x'' @ itoa h) = itoa w @ ''x'' @ itoa h"
      using h by (rule dropWhile_hd)
    then show ?thesis using d[of "itoa w @ ''x'' @ itoa h"] h by (simp add: trim_space_def trim_by_def)
  qed
  also have "\<dots> = itoa w @ ''x'' @ itoa h"
    unfolding trim_space_def by (rule trim_by_id) simp
  finally show ?thesis .
qed

lemma sizeAfter_text:
  assumes "0 < w" "w < 2 ^ 63" "0 < h" "h < 2 ^ 63"
  shows "sizeAfter (wm_text label w h) label = Some (w, h)"
proof -
  have "cut_at (CHR ''x'') (itoa w @ ''x'' @ itoa h) = Some (itoa w, itoa h)"
    using cut_at_append[of "CHR ''x''" "itoa w" "itoa h"] itoa_clean[of _ w] by auto
  then show ?thesis
    using assms wm_tail[of w h]
    by (simp add: sizeAfter_def wm_text_def trim_prefix_def atoi_itoa)
qed

lemma wm_text_trim:
  assumes "label \<noteq> []" "\<not> is_space (hd label)"
  shows "trim_space (wm_text label w h) = wm_text label w h"
  unfolding trim_space_def wm_text_def by (rule trim_by_id) (simp add: assms)

lemma wm_text_no_newline:
  assumes "CHR 0x0A \<notin> set label" shows "CHR 0x0A \<notin> set (wm_text label w h)"
  using assms itoa_clean newline_is_space by (auto simp: wm_text_def)

lemma other_label:
  "sizeAfter (wm_text ''Physical size:'' w h) ''Override size:'' = None"
  by (simp add: sizeAfter_def wm_text_def has_prefix_def)

lemma wm_line_override:
  assumes "0 < w" "w < 2 ^ 63" "0 < h" "h < 2 ^ 63"
  shows "wm_line (p, v) (wm_text ''Override size:'' w h) = (p, (w, h))"
  using sizeAfter_text[OF assms, of "''Override size:''"] wm_text_trim[of "''Override size:''" w h]
  by (simp add: wm_line_def is_space_def)

lemma wm_line_physical:
  assumes "0 < w" "w < 2 ^ 63" "0 < h" "h < 2 ^ 63"
  shows "wm_line (p, v) (wm_text ''Physical size:'' w h) = ((w, h), v)"
  using sizeAfter_text[OF assms, of "''Physical size:''"] wm_text_trim[of "''Physical size:''" w h]
    other_label[of w h]
  by (simp add: wm_line_def is_space_def)

lemma lines_of_two:
  assumes "CHR 0x0A \<notin> set a" "CHR 0x0A \<notin> set b"
  shows "lines_of (a @ [CHR 0x0A] @ b) = [a, b]" "lines_of a = [a]"
  using assms by (simp_all add: lines_of_def split_char_append split_char_id)

text \<open>ParseWMSize reads the size that wm size prints back exactly, and prefers the override
  size, which is the active input space, to the physical one in either order of the lines.\<close>

theorem ParseWMSize_reads_back:
  assumes "0 < w" "w < 2 ^ 63" "0 < h" "h < 2 ^ 63" and "0 < w'" "w' < 2 ^ 63" "0 < h'" "h' < 2 ^ 63"
  shows "ParseWMSize (wm_text ''Physical size:'' w h) = Inr (w, h)
    \<and> ParseWMSize (wm_text ''Physical size:'' w h @ [CHR 0x0A] @ wm_text ''Override size:'' w' h') = Inr (w', h')
    \<and> ParseWMSize (wm_text ''Override size:'' w' h' @ [CHR 0x0A] @ wm_text ''Physical size:'' w h) = Inr (w', h')"
proof -
  have nl: "CHR 0x0A \<notin> set (wm_text ''Physical size:'' w h)" "CHR 0x0A \<notin> set (wm_text ''Override size:'' w' h')"
    by (rule wm_text_no_newline, simp)+
  show ?thesis
    unfolding ParseWMSize_def lines_of_two[OF nl] lines_of_two[OF nl(2,1)]
    using assms by (simp add: wm_line_override wm_line_physical del: append.simps)
qed

lemma ParseWMSize_reads_back_witness:
  "ParseWMSize (wm_text ''Physical size:'' 1080 2400) = Inr (1080, 2400)
    \<and> ParseWMSize (wm_text ''Physical size:'' 1080 2400 @ [CHR 0x0A] @ wm_text ''Override size:'' 720 1600) = Inr (720, 1600)
    \<and> ParseWMSize (wm_text ''Override size:'' 720 1600 @ [CHR 0x0A] @ wm_text ''Physical size:'' 1080 2400) = Inr (720, 1600)"
  by (rule ParseWMSize_reads_back) simp_all

definition bounds_text :: "int \<Rightarrow> int \<Rightarrow> int \<Rightarrow> int \<Rightarrow> string" where
  "bounds_text x1 y1 x2 y2 =
    ''['' @ itoa x1 @ '','' @ itoa y1 @ '']['' @ itoa x2 @ '','' @ itoa y2 @ '']''"

lemma map_itoa:
  "map (\<lambda>c. if is_bracket c then CHR '' '' else c) (itoa n) = itoa n"
  "map (\<lambda>c. if is_space c then CHR '' '' else c) (itoa n) = itoa n"
  by (rule map_idI, simp add: itoa_clean)+

lemma blank_not_in_itoa: "CHR '' '' \<notin> set (itoa n)"
  using itoa_clean[of "CHR '' ''" n] by (auto simp: is_space_def)

lemma fields_bounds:
  "Go_Base.fields (map (\<lambda>c. if is_bracket c then CHR '' '' else c) (bounds_text x1 y1 x2 y2))
    = [itoa x1, itoa y1, itoa x2, itoa y2]"
proof -
  have "map (\<lambda>c. if is_space c then CHR '' '' else c)
      (map (\<lambda>c. if is_bracket c then CHR '' '' else c) (bounds_text x1 y1 x2 y2))
    = CHR '' '' # itoa x1 @ CHR '' '' # itoa y1 @ CHR '' '' # CHR '' '' # itoa x2 @ CHR '' '' # itoa y2 @ [CHR '' '']"
    by (simp add: bounds_text_def map_itoa del: map_map) (simp add: is_bracket_def is_space_def)
  then show ?thesis
    unfolding Go_Base.fields_def by (simp add: split_char_append blank_not_in_itoa del: map_map)
qed

text \<open>The tap target of an accessibility node is the middle of the rectangle that its bounds
  text names, for coordinates whose sums fit in 64 bits.\<close>

theorem centerOfBounds_middle:
  assumes "x1 \<in> {- (2 ^ 62)..<2 ^ 62}" "y1 \<in> {- (2 ^ 62)..<2 ^ 62}"
    and "x2 \<in> {- (2 ^ 62)..<2 ^ 62}" "y2 \<in> {- (2 ^ 62)..<2 ^ 62}"
  shows "centerOfBounds (bounds_text x1 y1 x2 y2)
    = Some \<lparr>pt_X = (x1 + x2) sdiv 2, pt_Y = (y1 + y2) sdiv 2\<rparr>"
proof -
  have "map atoi [itoa x1, itoa y1, itoa x2, itoa y2] = [Some x1, Some y1, Some x2, Some y2]"
    using assms by (simp add: atoi_itoa)
  moreover have "wrap64 (x1 + x2) = x1 + x2" "wrap64 (y1 + y2) = y1 + y2"
    using assms by (auto intro!: wrap64_id)
  ultimately show ?thesis
    by (simp only: centerOfBounds_def Let_def fields_bounds list.case option.case)
qed

lemma centerOfBounds_middle_witness:
  "centerOfBounds (bounds_text 0 100 1080 301) = Some \<lparr>pt_X = (0 + 1080) sdiv 2, pt_Y = (100 + 301) sdiv 2\<rparr>"
  by (rule centerOfBounds_middle) simp_all

section \<open>Text typed on a device\<close>

text \<open>
  The escapes are not injective: a text that holds the blank escape types a blank.  The
  dollar sign, the back quote and the backslash pass through to the shell of the device.
\<close>

lemma escapeInputText_not_injective: "escapeInputText ''%s'' = escapeInputText '' ''"
  by code_simp

lemma escapeInputText_shell_expansion: "escapeInputText ''$HOME'' = ''$HOME''"
  by code_simp

end
