(* ===== verification/Exchange.thy ===== *)
theory Exchange
  imports Store_Instances
begin

text \<open>
  Files of test cases and of results: the importer backend/internal/qmetry/import.go, the exporter
  backend/internal/export/export.go and the handlers' helpers of api/exports.go.  Both work on rows of cells;
  the encodings of CSV, XLSX and XML are parameters (readers), as is the order in which a Go map is
  traversed.  Durations are kept in nanoseconds.
\<close>

section \<open>Reading rows\<close>

definition headerAliases :: "(string \<times> string list) list" where
  "headerAliases =
    [(''summary'', [''summary'', ''title'', ''name'', ''testcasesummary'', ''testcasename'', ''testcase'']),
     (''description'', [''description'', ''objective'']),
     (''precondition'', [''precondition'', ''preconditions'']),
     (''priority'', [''priority'']),
     (''status'', [''status'']),
     (''components'', [''components'', ''component'']),
     (''labels'', [''labels'', ''label'', ''tags'', ''tag'']),
     (''folder'', [''folder'', ''folderpath'', ''path'']),
     (''externalkey'', [''key'', ''testcasekey'', ''testcaseid'', ''issuekey'', ''id'']),
     (''stepsummary'', [''stepsummary'', ''step'', ''teststep'', ''action'', ''stepaction'', ''stepdescription'',
        ''teststepdescription'']),
     (''testdata'', [''testdata'', ''data'', ''inputdata'', ''stepdata'', ''input'']),
     (''expected'', [''expectedresult'', ''expected'', ''expectedresults'', ''expectedoutcome''])]"

definition normalizeHeader :: "string \<Rightarrow> string" where
  "normalizeHeader h = filter (\<lambda>c. is_lower_char c \<or> is_digit c) (to_lower h)"

definition aliases_of :: "string \<Rightarrow> string list" where
  "aliases_of k = (case map_of headerAliases k of None \<Rightarrow> [] | Some as \<Rightarrow> as)"

text \<open>The field that a header stands for, in the order in which the map is traversed this time.\<close>

definition match_field :: "string list \<Rightarrow> (string \<rightharpoonup> nat) \<Rightarrow> string \<Rightarrow> string option" where
  "match_field order cols norm = find (\<lambda>k. cols k = None \<and> norm \<in> set (aliases_of k)) order"

fun map_columns ::
  "(nat \<Rightarrow> string list) \<Rightarrow> nat \<Rightarrow> string list \<Rightarrow> (string \<rightharpoonup> nat) \<times> string list \<Rightarrow> (string \<rightharpoonup> nat) \<times> string list" where
  "map_columns orders i [] acc = acc"
| "map_columns orders i (h # hs) (cols, unmatched) =
    (if normalizeHeader h = [] then map_columns orders (Suc i) hs (cols, unmatched)
     else case match_field (orders i) cols (normalizeHeader h) of
            Some k \<Rightarrow> map_columns orders (Suc i) hs (cols(k \<mapsto> i), unmatched)
          | None \<Rightarrow> map_columns orders (Suc i) hs (cols, unmatched @ [trim_space h]))"

definition mapHeaders :: "(nat \<Rightarrow> string list) \<Rightarrow> string list \<Rightarrow> (string \<rightharpoonup> nat) \<times> string list" where
  "mapHeaders orders header = map_columns orders 0 header (Map.empty, [])"

definition splitList :: "string \<Rightarrow> string list" where
  "splitList s =
    filter (\<lambda>t. t \<noteq> []) (map trim_space (split_char (CHR '','') (map (\<lambda>c. if c = CHR '';'' then CHR '','' else c) s)))"

definition normalizeFolder :: "string \<Rightarrow> string" where
  "normalizeFolder s =
    trim_by (\<lambda>c. c = CHR ''/'')
      (trim_space (map (\<lambda>c. if c = char_of (92 :: nat) then CHR ''/'' else c) (takeWhile (\<lambda>c. c \<noteq> CHR '','') s)))"

definition isBlankRow :: "string list \<Rightarrow> bool" where
  "isBlankRow row = list_all (\<lambda>c. trim_space c = []) row"

definition cell :: "(string \<rightharpoonup> nat) \<Rightarrow> string list \<Rightarrow> string \<Rightarrow> string" where
  "cell cols row field =
    (case cols field of None \<Rightarrow> [] | Some i \<Rightarrow> if i < length row then trim_space (row ! i) else [])"

record parse_result =
  pr_Cases :: "TestCase list"
  pr_CasesParsed :: nat
  pr_StepsParsed :: nat
  pr_RowsSkipped :: nat
  pr_Warnings :: "string list"

record parse_state =
  ps_cur :: "TestCase option"
  ps_cases :: "TestCase list"
  ps_steps :: nat
  ps_skipped :: nat

definition case_of_row :: "(string \<rightharpoonup> nat) \<Rightarrow> string list \<Rightarrow> TestCase" where
  "case_of_row cols row =
    zero_TestCase\<lparr>case_Summary := cell cols row ''summary'', case_Description := cell cols row ''description'',
      case_Precondition := cell cols row ''precondition'', case_Priority := cell cols row ''priority'',
      case_Status := cell cols row ''status'', case_Labels := splitList (cell cols row ''labels''),
      case_Components := splitList (cell cols row ''components''),
      case_FolderPath := normalizeFolder (cell cols row ''folder''),
      case_ExternalKey := cell cols row ''externalkey''\<rparr>"

definition flush :: "parse_state \<Rightarrow> parse_state" where
  "flush p =
    (case ps_cur p of
       None \<Rightarrow> p
     | Some c \<Rightarrow> p\<lparr>ps_cases := ps_cases p @ [c\<lparr>case_Steps := reindexSteps (case_Steps c)\<rparr>], ps_cur := None\<rparr>)"

definition step_of_row :: "(string \<rightharpoonup> nat) \<Rightarrow> string list \<Rightarrow> TestStep" where
  "step_of_row cols row =
    zero_TestStep\<lparr>ts_Action := cell cols row ''stepsummary'', ts_TestData := cell cols row ''testdata'',
      ts_Expected := cell cols row ''expected''\<rparr>"

definition has_text :: "TestStep \<Rightarrow> bool" where
  "has_text st = (ts_Action st \<noteq> [] \<or> ts_TestData st \<noteq> [] \<or> ts_Expected st \<noteq> [])"

definition open_case :: "(string \<rightharpoonup> nat) \<Rightarrow> string list \<Rightarrow> parse_state \<Rightarrow> parse_state" where
  "open_case cols row p =
    (if cell cols row ''summary'' = [] then p else (flush p)\<lparr>ps_cur := Some (case_of_row cols row)\<rparr>)"

definition add_step :: "TestStep \<Rightarrow> bool \<Rightarrow> parse_state \<Rightarrow> parse_state" where
  "add_step st opened p =
    (if has_text st then
       (case ps_cur p of
          None \<Rightarrow> p\<lparr>ps_skipped := ps_skipped p + 1\<rparr>
        | Some c \<Rightarrow> p\<lparr>ps_cur := Some (c\<lparr>case_Steps := case_Steps c @ [st]\<rparr>), ps_steps := ps_steps p + 1\<rparr>)
     else if opened then p else p\<lparr>ps_skipped := ps_skipped p + 1\<rparr>)"

definition parse_row :: "(string \<rightharpoonup> nat) \<Rightarrow> parse_state \<Rightarrow> string list \<Rightarrow> parse_state" where
  "parse_row cols p row =
    (if isBlankRow row then p
     else add_step (step_of_row cols row) (cell cols row ''summary'' \<noteq> []) (open_case cols row p))"

definition empty_state :: parse_state where
  "empty_state = \<lparr>ps_cur = None, ps_cases = [], ps_steps = 0, ps_skipped = 0\<rparr>"

definition warn_only :: "string list \<Rightarrow> parse_result" where
  "warn_only ws = \<lparr>pr_Cases = [], pr_CasesParsed = 0, pr_StepsParsed = 0, pr_RowsSkipped = 0, pr_Warnings = ws\<rparr>"

definition parse_body :: "(string \<rightharpoonup> nat) \<Rightarrow> string list list \<Rightarrow> string list \<Rightarrow> parse_result" where
  "parse_body cols body warnings =
    (let p = flush (foldl (parse_row cols) empty_state body)
     in \<lparr>pr_Cases = ps_cases p, pr_CasesParsed = length (ps_cases p), pr_StepsParsed = ps_steps p,
         pr_RowsSkipped = ps_skipped p, pr_Warnings = warnings\<rparr>)"

definition parseRows :: "(nat \<Rightarrow> string list) \<Rightarrow> string list list \<Rightarrow> parse_result" where
  "parseRows orders rows =
    (case rows of
       [] \<Rightarrow> warn_only [''file is empty'']
     | header # body \<Rightarrow>
         (case mapHeaders orders header of (cols, unmatched) \<Rightarrow>
            let warnings = map (\<lambda>u. ''unmapped column: '' @ u) unmatched in
            if cols ''summary'' = None
            then warn_only (warnings @ [''no Summary/Title column found '' @ em_dash @ '' cannot import''])
            else parse_body cols body warnings))"

text \<open>The readers of the two formats: a CSV file, and the sheets of a workbook with the rows of each.\<close>

record readers =
  rd_csv :: "string \<Rightarrow> string list list res"
  rd_open :: "string \<Rightarrow> string list res"
  rd_sheet :: "string \<Rightarrow> string \<Rightarrow> string list list res"
  rd_orders :: "nat \<Rightarrow> string list"

definition parseCSV :: "readers \<Rightarrow> string \<Rightarrow> parse_result res" where
  "parseCSV rd data =
    (case rd_csv rd data of
       Inl err \<Rightarrow> Inl (ErrWrap ''parse csv: '' err) | Inr rows \<Rightarrow> Inr (parseRows (rd_orders rd) rows))"

definition parseXLSX :: "readers \<Rightarrow> string \<Rightarrow> parse_result res" where
  "parseXLSX rd data =
    (case rd_open rd data of
       Inl err \<Rightarrow> Inl (ErrWrap ''open xlsx: '' err)
     | Inr [] \<Rightarrow> Inr (warn_only [''workbook has no sheets''])
     | Inr (sheet # _) \<Rightarrow>
         (case rd_sheet rd data sheet of
            Inl err \<Rightarrow> Inl (ErrWrap (''read sheet '' @ go_quote sheet @ '': '') err)
          | Inr rows \<Rightarrow> Inr (parseRows (rd_orders rd) rows)))"

definition ParseFile :: "readers \<Rightarrow> string \<Rightarrow> string \<Rightarrow> parse_result res" where
  "ParseFile rd filename data =
    (let lower = to_lower filename
     in if has_suffix ''.xlsx'' lower \<or> has_suffix ''.xlsm'' lower then parseXLSX rd data else parseCSV rd data)"

section \<open>Writing rows\<close>

definition caseHeader :: "string list" where
  "caseHeader =
    [''Summary'', ''Description'', ''Precondition'', ''Priority'', ''Status'', ''Labels'', ''Components'', ''Folder'',
     ''Key'', ''Step Summary'', ''Test Data'', ''Expected Result'']"

definition case_cols :: "TestCase \<Rightarrow> string list" where
  "case_cols c =
    [case_Summary c, case_Description c, case_Precondition c, case_Priority c, case_Status c,
     join '', '' (case_Labels c), join '', '' (case_Components c), case_FolderPath c, case_ExternalKey c]"

definition step_cols :: "TestStep \<Rightarrow> string list" where
  "step_cols st = [ts_Action st, ts_TestData st, ts_Expected st]"

definition rows_of_case :: "TestCase \<Rightarrow> string list list" where
  "rows_of_case c =
    (case case_Steps c of
       [] \<Rightarrow> [case_cols c @ [[], [], []]]
     | st # sts \<Rightarrow>
         (case_cols c @ step_cols st) # map (\<lambda>st. replicate (length (case_cols c)) [] @ step_cols st) sts)"

definition caseRows :: "TestCase list \<Rightarrow> string list list" where
  "caseRows cs = caseHeader # concat (map rows_of_case cs)"

definition caseName :: "(string \<Rightarrow> string) \<Rightarrow> TestRun \<Rightarrow> string" where
  "caseName name r =
    (if name (run_CaseID r) \<noteq> [] then name (run_CaseID r)
     else if run_TestName r \<noteq> [] then run_TestName r
     else if run_CaseID r \<noteq> [] then run_CaseID r else run_ID r)"

definition caseVerdict :: "TestRun \<Rightarrow> string" where
  "caseVerdict r =
    (if run_Passed r then ''pass''
     else if list_ex (\<lambda>st. step_Status st = StepFail) (run_Steps r) then ''fail'' else ''skip'')"

definition verdictLabel :: "string \<Rightarrow> string" where
  "verdictLabel v = (if v = ''pass'' then ''Passed'' else if v = ''fail'' then ''Failed'' else ''Blocked'')"

definition stepStatus :: "StepResult \<Rightarrow> string" where
  "stepStatus st =
    (if step_Status st \<noteq> [] then step_Status st else if step_Pass st then StepPass else StepFail)"

definition resultHeader :: "string list" where
  "resultHeader = [''Case'', ''Case Result'', ''Step #'', ''Step'', ''Step Result'', ''Duration (ms)'', ''Note'']"

definition result_row :: "string \<Rightarrow> string \<Rightarrow> nat \<times> StepResult \<Rightarrow> string list" where
  "result_row cn cv p =
    (case p of (i, st) \<Rightarrow>
       [cn, cv, nat_text (i + 1), step_Text st, stepStatus st, itoa (step_DurationMs st), step_Detail st])"

definition rows_of_run :: "(string \<Rightarrow> string) \<Rightarrow> TestRun \<Rightarrow> string list list" where
  "rows_of_run name r =
    (let cn = caseName name r; cv = verdictLabel (caseVerdict r)
     in if run_Steps r = [] then [[cn, cv, [], [], [], [], run_Error r]]
        else map (result_row cn cv) (enumerate 0 (run_Steps r)))"

definition resultRows :: "(string \<Rightarrow> string) \<Rightarrow> TestRun list \<Rightarrow> string list list" where
  "resultRows name runs = resultHeader # concat (map (rows_of_run name) runs)"

section \<open>The report for CI\<close>

record junitCase =
  jc_Name :: string
  jc_Classname :: string
  jc_Time :: int
  jc_Failure :: "(string \<times> string) option"
  jc_Skipped :: "string option"
  jc_SystemOut :: string

record junitSuite =
  js_Name :: string
  js_Tests :: nat
  js_Failures :: nat
  js_Skipped :: nat
  js_Time :: int
  js_Cases :: "junitCase list"

definition runSeconds :: "TestRun \<Rightarrow> int" where
  "runSeconds r = (case run_FinishedAt r of None \<Rightarrow> 0 | Some f \<Rightarrow> max 0 (f - run_StartedAt r))"

definition log_line :: "nat \<times> StepResult \<Rightarrow> string" where
  "log_line p =
    (case p of (i, st) \<Rightarrow>
       nat_text (i + 1) @ ''. '' @ step_Text st @ '' ['' @ stepStatus st @ '']''
       @ (if step_Detail st = [] then [] else '' '' @ em_dash @ '' '' @ step_Detail st))"

definition stepLog :: "TestRun \<Rightarrow> string" where
  "stepLog r =
    rev (dropWhile (\<lambda>c. c = CHR 0x0A)
      (rev (concat (map (\<lambda>p. log_line p @ [CHR 0x0A]) (enumerate 0 (run_Steps r))))))"

definition junit_case :: "string \<Rightarrow> (string \<Rightarrow> string) \<Rightarrow> TestRun \<Rightarrow> junitCase" where
  "junit_case suiteName name r =
    (let v = caseVerdict r
     in \<lparr>jc_Name = caseName name r, jc_Classname = suiteName, jc_Time = runSeconds r,
         jc_Failure = (if v = ''fail'' then Some (if run_Error r = [] then ''case failed'' else run_Error r, stepLog r) else None),
         jc_Skipped = (if v = ''skip'' then Some (run_Error r) else None),
         jc_SystemOut = (if v = ''fail'' then [] else stepLog r)\<rparr>)"

definition JUnit :: "CycleRun \<Rightarrow> TestRun list \<Rightarrow> (string \<Rightarrow> string) \<Rightarrow> junitSuite" where
  "JUnit run runs name =
    (let suiteName = (if crun_CycleName run = [] then ''cycle '' @ crun_CycleID run else crun_CycleName run)
     in \<lparr>js_Name = suiteName, js_Tests = length runs,
         js_Failures = length (filter (\<lambda>r. caseVerdict r = ''fail'') runs),
         js_Skipped = length (filter (\<lambda>r. caseVerdict r = ''skip'') runs),
         js_Time = sum_list (map runSeconds runs), js_Cases = map (junit_case suiteName name) runs\<rparr>)"

section \<open>The order of the map of aliases does not matter\<close>

definition field_names :: "string list" where
  "field_names = map fst headerAliases"

definition field_of :: "string \<Rightarrow> string option" where
  "field_of norm = find (\<lambda>k. norm \<in> set (aliases_of k)) field_names"

lemma alias_unique_in:
  "distinct (concat (map snd al)) \<Longrightarrow> (k, as) \<in> set al \<Longrightarrow> (j, bs) \<in> set al \<Longrightarrow> a \<in> set as \<Longrightarrow> a \<in> set bs \<Longrightarrow> k = j"
  by (induction al) fastforce+

lemma aliases_distinct: "distinct (concat (map snd headerAliases))" "distinct (map fst headerAliases)"
  by code_simp+

lemma alias_unique:
  assumes "k \<in> set field_names" "j \<in> set field_names" "norm \<in> set (aliases_of k)" "norm \<in> set (aliases_of j)"
  shows "k = j"
proof -
  have "\<exists>as. (k, as) \<in> set headerAliases \<and> norm \<in> set as" if n: "norm \<in> set (aliases_of k)" for k
  proof (cases "map_of headerAliases k")
    case None
    then show ?thesis using n by (simp add: aliases_of_def)
  next
    case (Some as)
    then show ?thesis using n map_of_SomeD[OF Some] by (intro exI[of _ as]) (simp add: aliases_of_def)
  qed
  from this[OF assms(3)] this[OF assms(4)] obtain as bs
    where "(k, as) \<in> set headerAliases" "norm \<in> set as" "(j, bs) \<in> set headerAliases" "norm \<in> set bs" by blast
  then show ?thesis by (intro alias_unique_in[OF aliases_distinct(1), of k as j bs norm])
qed

lemma find_unique:
  assumes "x \<in> set xs" "P x" "\<And>y. y \<in> set xs \<Longrightarrow> P y \<Longrightarrow> y = x"
  shows "find P xs = Some x"
proof (cases "find P xs")
  case None
  then show ?thesis using assms(1,2) by (auto simp: find_None_iff)
next
  case (Some y)
  then have "y \<in> set xs" "P y" by (auto simp: find_Some_iff)
  then show ?thesis using assms(3) Some by simp
qed

lemma match_field_of:
  assumes "set order = set field_names"
  shows "match_field order cols norm
    = (case field_of norm of None \<Rightarrow> None | Some k \<Rightarrow> if cols k = None then Some k else None)"
proof (cases "field_of norm")
  case None
  then have "find (\<lambda>k. cols k = None \<and> norm \<in> set (aliases_of k)) order = None"
    using assms by (auto simp: field_of_def find_None_iff)
  then show ?thesis using None by (simp add: match_field_def)
next
  case (Some k)
  then have k: "k \<in> set field_names" "norm \<in> set (aliases_of k)" by (auto simp: field_of_def find_Some_iff)
  show ?thesis
  proof (cases "cols k = None")
    case True
    then have "find (\<lambda>k. cols k = None \<and> norm \<in> set (aliases_of k)) order = Some k"
      using k assms by (intro find_unique) (auto intro: alias_unique)
    then show ?thesis using True Some by (simp add: match_field_def)
  next
    case False
    then have "find (\<lambda>k. cols k = None \<and> norm \<in> set (aliases_of k)) order = None"
      using k assms by (auto simp: find_None_iff dest: alias_unique)
    then show ?thesis using False Some by (simp add: match_field_def)
  qed
qed

definition any_order :: "(nat \<Rightarrow> string list) \<Rightarrow> bool" where
  "any_order orders = (\<forall>i. set (orders i) = set field_names)"

lemma map_columns_any_order:
  "any_order orders \<Longrightarrow> map_columns orders i hs acc = map_columns (\<lambda>_. field_names) i hs acc"
proof (induction orders i hs acc rule: map_columns.induct)
  case (2 orders i h hs cols unmatched)
  have m: "match_field (orders i) cols n = match_field field_names cols n" for n
    using 2(4) by (simp add: match_field_of any_order_def)
  show ?case using 2 by (simp add: m split: option.split)
qed simp

lemma mapHeaders_any_order: "any_order orders \<Longrightarrow> mapHeaders orders h = mapHeaders (\<lambda>_. field_names) h"
  by (simp add: mapHeaders_def map_columns_any_order)

section \<open>The exported cases are imported again\<close>

definition plain :: "string \<Rightarrow> bool" where
  "plain s = (trim_space s = s)"

definition plain_label :: "string \<Rightarrow> bool" where
  "plain_label s = (s \<noteq> [] \<and> plain s \<and> CHR '','' \<notin> set s \<and> CHR '';'' \<notin> set s)"

definition plain_folder :: "string \<Rightarrow> bool" where
  "plain_folder s = (plain s \<and> trim_by (\<lambda>c. c = CHR ''/'') s = s \<and> CHR '','' \<notin> set s \<and> char_of (92 :: nat) \<notin> set s)"

definition plain_step :: "TestStep \<Rightarrow> bool" where
  "plain_step st = (plain (ts_Action st) \<and> plain (ts_TestData st) \<and> plain (ts_Expected st) \<and> has_text st)"

definition plain_case :: "TestCase \<Rightarrow> bool" where
  "plain_case c =
    (case_Summary c \<noteq> [] \<and> list_all plain [case_Summary c, case_Description c, case_Precondition c, case_Priority c,
        case_Status c, case_ExternalKey c]
     \<and> list_all plain_label (case_Labels c) \<and> list_all plain_label (case_Components c)
     \<and> plain_folder (case_FolderPath c) \<and> list_all plain_step (case_Steps c))"

text \<open>What an import can keep of a case: everything but its identifier and its dates, the steps numbered.\<close>

definition imported :: "TestCase \<Rightarrow> TestCase" where
  "imported c =
    zero_TestCase\<lparr>case_Summary := case_Summary c, case_Description := case_Description c,
      case_Precondition := case_Precondition c, case_Priority := case_Priority c, case_Status := case_Status c,
      case_Labels := case_Labels c, case_Components := case_Components c, case_FolderPath := case_FolderPath c,
      case_Steps := reindexSteps (case_Steps c), case_ExternalKey := case_ExternalKey c\<rparr>"

lemma trim_space_Cons_space: "trim_space (CHR '' '' # s) = trim_space s"
  by (simp add: trim_space_def trim_by_def is_space_def)

lemma split_space: "map trim_space (split_char (CHR '','') (CHR '' '' # s)) = map trim_space (split_char (CHR '','') s)"
  by (cases "split_char (CHR '','') s") (simp_all add: trim_space_Cons_space)

lemma no_semicolon: "CHR '';'' \<notin> set s \<Longrightarrow> map (\<lambda>c. if c = CHR '';'' then CHR '','' else c) s = s"
  by (induction s) auto

lemma join_labels_semicolon:
  "list_all plain_label ls \<Longrightarrow> CHR '';'' \<notin> set (join '', '' ls)"
  by (induction "'', ''" ls rule: join.induct) (auto simp: plain_label_def)

lemma split_join_labels:
  "list_all plain_label ls \<Longrightarrow> ls \<noteq> [] \<Longrightarrow> map trim_space (split_char (CHR '','') (join '', '' ls)) = ls"
proof (induction "'', ''" ls rule: join.induct)
  case (2 w)
  then show ?case by (simp add: plain_label_def plain_def split_char_id)
next
  case (3 w v ws)
  have "split_char (CHR '','') (w @ CHR '','' # (CHR '' '' # join '', '' (v # ws)))
      = split_char (CHR '','') w @ split_char (CHR '','') (CHR '' '' # join '', '' (v # ws))"
    by (rule split_char_append_sep)
  moreover have "split_char (CHR '','') w = [w]" "trim_space w = w"
    using 3(2) by (simp_all add: plain_label_def plain_def split_char_id)
  ultimately show ?case using 3 split_space by simp
qed simp

lemma trim_space_plain:
  assumes "s \<noteq> []" "\<not> is_space (hd s)" "\<not> is_space (last s)"
  shows "trim_space s = s"
proof -
  have "dropWhile is_space s = s" using assms(1,2) by (cases s) simp_all
  moreover have "dropWhile is_space (rev s) = rev s" using assms(1,3) by (cases s rule: rev_cases) simp_all
  ultimately show ?thesis by (simp add: trim_space_def trim_by_def)
qed

lemma plain_ends: "plain s \<Longrightarrow> s \<noteq> [] \<Longrightarrow> \<not> is_space (hd s) \<and> \<not> is_space (last s)"
proof -
  assume p: "plain s" "s \<noteq> []"
  have l: "length (trim_space s) \<le> length (dropWhile is_space s)"
    unfolding trim_space_def trim_by_def using length_dropWhile_le[of is_space "rev (dropWhile is_space s)"] by simp
  have h: "\<not> is_space (hd s)"
  proof
    assume "is_space (hd s)"
    then have "length (dropWhile is_space s) < length s"
      using p(2) length_dropWhile_le[of is_space "tl s"] by (cases s) (simp_all add: le_imp_less_Suc)
    then show False using l p(1) by (simp add: plain_def)
  qed
  then have "dropWhile is_space s = s" using p(2) by (cases s) simp_all
  then have "rev (dropWhile is_space (rev s)) = s" using p(1) by (simp add: plain_def trim_space_def trim_by_def)
  then have "dropWhile is_space (rev s) = rev s" by (metis rev_rev_ident)
  then have "\<not> is_space (last s)"
    using p(2) hd_dropWhile[of is_space "rev s"] by (simp add: hd_rev)
  with h show ?thesis by simp
qed

lemma join_ends:
  "list_all plain_label ls \<Longrightarrow> ls \<noteq> [] \<Longrightarrow>
    join '', '' ls \<noteq> [] \<and> \<not> is_space (hd (join '', '' ls)) \<and> \<not> is_space (last (join '', '' ls))"
  by (induction "'', ''" ls rule: join.induct) (auto simp: plain_label_def dest: plain_ends)

lemma splitList_join: "list_all plain_label ls \<Longrightarrow> splitList (trim_space (join '', '' ls)) = ls"
proof (cases "ls = []")
  case False
  assume l: "list_all plain_label ls"
  then have "trim_space (join '', '' ls) = join '', '' ls"
    using join_ends[OF l False] by (intro trim_space_plain) auto
  moreover have "filter (\<lambda>t. t \<noteq> []) ls = ls" using l by (auto simp: filter_id_conv list_all_iff plain_label_def)
  ultimately show ?thesis
    using split_join_labels[OF l False] no_semicolon[OF join_labels_semicolon[OF l]] by (simp add: splitList_def)
qed (simp add: splitList_def)

lemma normalizeFolder_plain: "plain_folder s \<Longrightarrow> normalizeFolder (trim_space s) = s"
proof -
  assume p: "plain_folder s"
  have t: "takeWhile (\<lambda>c. c \<noteq> CHR '','') s = s" using p by (auto simp: plain_folder_def takeWhile_eq_all_conv)
  have m: "map (\<lambda>c. if c = char_of (92 :: nat) then CHR ''/'' else c) s = s"
    using p by (intro map_idI) (auto simp: plain_folder_def)
  have s: "trim_space s = s" "trim_by (\<lambda>c. c = CHR ''/'') s = s" using p by (simp_all add: plain_folder_def plain_def)
  show ?thesis unfolding normalizeFolder_def s(1) t m by (rule s(2))
qed

definition header_cols :: "string \<rightharpoonup> nat" where
  "header_cols = fst (mapHeaders (\<lambda>_. field_names) caseHeader)"

lemma header_columns:
  "header_cols ''summary'' = Some 0" "header_cols ''description'' = Some 1" "header_cols ''precondition'' = Some 2"
  "header_cols ''priority'' = Some 3" "header_cols ''status'' = Some 4" "header_cols ''labels'' = Some 5"
  "header_cols ''components'' = Some 6" "header_cols ''folder'' = Some 7" "header_cols ''externalkey'' = Some 8"
  "header_cols ''stepsummary'' = Some 9" "header_cols ''testdata'' = Some 10" "header_cols ''expected'' = Some 11"
  "snd (mapHeaders (\<lambda>_. field_names) caseHeader) = []"
  by code_simp+

definition bare :: "TestCase \<Rightarrow> TestCase" where
  "bare c = (imported c)\<lparr>case_Steps := []\<rparr>"

definition clear_index :: "TestStep \<Rightarrow> TestStep" where
  "clear_index st = st\<lparr>ts_Index := 0\<rparr>"

lemmas header_cell = cell_def header_columns(1-12) nth_Cons' 

lemma case_of_exported:
  assumes "plain_case c"
  shows "case_of_row header_cols (case_cols c @ xs) = bare c"
    "cell header_cols (case_cols c @ xs) ''summary'' = case_Summary c"
  using assms unfolding case_of_row_def
  by (simp_all add: header_cell case_cols_def splitList_join normalizeFolder_plain plain_case_def bare_def imported_def
      plain_def zero_TestCase_def)

lemma step_of_exported:
  assumes "plain_step st" "length xs = 9"
  shows "step_of_row header_cols (xs @ step_cols st) = clear_index st"
  using assms
  by (simp add: step_of_row_def cell_def header_columns nth_append step_cols_def plain_step_def plain_def
      zero_TestStep_def clear_index_def)

lemma has_text_clear [simp]: "has_text (clear_index st) = has_text st"
  by (simp add: has_text_def clear_index_def)

lemma plain_not_blank: "plain s \<Longrightarrow> s \<noteq> [] \<Longrightarrow> trim_space s \<noteq> []"
  by (simp add: plain_def)

lemma parse_first_row:
  assumes "plain_case c" "plain_step st"
  shows "parse_row header_cols p (case_cols c @ step_cols st)
    = (flush p)\<lparr>ps_cur := Some ((bare c)\<lparr>case_Steps := [clear_index st]\<rparr>), ps_steps := ps_steps p + 1\<rparr>"
proof -
  have "\<not> isBlankRow (case_cols c @ step_cols st)" "has_text st" "length (case_cols c) = 9"
    using assms by (simp_all add: isBlankRow_def case_cols_def plain_case_def plain_not_blank plain_step_def)
  then show ?thesis using assms step_of_exported[OF assms(2), of "case_cols c"]
    by (simp add: parse_row_def open_case_def add_step_def case_of_exported plain_case_def[of c] bare_def flush_def
        split: option.split)
qed

lemma parse_only_row:
  assumes "plain_case c"
  shows "parse_row header_cols p (case_cols c @ [[], [], []]) = (flush p)\<lparr>ps_cur := Some (bare c)\<rparr>"
proof -
  have "\<not> isBlankRow (case_cols c @ [[], [], []])" "case_Summary c \<noteq> []"
    using assms by (simp_all add: isBlankRow_def case_cols_def plain_case_def plain_not_blank)
  moreover have "step_of_row header_cols (case_cols c @ [[], [], []]) = zero_TestStep"
    by (simp add: step_of_row_def cell_def header_columns nth_append case_cols_def zero_TestStep_def)
  ultimately show ?thesis using assms
    by (simp add: parse_row_def open_case_def add_step_def case_of_exported has_text_def zero_TestStep_def)
qed

lemma parse_step_row:
  assumes "plain_step st" "ps_cur p = Some x"
  shows "parse_row header_cols p (replicate 9 [] @ step_cols st)
    = p\<lparr>ps_cur := Some (x\<lparr>case_Steps := case_Steps x @ [clear_index st]\<rparr>), ps_steps := ps_steps p + 1\<rparr>"
proof -
  have "\<not> isBlankRow (replicate 9 [] @ step_cols st)" "has_text st"
    using assms(1) by (auto simp: isBlankRow_def step_cols_def plain_step_def has_text_def plain_not_blank)
  moreover have "cell header_cols (replicate 9 [] @ step_cols st) ''summary'' = []"
    by (simp add: cell_def header_columns nth_append)
  ultimately show ?thesis using assms step_of_exported[OF assms(1), of "replicate 9 []"]
    by (simp add: parse_row_def open_case_def add_step_def)
qed

lemma parse_step_rows:
  "list_all plain_step sts \<Longrightarrow> ps_cur p = Some x \<Longrightarrow>
    foldl (parse_row header_cols) p (map (\<lambda>st. replicate 9 [] @ step_cols st) sts)
      = p\<lparr>ps_cur := Some (x\<lparr>case_Steps := case_Steps x @ map clear_index sts\<rparr>), ps_steps := ps_steps p + length sts\<rparr>"
  by (induction sts arbitrary: p x) (simp_all add: parse_step_row)

lemma parse_case_rows:
  assumes "plain_case c"
  shows "foldl (parse_row header_cols) p (rows_of_case c)
    = (flush p)\<lparr>ps_cur := Some ((bare c)\<lparr>case_Steps := map clear_index (case_Steps c)\<rparr>),
        ps_steps := ps_steps p + length (case_Steps c)\<rparr>"
proof (cases "case_Steps c")
  case Nil
  have "ps_steps (flush p) = ps_steps p" by (simp add: flush_def split: option.split)
  then show ?thesis using Nil parse_only_row[OF assms, of p] by (simp add: rows_of_case_def bare_def)
next
  case (Cons st sts)
  then have st: "plain_step st" "list_all plain_step sts" "length (case_cols c) = 9"
    using assms by (simp_all add: plain_case_def case_cols_def)
  show ?thesis using Cons st parse_first_row[OF assms st(1), of p]
    by (simp add: rows_of_case_def parse_step_rows)
qed

lemma reindex_clear: "reindexSteps (map clear_index sts) = reindexSteps sts"
  by (simp add: reindexSteps_def clear_index_def enumerate_map_upt comp_def cong: map_cong)
    (simp add: enumerate_eq_zip map_zip_map2 comp_def)

lemma parse_all_rows:
  "list_all plain_case cs \<Longrightarrow>
    flush (foldl (parse_row header_cols) p (concat (map rows_of_case cs)))
      = (flush p)\<lparr>ps_cases := ps_cases (flush p) @ map imported cs,
          ps_steps := ps_steps p + sum_list (map (\<lambda>c. length (case_Steps c)) cs)\<rparr>"
proof (induction cs arbitrary: p)
  case Nil
  have "ps_steps (flush p) = ps_steps p" by (simp add: flush_def split: option.split)
  then show ?case by simp
next
  case (Cons c cs)
  have f: "ps_cur (flush q) = None" "ps_skipped (flush q) = ps_skipped q" for q
    by (simp_all add: flush_def split: option.split)
  show ?case using Cons
    by (simp add: parse_case_rows f flush_def[of "_\<lparr>ps_cur := Some _, ps_steps := _\<rparr>"] reindex_clear bare_def imported_def
        add.assoc)
qed

text \<open>C30: exported test cases are imported again: the rows written for cases whose texts are trimmed, whose labels
  hold no separator and whose steps are not blank are read back as the same cases, with the steps numbered from zero, whatever the
  order in which the table of header aliases is traversed, without a skipped row or a warning.\<close>

theorem cases_round_trip:
  assumes "any_order orders" "list_all plain_case cs"
  shows "parseRows orders (caseRows cs) =
    \<lparr>pr_Cases = map imported cs, pr_CasesParsed = length cs,
     pr_StepsParsed = sum_list (map (\<lambda>c. length (case_Steps c)) cs), pr_RowsSkipped = 0, pr_Warnings = []\<rparr>"
proof -
  have m: "mapHeaders orders caseHeader = (header_cols, [])"
    using header_columns(13) by (simp add: mapHeaders_any_order[OF assms(1)] header_cols_def prod_eq_iff)
  have e: "flush empty_state = empty_state" by (simp add: flush_def empty_state_def)
  have "ps_skipped (flush (foldl (parse_row header_cols) empty_state (concat (map rows_of_case cs)))) = 0"
    by (simp add: parse_all_rows[OF assms(2)] e) (simp add: empty_state_def)
  then show ?thesis using parse_all_rows[OF assms(2), of empty_state]
    by (simp add: parseRows_def caseRows_def m header_columns(1) parse_body_def Let_def e) (simp add: empty_state_def)
qed

definition sample_cases :: "TestCase list" where
  "sample_cases =
    [zero_TestCase\<lparr>case_Summary := ''Sign in'', case_Labels := [''smoke'', ''auth''], case_FolderPath := ''Web/Login'',
       case_Steps := [zero_TestStep\<lparr>ts_Action := ''Open the page''\<rparr>,
                      zero_TestStep\<lparr>ts_Action := ''Enter the name'', ts_TestData := ''root'', ts_Expected := ''Welcome''\<rparr>]\<rparr>,
     zero_TestCase\<lparr>case_Summary := ''Sign out'', case_Priority := ''High''\<rparr>]"

theorem cases_round_trip_witness:
  "pr_Cases (parseRows (\<lambda>i. if even i then field_names else rev field_names) (caseRows sample_cases))
      = map imported sample_cases
    \<and> pr_StepsParsed (parseRows (\<lambda>i. if even i then field_names else rev field_names) (caseRows sample_cases)) = 2"
proof -
  have o: "any_order (\<lambda>i. if even i then field_names else rev field_names)" by (simp add: any_order_def)
  have p: "list_all plain_case sample_cases" "sum_list (map (\<lambda>c. length (case_Steps c)) sample_cases) = 2"
    by code_simp+
  show ?thesis by (simp add: cases_round_trip[OF o p(1)] p(2))
qed

text \<open>A label with a comma, a folder with a comma and a blank step do not come back.\<close>

lemma exported_separators_are_split:
  "map (\<lambda>c. (case_Labels c, case_FolderPath c, length (case_Steps c)))
     (pr_Cases (parseRows (\<lambda>_. field_names)
       (caseRows [zero_TestCase\<lparr>case_Summary := ''a'', case_Labels := [''red, blue''], case_FolderPath := ''X,Y'',
          case_Steps := [zero_TestStep]\<rparr>])))
    = [([''red'', ''blue''], ''X'', 0)]"
  by code_simp

text \<open>The counts of the report are those of its cases.\<close>

lemma JUnit_counts:
  "js_Failures (JUnit run runs name) = length (filter (\<lambda>c. jc_Failure c \<noteq> None) (js_Cases (JUnit run runs name)))"
  "js_Skipped (JUnit run runs name) = length (filter (\<lambda>c. jc_Skipped c \<noteq> None) (js_Cases (JUnit run runs name)))"
  "js_Tests (JUnit run runs name) = length (js_Cases (JUnit run runs name))"
  "0 \<le> js_Time (JUnit run runs name)"
proof -
  have "0 \<le> runSeconds r" for r by (simp add: runSeconds_def split: option.split)
  then show "0 \<le> js_Time (JUnit run runs name)"
    by (auto simp: JUnit_def Let_def intro!: sum_list_nonneg)
qed (simp_all add: JUnit_def Let_def filter_map comp_def junit_case_def)

end
