(* ===== verification/Spec_Docs.thy ===== *)
theory Spec_Docs
  imports Domain
begin

text \<open>
  backend/internal/specdoc: the text of a requirements document (specdoc.go and pdf.go) and the test cases
  that a model proposes for it (generate.go).  The readers of zip, XML, PDF and JSON and the model are parameters, and
  so are the letters and digits outside ASCII.
\<close>

section \<open>Runes\<close>

definition byte :: "char \<Rightarrow> nat" where
  "byte c = of_char c"

definition cont :: "char \<Rightarrow> bool" where
  "cont c = (128 \<le> byte c \<and> byte c < 192)"

definition isRuneStart :: "char \<Rightarrow> bool" where
  "isRuneStart b = (\<not> cont b)"

text \<open>Which second bytes may follow a first byte of two, three and four bytes.\<close>

definition two_ok :: "nat \<Rightarrow> bool" where
  "two_ok a = (194 \<le> a \<and> a \<le> 223)"

definition three_ok :: "nat \<Rightarrow> nat \<Rightarrow> bool" where
  "three_ok a b = (224 \<le> a \<and> a \<le> 239 \<and> (a = 224 \<longrightarrow> 160 \<le> b) \<and> (a = 237 \<longrightarrow> b \<le> 159))"

definition four_ok :: "nat \<Rightarrow> nat \<Rightarrow> bool" where
  "four_ok a b = (240 \<le> a \<and> a \<le> 244 \<and> (a = 240 \<longrightarrow> 144 \<le> b) \<and> (a = 244 \<longrightarrow> b \<le> 143))"

text \<open>The width of the first rune, None for a byte that starts none (it is decoded as one replacement rune).\<close>

fun rune_width :: "string \<Rightarrow> nat option" where
  "rune_width [] = None"
| "rune_width (a # s) =
    (if byte a < 128 then Some 1
     else case s of
            [] \<Rightarrow> None
          | b # s1 \<Rightarrow>
              if \<not> cont b then None
              else if two_ok (byte a) then Some 2
              else (case s1 of
                      [] \<Rightarrow> None
                    | c # s2 \<Rightarrow>
                        if \<not> cont c then None
                        else if three_ok (byte a) (byte b) then Some 3
                        else (case s2 of
                                [] \<Rightarrow> None
                              | d # _ \<Rightarrow> if cont d \<and> four_ok (byte a) (byte b) then Some 4 else None)))"

fun code_point :: "nat list \<Rightarrow> nat" where
  "code_point [a] = a"
| "code_point [a, b] = (a - 192) * 64 + (b - 128)"
| "code_point [a, b, c] = ((a - 224) * 64 + (b - 128)) * 64 + (c - 128)"
| "code_point [a, b, c, d] = (((a - 240) * 64 + (b - 128)) * 64 + (c - 128)) * 64 + (d - 128)"
| "code_point _ = 65533"

lemma rune_width_pos: "rune_width s = Some w \<Longrightarrow> 0 < w \<and> w \<le> length s"
  by (cases s) (auto split: if_splits list.splits)

function runes :: "string \<Rightarrow> nat list" where
  "runes [] = []"
| "runes (a # s) =
    (case rune_width (a # s) of
       None \<Rightarrow> 65533 # runes s
     | Some w \<Rightarrow> code_point (map byte (take w (a # s))) # runes (drop w (a # s)))"
  by pat_completeness auto
termination
  by (relation "measure length") (auto dest: rune_width_pos simp del: rune_width.simps)

function valid_utf8 :: "string \<Rightarrow> bool" where
  "valid_utf8 [] = True"
| "valid_utf8 (a # s) =
    (case rune_width (a # s) of None \<Rightarrow> False | Some w \<Rightarrow> valid_utf8 (drop w (a # s)))"
  by pat_completeness auto
termination
  by (relation "measure length") (auto dest: rune_width_pos simp del: rune_width.simps)

section \<open>Surroundings\<close>

datatype xml_token = StartTag string | EndTag string | CharData string | OtherToken

datatype pdf_page = NullPage | BadPage | PageText string | Panicking

record proposal_step =
  ps_Action :: string
  ps_TestData :: string
  ps_Expected :: string

record proposal =
  pp_Summary :: string
  pp_Description :: string
  pp_Precondition :: string
  pp_Priority :: string
  pp_Labels :: "string list"
  pp_Steps :: "proposal_step list"

text \<open>A percentage as fmt prints it is a parameter too: it is rounded in floating point.\<close>

record doc_env =
  dc_letter :: "nat \<Rightarrow> bool"
  dc_digit :: "nat \<Rightarrow> bool"
  dc_zip :: "string \<Rightarrow> (string \<times> string res) list res"
  dc_xml :: "string \<Rightarrow> xml_token list \<times> go_error option"
  dc_pdf :: "string \<Rightarrow> pdf_page list res option"
  dc_percent :: "nat \<Rightarrow> nat \<Rightarrow> string"
  dc_payload :: "string \<Rightarrow> proposal list option"
  dc_complete :: "string \<Rightarrow> string \<times> go_error option"

record doc_text =
  dt_Text :: string
  dt_Warnings :: "string list"

definition MaxTextBytes :: nat where
  "MaxTextBytes = 409600"

definition ErrNoText :: "string \<Rightarrow> go_error" where
  "ErrNoText format =
    Err (''no readable text found in this '' @ format @ ''. If it is a scan or images of pages, the text has to be ''
         @ ''recognized first '' @ em_dash @ '' paste the relevant section instead'')"

definition ErrUnsupported_doc :: "string \<Rightarrow> go_error" where
  "ErrUnsupported_doc ext =
    Err (''cannot read '' @ go_quote ext @ '' documents; supported: .md, .txt, .docx, .pdf, or pasted text'')"

definition ErrPoorText :: "string \<Rightarrow> go_error" where
  "ErrPoorText format =
    Err (''the text in this '' @ format @ '' came out garbled '' @ em_dash @ '' the words run together, which happens ''
         @ ''with some PDF generators. Copy the relevant section and paste it in instead'')"

section \<open>Normalising text\<close>

definition is_letter :: "doc_env \<Rightarrow> nat \<Rightarrow> bool" where
  "is_letter e r = (if r < 128 then 65 \<le> r \<and> r \<le> 90 \<or> 97 \<le> r \<and> r \<le> 122 else dc_letter e r)"

definition is_number :: "doc_env \<Rightarrow> nat \<Rightarrow> bool" where
  "is_number e r = (if r < 128 then 48 \<le> r \<and> r \<le> 57 else dc_digit e r)"

definition hasReadableText :: "doc_env \<Rightarrow> string \<Rightarrow> bool" where
  "hasReadableText e text = (20 \<le> length (filter (\<lambda>r. is_letter e r \<or> is_number e r) (runes text)))"

fun rune_cut :: "string \<Rightarrow> nat \<Rightarrow> nat" where
  "rune_cut s 0 = 0"
| "rune_cut s (Suc n) = (if isRuneStart (s ! Suc n) then Suc n else rune_cut s n)"

definition truncateAtRune :: "string \<Rightarrow> nat \<Rightarrow> string" where
  "truncateAtRune s limit = (if length s \<le> limit then s else take (rune_cut s limit) s)"

definition newline :: char where
  "newline = char_of (10 :: nat)"

definition carriage_return :: char where
  "carriage_return = char_of (13 :: nat)"

definition tab :: char where
  "tab = char_of (9 :: nat)"

definition trim_right :: "string \<Rightarrow> string" where
  "trim_right line = rev (dropWhile (\<lambda>c. c = CHR '' '' \<or> c = tab) (rev line))"

fun squeeze :: "nat \<Rightarrow> string list \<Rightarrow> string" where
  "squeeze blank [] = []"
| "squeeze blank (l # ls) =
    (if trim_space l = [] then
       (if 1 < blank + 1 then squeeze (blank + 1) ls
        else trim_right l @ [newline] @ squeeze (blank + 1) ls)
     else trim_right l @ [newline] @ squeeze 0 ls)"

definition collapseBlankLines :: "string \<Rightarrow> string" where
  "collapseBlankLines text = squeeze 0 (split_char newline text)"

definition normalized :: "string \<Rightarrow> string" where
  "normalized text =
    trim_space (collapseBlankLines
      (replace_all [carriage_return] [newline]
        (replace_all [carriage_return, newline] [newline] text)))"

definition truncation_warning :: string where
  "truncation_warning =
    ''the document was truncated to 400 KB '' @ em_dash
    @ '' only the first part was analyzed, so coverage of later sections is not guaranteed''"

definition finish :: "doc_env \<Rightarrow> string \<Rightarrow> string \<Rightarrow> doc_text res" where
  "finish e raw format =
    (let text = normalized raw in
     if \<not> hasReadableText e text then Inl (ErrNoText format)
     else if MaxTextBytes < length text
     then Inr \<lparr>dt_Text = truncateAtRune text MaxTextBytes, dt_Warnings = [truncation_warning]\<rparr>
     else Inr \<lparr>dt_Text = text, dt_Warnings = []\<rparr>)"

section \<open>Word documents\<close>

fun docx_step :: "bool \<times> string \<Rightarrow> xml_token \<Rightarrow> bool \<times> string" where
  "docx_step (inText, out) (StartTag t) =
    (if t = ''t'' then (True, out)
     else if t = ''tab'' then (inText, out @ [tab])
     else if t = ''br'' then (inText, out @ [newline])
     else (inText, out))"
| "docx_step (inText, out) (EndTag t) =
    (if t = ''t'' then (False, out)
     else if t = ''p'' \<or> t = ''tr'' then (inText, out @ [newline])
     else if t = ''tc'' then (inText, out @ [tab])
     else (inText, out))"
| "docx_step (inText, out) (CharData s) = (inText, if inText then out @ s else out)"
| "docx_step st OtherToken = st"

definition docx_text :: "xml_token list \<times> go_error option \<Rightarrow> string res" where
  "docx_text toks =
    (case toks of
       (ts, Some err) \<Rightarrow> Inl (ErrWrap (''the Word document'' @ [CHR 0x27] @ ''s XML is malformed: '') err)
     | (ts, None) \<Rightarrow> Inr (snd (foldl docx_step (False, []) ts)))"

definition no_document :: go_error where
  "no_document =
    Err (''the Word document has no word/document.xml '' @ em_dash
         @ '' it may be a .doc saved with the wrong extension'')"

definition extractDOCX :: "doc_env \<Rightarrow> string \<Rightarrow> string res" where
  "extractDOCX e data =
    (case dc_zip e data of
       Inl err \<Rightarrow> Inl (ErrWrap ''this does not look like a Word document: '' err)
     | Inr files \<Rightarrow>
         (case map_of files ''word/document.xml'' of
            None \<Rightarrow> Inl no_document
          | Some (Inl err) \<Rightarrow> Inl err
          | Some (Inr raw) \<Rightarrow> docx_text (dc_xml e (take 67108864 raw))))"

section \<open>PDF documents\<close>

text \<open>The pages of a PDF, up to the one behind which the limit is passed; None for a parser that panics.\<close>

fun pdf_text :: "pdf_page list \<Rightarrow> string \<Rightarrow> string option" where
  "pdf_text [] out = Some out"
| "pdf_text (p # ps) out =
    (if MaxTextBytes < length out then Some out
     else case p of
            NullPage \<Rightarrow> pdf_text ps out
          | BadPage \<Rightarrow> pdf_text ps out
          | PageText t \<Rightarrow> pdf_text ps (out @ t @ [newline])
          | Panicking \<Rightarrow> None)"

definition pdf_panic :: go_error where
  "pdf_panic = Err ''this PDF could not be read (it may be corrupt or use an unsupported feature)''"

definition extractPDF :: "doc_env \<Rightarrow> string \<Rightarrow> string res" where
  "extractPDF e data =
    (case dc_pdf e data of
       None \<Rightarrow> Inl pdf_panic
     | Some (Inl err) \<Rightarrow> Inl (ErrWrap ''could not read this PDF: '' err)
     | Some (Inr pages) \<Rightarrow> (case pdf_text pages [] of None \<Rightarrow> Inl pdf_panic | Some t \<Rightarrow> Inr t))"

definition mostlyLetters :: "doc_env \<Rightarrow> nat list \<Rightarrow> bool" where
  "mostlyLetters e rs = (length rs < length (filter (is_letter e) rs) * 2)"

text \<open>The share of the runes in long tokens, as the fraction of two numbers.\<close>

definition long_token :: "doc_env \<Rightarrow> nat list \<Rightarrow> bool" where
  "long_token e rs = (25 < length rs \<and> mostlyLetters e rs)"

definition longTokenShare :: "doc_env \<Rightarrow> string \<Rightarrow> nat \<times> nat" where
  "longTokenShare e text =
    (let toks = map runes (Go_Base.fields text)
     in (sum_list (map length (filter (long_token e) toks)), sum_list (map length toks)))"

text \<open>A quotient a / b of the numbers that occur is at least 0.40 (0.15) exactly when 2 b (3 b) is at most 5 a (20 a).\<close>

definition checkWordSpacing :: "doc_env \<Rightarrow> string \<Rightarrow> string \<Rightarrow> string option res" where
  "checkWordSpacing e text format =
    (let (lg, n) = longTokenShare e text in
     if n = 0 then Inr None
     else if 2 * n \<le> 5 * lg then Inl (ErrPoorText format)
     else if 3 * n \<le> 20 * lg
     then Inr (Some (''some words in this '' @ format @ '' ran together during extraction ('' @ dc_percent e lg n
            @ ''% of the text) '' @ em_dash @ '' check the drafted cases against the original closely''))
     else Inr None)"

section \<open>Extracting by extension\<close>

definition flag_spacing :: "doc_env \<Rightarrow> doc_text \<Rightarrow> doc_text res" where
  "flag_spacing e r =
    (case checkWordSpacing e (dt_Text r) ''PDF'' of
       Inl err \<Rightarrow> Inl err
     | Inr None \<Rightarrow> Inr r
     | Inr (Some w) \<Rightarrow> Inr (r\<lparr>dt_Warnings := dt_Warnings r @ [w]\<rparr>))"

definition Extract :: "doc_env \<Rightarrow> string \<Rightarrow> string \<Rightarrow> doc_text res" where
  "Extract e filename data =
    (let ext = to_lower (file_ext (trim_space filename)) in
     if ext \<in> {[], ''.txt'', ''.md'', ''.markdown'', ''.text''} then finish e data ''document''
     else if ext = ''.docx'' then
       (case extractDOCX e data of Inl err \<Rightarrow> Inl err | Inr t \<Rightarrow> finish e t ''Word document'')
     else if ext = ''.pdf'' then
       (case extractPDF e data of
          Inl err \<Rightarrow> Inl err
        | Inr t \<Rightarrow> (case finish e t ''PDF'' of Inl err \<Rightarrow> Inl err | Inr r \<Rightarrow> flag_spacing e r))
     else Inl (ErrUnsupported_doc (file_ext filename)))"

section \<open>Proposed cases\<close>

record draft_result =
  dr_Cases :: "TestCase list"
  dr_Warnings :: "string list"
  dr_Dropped :: nat

definition code_fence :: string where
  "code_fence = replicate 3 (CHR 0x60)"

fun last_index :: "string \<Rightarrow> string \<Rightarrow> nat option" where
  "last_index pat [] = (if pat = [] then Some 0 else None)"
| "last_index pat (c # s) =
    (case last_index pat s of
       Some i \<Rightarrow> Some (i + 1)
     | None \<Rightarrow> if has_prefix pat (c # s) then Some 0 else None)"

definition stripCodeFence :: "string \<Rightarrow> string" where
  "stripCodeFence text =
    (if \<not> has_prefix code_fence text then text
     else let t1 = (case index_of [newline] text of None \<Rightarrow> text | Some i \<Rightarrow> drop (i + 1) text);
              t2 = (case last_index code_fence t1 of None \<Rightarrow> t1 | Some i \<Rightarrow> take i t1)
          in trim_space t2)"

definition outermostJSONObject :: "string \<Rightarrow> string option" where
  "outermostJSONObject text =
    (case (index_of ''{'' text, last_index_char (CHR ''}'') text) of
       (Some i, Some j) \<Rightarrow> if j \<le> i then None else Some (take (j + 1 - i) (drop i text))
     | _ \<Rightarrow> None)"

definition decodeCasePayload :: "doc_env \<Rightarrow> string \<Rightarrow> (proposal list \<times> bool) option" where
  "decodeCasePayload e text =
    (case dc_payload e text of
       Some ps \<Rightarrow> Some (ps, False)
     | None \<Rightarrow>
         (case outermostJSONObject text of
            None \<Rightarrow> None
          | Some inner \<Rightarrow> (case dc_payload e inner of None \<Rightarrow> None | Some ps \<Rightarrow> Some (ps, True))))"

definition normalizePriority :: "string \<Rightarrow> string" where
  "normalizePriority p =
    (let q = to_lower (trim_space p) in
     if q \<in> {''high'', ''highest'', ''critical'', ''p0'', ''p1''} then ''high''
     else if q \<in> {''low'', ''lowest'', ''minor'', ''p3'', ''p4''} then ''low''
     else if q = [] then [] else ''medium'')"

definition cleanStrings :: "string list \<Rightarrow> string list" where
  "cleanStrings ss = filter (\<lambda>s. s \<noteq> []) (map trim_space ss)"

definition keep_step :: "proposal_step \<Rightarrow> bool" where
  "keep_step s = (trim_space (ps_Action s) \<noteq> [] \<or> trim_space (ps_Expected s) \<noteq> [])"

definition draft_step :: "proposal_step \<Rightarrow> TestStep" where
  "draft_step s = zero_TestStep\<lparr>ts_Action := trim_space (ps_Action s),
      ts_TestData := trim_space (ps_TestData s), ts_Expected := trim_space (ps_Expected s)\<rparr>"

definition draft_case :: "proposal \<Rightarrow> TestCase" where
  "draft_case p = zero_TestCase\<lparr>case_Summary := trim_space (pp_Summary p),
      case_Description := trim_space (pp_Description p), case_Precondition := trim_space (pp_Precondition p),
      case_Priority := normalizePriority (pp_Priority p), case_Labels := cleanStrings (pp_Labels p),
      case_Steps := map draft_step (filter keep_step (pp_Steps p))\<rparr>"

definition usable :: "proposal \<Rightarrow> bool" where
  "usable p = (trim_space (pp_Summary p) \<noteq> [] \<and> filter keep_step (pp_Steps p) \<noteq> [])"

fun draft_cases :: "proposal list \<Rightarrow> TestCase list \<Rightarrow> nat \<Rightarrow> TestCase list \<times> nat" where
  "draft_cases [] cases dropped = (cases, dropped)"
| "draft_cases (p # ps) cases dropped =
    (if usable p then draft_cases ps (cases @ [draft_case p]) dropped
     else draft_cases ps cases (dropped + 1))"

definition recovered_warning :: string where
  "recovered_warning =
    ''the model wrapped its answer in extra text; the cases were recovered but check them closely''"

definition dropped_warning :: "nat \<Rightarrow> string list" where
  "dropped_warning n =
    (if 0 < n then [nat_text n @ '' proposal(s) were discarded for having no summary or no steps''] else [])"

definition unreadable_warning :: string where
  "unreadable_warning =
    ''the model'' @ [CHR 0x27] @ ''s response could not be read as test cases. Try again, or use a different model.''"

definition parseCases :: "doc_env \<Rightarrow> string \<Rightarrow> TestCase list \<times> nat \<times> string list" where
  "parseCases e raw =
    (let text = stripCodeFence (trim_space raw) in
     if text = [] then ([], 0, [''the model returned an empty response''])
     else case decodeCasePayload e text of
            None \<Rightarrow> ([], 0, [unreadable_warning])
          | Some (ps, recovered) \<Rightarrow>
              (let (cases, dropped) = draft_cases ps [] 0
               in (cases, dropped, (if recovered then [recovered_warning] else []) @ dropped_warning dropped)))"

definition ErrTruncated :: go_error where
  "ErrTruncated = Err ''llm: the response was cut off at the token limit''"

definition cut_warning :: string where
  "cut_warning =
    ''the model hit its output limit, so the later part of the specification may not be covered''"

definition as_draft :: "string \<Rightarrow> TestCase \<Rightarrow> TestCase" where
  "as_draft folder c =
    c\<lparr>case_FolderPath := folder, case_Status := (if case_Status c = [] then ''draft'' else case_Status c)\<rparr>"

definition drafted :: "doc_env \<Rightarrow> doc_text \<Rightarrow> string \<Rightarrow> string \<Rightarrow> string list \<Rightarrow> draft_result res" where
  "drafted e spec folder raw notes =
    (case parseCases e raw of (cases, dropped, warnings) \<Rightarrow>
       if cases = [] then Inl (Err ''the model returned no usable test cases from this document'')
       else Inr \<lparr>dr_Cases = map (as_draft folder) cases,
                 dr_Warnings = dt_Warnings spec @ notes @ warnings, dr_Dropped = dropped\<rparr>)"

text \<open>The prompt is the text behind its heading; the system prompt is a constant of the model call.\<close>

definition Generate :: "doc_env \<Rightarrow> doc_text \<Rightarrow> string \<Rightarrow> draft_result res" where
  "Generate e spec folder =
    (if trim_space (dt_Text spec) = [] then Inl (ErrNoText ''document'')
     else case dc_complete e (''Specification:'' @ [newline, newline] @ dt_Text spec) of
            (raw, None) \<Rightarrow> drafted e spec folder raw []
          | (raw, Some err) \<Rightarrow>
              if err_is err ErrTruncated then drafted e spec folder raw [cut_warning] else Inl err)"

section \<open>Cutting between runes\<close>

declare rune_width.simps(2) [simp del]

lemma rune_width_of_cont: "cont a \<Longrightarrow> rune_width (a # s) = None"
proof -
  assume "cont a"
  then have "\<not> byte a < 128" "\<not> two_ok (byte a)" "\<not> three_ok (byte a) b" "\<not> four_ok (byte a) b" for b
    by (simp_all add: cont_def two_ok_def three_ok_def four_ok_def)
  then show ?thesis by (simp add: rune_width.simps(2) split: list.split)
qed

lemma rune_width_small: "rune_width s = Some w \<Longrightarrow> w \<le> 4"
  by (cases s) (simp_all add: rune_width.simps(2) split: if_splits list.splits)

lemma rune_width_start:
  assumes "rune_width s = Some w"
  shows "isRuneStart (s ! 0) \<and> w \<le> 4"
proof (cases s)
  case (Cons a t)
  then have "\<not> cont a" using assms rune_width_of_cont by fastforce
  then show ?thesis using rune_width_small[OF assms] by (simp add: isRuneStart_def Cons)
qed (use assms in simp)

lemma rune_width_conts: "rune_width (a # s) = Some w \<Longrightarrow> list_all cont (take (w - 1) s)"
  by (auto simp: rune_width.simps(2) split: if_splits list.splits)

lemma rune_width_cont:
  assumes "rune_width s = Some w" "0 < i" "i < w"
  shows "\<not> isRuneStart (s ! i)"
proof (cases s)
  case (Cons a t)
  then have "list_all cont (take (w - 1) t)" using rune_width_conts assms(1) by simp
  moreover have "i - 1 < length (take (w - 1) t)" using assms rune_width_pos[OF assms(1)] Cons by simp
  ultimately have "cont (take (w - 1) t ! (i - 1))" by (simp add: list_all_length)
  then show ?thesis using assms(2,3) Cons by (simp add: isRuneStart_def)
qed (use assms in simp)

lemma rune_width_take:
  assumes "rune_width s = Some w" "w \<le> k"
  shows "rune_width (take k s) = Some w"
proof -
  have add_numeral: "take (3 + j) (b # c # d # u) = b # c # d # take j u" "take (2 + j) (b # c # u) = b # c # take j u"
    "take (Suc j) (b # u) = b # take j u" for j and b c d :: char and u
    by (simp_all add: numeral_eq_Suc)
  have *: "rune_width (a # t) = Some w \<Longrightarrow> rune_width (a # take (w - 1 + j) t) = Some w" for a t j
    by (auto simp: rune_width.simps(2) add_numeral split: if_splits list.splits)
  obtain a t where s: "s = a # t" using assms by (cases s) auto
  have "take k s = a # take (w - 1 + (k - w)) t"
    using assms rune_width_pos[OF assms(1)] s by (cases k) auto
  then show ?thesis using * assms(1) s by simp
qed

lemma valid_step:
  assumes "rune_width s = Some w"
  shows "valid_utf8 s = valid_utf8 (drop w s)"
  using assms by (cases s) simp_all

lemma valid_cases:
  assumes "valid_utf8 s" "s \<noteq> []"
  obtains w where "rune_width s = Some w" "valid_utf8 (drop w s)"
  using assms by (cases s) (auto split: option.splits)

lemma valid_take:
  assumes "valid_utf8 s" "k < length s" "isRuneStart (s ! k)"
  shows "valid_utf8 (take k s)"
  using assms
proof (induction "length s" arbitrary: s k rule: less_induct)
  case less
  then obtain w where w: "rune_width s = Some w" "valid_utf8 (drop w s)" by (metis list.size(3) less_nat_zero_code valid_cases)
  note wp = rune_width_pos[OF w(1)]
  show ?case
  proof (cases "k = 0")
    case False
    then have k: "w \<le> k" using less.prems(3) rune_width_cont[OF w(1)] by (meson not_le neq0_conv)
    have "valid_utf8 (take (k - w) (drop w s))"
      using less.prems w(2) wp k by (intro less.hyps) auto
    then show ?thesis using valid_step[OF rune_width_take[OF w(1) k]] by (simp add: drop_take)
  qed simp
qed

lemma rune_start_near:
  assumes "valid_utf8 s" "n < length s"
  shows "\<exists>j\<le>n. n \<le> j + 3 \<and> isRuneStart (s ! j)"
  using assms
proof (induction "length s" arbitrary: s n rule: less_induct)
  case less
  then obtain w where w: "rune_width s = Some w" "valid_utf8 (drop w s)" by (metis list.size(3) less_nat_zero_code valid_cases)
  note wp = rune_width_pos[OF w(1)] rune_width_start[OF w(1)]
  show ?case
  proof (cases "n < w")
    case True
    then show ?thesis using wp by (intro exI[of _ 0]) auto
  next
    case False
    then have l: "length (drop w s) < length s" "n - w < length (drop w s)" using wp less.prems(2) by auto
    from less.hyps[OF l(1) w(2) l(2)]
    obtain j where "j \<le> n - w" "n - w \<le> j + 3" "isRuneStart (drop w s ! j)" by blast
    then show ?thesis using False less.prems(2) wp by (intro exI[of _ "w + j"]) auto
  qed
qed

lemma rune_cut_le: "rune_cut s n \<le> n"
  by (induction n) auto

lemma rune_cut_start: "isRuneStart (s ! 0) \<Longrightarrow> isRuneStart (s ! rune_cut s n)"
  by (induction n) auto

lemma rune_cut_ge: "j \<le> n \<Longrightarrow> isRuneStart (s ! j) \<Longrightarrow> j \<le> rune_cut s n"
  by (induction n) (auto simp: le_Suc_eq)

text \<open>Cutting a text of valid UTF-8 leaves a prefix of valid UTF-8 within the limit, and takes
  away at most three bytes more than it must.\<close>

theorem truncateAtRune_valid:
  assumes "valid_utf8 s"
  shows "valid_utf8 (truncateAtRune s limit)
    \<and> (\<exists>rest. s = truncateAtRune s limit @ rest)
    \<and> length (truncateAtRune s limit) \<le> limit
    \<and> min (length s) (limit - 3) \<le> length (truncateAtRune s limit)"
proof (cases "length s \<le> limit")
  case False
  then have n: "limit < length s" "s \<noteq> []" by auto
  then obtain w where "rune_width s = Some w" using assms by (auto elim: valid_cases)
  then have st: "isRuneStart (s ! rune_cut s limit)" using rune_width_start rune_cut_start by blast
  obtain j where "j \<le> limit" "limit \<le> j + 3" "isRuneStart (s ! j)"
    using rune_start_near[OF assms n(1)] by auto
  then have "limit - 3 \<le> rune_cut s limit" using rune_cut_ge[of j limit s] by linarith
  moreover have "valid_utf8 (take (rune_cut s limit) s)"
    using valid_take[OF assms _ st] rune_cut_le[of s limit] n by linarith
  ultimately show ?thesis
    using False rune_cut_le[of s limit] n
    by (auto simp: truncateAtRune_def intro!: exI[of _ "drop (rune_cut s limit) s"])
qed (simp add: truncateAtRune_def assms)

definition umlauts :: string where
  "umlauts = [CHR ''G'', CHR 0xC3, CHR 0xBC, CHR 0xE2, CHR 0x82, CHR 0xAC]"

theorem truncateAtRune_valid_witness:
  "valid_utf8 umlauts \<and> valid_utf8 (truncateAtRune umlauts 5) \<and> length (truncateAtRune umlauts 5) = 3
    \<and> length (truncateAtRune umlauts 5) \<le> 5"
proof -
  have v: "valid_utf8 umlauts" by code_simp
  moreover have "length (truncateAtRune umlauts 5) = 3" by code_simp
  ultimately show ?thesis using truncateAtRune_valid[OF v, of 5] by blast
qed

section \<open>What a document yields\<close>

lemma finish_text:
  assumes "finish e raw format = Inr r"
  shows "dt_Text r = truncateAtRune (normalized raw) MaxTextBytes" "hasReadableText e (normalized raw)"
    "(dt_Warnings r \<noteq> []) = (MaxTextBytes < length (normalized raw))"
  using assms by (auto simp: finish_def Let_def truncateAtRune_def split: if_splits)

section \<open>What a model may propose\<close>

lemma draft_cases_filter:
  "draft_cases ps cs n =
    (cs @ map draft_case (filter usable ps), n + length (filter (\<lambda>p. \<not> usable p) ps))"
  by (induction ps cs n rule: draft_cases.induct) auto

lemma parseCases_cases:
  obtains (nothing) d w where "parseCases e raw = ([], d, w)"
  | (read) ps b where "decodeCasePayload e (stripCodeFence (trim_space raw)) = Some (ps, b)"
      "parseCases e raw = (map draft_case (filter usable ps), length (filter (\<lambda>p. \<not> usable p) ps),
        (if b then [recovered_warning] else []) @ dropped_warning (length (filter (\<lambda>p. \<not> usable p) ps)))"
proof (cases "stripCodeFence (trim_space raw) = [] \<or> decodeCasePayload e (stripCodeFence (trim_space raw)) = None")
  case True
  then have "parseCases e raw = ([], 0, if stripCodeFence (trim_space raw) = []
      then [''the model returned an empty response''] else [unreadable_warning])"
    by (auto simp: parseCases_def)
  then show ?thesis by (rule nothing)
next
  case False
  then obtain q where "decodeCasePayload e (stripCodeFence (trim_space raw)) = Some q" by blast
  then show ?thesis using False
    by (cases q) (auto intro!: read simp: parseCases_def draft_cases_filter)
qed

definition executable_step :: "TestStep \<Rightarrow> bool" where
  "executable_step s = (ts_Action s \<noteq> [] \<or> ts_Expected s \<noteq> [])"

definition reviewable :: "string \<Rightarrow> TestCase \<Rightarrow> bool" where
  "reviewable folder c =
    (case_Summary c \<noteq> [] \<and> trim_space (case_Summary c) = case_Summary c
     \<and> case_FolderPath c = folder \<and> case_Status c = ''draft''
     \<and> case_Priority c \<in> {[], ''high'', ''medium'', ''low''}
     \<and> case_Steps c \<noteq> [] \<and> list_all executable_step (case_Steps c)
     \<and> [] \<notin> set (case_Labels c))"

lemma draft_is_reviewable: "usable p \<Longrightarrow> reviewable folder (as_draft folder (draft_case p))"
  by (auto simp: reviewable_def as_draft_def draft_case_def usable_def normalizePriority_def Let_def list_all_iff
      cleanStrings_def executable_step_def draft_step_def keep_step_def zero_TestCase_def)

text \<open>C33: from a document, every case that is proposed is reviewable: it has a summary and at least one
  step, no step is empty, it is a draft in the folder asked for, and its priority is one of the three or none.
  Every proposal of the model is either such a case, in order, or counted as dropped, and the reviewer is
  told when some were dropped or when the answer was cut off.\<close>

theorem Generate_drafts:
  assumes "Generate e spec folder = Inr r"
  shows "list_all (reviewable folder) (dr_Cases r) \<and> dr_Cases r \<noteq> []
    \<and> (\<exists>raw err ps b. dc_complete e (''Specification:'' @ [newline, newline] @ dt_Text spec) = (raw, err)
        \<and> decodeCasePayload e (stripCodeFence (trim_space raw)) = Some (ps, b)
        \<and> dr_Cases r = map (\<lambda>p. as_draft folder (draft_case p)) (filter usable ps)
        \<and> length (dr_Cases r) + dr_Dropped r = length ps
        \<and> set (dt_Warnings spec) \<subseteq> set (dr_Warnings r)
        \<and> (err \<noteq> None \<longrightarrow> cut_warning \<in> set (dr_Warnings r))
        \<and> (0 < dr_Dropped r \<longrightarrow> set (dropped_warning (dr_Dropped r)) \<subseteq> set (dr_Warnings r)))"
proof -
  obtain raw err extra where c: "dc_complete e (''Specification:'' @ [newline, newline] @ dt_Text spec) = (raw, err)"
      "drafted e spec folder raw extra = Inr r" "err \<noteq> None \<Longrightarrow> extra = [cut_warning]"
    using assms by (auto simp: Generate_def split: if_splits prod.splits option.splits)
  obtain ps b where ps: "decodeCasePayload e (stripCodeFence (trim_space raw)) = Some (ps, b)"
      "parseCases e raw = (map draft_case (filter usable ps), length (filter (\<lambda>p. \<not> usable p) ps),
        (if b then [recovered_warning] else []) @ dropped_warning (length (filter (\<lambda>p. \<not> usable p) ps)))"
    by (rule parseCases_cases[of e raw]) (use c(2) in \<open>auto simp: drafted_def\<close>)
  have r: "dr_Cases r = map (\<lambda>p. as_draft folder (draft_case p)) (filter usable ps)"
      "dr_Cases r \<noteq> []" "dr_Dropped r = length (filter (\<lambda>p. \<not> usable p) ps)"
      "dr_Warnings r = dt_Warnings spec @ extra @ (if b then [recovered_warning] else []) @ dropped_warning (dr_Dropped r)"
    using c(2) by (auto simp: drafted_def ps(2) comp_def split: if_splits)
  have "list_all (reviewable folder) (dr_Cases r)"
    unfolding r(1) by (auto simp: list_all_iff draft_is_reviewable)
  moreover have "length (dr_Cases r) + dr_Dropped r = length ps"
    by (simp add: r sum_length_filter_compl)
  moreover have "set (dt_Warnings spec) \<subseteq> set (dr_Warnings r)"
    "err \<noteq> None \<Longrightarrow> cut_warning \<in> set (dr_Warnings r)"
    "set (dropped_warning (dr_Dropped r)) \<subseteq> set (dr_Warnings r)"
    unfolding r(4) using c(3) by auto
  ultimately show ?thesis using c(1) ps(1) r(1,2) by blast
qed

text \<open>A model that wraps its answer in a fence and proposes one case with a step and one without.\<close>

definition fenced :: string where
  "fenced = code_fence @ ''json'' @ [newline] @ ''{}'' @ [newline] @ code_fence"

definition proposing :: doc_env where
  "proposing =
    \<lparr>dc_letter = (\<lambda>_. False), dc_digit = (\<lambda>_. False), dc_zip = (\<lambda>_. Inl (Err [])), dc_xml = (\<lambda>_. ([], None)),
     dc_pdf = (\<lambda>_. None), dc_percent = (\<lambda>_ _. []),
     dc_payload = (\<lambda>s. if s = ''{}'' then
        Some [\<lparr>pp_Summary = '' Sign in '', pp_Description = [], pp_Precondition = [], pp_Priority = ''P1'',
               pp_Labels = ['' ''], pp_Steps = [\<lparr>ps_Action = ''open the app'', ps_TestData = [], ps_Expected = []\<rparr>]\<rparr>,
              \<lparr>pp_Summary = ''Sign out'', pp_Description = [], pp_Precondition = [], pp_Priority = [],
               pp_Labels = [], pp_Steps = []\<rparr>]
        else None),
     dc_complete = (\<lambda>_. (fenced, Some ErrTruncated))\<rparr>"

definition login_spec :: doc_text where
  "login_spec = \<lparr>dt_Text = ''Users sign in with a name.'', dt_Warnings = []\<rparr>"

definition the_draft :: draft_result where
  "the_draft = (case Generate proposing login_spec ''auth'' of Inr r \<Rightarrow> r | Inl _ \<Rightarrow>
     \<lparr>dr_Cases = [], dr_Warnings = [], dr_Dropped = 0\<rparr>)"

theorem Generate_drafts_witness:
  "Generate proposing login_spec ''auth'' = Inr the_draft \<and> list_all (reviewable ''auth'') (dr_Cases the_draft)
    \<and> map case_Summary (dr_Cases the_draft) = [''Sign in''] \<and> dr_Dropped the_draft = 1"
proof -
  have ok: "is_ok (Generate proposing login_spec ''auth'')" by code_simp
  then have g: "Generate proposing login_spec ''auth'' = Inr the_draft"
    by (simp add: the_draft_def is_ok_def split: sum.splits)
  have "map case_Summary (dr_Cases the_draft) = [''Sign in'']" "dr_Dropped the_draft = 1" by code_simp+
  then show ?thesis using g Generate_drafts[OF g] by blast
qed

section \<open>The limits of extraction\<close>

lemma flag_spacing_text: "flag_spacing e r = Inr r' \<Longrightarrow> dt_Text r' = dt_Text r"
  by (auto simp: flag_spacing_def split: sum.splits option.splits)

lemma finish_bounded: "finish e raw format = Inr r \<Longrightarrow> length (dt_Text r) \<le> MaxTextBytes"
  using rune_cut_le[of "normalized raw" MaxTextBytes]
  by (auto simp: finish_def Let_def truncateAtRune_def min_le_iff_disj split: if_splits)

lemma Extract_bounded: "Extract e filename data = Inr r \<Longrightarrow> length (dt_Text r) \<le> MaxTextBytes"
  unfolding Extract_def Let_def
  by (auto split: if_splits sum.splits dest!: finish_bounded flag_spacing_text)

text \<open>Only a PDF is refused for its spacing, and one with two fifths of its runes in long tokens always is.\<close>

lemma checkWordSpacing_refuses:
  "longTokenShare e t = (lg, n) \<Longrightarrow> 0 < n \<Longrightarrow>
    is_ok (checkWordSpacing e t format) \<longleftrightarrow> 5 * lg < 2 * n"
  by (simp add: checkWordSpacing_def not_le)

lemma file_ext_samples:
  "file_ext ''a/b.c/spec'' = []" "file_ext ''spec.v2.PDF'' = ''.PDF''" "file_ext ''.md'' = ''.md''"
  by code_simp+

end
