(* ===== verification/Api_Base.thy ===== *)
theory Api_Base
  imports Database Orchestrator Runner_Hub Insights Device_Control Exchange Spec_Docs
begin

text \<open>
  What the handlers of backend/internal/api share (server.go and runnermtls.go): requests and
  responses, the mapping of errors to statuses, the address of the client, the limit on
  login attempts, the tokens, the guards of the routes and the audit trail.  A handler is a state
  passing function that either answers or stops with an error, which writeError answers; JSON decoders
  are parameters, and a header that is absent is the empty string, as Header.Get returns it.
\<close>

section \<open>Requests, responses and the server\<close>

record request =
  rq_Method :: string
  rq_Path :: string
  rq_Header :: "string \<Rightarrow> string"
  rq_Remote :: string
  rq_Cookie :: "string option"
  rq_Query :: "string \<Rightarrow> string option"
  rq_Body :: string
  rq_Cert :: "string option"

text \<open>An entry of the list of devices that adb sees (adbdiscovery.go).\<close>

record discoveredDevice =
  disc_Serial :: string
  disc_State :: string
  disc_Model :: string
  disc_Product :: string
  disc_Registered :: bool
  disc_RegisteredAs :: string

text \<open>An answer that the code builds as a map, as its fields.\<close>

datatype field =
    TextField string
  | BoolField bool
  | NumField int
  | ListField "field list"
  | MapField "(string \<times> field) list"

datatype body =
    NoBody
  | AnswerBody "(string \<times> field) list"
  | PngBody string
  | TreeBody "UINode res option"
  | PerfBody PerfSnapshot
  | ImportBody parse_result
  | DraftBody draft_result
  | DiscoveredBody "discoveredDevice list"
  | DownloadBody string string
  | ErrorBody string
  | StatusBody string
  | FieldsBody "(string \<times> string) list"
  | FileBody string
  | PageBody string
  | PrincipalBody Principal
  | LoginBody Principal time
  | ImageBody Image
  | ImagesBody "Image list"
  | DeletedBody bool
  | InstanceBody Instance
  | InstancesBody "Instance list"
  | AcceptedBody Instance "Operation option"
  | OperationBody Operation
  | OperationsBody "Operation list"
  | AuditBody "AuditEvent list"
  | EnrollBody "Instance option" "(string \<times> string) list"
  | RevokedBody bool
  | ForwardBody string
  | CountsBody "(string \<times> int) list"
  | TestBody Test
  | TestsBody "Test list"
  | TestRunBody TestRun
  | TestRunsBody "TestRun list"
  | CaseBody TestCase
  | CasesBody "TestCase list"
  | NamesBody "string list"
  | CountBody nat "string list"
  | CycleBody TestCycle
  | CyclesBody "TestCycle list"
  | CycleRunBody CycleRun
  | CycleRunsBody "CycleRun list"
  | CyclePageBody "CycleRun list" nat int int
  | ReportBody CycleRun "TestRun list"
  | HealthBody "CaseHealth list"
  | BuildBody Build
  | BuildsBody "Build list"

datatype cookie = SetSession string time | ClearSession

record response =
  rsp_Status :: int
  rsp_Body :: body
  rsp_Cookie :: "cookie option"

definition writeJSON :: "int \<Rightarrow> body \<Rightarrow> response" where
  "writeJSON status b = \<lparr>rsp_Status = status, rsp_Body = b, rsp_Cookie = None\<rparr>"

text \<open>Work that a handler leaves to a goroutine.\<close>

datatype job =
    StartJob string string
  | DeployJob string string
  | StopJob Instance string
  | DeleteJob Instance string
  | CycleJob TestCycle string CycleRun
  | TestJob Test string TestRun
  | BuildJob Build

text \<open>
  The state of the server, with what it removed from and wrote to the disk, what it sent to devices and what it
  sent to other hosts (address, headers and body).
\<close>

record server =
  sv_db :: db
  sv_hub :: hub
  sv_attempts :: "string \<rightharpoonup> time list"
  sv_removed :: "string list"
  sv_written :: "(string \<times> string) list"
  sv_sent :: "Device_Control.request list"
  sv_out :: "(string \<times> (string \<times> string) list \<times> string) list"
  sv_jobs :: "job list"

text \<open>
  The surroundings of one request: the process environment, the instant, the n-th random draw, the
  cryptographic functions, the token of the tool server and what removing a directory answers.
\<close>

record api_env =
  ae_env :: env
  ae_fs :: file_system
  ae_now :: time
  ae_rnd :: "nat \<Rightarrow> 8 word list"
  ae_hmac :: "8 word list \<Rightarrow> 8 word list \<Rightarrow> 8 word list"
  ae_sha :: "8 word list \<Rightarrow> 8 word list"
  ae_mcpToken :: string
  ae_removeAll :: "string \<Rightarrow> go_error option"

record ctx =
  cx_req :: request
  cx_id :: string
  cx_principal :: "Principal option"

section \<open>Errors\<close>

datatype api_error = Client int string | Other go_error

definition badRequest :: "string \<Rightarrow> api_error" where
  "badRequest message = Client 400 message"

definition notFound :: "string \<Rightarrow> api_error" where
  "notFound message = Client 404 message"

definition api_text :: "api_error \<Rightarrow> string" where
  "api_text e = (case e of Client _ m \<Rightarrow> m | Other err \<Rightarrow> err_text err)"

definition writeError :: "api_error \<Rightarrow> response" where
  "writeError e =
    writeJSON (case e of Client st _ \<Rightarrow> st | Other err \<Rightarrow> if IsNotFound err then 404 else 500)
      (ErrorBody (api_text e))"

section \<open>Handlers\<close>

type_synonym 'a act = "server \<Rightarrow> (api_error + 'a) \<times> server"

definition give :: "'a \<Rightarrow> 'a act" where
  "give x s = (Inr x, s)"

definition refuse :: "api_error \<Rightarrow> 'a act" where
  "refuse e s = (Inl e, s)"

definition andThen :: "'a act \<Rightarrow> ('a \<Rightarrow> 'b act) \<Rightarrow> 'b act" where
  "andThen m f s = (case m s of (Inl e, s') \<Rightarrow> (Inl e, s') | (Inr x, s') \<Rightarrow> f x s')"

text \<open>Calls of the store: a query, a statement with an answer, and one whose answer is ignored.\<close>

definition store_get :: "(db \<Rightarrow> 'a res) \<Rightarrow> 'a act" where
  "store_get f s = (map_sum Other id (f (sv_db s)), s)"

definition store_do :: "(db \<Rightarrow> 'a res \<times> db) \<Rightarrow> 'a act" where
  "store_do f s = (case f (sv_db s) of (r, d) \<Rightarrow> (map_sum Other id r, s\<lparr>sv_db := d\<rparr>))"

definition store_set :: "(db \<Rightarrow> db) \<Rightarrow> unit act" where
  "store_set f s = (Inr (), s\<lparr>sv_db := f (sv_db s)\<rparr>)"

text \<open>badRequest(err.Error()), and going on in spite of an error.\<close>

definition or_bad :: "'a act \<Rightarrow> 'a act" where
  "or_bad m s = (case m s of (Inl e, s') \<Rightarrow> (Inl (badRequest (api_text e)), s') | (Inr x, s') \<Rightarrow> (Inr x, s'))"

definition try_act :: "'a act \<Rightarrow> (api_error + 'a) act" where
  "try_act m s = (case m s of (r, s') \<Rightarrow> (Inr r, s'))"

definition check :: "bool \<Rightarrow> api_error \<Rightarrow> unit act" where
  "check ok e = (if ok then give () else refuse e)"

definition spawn :: "job \<Rightarrow> unit act" where
  "spawn j s = (Inr (), s\<lparr>sv_jobs := sv_jobs s @ [j]\<rparr>)"

definition on_hub :: "(hub \<Rightarrow> 'a \<times> hub) \<Rightarrow> 'a act" where
  "on_hub f s = (case f (sv_hub s) of (x, h) \<Rightarrow> (Inr x, s\<lparr>sv_hub := h\<rparr>))"

definition respond :: "response act \<Rightarrow> server \<Rightarrow> response \<times> server" where
  "respond m s = (case m s of (Inl e, s') \<Rightarrow> (writeError e, s') | (Inr r, s') \<Rightarrow> (r, s'))"

definition answer :: "int \<Rightarrow> body \<Rightarrow> response act" where
  "answer status b = give (writeJSON status b)"

text \<open>The body of a request; decodeJSON tolerates an empty one.\<close>

definition decode :: "(string \<Rightarrow> 'a option) \<Rightarrow> string \<Rightarrow> ctx \<Rightarrow> 'a act" where
  "decode parse message c =
    (case parse (rq_Body (cx_req c)) of None \<Rightarrow> refuse (badRequest message) | Some x \<Rightarrow> give x)"

definition blank_json :: "string \<Rightarrow> bool" where
  "blank_json s = list_all (\<lambda>c. (of_char c :: nat) \<in> {9, 10, 13, 32}) s"

definition decodeJSON :: "(string \<Rightarrow> 'a option) \<Rightarrow> 'a \<Rightarrow> ctx \<Rightarrow> 'a act" where
  "decodeJSON parse zero c =
    (if blank_json (rq_Body (cx_req c)) then give zero else decode parse ''invalid request payload'' c)"

section \<open>The address of the client\<close>

text \<open>The host of net.SplitHostPort, None when it fails.\<close>

definition split_host :: "string \<Rightarrow> string option" where
  "split_host hostport =
    (case last_index_char (CHR '':'') hostport of
       None \<Rightarrow> None
     | Some i \<Rightarrow>
         if hd hostport = CHR ''['' then
           (case index_of '']'' hostport of
              None \<Rightarrow> None
            | Some e \<Rightarrow>
                if e + 1 \<noteq> i \<or> CHR ''['' \<in> set (drop 1 hostport) \<or> CHR '']'' \<in> set (drop (e + 1) hostport)
                then None else Some (take (e - 1) (drop 1 hostport)))
         else if CHR '':'' \<in> set (take i hostport) \<or> CHR ''['' \<in> set hostport \<or> CHR '']'' \<in> set hostport
         then None else Some (take i hostport))"

definition stripPort :: "string \<Rightarrow> string" where
  "stripPort addr = (case split_host addr of None \<Rightarrow> addr | Some host \<Rightarrow> host)"

definition clientIP :: "env \<Rightarrow> request \<Rightarrow> string" where
  "clientIP e r =
    (if env_Getenv e ''OPENCUTTLES_TRUST_PROXY_HEADERS'' = ''1'' then
       (let hop = trim_space (last (split_char (CHR '','') (rq_Header r ''X-Forwarded-For'')));
            realIP = trim_space (rq_Header r ''X-Real-IP'')
        in if rq_Header r ''X-Forwarded-For'' \<noteq> [] \<and> hop \<noteq> [] then stripPort hop
           else if realIP \<noteq> [] then stripPort realIP
           else stripPort (rq_Remote r))
     else stripPort (rq_Remote r))"

section \<open>The limit on attempts\<close>

definition allow_key :: "time \<Rightarrow> string \<Rightarrow> (string \<rightharpoonup> time list) \<Rightarrow> bool \<times> (string \<rightharpoonup> time list)" where
  "allow_key now key m =
    (let filtered = filter (\<lambda>t. now - 5 * minute < t) (case m key of None \<Rightarrow> [] | Some ts \<Rightarrow> ts)
     in if 10 \<le> length filtered then (False, m(key \<mapsto> filtered))
        else (True, m(key \<mapsto> filtered @ [now])))"

definition limit :: "api_env \<Rightarrow> string \<Rightarrow> string \<Rightarrow> unit act" where
  "limit e key message s =
    (case allow_key (ae_now e) key (sv_attempts s) of
       (ok, m) \<Rightarrow> check ok (Client 429 message) (s\<lparr>sv_attempts := m\<rparr>))"

section \<open>Tokens\<close>

definition validateBootstrapToken :: "env \<Rightarrow> string \<Rightarrow> string option" where
  "validateBootstrapToken e token =
    (let expected = env_Getenv e ''OPENCUTTLES_BOOTSTRAP_TOKEN''
     in if expected = [] then
          (if env_Getenv e ''OPENCUTTLES_DEV_MODE'' = ''1'' then None
           else Some ''bootstrap token is not configured'')
        else if token \<noteq> expected then Some ''invalid bootstrap token'' else None)"

definition bearer_or :: "string \<Rightarrow> request \<Rightarrow> string" where
  "bearer_or header r =
    (let h = rq_Header r ''Authorization''
     in if has_prefix ''Bearer '' h then trim_space (trim_prefix ''Bearer '' h)
        else trim_space (rq_Header r header))"

definition mcpTokenFromRequest :: "request \<Rightarrow> string" where
  "mcpTokenFromRequest r = bearer_or ''X-MCP-Token'' r"

definition runnerTokenFromRequest :: "request \<Rightarrow> string" where
  "runnerTokenFromRequest r = bearer_or ''X-Runner-Token'' r"

definition has_service_token :: "api_env \<Rightarrow> request \<Rightarrow> bool" where
  "has_service_token e r =
    (ae_mcpToken e \<noteq> [] \<and> mcpTokenFromRequest r \<noteq> [] \<and> mcpTokenFromRequest r = ae_mcpToken e)"

text \<open>Mutual TLS: the certificate of the request is seen through the device that it names.\<close>

definition mtlsListen :: "env \<Rightarrow> string" where
  "mtlsListen e = trim_space (env_Getenv e ''OPENCUTTLES_RUNNER_MTLS_LISTEN'')"

definition MTLSEnabled :: "env \<Rightarrow> bool" where
  "MTLSEnabled e = (mtlsListen e \<noteq> [])"

definition verifyRunnerClientCert :: "request \<Rightarrow> string \<Rightarrow> unit res" where
  "verifyRunnerClientCert r deviceID =
    (case rq_Cert r of
       None \<Rightarrow> Inl (Err ''no client certificate presented'')
     | Some got \<Rightarrow>
         if got \<noteq> deviceID
         then Inl (Err (''client certificate is for device '' @ go_quote got @ '', not '' @ go_quote deviceID))
         else Inr ())"

definition authenticateRunner :: "api_env \<Rightarrow> request \<Rightarrow> db \<Rightarrow> string option" where
  "authenticateRunner e r d =
    (let tok = runnerTokenFromRequest r in
     if tok = [] then None
     else case FindDesktopByTokenHash (TokenHash (ae_sha e) tok) d of
            Inl _ \<Rightarrow> None
          | Inr i \<Rightarrow>
              if MTLSEnabled (ae_env e) \<and> \<not> is_ok (verifyRunnerClientCert r (inst_ID i)) then None
              else Some (inst_ID i))"

section \<open>Audit and guards\<close>

definition principalFromContext :: "ctx \<Rightarrow> Principal" where
  "principalFromContext c = (case cx_principal c of None \<Rightarrow> zero_Principal | Some p \<Rightarrow> p)"

definition audit_event ::
  "api_env \<Rightarrow> ctx \<Rightarrow> Principal \<Rightarrow> string \<Rightarrow> string \<Rightarrow> string \<Rightarrow> string \<Rightarrow> string \<Rightarrow> AuditEvent" where
  "audit_event e c p action resource resourceID outcome message =
    zero_AuditEvent\<lparr>aud_ActorID := prin_UserID p, aud_ActorName := prin_Username p, aud_Action := action,
      aud_Resource := resource, aud_ResourceID := resourceID, aud_Outcome := outcome, aud_Message := message,
      aud_SourceIP := clientIP (ae_env e) (cx_req c), aud_UserAgent := rq_Header (cx_req c) ''User-Agent'',
      aud_RequestID := cx_id c\<rparr>"

text \<open>audit only logs a failure.\<close>

definition audit ::
  "api_env \<Rightarrow> ctx \<Rightarrow> Principal \<Rightarrow> string \<Rightarrow> string \<Rightarrow> string \<Rightarrow> string \<Rightarrow> string \<Rightarrow> unit act" where
  "audit e c p action resource resourceID outcome message =
    store_set (\<lambda>d. snd (CreateAuditEvent (ae_now e) (ae_rnd e 0)
      (audit_event e c p action resource resourceID outcome message) d))"

definition audit_as ::
  "api_env \<Rightarrow> ctx \<Rightarrow> string \<Rightarrow> string \<Rightarrow> string \<Rightarrow> string \<Rightarrow> string \<Rightarrow> unit act" where
  "audit_as e c = audit e c (principalFromContext c)"

definition authenticated :: "api_env \<Rightarrow> ctx \<Rightarrow> db \<Rightarrow> (Principal \<times> string) res" where
  "authenticated e c d = AuthenticateRequest (ae_sha e) (ae_now e) (rq_Cookie (cx_req c)) d"

definition require :: "api_env \<Rightarrow> string \<Rightarrow> (ctx \<Rightarrow> response act) \<Rightarrow> ctx \<Rightarrow> response act" where
  "require e permission h c s =
    (case authenticated e c (sv_db s) of
       Inl _ \<Rightarrow> refuse (Client 401 ''unauthorized'') s
     | Inr (p, _) \<Rightarrow>
         if \<not> HasPermission p permission
         then andThen (audit e c p ''authorize'' ''api'' (rq_Path (cx_req c)) ''denied'' permission)
                (\<lambda>_. refuse (Client 403 ''forbidden'')) s
         else h (c\<lparr>cx_principal := Some p\<rparr>) s)"

definition mcpAuth :: "api_env \<Rightarrow> (ctx \<Rightarrow> response act) \<Rightarrow> ctx \<Rightarrow> response act" where
  "mcpAuth e h c s =
    (if has_service_token e (cx_req c) then h c s
     else case authenticated e c (sv_db s) of
            Inl _ \<Rightarrow> refuse (Client 401 ''unauthorized'') s
          | Inr (p, _) \<Rightarrow>
              if HasPermission p PermissionControl then h (c\<lparr>cx_principal := Some p\<rparr>) s
              else refuse (Client 401 ''unauthorized'') s)"

definition serviceTokenOnly :: "api_env \<Rightarrow> (ctx \<Rightarrow> response act) \<Rightarrow> ctx \<Rightarrow> response act" where
  "serviceTokenOnly e h c =
    (if has_service_token e (cx_req c) then h c else refuse (Client 401 ''service token required''))"

definition splitInstancePath :: "string \<Rightarrow> string \<times> string" where
  "splitInstancePath path =
    (let parts = split_char (CHR ''/'')
           (trim_by (\<lambda>c. c = CHR ''/'') (trim_prefix ''/api/v1/instances/'' path))
     in (hd parts, if 1 < length parts then parts ! 1 else []))"

section \<open>Handlers that succeed\<close>

text \<open>What a handler did when it did not stop with an error.\<close>

lemma andThen_assoc: "andThen (andThen m g) f = andThen m (\<lambda>x. andThen (g x) f)"
  by (rule ext) (simp add: andThen_def split: prod.split sum.split)

lemma store_get_Inr: "store_get f s = (Inr x, s') \<longleftrightarrow> f (sv_db s) = Inr x \<and> s' = s"
  by (cases "f (sv_db s)") (auto simp: store_get_def)

lemma ran_get:
  "andThen (store_get g) f s = (Inr x, s') \<longleftrightarrow> (\<exists>y. g (sv_db s) = Inr y \<and> f y s = (Inr x, s'))"
  by (cases "g (sv_db s)") (auto simp: andThen_def store_get_def)

lemma ran_check: "andThen (check ok er) f s = (Inr x, s') \<longleftrightarrow> ok \<and> f () s = (Inr x, s')"
  by (auto simp: andThen_def check_def give_def refuse_def)

lemma ran_decode:
  "andThen (decode parse m c) f s = (Inr x, s')
    \<longleftrightarrow> (\<exists>y. parse (rq_Body (cx_req c)) = Some y \<and> f y s = (Inr x, s'))"
  by (auto simp: andThen_def decode_def give_def refuse_def split: option.split)

lemma ran_set: "andThen (store_set g) f s = f () (s\<lparr>sv_db := g (sv_db s)\<rparr>)"
  by (simp add: andThen_def store_set_def)

lemma ran_do:
  "andThen (store_do g) f s = (Inr x, s')
    \<longleftrightarrow> (\<exists>y d. g (sv_db s) = (Inr y, d) \<and> f y (s\<lparr>sv_db := d\<rparr>) = (Inr x, s'))"
  by (cases "g (sv_db s)"; cases "fst (g (sv_db s))") (auto simp: andThen_def store_do_def)

lemma ran_answer: "answer st b s = (Inr r, s') \<longleftrightarrow> r = writeJSON st b \<and> s' = s"
  by (auto simp: answer_def give_def)

lemma ran_audit:
  "andThen (audit_as e c a rs i oc m) f s
    = f () (s\<lparr>sv_db := snd (CreateAuditEvent (ae_now e) (ae_rnd e 0)
        (audit_event e c (principalFromContext c) a rs i oc m) (sv_db s))\<rparr>)"
  by (simp add: audit_as_def audit_def ran_set)

lemmas ran = ran_get ran_check ran_decode ran_set ran_do ran_answer ran_audit andThen_assoc

section \<open>What a handler does to the database\<close>

text \<open>
  Every handler is put together from calls of the store; moves R says that the database goes
  only along steps of R.  The locale collects the rules for any R that allows the audit trail.
\<close>

definition moves :: "(db \<Rightarrow> db \<Rightarrow> bool) \<Rightarrow> 'a act \<Rightarrow> bool" where
  "moves R m = (\<forall>s. R\<^sup>*\<^sup>* (sv_db s) (sv_db (snd (m s))))"

lemma movesI: "(\<And>s. R\<^sup>*\<^sup>* (sv_db s) (sv_db (snd (m s)))) \<Longrightarrow> moves R m"
  by (simp add: moves_def)

lemma movesD: "moves R m \<Longrightarrow> m s = (r, s') \<Longrightarrow> R\<^sup>*\<^sup>* (sv_db s) (sv_db s')"
  by (metis moves_def snd_conv)

lemma andThen_fst:
  "andThen m f s = (case fst (m s) of Inl e \<Rightarrow> (Inl e, snd (m s)) | Inr x \<Rightarrow> f x (snd (m s)))"
  by (simp add: andThen_def split: prod.split sum.split)

lemma moves_same: "(\<And>s. sv_db (snd (m s)) = sv_db s) \<Longrightarrow> moves R m"
  by (simp add: moves_def)

locale effect =
  fixes R :: "db \<Rightarrow> db \<Rightarrow> bool"
  assumes audit_step: "R d (snd (CreateAuditEvent now rnd ev d))"
begin

lemma moves_give: "moves R (give x)"
  by (rule moves_same) (simp add: give_def)

lemma moves_refuse: "moves R (refuse e)"
  by (rule moves_same) (simp add: refuse_def)

lemma moves_andThen:
  assumes "moves R m" "\<And>x. moves R (f x)"
  shows "moves R (andThen m f)"
proof (rule movesI)
  fix s
  have m: "R\<^sup>*\<^sup>* (sv_db s) (sv_db (snd (m s)))" using assms(1) by (simp add: moves_def)
  have f: "R\<^sup>*\<^sup>* (sv_db (snd (m s))) (sv_db (snd (f x (snd (m s)))))" for x
    using assms(2) by (simp add: moves_def)
  show "R\<^sup>*\<^sup>* (sv_db s) (sv_db (snd (andThen m f s)))"
    using m rtranclp_trans[OF m f] by (cases "fst (m s)") (simp_all add: andThen_fst)
qed

lemma moves_get: "moves R (store_get f)"
  by (rule moves_same) (simp add: store_get_def)

lemma moves_do: "(\<And>d. R\<^sup>*\<^sup>* d (snd (f d))) \<Longrightarrow> moves R (store_do f)"
  by (rule movesI) (simp add: store_do_def split: prod.split, metis snd_conv)

lemma moves_set: "(\<And>d. R\<^sup>*\<^sup>* d (f d)) \<Longrightarrow> moves R (store_set f)"
  by (rule movesI) (simp add: store_set_def)

lemma moves_bad: "moves R m \<Longrightarrow> moves R (or_bad m)"
  by (auto simp: moves_def or_bad_def split: prod.split sum.split) (metis snd_conv)+

lemma moves_try: "moves R m \<Longrightarrow> moves R (try_act m)"
  by (auto simp: moves_def try_act_def split: prod.split) (metis snd_conv)

lemma moves_check: "moves R (check ok e)"
  by (simp add: check_def moves_give moves_refuse)

lemma moves_spawn: "moves R (spawn j)"
  by (rule moves_same) (simp add: spawn_def)

lemma moves_hub: "moves R (on_hub f)"
  by (rule moves_same) (simp add: on_hub_def split: prod.split)

lemma moves_limit: "moves R (limit e key m)"
  by (rule moves_same) (simp add: limit_def check_def give_def refuse_def split: prod.split)

lemma moves_answer: "moves R (answer st b)"
  by (simp add: answer_def moves_give)

lemma moves_decode: "moves R (decode parse m c)"
  by (simp add: decode_def moves_give moves_refuse split: option.split)

lemma moves_decodeJSON: "moves R (decodeJSON parse z c)"
  by (simp add: decodeJSON_def moves_give moves_decode)

lemma moves_audit: "moves R (audit e c p a rs i oc m)"
  unfolding audit_def by (rule moves_set) (rule r_into_rtranclp, rule audit_step)

lemma moves_audit_as: "moves R (audit_as e c a rs i oc m)"
  by (simp add: audit_as_def moves_audit)

lemma moves_if: "moves R m \<Longrightarrow> moves R m' \<Longrightarrow> moves R (if b then m else m')"
  by simp

lemma moves_option: "moves R m \<Longrightarrow> (\<And>x. moves R (f x)) \<Longrightarrow> moves R (case r of None \<Rightarrow> m | Some x \<Rightarrow> f x)"
  by (cases r) simp_all

lemma moves_sum: "(\<And>x. moves R (f x)) \<Longrightarrow> (\<And>y. moves R (g y)) \<Longrightarrow> moves R (case r of Inl x \<Rightarrow> f x | Inr y \<Rightarrow> g y)"
  by (cases r) simp_all

lemma moves_prod: "(\<And>x y. moves R (f x y)) \<Longrightarrow> moves R (case p of (x, y) \<Rightarrow> f x y)"
  by (cases p) simp

lemmas rules = moves_if moves_option moves_sum moves_prod moves_give moves_refuse moves_andThen moves_get moves_bad moves_try moves_check moves_spawn
  moves_hub moves_limit moves_answer moves_decode moves_decodeJSON moves_audit moves_audit_as

lemma respond_moves: "moves R m \<Longrightarrow> R\<^sup>*\<^sup>* (sv_db s) (sv_db (snd (respond m s)))"
  by (simp add: moves_def respond_def split: prod.split sum.split) (metis snd_conv)

lemma moves_require: "(\<And>c. moves R (h c)) \<Longrightarrow> moves R (require e p h c)"
proof (rule movesI)
  fix s assume h: "\<And>c. moves R (h c)"
  have d: "moves R (andThen (audit e c q ''authorize'' ''api'' pa ''denied'' p) (\<lambda>_. refuse er :: response act))" for q pa er
    by (intro rules)
  show "R\<^sup>*\<^sup>* (sv_db s) (sv_db (snd (require e p h c s)))"
    using h d unfolding require_def moves_def refuse_def[of "Client 401 ''unauthorized''"]
    by (cases "authenticated e c (sv_db s)") (simp_all split: prod.split)
qed

lemma moves_service: "(\<And>c. moves R (h c)) \<Longrightarrow> moves R (serviceTokenOnly e h c)"
  by (simp add: serviceTokenOnly_def moves_refuse)

end

text \<open>All statements of the store, and the audit trail alone.\<close>

interpretation all: effect "db_step hmac sha" for hmac sha
  by unfold_locales (intro db_step.on_accounts auth_step.audit)

definition only_audit :: "db \<Rightarrow> db \<Rightarrow> bool" where
  "only_audit d d' = (\<exists>now rnd ev. d' = snd (CreateAuditEvent now rnd ev d))"

interpretation log: effect only_audit
  by unfold_locales (auto simp: only_audit_def)

section \<open>The limit holds\<close>

text \<open>A history of attempts, with the accepted ones kept for each key.\<close>

definition attempt ::
  "(string \<rightharpoonup> time list) \<times> (string \<Rightarrow> time list) \<Rightarrow> time \<times> string
    \<Rightarrow> (string \<rightharpoonup> time list) \<times> (string \<Rightarrow> time list)" where
  "attempt st a =
    (case (st, a) of ((m, acc), (now, key)) \<Rightarrow>
       (case allow_key now key m of (ok, m') \<Rightarrow> (m', if ok then acc(key := acc key @ [now]) else acc)))"

definition attempts :: "(time \<times> string) list \<Rightarrow> (string \<rightharpoonup> time list) \<times> (string \<Rightarrow> time list)" where
  "attempts hs = foldl attempt (Map.empty, \<lambda>_. []) hs"

definition in_window :: "time \<Rightarrow> time \<Rightarrow> bool" where
  "in_window t a = (t - 5 * minute < a \<and> a \<le> t)"

definition key_inv :: "time \<Rightarrow> time list option \<Rightarrow> time list \<Rightarrow> bool" where
  "key_inv now st xs =
    (list_all (\<lambda>a. a \<le> now) xs
     \<and> (\<exists>l\<le>now. (case st of None \<Rightarrow> [] | Some ts \<Rightarrow> ts) = filter (\<lambda>a. l - 5 * minute < a) xs)
     \<and> (\<forall>t. length (filter (in_window t) xs) \<le> 10))"

lemma length_filter_le: "(\<And>x. x \<in> set xs \<Longrightarrow> P x \<Longrightarrow> Q x) \<Longrightarrow> length (filter P xs) \<le> length (filter Q xs)"
  by (induction xs) (auto simp: le_SucI)

lemma key_inv_later: "key_inv now st xs \<Longrightarrow> now \<le> now' \<Longrightarrow> key_inv now' st xs"
  unfolding key_inv_def list_all_iff by (meson order_trans)

text \<open>What allow keeps of the attempts of a key are the accepted ones of the last five minutes.\<close>

lemma kept_attempts:
  assumes "key_inv now st xs"
  shows "filter (\<lambda>t. now - 5 * minute < t) (case st of None \<Rightarrow> [] | Some ts \<Rightarrow> ts)
    = filter (\<lambda>t. now - 5 * minute < t) xs"
proof -
  obtain l where l: "l \<le> now" "(case st of None \<Rightarrow> [] | Some ts \<Rightarrow> ts) = filter (\<lambda>a. l - 5 * minute < a) xs"
    using assms by (auto simp: key_inv_def)
  then show ?thesis unfolding l(2) filter_filter by (intro filter_cong) auto
qed

lemma key_inv_refused:
  assumes "key_inv now st xs"
  shows "key_inv now (Some (filter (\<lambda>t. now - 5 * minute < t) xs)) xs"
  using assms unfolding key_inv_def by (auto intro!: exI[of _ now])

lemma key_inv_accepted:
  assumes "key_inv now st xs" "length (filter (\<lambda>t. now - 5 * minute < t) xs) < 10"
  shows "key_inv now (Some (filter (\<lambda>t. now - 5 * minute < t) xs @ [now])) (xs @ [now])"
proof -
  have "length (filter (in_window t) (xs @ [now])) \<le> 10" for t
  proof (cases "t < now")
    case True
    then show ?thesis using assms(1) by (simp add: key_inv_def in_window_def)
  next
    case False
    have "length (filter (in_window t) xs) \<le> length (filter (\<lambda>a. now - 5 * minute < a) xs)"
      using False by (intro length_filter_le) (simp add: in_window_def)
    then show ?thesis using assms(2) by simp
  qed
  then show ?thesis using assms(1)
    by (auto simp: key_inv_def minute_def second_def intro!: exI[of _ now])
qed

lemma attempt_inv:
  assumes "\<And>k. key_inv now (m k) (acc k)"
  shows "key_inv now (fst (attempt (m, acc) (now, key)) k) (snd (attempt (m, acc) (now, key)) k)"
  using assms[of k] key_inv_refused[OF assms[of key]] key_inv_accepted[OF assms[of key]]
  by (auto simp: attempt_def allow_key_def Let_def kept_attempts[OF assms[of key]])

lemma attempts_inv:
  "sorted (map fst hs) \<Longrightarrow> list_all (\<lambda>h. fst h \<le> now) hs \<Longrightarrow>
    key_inv now (fst (attempts hs) k) (snd (attempts hs) k)"
proof (induction hs arbitrary: now k rule: rev_induct)
  case Nil
  then show ?case by (auto simp: attempts_def key_inv_def)
next
  case (snoc h hs)
  obtain t key where h: "h = (t, key)" by fastforce
  have "sorted (map fst hs)" "list_all (\<lambda>h. fst h \<le> t) hs" "t \<le> now"
    using snoc.prems h by (auto simp: sorted_append list_all_iff)
  then have "key_inv t (fst (attempts hs) k') (snd (attempts hs) k')" for k'
    by (intro snoc.IH)
  from attempt_inv[of t "fst (attempts hs)" "snd (attempts hs)", OF this, of key k]
  have "key_inv t (fst (attempts (hs @ [h])) k) (snd (attempts (hs @ [h])) k)"
    by (simp add: attempts_def h)
  then show ?case using \<open>t \<le> now\<close> by (rule key_inv_later)
qed

text \<open>C31: the limiter of logins and bootstraps: when the clock does not go back, at most ten attempts of a key
  are accepted in any five minutes, and an attempt is refused only when ten were accepted in the five minutes
  before it.\<close>

theorem attempts_bounded:
  assumes "sorted (map fst hs)" "list_all (\<lambda>h. fst h \<le> now) hs"
  shows "length (filter (in_window t) (snd (attempts hs) key)) \<le> 10
    \<and> (fst (allow_key now key (fst (attempts hs)))
        \<longleftrightarrow> length (filter (in_window now) (snd (attempts hs) key)) < 10)"
proof -
  note inv = attempts_inv[OF assms, of key]
  have "filter (in_window now) (snd (attempts hs) key) = filter (\<lambda>t. now - 5 * minute < t) (snd (attempts hs) key)"
    using inv by (intro filter_cong) (auto simp: key_inv_def in_window_def list_all_iff)
  then show ?thesis using inv
    by (simp add: allow_key_def Let_def kept_attempts[OF inv] key_inv_def not_le)
qed

definition hurried :: "(time \<times> string) list" where
  "hurried = map (\<lambda>i. (of_nat i * second, ''login:10.0.0.7'')) [0..<12]"

theorem attempts_bounded_witness:
  "length (filter (in_window (20 * second)) (snd (attempts hurried) ''login:10.0.0.7'')) \<le> 10
    \<and> \<not> fst (allow_key (20 * second) ''login:10.0.0.7'' (fst (attempts hurried)))
    \<and> fst (allow_key (20 * second) ''login:10.0.0.8'' (fst (attempts hurried)))"
proof -
  have h: "sorted (map fst hurried)" "list_all (\<lambda>h. fst h \<le> 20 * second) hurried" by code_simp+
  have "length (filter (in_window (20 * second)) (snd (attempts hurried) ''login:10.0.0.7'')) = 10"
    "length (filter (in_window (20 * second)) (snd (attempts hurried) ''login:10.0.0.8'')) = 0" by code_simp+
  then show ?thesis using attempts_bounded[OF h, of "20 * second"] by fastforce
qed

text \<open>Behind a trusted proxy the address is the entry that the proxy appended, whatever the client sent before it.\<close>

lemma clientIP_last_hop:
  assumes "env_Getenv e ''OPENCUTTLES_TRUST_PROXY_HEADERS'' = ''1''"
    "rq_Header r ''X-Forwarded-For'' = claimed @ CHR '','' # hop" "CHR '','' \<notin> set hop" "trim_space hop \<noteq> []"
  shows "clientIP e r = stripPort (trim_space hop)"
  using assms by (simp add: clientIP_def Let_def split_char_append_sep split_char_id)

lemma clientIP_untrusted:
  "env_Getenv e ''OPENCUTTLES_TRUST_PROXY_HEADERS'' \<noteq> ''1'' \<Longrightarrow> clientIP e r = stripPort (rq_Remote r)"
  by (simp add: clientIP_def)

lemma stripPort_samples:
  "stripPort ''10.0.0.7:5123'' = ''10.0.0.7''" "stripPort ''[::1]:80'' = ''::1''"
  "stripPort ''::1'' = ''::1''" "stripPort ''host'' = ''host''"
  by code_simp+

end
