(* ===== verification/Catalog.thy ===== *)
theory Catalog
  imports Domain
begin

text \<open>
  The table of Android versions that can be deployed: backend/internal/catalog/android.go.
\<close>

record AndroidVersion =
  ver_ID :: string
  ver_Label :: string
  ver_Branch :: string
  ver_BuildTarget :: string
  ver_Description :: string

definition phone_target :: string where
  "phone_target = ''aosp_cf_x86_64_only_phone-userdebug''"

definition androidVersions :: "AndroidVersion list" where
  "androidVersions =
    [\<lparr>ver_ID = ''latest-release'', ver_Label = ''Android (latest stable release)'',
      ver_Branch = ''aosp-android-latest-release'', ver_BuildTarget = phone_target,
      ver_Description = ''Latest stable AOSP release (currently Android 15/16). Recommended default.''\<rparr>,
     \<lparr>ver_ID = ''aosp-main'', ver_Label = ''Android (preview, aosp-main trunk)'',
      ver_Branch = ''aosp-main'', ver_BuildTarget = phone_target,
      ver_Description = ''Bleeding-edge AOSP trunk; the newest build may occasionally lack artifacts.''\<rparr>,
     \<lparr>ver_ID = ''android14'', ver_Label = ''Android 14 (GSI)'', ver_Branch = ''aosp-android14-gsi'',
      ver_BuildTarget = phone_target, ver_Description = ''Android 14 generic system image.''\<rparr>,
     \<lparr>ver_ID = ''android13'', ver_Label = ''Android 13 (GSI)'', ver_Branch = ''aosp-android13-gsi'',
      ver_BuildTarget = phone_target, ver_Description = ''Android 13 generic system image.''\<rparr>,
     \<lparr>ver_ID = ''android12'', ver_Label = ''Android 12 (GSI)'', ver_Branch = ''aosp-android12-gsi'',
      ver_BuildTarget = phone_target, ver_Description = ''Android 12 generic system image.''\<rparr>]"

definition AndroidVersions :: "AndroidVersion list" where
  "AndroidVersions = androidVersions"

definition Default :: AndroidVersion where
  "Default = hd androidVersions"

definition Lookup :: "string \<Rightarrow> AndroidVersion option" where
  "Lookup k = find (\<lambda>v. ver_ID v = k) androidVersions"

definition DefaultBuild :: "AndroidVersion \<Rightarrow> string" where
  "DefaultBuild v = ver_Branch v @ ''/'' @ ver_BuildTarget v"

lemma version_ids_distinct: "distinct (map ver_ID androidVersions)"
  by code_simp

text \<open>Lookup finds every version of the table by its identifier and nothing else.\<close>

lemma Lookup_iff: "Lookup k = Some v \<longleftrightarrow> v \<in> set AndroidVersions \<and> ver_ID v = k"
proof
  show "Lookup k = Some v \<Longrightarrow> v \<in> set AndroidVersions \<and> ver_ID v = k"
    by (auto simp: Lookup_def AndroidVersions_def find_Some_iff)
next
  assume v: "v \<in> set AndroidVersions \<and> ver_ID v = k"
  then obtain w where w: "Lookup k = Some w"
    by (cases "Lookup k") (auto simp: Lookup_def AndroidVersions_def find_None_iff)
  then have "w \<in> set androidVersions" "ver_ID w = k" by (auto simp: Lookup_def find_Some_iff)
  then show "Lookup k = Some v"
    using v w version_ids_distinct by (auto simp: distinct_map inj_on_def AndroidVersions_def)
qed

end
