(* ===== verification/Api_Devices.thy ===== *)
theory Api_Devices
  imports Api_Base Catalog
begin

text \<open>
  The handlers of backend/internal/api/server.go and runnermtls.go: accounts and sessions, images, devices
  of all three sources, enrollment tokens with the certificate authority of the runners, the
  console, metrics and the static files.  The cryptography of certificates and
  sealed secrets is a parameter; a request that is handed to another server is answered with the
  path that is forwarded.
\<close>

section \<open>Surroundings\<close>

record box =
  box_seal :: "string \<Rightarrow> string res"
  box_open :: "string \<Rightarrow> string res"

record device_json =
  js_bootstrap :: "string \<Rightarrow> (string \<times> string \<times> string \<times> string) option"
  js_login :: "string \<Rightarrow> (string \<times> string) option"
  js_image :: "string \<Rightarrow> CreateImageRequest option"
  js_instance :: "string \<Rightarrow> CreateInstanceRequest option"

record authority =
  ca_generate :: "(string \<times> string) res"
  ca_load :: "string \<Rightarrow> string \<Rightarrow> unit res"
  ca_issue :: "string \<times> string \<Rightarrow> string \<Rightarrow> string res"

record device_env =
  de_api :: api_env
  de_json :: device_json
  de_secrets :: "box option"
  de_ca :: authority

abbreviation de_now :: "device_env \<Rightarrow> time" where "de_now e \<equiv> ae_now (de_api e)"
abbreviation de_rnd :: "device_env \<Rightarrow> nat \<Rightarrow> 8 word list" where "de_rnd e \<equiv> ae_rnd (de_api e)"
abbreviation de_os :: "device_env \<Rightarrow> env" where "de_os e \<equiv> ae_env (de_api e)"
abbreviation de_audit where "de_audit e \<equiv> audit_as (de_api e)"

text \<open>A call of the orchestrator, which works on the database and the log of commands.\<close>

definition orch_do :: "(world \<Rightarrow> 'a res \<times> world) \<Rightarrow> 'a act" where
  "orch_do f = store_do (\<lambda>d. case f \<lparr>w_db = d, w_log = []\<rparr> of (r, w) \<Rightarrow> (r, w_db w))"

section \<open>Accounts and sessions\<close>

definition bootstrapAdmin :: "device_env \<Rightarrow> ctx \<Rightarrow> response act" where
  "bootstrapAdmin e c =
    andThen (limit (de_api e) (''bootstrap:'' @ clientIP (de_os e) (cx_req c)) ''too many bootstrap attempts'') (\<lambda>_.
    andThen (decode (js_bootstrap (de_json e)) ''invalid bootstrap payload'' c) (\<lambda>(token, user, display, password).
      case validateBootstrapToken (de_os e) token of
        Some message \<Rightarrow> refuse (Client 403 message)
      | None \<Rightarrow>
          andThen (or_bad (store_do (BootstrapAdmin (ae_hmac (de_api e)) (de_now e) (de_rnd e 1) (de_rnd e 2)
                     user display password))) (\<lambda>p.
          andThen (audit (de_api e) c p ''bootstrap_admin'' ''user'' (prin_UserID p) ''succeeded'' ''local admin created'') (\<lambda>_.
            answer 201 (PrincipalBody p)))))"

definition login :: "device_env \<Rightarrow> ctx \<Rightarrow> response act" where
  "login e c =
    andThen (limit (de_api e) (''login:'' @ clientIP (de_os e) (cx_req c)) ''too many login attempts'') (\<lambda>_.
    andThen (decode (js_login (de_json e)) ''invalid login payload'' c) (\<lambda>(user, password).
    andThen (try_act (store_do (Login (ae_hmac (de_api e)) (ae_sha (de_api e)) (de_now e) (de_rnd e 1) (de_rnd e 2)
               user password))) (\<lambda>r.
      case r of
        Inl _ \<Rightarrow>
          andThen (audit (de_api e) c (zero_Principal\<lparr>prin_Username := user\<rparr>) ''login'' ''session'' [] ''failed''
                     ''invalid credentials'') (\<lambda>_. refuse (Client 401 ''invalid credentials''))
      | Inr (token, p, expires) \<Rightarrow>
          andThen (audit (de_api e) c p ''login'' ''session'' [] ''succeeded'' ''session created'') (\<lambda>_.
            give ((writeJSON 200 (LoginBody p expires))\<lparr>rsp_Cookie := Some (SetSession token expires)\<rparr>)))))"

definition cookie_token :: "(Principal \<times> string) res \<Rightarrow> string" where
  "cookie_token r = (case r of Inl _ \<Rightarrow> [] | Inr (_, t) \<Rightarrow> t)"

definition logout :: "device_env \<Rightarrow> ctx \<Rightarrow> response act" where
  "logout e c =
    andThen (store_set (\<lambda>d. Logout (ae_sha (de_api e)) (cookie_token (authenticated (de_api e) c d)) d)) (\<lambda>_.
      give ((writeJSON 200 (StatusBody ''ok''))\<lparr>rsp_Cookie := Some ClearSession\<rparr>))"

definition me :: "ctx \<Rightarrow> response act" where
  "me c = (case cx_principal c of
      None \<Rightarrow> refuse (Client 401 ''unauthorized'')
    | Some p \<Rightarrow> answer 200 (PrincipalBody p))"

definition bootstrapStatus :: "response act" where
  "bootstrapStatus =
    andThen (store_get (\<lambda>d. Inr (BootstrapRequired d))) (\<lambda>b.
      answer 200 (StatusBody (if b then ''required'' else ''done'')))"

section \<open>Images\<close>

definition listImages :: "response act" where
  "listImages = andThen (store_get (\<lambda>d. Inr (ListImages d))) (\<lambda>is. answer 200 (ImagesBody is))"

definition remove_dir :: "device_env \<Rightarrow> string \<Rightarrow> bool act" where
  "remove_dir e path s =
    (case ae_removeAll (de_api e) path of
       Some _ \<Rightarrow> (Inr False, s)
     | None \<Rightarrow> (Inr True, s\<lparr>sv_removed := sv_removed s @ [path]\<rparr>))"

definition remove_files :: "device_env \<Rightarrow> string \<Rightarrow> bool act" where
  "remove_files e path =
    (if path = [] \<or> \<not> is_ok (ValidateImagePath (de_os e) (ae_fs (de_api e)) path False) then give False
     else remove_dir e path)"

definition image_error :: "api_error \<Rightarrow> api_error" where
  "image_error x = (case x of
      Other err \<Rightarrow> (if err_is err ErrImageInUse
                   then Client 409 ''image is still used by an instance; delete the instance first'' else x)
    | Client _ _ \<Rightarrow> x)"

definition deleteImage :: "device_env \<Rightarrow> string \<Rightarrow> ctx \<Rightarrow> response act" where
  "deleteImage e k c =
    andThen (try_act (store_do (DeleteImage k))) (\<lambda>r.
      case r of
        Inl x \<Rightarrow> refuse (image_error x)
      | Inr path \<Rightarrow>
          andThen (remove_files e path) (\<lambda>removed.
          andThen (de_audit e c ''delete_image'' ''image'' k (if removed then ''succeeded'' else ''partial'')
                     (if removed then ''image and files removed: '' @ path
                      else ''image row removed but files remain at '' @ path)) (\<lambda>_.
            answer 200 (DeletedBody removed))))"

definition createImage :: "device_env \<Rightarrow> ctx \<Rightarrow> response act" where
  "createImage e c =
    andThen (decode (js_image (de_json e)) ''invalid image payload'' c) (\<lambda>req.
    andThen (check (trim_space (cimg_Name req) \<noteq> [] \<and> trim_space (cimg_Path req) \<noteq> [])
               (badRequest ''image name and path are required'')) (\<lambda>_.
    andThen (store_do (CreateImage (de_os e) (de_now e) (de_rnd e 1) req)) (\<lambda>img.
    andThen (de_audit e c ''create_image'' ''image'' (img_ID img) ''succeeded'' (img_Name img)) (\<lambda>_.
      answer 201 (ImageBody img)))))"

section \<open>The certificate authority of the runners\<close>

definition settingRunnerCACert :: string where
  "settingRunnerCACert = ''runner.ca.cert''"

definition settingRunnerCAKey :: string where
  "settingRunnerCAKey = ''runner.ca.key''"

definition load_ca :: "device_env \<Rightarrow> string \<Rightarrow> string \<Rightarrow> (string \<times> string) res" where
  "load_ca e cert key = (case ca_load (de_ca e) cert key of Inl err \<Rightarrow> Inl err | Inr _ \<Rightarrow> Inr (cert, key))"

definition open_key :: "box \<Rightarrow> string \<Rightarrow> string res" where
  "open_key b sealed =
    (case box_open b sealed of
       Inl err \<Rightarrow> Inl (ErrWrap ''decrypt runner CA key (has OPENCUTTLES_SECRET_KEY changed?): '' err)
     | Inr key \<Rightarrow> Inr key)"

definition mint_ca :: "device_env \<Rightarrow> box \<Rightarrow> db \<Rightarrow> (string \<times> string) res \<times> db" where
  "mint_ca e b d =
    (case ca_generate (de_ca e) of
       Inl err \<Rightarrow> (Inl err, d)
     | Inr (cert, key) \<Rightarrow>
         (case box_seal b key of
            Inl err \<Rightarrow> (Inl (ErrWrap ''seal runner CA key: '' err), d)
          | Inr sealed \<Rightarrow>
              (load_ca e cert key,
               SetSetting (de_now e) settingRunnerCAKey sealed
                 (SetSetting (de_now e) settingRunnerCACert cert d))))"

definition runnerCA :: "device_env \<Rightarrow> db \<Rightarrow> (string \<times> string) res \<times> db" where
  "runnerCA e d =
    (case de_secrets e of
       None \<Rightarrow> (Inl (Err ''runner mTLS needs OPENCUTTLES_SECRET_KEY so the CA key can be encrypted at rest''), d)
     | Some b \<Rightarrow>
         (let cert = GetSetting settingRunnerCACert d; sealed = GetSetting settingRunnerCAKey d
          in if cert \<noteq> [] \<and> sealed \<noteq> []
             then (case open_key b sealed of Inl err \<Rightarrow> (Inl err, d) | Inr key \<Rightarrow> (load_ca e cert key, d))
             else mint_ca e b d))"

definition issueRunnerBundle :: "device_env \<Rightarrow> string \<Rightarrow> db \<Rightarrow> string option res \<times> db" where
  "issueRunnerBundle e deviceID d =
    (if \<not> MTLSEnabled (de_os e) then (Inr None, d)
     else case runnerCA e d of
            (Inl err, d1) \<Rightarrow> (Inl err, d1)
          | (Inr ca, d1) \<Rightarrow>
              (case ca_issue (de_ca e) ca deviceID of
                 Inl err \<Rightarrow> (Inl err, d1)
               | Inr bundle \<Rightarrow> (Inr (Some bundle), d1)))"

text \<open>The address that a runner dials with mutual TLS.\<close>

definition mtlsEndpoint :: "env \<Rightarrow> string \<Rightarrow> string" where
  "mtlsEndpoint e origin =
    (let explicit = trim_space (env_Getenv e ''OPENCUTTLES_RUNNER_MTLS_URL'');
         h0 = (case index_of ''://'' origin of None \<Rightarrow> origin | Some i \<Rightarrow> drop (i + 3) origin);
         host = takeWhile (\<lambda>ch. ch \<noteq> CHR '':'' \<and> ch \<noteq> CHR ''/'') h0;
         addr = mtlsListen e;
         port = (case last_index_char (CHR '':'') addr of None \<Rightarrow> addr | Some i \<Rightarrow> drop (i + 1) addr)
     in if explicit \<noteq> [] then trim_slashes explicit
        else if host = [] \<or> port = [] then []
        else ''https://'' @ host @ '':'' @ port)"

definition enrollmentTLS :: "env \<Rightarrow> string \<times> string" where
  "enrollmentTLS e =
    (trim_slashes (trim_space (env_Getenv e ''OPENCUTTLES_ALLOWED_ORIGIN'')),
     trim_space (env_Getenv e ''OPENCUTTLES_TLS_PIN''))"

section \<open>Devices\<close>

definition isDesktopPlatform :: "string \<Rightarrow> bool" where
  "isDesktopPlatform p = (p = PlatformWindows \<or> p = PlatformLinux \<or> p = PlatformMacOS)"

definition isDesktopInstance :: "Instance \<Rightarrow> bool" where
  "isDesktopInstance i = (Source i = SourceRunner)"

definition newRunnerToken :: "8 word list \<Rightarrow> string" where
  "newRunnerToken bytes = hex_encode bytes"

text \<open>The fields of an enrollment answer: the token once, where to dial, and the client identity.\<close>

definition enroll_fields :: "device_env \<Rightarrow> string \<Rightarrow> string option \<Rightarrow> (string \<times> string) list" where
  "enroll_fields e token bundle =
    (let (origin, pin) = enrollmentTLS (de_os e)
     in [(''enrollmentToken'', token), (''applianceOrigin'', origin), (''appliancePin'', pin)]
        @ (case bundle of None \<Rightarrow> []
           | Some b \<Rightarrow> [(''clientBundle'', b), (''mtlsEndpoint'', mtlsEndpoint (de_os e) origin)]))"

definition onboardDesktop :: "device_env \<Rightarrow> CreateInstanceRequest \<Rightarrow> ctx \<Rightarrow> response act" where
  "onboardDesktop e req c =
    (let token = newRunnerToken (de_rnd e 3) in
     andThen (store_do (CreateDesktopInstance (de_os e) (de_now e) (de_rnd e 1) (de_rnd e 2) (creq_Name req)
                (creq_Platform req) (TokenHash (ae_sha (de_api e)) token))) (\<lambda>i.
     andThen (de_audit e c ''onboard_device'' ''instance'' (inst_ID i) ''accepted'' (creq_Platform req)) (\<lambda>_.
     andThen (store_do (issueRunnerBundle e (inst_ID i))) (\<lambda>bundle.
       answer 201 (EnrollBody (Some i) (enroll_fields e token bundle))))))"

definition registerPhysicalAndroid :: "device_env \<Rightarrow> CreateInstanceRequest \<Rightarrow> ctx \<Rightarrow> response act" where
  "registerPhysicalAndroid e req c =
    andThen (or_bad (store_get (\<lambda>_. ValidateADBTarget (creq_ADBTarget req)))) (\<lambda>_.
    andThen (or_bad (store_do (CreatePhysicalAndroid (de_os e) (de_now e) (de_rnd e 1) (de_rnd e 2)
               (creq_Name req) (creq_ADBTarget req)))) (\<lambda>i.
    andThen (de_audit e c ''register_device'' ''instance'' (inst_ID i) ''succeeded''
               (''physical android '' @ inst_ADBTarget i)) (\<lambda>_.
      answer 201 (InstanceBody i))))"

text \<open>The chosen Android version becomes the image of the request.\<close>

definition version_request :: "device_env \<Rightarrow> CreateInstanceRequest \<Rightarrow> CreateInstanceRequest act" where
  "version_request e req =
    (if trim_space (creq_ImageID req) = [] \<and> trim_space (creq_AndroidVersion req) \<noteq> [] then
       (case Lookup (creq_AndroidVersion req) of
          None \<Rightarrow> refuse (badRequest ''unknown android version'')
        | Some v \<Rightarrow>
            andThen (store_do (GetOrCreateVersionImage (de_os e) (de_now e) (de_rnd e 4) (ver_ID v) (ver_Label v)
                       (DefaultBuild v))) (\<lambda>img.
              give (req\<lparr>creq_ImageID := img_ID img\<rparr>)))
     else give req)"

definition deploy :: "device_env \<Rightarrow> string \<Rightarrow> Operation act" where
  "deploy e k =
    andThen (orch_do (Deploy (de_now e) (de_rnd e 5) k)) (\<lambda>r.
    andThen (spawn (DeployJob k (op_ID r))) (\<lambda>_. give r))"

definition audit_deploy :: "device_env \<Rightarrow> ctx \<Rightarrow> Instance \<Rightarrow> api_error + Operation \<Rightarrow> unit act" where
  "audit_deploy e c i r =
    (case r of
       Inl x \<Rightarrow> de_audit e c ''deploy_instance'' ''instance'' (inst_ID i) ''failed'' (api_text x)
     | Inr _ \<Rightarrow> de_audit e c ''create_instance'' ''instance'' (inst_ID i) ''accepted'' (inst_Name i))"

definition create_virtual :: "device_env \<Rightarrow> CreateInstanceRequest \<Rightarrow> ctx \<Rightarrow> response act" where
  "create_virtual e req0 c =
    andThen (version_request e req0) (\<lambda>req.
    andThen (store_do (CreateInstance (de_os e) (de_now e) (de_rnd e 1) (de_rnd e 2) req)) (\<lambda>i.
    andThen (try_act (deploy e (inst_ID i))) (\<lambda>r.
    andThen (audit_deploy e c i r) (\<lambda>_.
      answer 201 (InstanceBody i)))))"

definition createInstance :: "device_env \<Rightarrow> ctx \<Rightarrow> response act" where
  "createInstance e c =
    andThen (decode (js_instance (de_json e)) ''invalid instance payload'' c) (\<lambda>req.
    andThen (check (trim_space (creq_Name req) \<noteq> []) (badRequest ''instance name is required'')) (\<lambda>_.
      if trim_space (creq_Source req) = SourcePhysical then registerPhysicalAndroid e req c
      else if isDesktopPlatform (creq_Platform req) then onboardDesktop e req c
      else create_virtual e req c))"

definition listInstances :: "response act" where
  "listInstances = andThen (store_get (\<lambda>d. Inr (ListInstances d))) (\<lambda>is. answer 200 (InstancesBody is))"

section \<open>Enrollment tokens\<close>

definition bool_text :: "bool \<Rightarrow> string" where
  "bool_text b = (if b then ''true'' else ''false'')"

definition set_token :: "device_env \<Rightarrow> string \<Rightarrow> string \<Rightarrow> unit act" where
  "set_token e k hash =
    andThen (store_do (\<lambda>d. case SetDesktopTokenHash (de_now e) k hash d of (updated, d') \<Rightarrow> (Inr updated, d'))) (\<lambda>updated.
      check updated (Client 404 ''desktop device not found''))"

definition replaceDesktopToken :: "device_env \<Rightarrow> string \<Rightarrow> bool \<Rightarrow> ctx \<Rightarrow> response act" where
  "replaceDesktopToken e k issueNew c =
    (let token = newRunnerToken (de_rnd e 3);
         hash = (if issueNew then TokenHash (ae_sha (de_api e)) token else []) in
     andThen (store_get (GetInstance k)) (\<lambda>i.
     andThen (check (isDesktopInstance i) (badRequest ''only desktop devices use enrollment tokens'')) (\<lambda>_.
     andThen (set_token e k hash) (\<lambda>_.
     andThen (on_hub (Disconnect k)) (\<lambda>dropped.
     andThen (de_audit e c (if issueNew then ''rotate_runner_token'' else ''revoke_runner_token'') ''instance'' k
                ''succeeded'' (inst_Name i @ '' (live session dropped: '' @ bool_text dropped @ '')'')) (\<lambda>_.
       if issueNew then
         andThen (store_do (issueRunnerBundle e k)) (\<lambda>bundle.
           answer 200 (EnrollBody None ((''sessionDropped'', bool_text dropped) # enroll_fields e token bundle)))
       else answer 200 (RevokedBody dropped)))))))"

definition rotateDesktopToken :: "device_env \<Rightarrow> string \<Rightarrow> ctx \<Rightarrow> response act" where
  "rotateDesktopToken e k c = replaceDesktopToken e k True c"

definition revokeDesktopToken :: "device_env \<Rightarrow> string \<Rightarrow> ctx \<Rightarrow> response act" where
  "revokeDesktopToken e k c = replaceDesktopToken e k False c"

section \<open>The console\<close>

text \<open>The path that the proxy asks the operator for.\<close>

definition console_path :: "string \<Rightarrow> string \<Rightarrow> string" where
  "console_path k path =
    (let p = trim_prefix (''/api/v1/instances/'' @ k @ ''/console'') path in if p = [] then ''/'' else p)"

definition console_page :: "string \<Rightarrow> bool" where
  "console_page path = (has_suffix ''/console'' path \<or> contains ''client.html'' path)"

definition consoleProxy :: "device_env \<Rightarrow> string \<Rightarrow> ctx \<Rightarrow> response act" where
  "consoleProxy e k c =
    andThen (store_get (GetInstance k)) (\<lambda>i.
    andThen (check (inst_State i = StateRunning)
               (Client 409 ''console is available only while the instance is running'')) (\<lambda>_.
    andThen (if console_page (rq_Path (cx_req c))
             then de_audit e c ''open_console'' ''instance'' (inst_ID i) ''succeeded'' ''console proxied''
             else give ()) (\<lambda>_.
      answer 200 (ForwardBody (console_path (inst_ID i) (rq_Path (cx_req c)))))))"

text \<open>
  rewriteConsoleHTML: the references to the root are put under the prefix, in one pass from the left.
\<close>

definition quote_sign :: string where
  "quote_sign = [char_of (34 :: nat)]"

definition tick_sign :: string where
  "tick_sign = [char_of (39 :: nat)]"

definition console_marks :: "string list" where
  "console_marks =
    [''src='' @ quote_sign @ ''/'', ''href='' @ quote_sign @ ''/'', ''src='' @ tick_sign @ ''/'', ''href='' @ tick_sign @ ''/'']"

function rewrite_refs :: "string \<Rightarrow> string \<Rightarrow> string" where
  "rewrite_refs prefix [] = []"
| "rewrite_refs prefix (ch # s) =
    (case find (\<lambda>m. has_prefix m (ch # s)) console_marks of
       None \<Rightarrow> ch # rewrite_refs prefix s
     | Some m \<Rightarrow> butlast m @ prefix @ ''/'' @ rewrite_refs prefix (drop (length m - 1) s))"
  by pat_completeness auto
termination
  by (relation "measure (\<lambda>(p, s). length s)") auto

section \<open>The routes below an instance\<close>

definition provisioned :: "string \<Rightarrow> db \<Rightarrow> Instance option" where
  "provisioned k d = (case GetInstance k d of
      Inl _ \<Rightarrow> None | Inr i \<Rightarrow> if IsProvisioned i then None else Some i)"

definition unless_external :: "string \<Rightarrow> (Instance \<Rightarrow> response act) \<Rightarrow> response act \<Rightarrow> response act" where
  "unless_external k outside inside =
    andThen (store_get (\<lambda>d. Inr (provisioned k d))) (\<lambda>r.
      case r of Some i \<Rightarrow> outside i | None \<Rightarrow> inside)"

definition start_route :: "device_env \<Rightarrow> string \<Rightarrow> ctx \<Rightarrow> response act" where
  "start_route e k c =
    unless_external k (\<lambda>i. answer 202 (AcceptedBody i None))
      (andThen (orch_do (StartInstance (de_now e) (de_rnd e 5) k)) (\<lambda>(i, r).
       andThen (spawn (StartJob k (op_ID r))) (\<lambda>_.
       andThen (de_audit e c ''start_instance'' ''instance'' k ''accepted'' (op_ID r)) (\<lambda>_.
         answer 202 (AcceptedBody i (Some r))))))"

definition stop_route :: "device_env \<Rightarrow> string \<Rightarrow> ctx \<Rightarrow> response act" where
  "stop_route e k c =
    unless_external k (\<lambda>i. answer 202 (AcceptedBody i None))
      (andThen (orch_do (StopInstance (de_now e) (de_rnd e 5) k)) (\<lambda>(i, r).
       andThen (spawn (StopJob i (op_ID r))) (\<lambda>_.
       andThen (de_audit e c ''stop_instance'' ''instance'' k ''accepted'' (op_ID r)) (\<lambda>_.
         answer 202 (AcceptedBody i (Some r))))))"

definition delete_route :: "device_env \<Rightarrow> string \<Rightarrow> ctx \<Rightarrow> response act" where
  "delete_route e k c =
    unless_external k
      (\<lambda>i. andThen (store_do (DeleteInstance k)) (\<lambda>_.
           andThen (de_audit e c ''delete_device'' ''instance'' k ''succeeded'' (inst_Platform i)) (\<lambda>_.
             answer 202 (StatusBody ''deleted''))))
      (andThen (orch_do (DeleteInstance_handler (de_now e) (de_rnd e 5) k)) (\<lambda>(i, r).
       andThen (spawn (DeleteJob i (op_ID r))) (\<lambda>_.
       andThen (de_audit e c ''delete_instance'' ''instance'' k ''accepted'' (op_ID r)) (\<lambda>_.
         answer 202 (OperationBody r)))))"

definition console_route :: "device_env \<Rightarrow> string \<Rightarrow> ctx \<Rightarrow> response act" where
  "console_route e k c =
    andThen (check (HasPermission (principalFromContext c) PermissionOpenConsole) (Client 403 ''console access denied''))
      (\<lambda>_. consoleProxy e k c)"

definition instance_action :: "device_env \<Rightarrow> string \<Rightarrow> string \<Rightarrow> string \<Rightarrow> ctx \<Rightarrow> response act" where
  "instance_action e method k action c =
    (if method = ''GET'' \<and> action = [] then
       andThen (store_get (GetInstance k)) (\<lambda>i. answer 200 (InstanceBody i))
     else if method = ''GET'' \<and> action = ''console'' then console_route e k c
     else if method = ''POST'' \<and> action = ''start'' then start_route e k c
     else if method = ''POST'' \<and> action = ''stop'' then stop_route e k c
     else if method = ''DELETE'' \<and> action = [] then delete_route e k c
     else refuse (notFound ''route not found''))"

definition instanceRoute :: "device_env \<Rightarrow> ctx \<Rightarrow> response act" where
  "instanceRoute e c =
    (case splitInstancePath (rq_Path (cx_req c)) of (k, action) \<Rightarrow>
       if k = [] then refuse (badRequest ''missing instance id'')
       else instance_action e (rq_Method (cx_req c)) k action c)"

definition listOperations :: "response act" where
  "listOperations = andThen (store_get (\<lambda>d. Inr (ListOperations d))) (\<lambda>os. answer 200 (OperationsBody os))"

definition listAudit :: "response act" where
  "listAudit = andThen (store_get (\<lambda>d. Inr (ListAuditEvents 100 d))) (\<lambda>es. answer 200 (AuditBody es))"

section \<open>Runner downloads\<close>

definition authorizeRunnerDownload :: "device_env \<Rightarrow> ctx \<Rightarrow> db \<Rightarrow> bool" where
  "authorizeRunnerDownload e c d =
    (authenticateRunner (de_api e) (cx_req c) d \<noteq> None
     \<or> (case authenticated (de_api e) c d of Inl _ \<Rightarrow> False | Inr (p, _) \<Rightarrow> HasPermission p PermissionOperate))"

definition runnerBuildArtifact :: "device_env \<Rightarrow> string \<Rightarrow> ctx \<Rightarrow> response act" where
  "runnerBuildArtifact e k c s =
    (if authenticateRunner (de_api e) (cx_req c) (sv_db s) = None
     then refuse (Client 401 ''runner token required'') s
     else andThen (store_get (GetBuild k)) (\<lambda>b.
          andThen (check (bld_Path b \<noteq> []) (badRequest ''build has no stored artifact'')) (\<lambda>_.
            answer 200 (FileBody (bld_Path b)))) s)"

section \<open>Metrics\<close>

record tally_state =
  ms_running :: int
  ms_passed :: int
  ms_failed :: int
  ms_totals :: CycleTotals
  ms_seen :: "string list"
  ms_duration :: int

definition add_totals :: "CycleTotals \<Rightarrow> CycleTotals \<Rightarrow> CycleTotals" where
  "add_totals a b =
    \<lparr>tot_Cases = tot_Cases a + tot_Cases b, tot_Pass = tot_Pass a + tot_Pass b, tot_Fail = tot_Fail a + tot_Fail b,
     tot_Blocked = tot_Blocked a + tot_Blocked b, tot_NotRun = tot_NotRun a + tot_NotRun b\<rparr>"

text \<open>The duration of a run in nanoseconds, when it is positive.\<close>

definition run_duration :: "CycleRun \<Rightarrow> int" where
  "run_duration r = (case crun_FinishedAt r of None \<Rightarrow> 0 | Some f \<Rightarrow> max 0 (f - crun_StartedAt r))"

definition tally_run :: "CycleRun \<Rightarrow> tally_state \<Rightarrow> tally_state" where
  "tally_run r m =
    (if crun_Status r = ''running'' then m\<lparr>ms_running := ms_running m + 1\<rparr>
     else if crun_CycleID r \<in> set (ms_seen m) then m
     else m\<lparr>ms_seen := crun_CycleID r # ms_seen m,
            ms_passed := ms_passed m + (if crun_Status r = ''passed'' then 1 else 0),
            ms_failed := ms_failed m + (if crun_Status r = ''passed'' then 0 else 1),
            ms_totals := add_totals (ms_totals m) (crun_Totals r),
            ms_duration := (if ms_duration m = 0 then run_duration r else ms_duration m)\<rparr>)"

definition tally_runs :: "CycleRun list \<Rightarrow> tally_state" where
  "tally_runs rs = foldl (\<lambda>m r. tally_run r m)
     \<lparr>ms_running = 0, ms_passed = 0, ms_failed = 0, ms_totals = zero_CycleTotals, ms_seen = [], ms_duration = 0\<rparr> rs"

text \<open>The figures in the order in which they are printed, the duration in nanoseconds.\<close>

definition writeTestMetrics :: "db \<Rightarrow> (string \<times> int) list" where
  "writeTestMetrics d =
    (let m = tally_runs (ListCycleRuns d); t = ms_totals m; cs = ListTestCycles d
     in [(''opencuttles_test_cases_total'', int (length (ListTestCases d))),
         (''opencuttles_test_cycles_total'', int (length cs)),
         (''opencuttles_test_cycles_enabled'', int (length (filter cyc_Enabled cs))),
         (''opencuttles_cycle_runs_running'', ms_running m),
         (''opencuttles_cycle_last_run_status{passed}'', ms_passed m),
         (''opencuttles_cycle_last_run_status{failed}'', ms_failed m),
         (''opencuttles_cycle_cases{pass}'', tot_Pass t),
         (''opencuttles_cycle_cases{fail}'', tot_Fail t),
         (''opencuttles_cycle_cases{blocked}'', tot_Blocked t),
         (''opencuttles_cycle_cases{notrun}'', tot_NotRun t),
         (''opencuttles_cycle_last_run_duration_seconds'', ms_duration m)])"

definition metrics :: "int \<Rightarrow> response act" where
  "metrics cpus =
    andThen (store_get (\<lambda>d. Inr d)) (\<lambda>d.
      let is = ListInstances d in
      answer 200 (CountsBody
        ([(''opencuttles_host_cpu_count'', cpus), (''opencuttles_instances_total'', int (length is)),
          (''opencuttles_instances_running'', int (length (filter (\<lambda>i. inst_State i = StateRunning) is)))]
         @ writeTestMetrics d)))"

section \<open>Static files and the middleware\<close>

definition static_name :: "string \<Rightarrow> string" where
  "static_name path = (let n = trim_prefix ''/'' (clean (''/'' @ path)) in if n = [] then ''index.html'' else n)"

text \<open>The asset, or the page of the application for any path that is not one.\<close>

definition asset_or_index :: "(string \<Rightarrow> string option) \<Rightarrow> string \<Rightarrow> response act" where
  "asset_or_index files name =
    (case files name of
       Some data \<Rightarrow> answer 200 (PageBody data)
     | None \<Rightarrow> (case files ''index.html'' of
                  None \<Rightarrow> refuse (notFound ''not found'')
                | Some data \<Rightarrow> answer 200 (PageBody data)))"

definition serveStatic :: "(string \<Rightarrow> string option) option \<Rightarrow> ctx \<Rightarrow> response act" where
  "serveStatic assets c =
    (if has_prefix ''/api/'' (rq_Path (cx_req c)) then refuse (notFound ''route not found'')
     else case assets of
            None \<Rightarrow> refuse (notFound ''frontend is not built into this binary'')
          | Some files \<Rightarrow>
              if rq_Method (cx_req c) \<noteq> ''GET'' \<and> rq_Method (cx_req c) \<noteq> ''HEAD''
              then refuse (notFound ''route not found'')
              else asset_or_index files (static_name (rq_Path (cx_req c))))"

definition newRequestID :: "8 word list \<Rightarrow> string" where
  "newRequestID bytes = hex_encode bytes"

text \<open>withMiddleware without the headers: preflight requests end here.\<close>

definition request_ctx :: "api_env \<Rightarrow> request \<Rightarrow> ctx" where
  "request_ctx e r =
    \<lparr>cx_req = r,
     cx_id = (if rq_Header r ''X-Request-ID'' = [] then newRequestID (ae_rnd e 9) else rq_Header r ''X-Request-ID''),
     cx_principal = None\<rparr>"

definition withMiddleware :: "api_env \<Rightarrow> (ctx \<Rightarrow> response act) \<Rightarrow> request \<Rightarrow> response act" where
  "withMiddleware e h r =
    (if rq_Method r = ''OPTIONS'' then answer 204 NoBody else h (request_ctx e r))"

section \<open>What the handlers do to the database\<close>

abbreviation de_step :: "device_env \<Rightarrow> db \<Rightarrow> db \<Rightarrow> bool" where
  "de_step e \<equiv> db_step (ae_hmac (de_api e)) (ae_sha (de_api e))"

lemma one_fleet: "fleet_step d d' \<Longrightarrow> (db_step hmac sha)\<^sup>*\<^sup>* d d'"
  by (auto intro: db_step.on_fleet)

lemma one_test: "tests_step d d' \<Longrightarrow> (db_step hmac sha)\<^sup>*\<^sup>* d d'"
  by (auto intro: db_step.on_tests)

lemma one_account: "auth_step hmac sha d d' \<Longrightarrow> (db_step hmac sha)\<^sup>*\<^sup>* d d'"
  by (auto intro: db_step.on_accounts)

lemma two_steps: "R\<^sup>*\<^sup>* a b \<Longrightarrow> R\<^sup>*\<^sup>* b c \<Longrightarrow> R\<^sup>*\<^sup>* a c" by (rule rtranclp_trans)

lemma operation_then_state:
  assumes "CreateOperation now rnd k actn msg d = (r, d1)" "UpdateInstanceState now k st err d1 = (r', d2)"
  shows "(db_step hmac sha)\<^sup>*\<^sup>* d d1" "(db_step hmac sha)\<^sup>*\<^sup>* d d2"
proof -
  have "fleet_step d d1" using fleet_step.create_operation[of d now rnd k actn msg] assms(1) by simp
  then show d1: "(db_step hmac sha)\<^sup>*\<^sup>* d d1" by (rule one_fleet)
  have "fleet_step d1 d2" using fleet_step.update_state[of d1 now k st err] assms(2) by simp
  then show "(db_step hmac sha)\<^sup>*\<^sup>* d d2" using d1 one_fleet two_steps by metis
qed

lemma CreateOperation_steps:
  "CreateOperation now rnd k actn msg d = (r, d1) \<Longrightarrow> (db_step hmac sha)\<^sup>*\<^sup>* d d1"
  using fleet_step.create_operation[of d now rnd k actn msg] by (intro one_fleet) simp

lemma orch_moves:
  "moves (db_step hmac sha) (orch_do (StartInstance now rnd k))"
  "moves (db_step hmac sha) (orch_do (StopInstance now rnd k))"
  "moves (db_step hmac sha) (orch_do (DeleteInstance_handler now rnd k))"
  "moves (db_step hmac sha) (orch_do (Deploy now rnd k))"
  unfolding orch_do_def
  by (rule all.moves_do; auto simp: StartInstance_def StopInstance_def DeleteInstance_handler_def Deploy_def
      split: sum.splits prod.splits dest: operation_then_state CreateOperation_steps)+

lemma on_fleet_moves: "(\<And>d. fleet_step d (snd (f d))) \<Longrightarrow> moves (db_step hmac sha) (store_do f)"
  by (rule all.moves_do) (rule one_fleet)

lemma on_account_moves: "(\<And>d. auth_step hmac sha d (snd (f d))) \<Longrightarrow> moves (db_step hmac sha) (store_do f)"
  by (rule all.moves_do) (rule one_account)

lemma mint_ca_steps: "(db_step hmac sha)\<^sup>*\<^sup>* d (snd (mint_ca e b d))"
proof -
  have "(db_step hmac sha)\<^sup>*\<^sup>* d (SetSetting now k v (SetSetting now k' v' d))" for now k v k' v'
    by (rule two_steps[OF one_account[OF auth_step.setting] one_account[OF auth_step.setting]])
  then show ?thesis by (simp add: mint_ca_def split: sum.split prod.split)
qed

lemma bundle_steps: "(db_step hmac sha)\<^sup>*\<^sup>* d (snd (issueRunnerBundle e k d))"
proof -
  have "(db_step hmac sha)\<^sup>*\<^sup>* d (snd (runnerCA e d))"
    by (simp add: runnerCA_def Let_def mint_ca_steps split: option.split sum.split)
  then have "runnerCA e d = (r, d1) \<Longrightarrow> (db_step hmac sha)\<^sup>*\<^sup>* d d1" for r d1 by simp
  then show ?thesis by (auto simp: issueRunnerBundle_def split: sum.split prod.split)
qed

lemma remove_files_moves: "moves R (remove_files e path)"
  by (rule moves_same) (auto simp: remove_files_def remove_dir_def give_def split: option.split)

lemmas device_rules = all.rules orch_moves remove_files_moves
  on_fleet_moves[OF fleet_step.create_image] on_fleet_moves[OF fleet_step.delete_image]
  on_fleet_moves[OF fleet_step.version_image] on_fleet_moves[OF fleet_step.create_instance]
  on_fleet_moves[OF fleet_step.create_physical] on_fleet_moves[OF fleet_step.create_desktop]
  on_fleet_moves[OF fleet_step.delete_instance] all.moves_do[OF bundle_steps]
  on_account_moves[OF auth_step.bootstrap] on_account_moves[OF auth_step.login]

lemma image_moves: "moves (de_step e) (deleteImage e k c)" "moves (de_step e) (createImage e c)"
  unfolding deleteImage_def createImage_def by (intro device_rules)+

lemma account_moves:
  "moves (de_step e) (bootstrapAdmin e c)" "moves (de_step e) (login e c)" "moves (de_step e) (logout e c)"
  unfolding bootstrapAdmin_def login_def logout_def
  by (intro device_rules all.moves_set one_account auth_step.logout)+

lemma create_moves: "moves (de_step e) (createInstance e c)"
  unfolding createInstance_def registerPhysicalAndroid_def onboardDesktop_def create_virtual_def version_request_def
    deploy_def audit_deploy_def Let_def
  by (intro device_rules)

lemma token_moves: "moves (de_step e) (replaceDesktopToken e k n c)"
proof -
  have "moves (de_step e) (set_token e k h)" for h
    unfolding set_token_def
  proof (intro device_rules on_fleet_moves)
    fix d
    show "fleet_step d (snd (case SetDesktopTokenHash (de_now e) k h d of (updated, d') \<Rightarrow> (Inr updated, d')))"
      using fleet_step.set_token[of d "de_now e" k h] by (cases "SetDesktopTokenHash (de_now e) k h d") simp
  qed
  then show ?thesis unfolding replaceDesktopToken_def Let_def by (intro device_rules)
qed

lemma route_moves: "moves (de_step e) (instanceRoute e c)"
  unfolding instanceRoute_def instance_action_def unless_external_def start_route_def stop_route_def delete_route_def
    console_route_def consoleProxy_def
  by (intro device_rules)

lemma read_moves:
  "moves (de_step e) listImages" "moves (de_step e) listInstances" "moves (de_step e) listOperations"
  "moves (de_step e) listAudit" "moves (de_step e) bootstrapStatus" "moves (de_step e) (metrics n)"
  "moves (de_step e) (me c)" "moves (de_step e) (serveStatic a c)"
  unfolding listImages_def listInstances_def listOperations_def listAudit_def bootstrapStatus_def metrics_def me_def
    serveStatic_def asset_or_index_def
  by (unfold Let_def) (intro device_rules)+

lemma artifact_moves: "moves (de_step e) (runnerBuildArtifact e k c)"
proof (rule movesI)
  fix s
  have "moves (de_step e) (andThen (store_get (GetBuild k)) (\<lambda>b.
          andThen (check (bld_Path b \<noteq> []) (badRequest ''build has no stored artifact'')) (\<lambda>_.
            answer 200 (FileBody (bld_Path b)))))"
    by (intro device_rules)
  then show "(de_step e)\<^sup>*\<^sup>* (sv_db s) (sv_db (snd (runnerBuildArtifact e k c s)))"
    by (simp add: runnerBuildArtifact_def refuse_def moves_def)
qed

end
