(* ===== verification/Secret_Box.thy ===== *)
theory Secret_Box
  imports Device_Control
begin

text \<open>
  backend/internal/secretbox/secretbox.go: secrets at rest, sealed with AES-256-GCM under a master key.  The cipher of
  the standard library is the parameter gcm (seal and open under a key and a nonce); the random
  nonce is an argument of Seal.
\<close>

type_synonym bytes = "8 word list"

record gcm =
  gcm_seal :: "bytes \<Rightarrow> bytes \<Rightarrow> bytes \<Rightarrow> bytes"
  gcm_open :: "bytes \<Rightarrow> bytes \<Rightarrow> bytes \<Rightarrow> bytes option"

definition nonce_size :: nat where
  "nonce_size = 12"

definition text_of :: "bytes \<Rightarrow> string" where
  "text_of bs = map (\<lambda>b. char_of (unat b)) bs"

text \<open>base64.StdEncoding.EncodeToString, with the padding.\<close>

definition std_encode :: "bytes \<Rightarrow> string" where
  "std_encode bs =
    (let t = b64_encode std_alphabet bs
     in t @ replicate ((4 - length t mod 4) mod 4) (CHR ''=''))"

definition ErrNoKey :: go_error where
  "ErrNoKey = Err ''secretbox: no master key configured''"

definition New_box :: "string \<Rightarrow> bytes res" where
  "New_box base64Key =
    (if base64Key = [] then Inl ErrNoKey
     else case std_decode base64Key of
            Inl err \<Rightarrow> Inl (ErrWrap ''secretbox: decode key: '' err)
          | Inr key \<Rightarrow>
              if length key \<noteq> 32
              then Inl (Err (''secretbox: key must be 32 bytes, got '' @ nat_text (length key)))
              else Inr (bytes_of key))"

definition Seal :: "gcm \<Rightarrow> bytes \<Rightarrow> bytes \<Rightarrow> string \<Rightarrow> string res" where
  "Seal g key nonce plaintext =
    Inr (std_encode (nonce @ gcm_seal g key nonce (bytes_of plaintext)))"

definition open_raw :: "gcm \<Rightarrow> bytes \<Rightarrow> bytes \<Rightarrow> string res" where
  "open_raw g key raw =
    (if length raw < nonce_size then Inl (Err ''secretbox: ciphertext too short'')
     else case gcm_open g key (take nonce_size raw) (drop nonce_size raw) of
            None \<Rightarrow> Inl (ErrWrap ''secretbox: open: '' (Err ''cipher: message authentication failed''))
          | Some plain \<Rightarrow> Inr (text_of plain))"

definition Open :: "gcm \<Rightarrow> bytes \<Rightarrow> string \<Rightarrow> string res" where
  "Open g key token =
    (case std_decode token of
       Inl err \<Rightarrow> Inl (ErrWrap ''secretbox: decode token: '' err)
     | Inr raw \<Rightarrow> open_raw g key (bytes_of raw))"

section \<open>What is sealed can be opened\<close>

lemma byte_char: "word_of_nat (of_char (char_of (unat b) :: char)) = (b :: 8 word)"
  using unat_byte[of b] by simp

lemma char_byte: "char_of (unat (word_of_nat (of_char c) :: 8 word)) = (c :: char)"
proof -
  have "unat (word_of_nat (of_char c) :: 8 word) = of_char c"
    by (simp add: unat_of_nat)
  then show ?thesis by simp
qed

lemma bytes_of_text: "bytes_of (text_of bs) = bs"
  by (induction bs) (simp_all add: bytes_of_def text_of_def byte_char del: char_of_mod_256 of_char_of)

lemma text_of_bytes: "text_of (bytes_of s) = s"
  by (induction s) (simp_all add: bytes_of_def text_of_def char_byte)

lemma trim_pad:
  assumes "CHR ''='' \<notin> set t" "n \<le> 2"
  shows "trim_suffix ''='' (trim_suffix ''='' (t @ replicate n (CHR ''=''))) = t"
proof -
  have no: "\<not> has_suffix ''='' t" using assms(1) by (cases t rule: rev_cases) (auto simp: has_suffix_def has_prefix_def)
  have yes: "trim_suffix ''='' (u @ ''='') = u" for u by (simp add: trim_suffix_def has_suffix_def has_prefix_def)
  have "n = 0 \<or> n = 1 \<or> n = 2" using assms(2) by auto
  then show ?thesis
    using no yes[of t] yes[of "t @ ''=''"] by (auto simp: trim_suffix_def numeral_2_eq_2)
qed

lemma b64_groups_length: "length (b64_groups bs) mod 4 \<noteq> 1"
proof (induction bs rule: b64_groups.induct)
  case (4 a b c r)
  have "length (b64_groups (a # b # c # r)) = length (b64_groups r) + 4" by simp
  then show ?case using 4 by (simp only: mod_add_self2 simp_thms)
qed simp_all

lemma padding:
  fixes m :: nat
  assumes "m mod 4 \<noteq> 1"
  shows "(4 - m mod 4) mod 4 \<le> 2" "(m + (4 - m mod 4) mod 4) mod 4 = 0"
proof -
  have r: "m mod 4 \<in> {0, 2, 3}" using assms mod_less_divisor[of 4 m] by fastforce
  then show "(4 - m mod 4) mod 4 \<le> 2" by auto
  have "(m + k) mod 4 = (m mod 4 + k) mod 4" for k by (simp add: mod_add_left_eq)
  then show "(m + (4 - m mod 4) mod 4) mod 4 = 0" using r by auto
qed

lemma std_decode_encode: "std_decode (std_encode bs) = Inr (text_of bs)"
proof -
  define t where "t = b64_encode std_alphabet bs"
  define n where "n = (4 - length t mod 4) mod 4"
  have "length t mod 4 \<noteq> 1" using b64_groups_length[of bs] by (simp add: t_def b64_encode_def)
  then have n: "n \<le> 2" "(length t + n) mod 4 = 0"
    unfolding n_def using padding[of "length t"] by blast+
  have alph: "CHR ''='' \<notin> set std_alphabet" "CHR 0x0A \<notin> set std_alphabet" "CHR 0x0D \<notin> set std_alphabet"
    by code_simp+
  then have no: "CHR ''='' \<notin> set t" "CHR 0x0A \<notin> set t" "CHR 0x0D \<notin> set t"
    using b64_encode_set unfolding t_def by blast+
  have e: "std_encode bs = t @ replicate n (CHR ''='')" by (simp add: std_encode_def t_def n_def Let_def)
  have "filter (\<lambda>c. c \<noteq> CHR 0x0A \<and> c \<noteq> CHR 0x0D) (std_encode bs) = std_encode bs"
    unfolding e using no(2,3) by (auto simp: filter_id_conv)
  moreover have "trim_suffix ''='' (trim_suffix ''='' (std_encode bs)) = t"
    unfolding e by (rule trim_pad[OF no(1) n(1)])
  moreover have "length (std_encode bs) mod 4 = 0" unfolding e using n(2) by simp
  ultimately show ?thesis
    by (simp add: std_decode_def Let_def t_def b64_roundtrip text_of_def)
qed

text \<open>What the code relies on: GCM opens what it sealed under the same key and nonce.\<close>

definition gcm_ok :: "gcm \<Rightarrow> bool" where
  "gcm_ok g = (\<forall>key nonce p. gcm_open g key nonce (gcm_seal g key nonce p) = Some p)"

lemma sealed_opens:
  "gcm_ok g \<Longrightarrow> length nonce = nonce_size \<Longrightarrow> Seal g key nonce secret = Inr token \<Longrightarrow> Open g key token = Inr secret"
  by (auto simp: Seal_def Open_def open_raw_def std_decode_encode bytes_of_text text_of_bytes gcm_ok_def)

lemma sealed_nonempty: "nonce \<noteq> [] \<Longrightarrow> Seal g key nonce secret = Inr token \<Longrightarrow> token \<noteq> []"
  by (cases nonce; cases "tl nonce"; cases "tl (tl nonce)"; cases "gcm_seal g key nonce (bytes_of secret)"; cases "tl (gcm_seal g key nonce (bytes_of secret))")
    (auto simp: Seal_def std_encode_def b64_encode_def Let_def)

definition toy_gcm :: gcm where
  "toy_gcm = \<lparr>gcm_seal = (\<lambda>key nonce p. map (\<lambda>b. b + of_nat (length key)) p @ [7]),
     gcm_open = (\<lambda>key nonce c. if c = [] then None else Some (map (\<lambda>b. b - of_nat (length key)) (butlast c)))\<rparr>"

lemma toy_gcm_ok: "gcm_ok toy_gcm"
  by (simp add: gcm_ok_def toy_gcm_def comp_def)

lemma Open_short: "std_decode token = Inr raw \<Longrightarrow> length raw < nonce_size \<Longrightarrow> \<not> is_ok (Open g key token)"
  by (simp add: Open_def open_raw_def bytes_of_def)

end
