(* ===== verification/Api_Settings.thy ===== *)
theory Api_Settings
  imports Api_Devices Secret_Box
begin

text \<open>
  The settings of an administrator: the model of the agent (api/agentmodel.go) and the webhook for
  finished cycle runs (api/notifications.go and notify/notify.go).  The JSON of the stored rows and of the requests,
  the parser of addresses and the HTTP client are parameters; what is sent to another host is recorded
  in the server.  Secrets are sealed by a box (Secret_Box) when a master key is configured.
\<close>

section \<open>Data\<close>

record storedAgentModel =
  sam_ProviderID :: string
  sam_API :: string
  sam_BaseURL :: string
  sam_Model :: string
  sam_Headers :: "(string \<times> string) list"
  sam_KeyCiphertext :: string

definition zero_agentModel :: storedAgentModel where
  "zero_agentModel = \<lparr>sam_ProviderID = [], sam_API = [], sam_BaseURL = [], sam_Model = [], sam_Headers = [],
     sam_KeyCiphertext = []\<rparr>"

record agentModelUpdate =
  amu_ProviderID :: string
  amu_API :: string
  amu_BaseURL :: string
  amu_Model :: string
  amu_Headers :: "(string \<times> string) list"
  amu_APIKey :: "string option"

record modelPreset =
  preset_Label :: string
  preset_ProviderID :: string
  preset_API :: string
  preset_BaseURL :: string
  preset_Model :: string
  preset_NeedsKey :: bool

record storedWebhook =
  hook_URL :: string
  hook_OnlyOnFailure :: bool
  hook_SecretHeader :: string
  hook_SecretCiphertext :: string

definition zero_webhook :: storedWebhook where
  "zero_webhook = \<lparr>hook_URL = [], hook_OnlyOnFailure = False, hook_SecretHeader = [], hook_SecretCiphertext = []\<rparr>"

record notificationsUpdate =
  nu_URL :: string
  nu_OnlyOnFailure :: bool
  nu_SecretHeader :: string
  nu_Secret :: "string option"

record Payload =
  pl_Event :: string
  pl_CycleRunID :: string
  pl_CycleID :: string
  pl_CycleName :: string
  pl_Status :: string
  pl_Trigger :: string
  pl_Totals :: CycleTotals
  pl_StartedAt :: time
  pl_FinishedAt :: "time option"

text \<open>Reading and writing the rows, the address parser (scheme and host), and the HTTP client.\<close>

record settings_env =
  se_api :: api_env
  se_secrets :: "box option"
  se_readModel :: "string \<Rightarrow> storedAgentModel res"
  se_writeModel :: "storedAgentModel \<Rightarrow> string res"
  se_readHook :: "string \<Rightarrow> storedWebhook res"
  se_writeHook :: "storedWebhook \<Rightarrow> string res"
  se_modelUpdate :: "string \<Rightarrow> agentModelUpdate option"
  se_hookUpdate :: "string \<Rightarrow> notificationsUpdate option"
  se_url :: "string \<Rightarrow> (string \<times> string) option"
  se_payload :: "Payload \<Rightarrow> string"
  se_newRequest :: "string \<Rightarrow> go_error option"
  se_withKey :: "string \<Rightarrow> string \<Rightarrow> string"
  se_do :: "string \<Rightarrow> (string \<times> string) list \<Rightarrow> int res"

abbreviation se_now :: "settings_env \<Rightarrow> time" where "se_now e \<equiv> ae_now (se_api e)"
abbreviation se_audit where "se_audit e \<equiv> audit_as (se_api e)"

section \<open>The model of the agent\<close>

definition agentModelSettingKey :: string where
  "agentModelSettingKey = ''agent.model''"

definition supportedAPIs :: "string list" where
  "supportedAPIs =
    [''openai-completions'', ''openai-responses'', ''azure-openai-responses'', ''anthropic-messages'',
     ''google-generative-ai'']"

definition agentModelPresets :: "modelPreset list" where
  "agentModelPresets =
    [\<lparr>preset_Label = ''Ollama (local)'', preset_ProviderID = ''ollama'', preset_API = ''openai-completions'',
      preset_BaseURL = ''http://127.0.0.1:11434/v1'', preset_Model = ''openbmb/minicpm5'', preset_NeedsKey = False\<rparr>,
     \<lparr>preset_Label = ''OpenAI'', preset_ProviderID = ''openai'', preset_API = ''openai-responses'',
      preset_BaseURL = ''https://api.openai.com/v1'', preset_Model = ''gpt-4o-mini'', preset_NeedsKey = True\<rparr>,
     \<lparr>preset_Label = ''Anthropic'', preset_ProviderID = ''anthropic'', preset_API = ''anthropic-messages'',
      preset_BaseURL = ''https://api.anthropic.com/v1'', preset_Model = ''claude-3-5-haiku-latest'',
      preset_NeedsKey = True\<rparr>,
     \<lparr>preset_Label = ''Google Gemini'', preset_ProviderID = ''google'', preset_API = ''google-generative-ai'',
      preset_BaseURL = ''https://generativelanguage.googleapis.com/v1beta'', preset_Model = ''gemini-1.5-flash'',
      preset_NeedsKey = True\<rparr>,
     \<lparr>preset_Label = ''Azure OpenAI'', preset_ProviderID = ''azure'', preset_API = ''azure-openai-responses'',
      preset_BaseURL = [], preset_Model = [], preset_NeedsKey = True\<rparr>,
     \<lparr>preset_Label = ''OpenAI-compatible (custom)'', preset_ProviderID = ''custom'', preset_API = ''openai-completions'',
      preset_BaseURL = [], preset_Model = [], preset_NeedsKey = False\<rparr>]"

definition isSupportedAPI :: "string \<Rightarrow> bool" where
  "isSupportedAPI api = list_ex (\<lambda>a. a = api) supportedAPIs"

definition loadAgentModel :: "settings_env \<Rightarrow> db \<Rightarrow> storedAgentModel res" where
  "loadAgentModel e d =
    (let raw = GetSetting agentModelSettingKey d
     in if raw = [] then Inr zero_agentModel else se_readModel e raw)"

definition header_field :: "(string \<times> string) list \<Rightarrow> field" where
  "header_field hs = MapField (map (\<lambda>(k, v). (k, TextField v)) hs)"

definition preset_field :: "modelPreset \<Rightarrow> field" where
  "preset_field p = MapField
    [(''label'', TextField (preset_Label p)), (''providerId'', TextField (preset_ProviderID p)),
     (''api'', TextField (preset_API p)), (''baseUrl'', TextField (preset_BaseURL p)),
     (''model'', TextField (preset_Model p)), (''needsKey'', BoolField (preset_NeedsKey p))]"

definition model_answer :: "settings_env \<Rightarrow> storedAgentModel \<Rightarrow> body" where
  "model_answer e cfg = AnswerBody
    [(''providerId'', TextField (sam_ProviderID cfg)), (''api'', TextField (sam_API cfg)),
     (''baseUrl'', TextField (sam_BaseURL cfg)), (''model'', TextField (sam_Model cfg)),
     (''headers'', header_field (sam_Headers cfg)), (''keySet'', BoolField (sam_KeyCiphertext cfg \<noteq> [])),
     (''secretStorageEnabled'', BoolField (se_secrets e \<noteq> None)),
     (''supportedApis'', ListField (map TextField supportedAPIs)),
     (''presets'', ListField (map preset_field agentModelPresets))]"

definition getAgentModel :: "settings_env \<Rightarrow> response act" where
  "getAgentModel e = andThen (store_get (loadAgentModel e)) (\<lambda>cfg. answer 200 (model_answer e cfg))"

definition trimmed_model :: "agentModelUpdate \<Rightarrow> agentModelUpdate" where
  "trimmed_model u = u\<lparr>amu_ProviderID := trim_space (amu_ProviderID u), amu_Model := trim_space (amu_Model u),
     amu_BaseURL := trim_space (amu_BaseURL u)\<rparr>"

definition check_model :: "agentModelUpdate \<Rightarrow> unit act" where
  "check_model u =
    andThen (check (amu_ProviderID u \<noteq> [] \<and> CHR ''/'' \<notin> set (amu_ProviderID u))
               (Client 400 (''providerId is required and must not contain '' @ tick_sign @ ''/'' @ tick_sign))) (\<lambda>_.
    andThen (check (isSupportedAPI (amu_API u)) (Client 400 (''unsupported api: '' @ amu_API u))) (\<lambda>_.
      check (amu_Model u \<noteq> []) (Client 400 ''model is required'')))"

text \<open>A secret is tri-state: absent keeps what is stored, empty clears it, a value replaces it.\<close>

definition next_secret :: "settings_env \<Rightarrow> string \<Rightarrow> string option \<Rightarrow> string \<Rightarrow> string act" where
  "next_secret e message given stored =
    (case given of
       None \<Rightarrow> give stored
     | Some [] \<Rightarrow> give []
     | Some (ch # rest) \<Rightarrow>
         (case se_secrets e of
            None \<Rightarrow> refuse (Client 400 message)
          | Some b \<Rightarrow> store_get (\<lambda>_. box_seal b (ch # rest))))"

definition no_key_storage :: string where
  "no_key_storage = ''secret storage is not configured; set OPENCUTTLES_SECRET_KEY to store an API key''"

definition next_model :: "agentModelUpdate \<Rightarrow> string \<Rightarrow> storedAgentModel" where
  "next_model u ciphertext =
    \<lparr>sam_ProviderID = amu_ProviderID u, sam_API = amu_API u, sam_BaseURL = amu_BaseURL u, sam_Model = amu_Model u,
     sam_Headers = amu_Headers u, sam_KeyCiphertext = ciphertext\<rparr>"

definition save_setting :: "settings_env \<Rightarrow> string \<Rightarrow> string \<Rightarrow> unit act" where
  "save_setting e k v = store_set (SetSetting (se_now e) k v)"

definition putAgentModel :: "settings_env \<Rightarrow> ctx \<Rightarrow> response act" where
  "putAgentModel e c =
    andThen (decode (se_modelUpdate e) ''invalid request body'' c) (\<lambda>u0.
     let u = trimmed_model u0 in
    andThen (check_model u) (\<lambda>_.
    andThen (store_get (loadAgentModel e)) (\<lambda>existing.
    andThen (next_secret e no_key_storage (amu_APIKey u) (sam_KeyCiphertext existing)) (\<lambda>ciphertext.
    andThen (store_get (\<lambda>_. se_writeModel e (next_model u ciphertext))) (\<lambda>blob.
    andThen (save_setting e agentModelSettingKey blob) (\<lambda>_.
    andThen (se_audit e c ''update_agent_model'' ''settings'' agentModelSettingKey ''succeeded''
               (amu_ProviderID u @ ''/'' @ amu_Model u)) (\<lambda>_.
      getAgentModel e)))))))"

definition opened :: "settings_env \<Rightarrow> string \<Rightarrow> string" where
  "opened e ciphertext =
    (case se_secrets e of
       None \<Rightarrow> []
     | Some b \<Rightarrow> if ciphertext = [] then []
                 else (case box_open b ciphertext of Inl _ \<Rightarrow> [] | Inr k \<Rightarrow> k))"

definition runtime_answer :: "settings_env \<Rightarrow> storedAgentModel \<Rightarrow> body" where
  "runtime_answer e cfg = AnswerBody
    [(''configured'', BoolField (sam_ProviderID cfg \<noteq> [] \<and> sam_Model cfg \<noteq> [])),
     (''providerId'', TextField (sam_ProviderID cfg)), (''api'', TextField (sam_API cfg)),
     (''baseUrl'', TextField (sam_BaseURL cfg)), (''model'', TextField (sam_Model cfg)),
     (''headers'', header_field (sam_Headers cfg)), (''apiKey'', TextField (opened e (sam_KeyCiphertext cfg)))]"

definition getAgentRuntime :: "settings_env \<Rightarrow> response act" where
  "getAgentRuntime e = andThen (store_get (loadAgentModel e)) (\<lambda>cfg. answer 200 (runtime_answer e cfg))"

section \<open>Testing a provider\<close>

definition endpoint_norm :: "string \<Rightarrow> string" where
  "endpoint_norm s = to_lower (trim_slashes (trim_space s))"

definition sameEndpoint :: "string \<Rightarrow> string \<Rightarrow> bool" where
  "sameEndpoint a b = (endpoint_norm a \<noteq> [] \<and> endpoint_norm a = endpoint_norm b)"

text \<open>The key that a test uses.\<close>

definition stored_key :: "settings_env \<Rightarrow> string \<Rightarrow> db \<Rightarrow> string" where
  "stored_key e baseURL d =
    (case loadAgentModel e d of
       Inl _ \<Rightarrow> []
     | Inr cfg \<Rightarrow> if sameEndpoint (sam_BaseURL cfg) baseURL then opened e (sam_KeyCiphertext cfg) else [])"

definition test_key :: "settings_env \<Rightarrow> agentModelUpdate \<Rightarrow> string \<Rightarrow> db \<Rightarrow> string" where
  "test_key e u baseURL d =
    (case amu_APIKey u of
       Some (ch # rest) \<Rightarrow> ch # rest
     | _ \<Rightarrow> stored_key e baseURL d)"

text \<open>The request of probeProvider, with the key where the protocol wants it.\<close>

definition probe_request :: "settings_env \<Rightarrow> string \<Rightarrow> string \<Rightarrow> string \<Rightarrow> string \<times> (string \<times> string) list" where
  "probe_request e api baseURL key =
    (let address = trim_slashes baseURL @ ''/models'' in
     if api = ''anthropic-messages'' then
       (address, (if key = [] then [] else [(''x-api-key'', key)]) @ [(''anthropic-version'', ''2023-06-01'')])
     else if api = ''google-generative-ai'' then
       (if key = [] then address else se_withKey e address key, [])
     else (address, if key = [] then [] else [(''Authorization'', ''Bearer '' @ key)]))"

definition probe_verdict :: "int res \<Rightarrow> bool \<times> string" where
  "probe_verdict r =
    (case r of
       Inl err \<Rightarrow> (False, ''could not reach the endpoint: '' @ err_text err)
     | Inr st \<Rightarrow>
         if st < 400 then (True, ''connected (HTTP '' @ itoa st @ '')'')
         else if st = 401 \<or> st = 403
         then (False, ''reached the endpoint but authentication failed '' @ em_dash @ '' check the API key'')
         else (False, ''endpoint returned HTTP '' @ itoa st))"

definition probeProvider :: "settings_env \<Rightarrow> string \<Rightarrow> string \<Rightarrow> string \<Rightarrow> (bool \<times> string) act" where
  "probeProvider e api baseURL key s =
    (if baseURL = [] then (Inr (False, ''set a base URL to test the connection''), s)
     else case se_newRequest e (trim_slashes baseURL @ ''/models'') of
            Some err \<Rightarrow> (Inr (False, err_text err), s)
          | None \<Rightarrow>
              (case probe_request e api baseURL key of
                 (address, headers) \<Rightarrow>
                   (Inr (probe_verdict (se_do e address headers)),
                    s\<lparr>sv_out := sv_out s @ [(address, headers, [])]\<rparr>)))"

definition testAgentModel :: "settings_env \<Rightarrow> ctx \<Rightarrow> response act" where
  "testAgentModel e c =
    andThen (decode (se_modelUpdate e) ''invalid request body'' c) (\<lambda>u.
     let baseURL = trim_space (amu_BaseURL u) in
    andThen (store_get (\<lambda>d. Inr (test_key e u baseURL d))) (\<lambda>key.
    andThen (probeProvider e (amu_API u) baseURL key) (\<lambda>(ok, message).
      answer 200 (AnswerBody [(''ok'', BoolField ok), (''message'', TextField message)]))))"

section \<open>The model for the rest of the server\<close>

record llm_config =
  llm_API :: string
  llm_BaseURL :: string
  llm_Model :: string
  llm_Key :: string
  llm_Headers :: "(string \<times> string) list"

definition llm_of :: "settings_env \<Rightarrow> storedAgentModel \<Rightarrow> llm_config" where
  "llm_of e cfg =
    \<lparr>llm_API = sam_API cfg, llm_BaseURL = sam_BaseURL cfg, llm_Model = sam_Model cfg,
     llm_Key = opened e (sam_KeyCiphertext cfg), llm_Headers = sam_Headers cfg\<rparr>"

definition specCompleter :: "settings_env \<Rightarrow> db \<Rightarrow> llm_config res" where
  "specCompleter e d =
    (case loadAgentModel e d of
       Inl err \<Rightarrow> Inl err
     | Inr cfg \<Rightarrow>
         if sam_BaseURL cfg = [] \<or> sam_Model cfg = []
         then Inl (Err (''no model is configured '' @ em_dash @ '' set one in Settings before generating cases''))
         else Inr (llm_of e cfg))"

definition vision_unsupported :: go_error where
  "vision_unsupported = Err ''llmvision: provider api not supported for vision''"

definition vision_config :: "settings_env \<Rightarrow> db \<Rightarrow> llm_config res" where
  "vision_config e d =
    (case loadAgentModel e d of
       Inl err \<Rightarrow> Inl err
     | Inr cfg \<Rightarrow> if sam_ProviderID cfg = [] \<or> sam_Model cfg = [] then Inl vision_unsupported
                  else Inr (llm_of e cfg))"

section \<open>The webhook\<close>

definition notifyWebhookSettingKey :: string where
  "notifyWebhookSettingKey = ''notify.webhook''"

definition loadWebhook :: "settings_env \<Rightarrow> db \<Rightarrow> storedWebhook res" where
  "loadWebhook e d =
    (let raw = GetSetting notifyWebhookSettingKey d
     in if raw = [] then Inr zero_webhook else se_readHook e raw)"

definition hook_answer :: "settings_env \<Rightarrow> storedWebhook \<Rightarrow> body" where
  "hook_answer e cfg = AnswerBody
    [(''url'', TextField (hook_URL cfg)), (''onlyOnFailure'', BoolField (hook_OnlyOnFailure cfg)),
     (''secretHeader'', TextField (hook_SecretHeader cfg)),
     (''secretSet'', BoolField (hook_SecretCiphertext cfg \<noteq> [])),
     (''secretStorageEnabled'', BoolField (se_secrets e \<noteq> None))]"

definition getNotifications :: "settings_env \<Rightarrow> response act" where
  "getNotifications e = andThen (store_get (loadWebhook e)) (\<lambda>cfg. answer 200 (hook_answer e cfg))"

definition good_url :: "settings_env \<Rightarrow> string \<Rightarrow> bool" where
  "good_url e u =
    (u = [] \<or> (case se_url e u of
       None \<Rightarrow> False
     | Some (scheme, host) \<Rightarrow> (scheme = ''http'' \<or> scheme = ''https'') \<and> host \<noteq> []))"

definition no_hook_storage :: string where
  "no_hook_storage = ''secret storage is not configured; set OPENCUTTLES_SECRET_KEY to store a webhook secret''"

definition putNotifications :: "settings_env \<Rightarrow> ctx \<Rightarrow> response act" where
  "putNotifications e c =
    andThen (decode (se_hookUpdate e) ''invalid request body'' c) (\<lambda>u.
     let url = trim_space (nu_URL u) in
    andThen (check (good_url e url) (badRequest ''url must be a valid http(s) URL'')) (\<lambda>_.
    andThen (store_get (loadWebhook e)) (\<lambda>existing.
    andThen (next_secret e no_hook_storage (nu_Secret u) (hook_SecretCiphertext existing)) (\<lambda>ciphertext.
    andThen (store_get (\<lambda>_. se_writeHook e \<lparr>hook_URL = url, hook_OnlyOnFailure = nu_OnlyOnFailure u,
               hook_SecretHeader = trim_space (nu_SecretHeader u), hook_SecretCiphertext = ciphertext\<rparr>)) (\<lambda>blob.
    andThen (save_setting e notifyWebhookSettingKey blob) (\<lambda>_.
    andThen (se_audit e c ''update_notifications'' ''settings'' notifyWebhookSettingKey ''succeeded'' url) (\<lambda>_.
      getNotifications e)))))))"

definition PayloadFromRun :: "CycleRun \<Rightarrow> Payload" where
  "PayloadFromRun run =
    \<lparr>pl_Event = ''cycle_run.finished'', pl_CycleRunID = crun_ID run, pl_CycleID = crun_CycleID run,
     pl_CycleName = crun_CycleName run, pl_Status = crun_Status run, pl_Trigger = crun_Trigger run,
     pl_Totals = crun_Totals run, pl_StartedAt = crun_StartedAt run, pl_FinishedAt = crun_FinishedAt run\<rparr>"

definition send_headers :: "string \<Rightarrow> string \<Rightarrow> (string \<times> string) list" where
  "send_headers header secret =
    (''Content-Type'', ''application/json'') # (if header \<noteq> [] \<and> secret \<noteq> [] then [(header, secret)] else [])"

definition Send :: "settings_env \<Rightarrow> storedWebhook \<Rightarrow> string \<Rightarrow> Payload \<Rightarrow> server \<Rightarrow> unit res \<times> server" where
  "Send e cfg secret payload s =
    (if hook_URL cfg = [] then (Inr (), s)
     else case se_newRequest e (hook_URL cfg) of
            Some err \<Rightarrow> (Inl err, s)
          | None \<Rightarrow>
              (let headers = send_headers (hook_SecretHeader cfg) secret;
                   s' = s\<lparr>sv_out := sv_out s @ [(hook_URL cfg, headers, se_payload e payload)]\<rparr>
               in case se_do e (hook_URL cfg) headers of
                    Inl err \<Rightarrow> (Inl err, s')
                  | Inr st \<Rightarrow> if 300 \<le> st then (Inl (Err (''webhook returned '' @ itoa st)), s') else (Inr (), s')))"

text \<open>The goroutine of CycleFinished; its error is only logged.\<close>

definition CycleFinished :: "settings_env \<Rightarrow> CycleRun \<Rightarrow> server \<Rightarrow> server" where
  "CycleFinished e run s =
    (case loadWebhook e (sv_db s) of
       Inl _ \<Rightarrow> s
     | Inr cfg \<Rightarrow>
         if hook_URL cfg = [] \<or> (hook_OnlyOnFailure cfg \<and> crun_Status run = ''passed'') then s
         else snd (Send e cfg (opened e (hook_SecretCiphertext cfg)) (PayloadFromRun run) s))"

section \<open>What the handlers do to the database\<close>

abbreviation se_step :: "settings_env \<Rightarrow> db \<Rightarrow> db \<Rightarrow> bool" where
  "se_step e \<equiv> db_step (ae_hmac (se_api e)) (ae_sha (se_api e))"

lemma secret_moves: "moves R (next_secret e m given stored)"
  by (rule moves_same)
    (simp add: next_secret_def give_def refuse_def store_get_def split: option.split list.split)

lemma probe_moves: "moves R (probeProvider e api b k)"
  by (rule moves_same) (simp add: probeProvider_def split: option.split prod.split)

lemma save_moves: "moves (db_step hmac sha) (save_setting e k v)"
  unfolding save_setting_def by (rule all.moves_set) (rule one_account, rule auth_step.setting)

lemma settings_moves:
  "moves (se_step e) (getAgentModel e)" "moves (se_step e) (putAgentModel e c)" "moves (se_step e) (getAgentRuntime e)"
  "moves (se_step e) (testAgentModel e c)" "moves (se_step e) (getNotifications e)"
  "moves (se_step e) (putNotifications e c)"
  unfolding putAgentModel_def putNotifications_def getAgentModel_def getNotifications_def getAgentRuntime_def
    testAgentModel_def check_model_def Let_def
  by (intro all.rules secret_moves probe_moves save_moves)+

lemma CycleFinished_db: "sv_db (CycleFinished e run s) = sv_db s"
  by (simp add: CycleFinished_def Send_def Let_def split: sum.split option.split)

section \<open>The stored key stays with its endpoint\<close>

lemma probeProvider_out:
  "sv_out (snd (probeProvider e api b key s)) = sv_out s
   \<or> sv_out (snd (probeProvider e api b key s))
      = sv_out s @ [(fst (probe_request e api b key), snd (probe_request e api b key), [])]"
  by (simp add: probeProvider_def split: option.split prod.split)

lemma testAgentModel_out:
  assumes "se_modelUpdate e (rq_Body (cx_req c)) = Some u"
  shows "sv_out (snd (testAgentModel e c s))
    = sv_out (snd (probeProvider e (amu_API u) (trim_space (amu_BaseURL u))
        (test_key e u (trim_space (amu_BaseURL u)) (sv_db s)) s))"
  by (simp add: testAgentModel_def decode_def assms andThen_fst give_def store_get_def Let_def answer_def
      split: sum.split prod.split)


section \<open>What is saved is what the agent gets\<close>

lemma audit_settings: "db_settings (snd (CreateAuditEvent now rnd ev d)) = db_settings d"
  by (simp add: CreateAuditEvent_def Let_def split: sum.split)

lemma GetSetting_audit: "GetSetting k (snd (CreateAuditEvent now rnd ev d)) = GetSetting k d"
  by (simp add: GetSetting_def audit_settings)

lemma next_secret_same: "snd (next_secret e m given stored s) = s"
  by (simp add: next_secret_def give_def refuse_def store_get_def split: option.split list.split)

lemma ran_next:
  "andThen (next_secret e m given stored) f s = (Inr x, s')
    \<longleftrightarrow> (\<exists>ct. next_secret e m given stored s = (Inr ct, s) \<and> f ct s = (Inr x, s'))"
  using next_secret_same[of e m given stored s]
  by (cases "next_secret e m given stored s"; cases "fst (next_secret e m given stored s)") (auto simp: andThen_def)

text \<open>What the code relies on: the JSON of a stored configuration is not empty and is read back as it was
  written, and a sealed secret is not empty and opens.\<close>

definition json_ok :: "settings_env \<Rightarrow> bool" where
  "json_ok e = (\<forall>m t. se_writeModel e m = Inr t \<longrightarrow> t \<noteq> [] \<and> se_readModel e t = Inr m)"

definition box_ok :: "settings_env \<Rightarrow> bool" where
  "box_ok e = (\<forall>b p t. se_secrets e = Some b \<longrightarrow> box_seal b p = Inr t \<longrightarrow> t \<noteq> [] \<and> box_open b t = Inr p)"

lemma next_secret_opens:
  assumes "box_ok e" "next_secret e m given stored s = (Inr ct, s')"
  shows "s' = s" "opened e ct = (case given of None \<Rightarrow> opened e stored | Some k \<Rightarrow> k)"
proof -
  show "s' = s" using assms(2)
    by (auto simp: next_secret_def give_def refuse_def store_get_Inr split: option.splits list.splits)
  show "opened e ct = (case given of None \<Rightarrow> opened e stored | Some k \<Rightarrow> k)"
  proof (cases given)
    case (Some k)
    then show ?thesis using assms
      by (cases k; cases "se_secrets e")
        (auto simp: next_secret_def give_def refuse_def store_get_Inr opened_def box_ok_def)
  qed (use assms(2) in \<open>simp add: next_secret_def give_def\<close>)
qed

text \<open>The configuration that an update leaves, up to how its key is stored.\<close>

definition updated_model :: "settings_env \<Rightarrow> agentModelUpdate \<Rightarrow> storedAgentModel \<Rightarrow> storedAgentModel \<Rightarrow> bool" where
  "updated_model e u old cfg =
    (sam_ProviderID cfg = trim_space (amu_ProviderID u) \<and> sam_API cfg = amu_API u
     \<and> sam_BaseURL cfg = trim_space (amu_BaseURL u) \<and> sam_Model cfg = trim_space (amu_Model u)
     \<and> sam_Headers cfg = amu_Headers u
     \<and> opened e (sam_KeyCiphertext cfg) = (case amu_APIKey u of None \<Rightarrow> opened e (sam_KeyCiphertext old) | Some k \<Rightarrow> k))"

lemma putAgentModel_saves:
  assumes "json_ok e" "box_ok e" "putAgentModel e c s = (Inr r, s')"
  obtains u old cfg where "se_modelUpdate e (rq_Body (cx_req c)) = Some u" "loadAgentModel e (sv_db s) = Inr old"
    "loadAgentModel e (sv_db s') = Inr cfg" "updated_model e u old cfg" "r = writeJSON 200 (model_answer e cfg)"
proof -
  from assms(3) obtain u0 old ct s1 blob where u0: "se_modelUpdate e (rq_Body (cx_req c)) = Some u0"
    and old: "loadAgentModel e (sv_db s) = Inr old"
    and ct: "next_secret e no_key_storage (amu_APIKey u0) (sam_KeyCiphertext old) s = (Inr ct, s1)"
    and blob: "se_writeModel e (next_model (trimmed_model u0) ct) = Inr blob"
    and shown: "loadAgentModel e (sv_db s') = Inr (next_model (trimmed_model u0) ct) \<longrightarrow>
      r = writeJSON 200 (model_answer e (next_model (trimmed_model u0) ct))"
    and saved: "GetSetting agentModelSettingKey (sv_db s') = blob"
    by (auto simp: putAgentModel_def Let_def ran check_model_def save_setting_def getAgentModel_def ran_next
        trimmed_model_def GetSetting_audit GetSetting_SetSetting)
  have l: "loadAgentModel e (sv_db s') = Inr (next_model (trimmed_model u0) ct)"
    using assms(1) blob saved by (simp add: loadAgentModel_def json_ok_def)
  have "updated_model e u0 old (next_model (trimmed_model u0) ct)"
    using next_secret_opens(2)[OF assms(2) ct]
    by (simp add: updated_model_def next_model_def trimmed_model_def split: option.splits)
  then show ?thesis using that[OF u0 old l] shown l by blast
qed

text \<open>After an accepted update of the model, the agent gets exactly the submitted configuration, with
  the key that was submitted, none when it was cleared, and the one from before when none was given; and
  what the administrator is shown is built from the stored configuration without the key.\<close>

theorem model_settings_round_trip:
  assumes "json_ok e" "box_ok e" "putAgentModel e c s = (Inr r, s')"
  shows "\<exists>u old cfg. se_modelUpdate e (rq_Body (cx_req c)) = Some u \<and> loadAgentModel e (sv_db s) = Inr old
    \<and> updated_model e u old cfg \<and> r = writeJSON 200 (model_answer e cfg)
    \<and> fst (getAgentRuntime e s') = Inr (writeJSON 200 (runtime_answer e cfg))"
proof -
  from putAgentModel_saves[OF assms] obtain u old cfg where
    "se_modelUpdate e (rq_Body (cx_req c)) = Some u" "loadAgentModel e (sv_db s) = Inr old"
    "loadAgentModel e (sv_db s') = Inr cfg" "updated_model e u old cfg" "r = writeJSON 200 (model_answer e cfg)" .
  moreover from this have "fst (getAgentRuntime e s') = Inr (writeJSON 200 (runtime_answer e cfg))"
    by (simp add: getAgentRuntime_def andThen_fst store_get_def answer_def give_def)
  ultimately show ?thesis by blast
qed

text \<open>The answer for the administrator is the same for every key and every box.\<close>

lemma model_answer_hides:
  "(k = []) = (k' = []) \<Longrightarrow> (se_secrets e = None) = (se_secrets e' = None) \<Longrightarrow>
    model_answer e (cfg\<lparr>sam_KeyCiphertext := k\<rparr>) = model_answer e' (cfg\<lparr>sam_KeyCiphertext := k'\<rparr>)"
  by (simp add: model_answer_def)

text \<open>An update that gives no key keeps the stored one whatever address it names, and from then on a test at
  that address sends the key there.\<close>

lemma stored_key_follows_the_address:
  assumes "updated_model e u old cfg" "amu_APIKey u = None" "loadAgentModel e d = Inr cfg"
    "endpoint_norm (trim_space (amu_BaseURL u)) \<noteq> []"
  shows "stored_key e (trim_space (amu_BaseURL u)) d = opened e (sam_KeyCiphertext old)"
  using assms by (simp add: stored_key_def updated_model_def sameEndpoint_def)

text \<open>The box of the server (Secret_Box) is such a box.\<close>

lemma secret_box_ok:
  assumes "gcm_ok g" "length nonce = nonce_size"
    "se_secrets e = Some \<lparr>box_seal = Seal g key nonce, box_open = Open g key\<rparr>"
  shows "box_ok e"
proof -
  have "nonce \<noteq> []" using assms(2) by (auto simp: nonce_size_def)
  then show ?thesis using sealed_opens[OF assms(1,2)] sealed_nonempty assms(3) by (auto simp: box_ok_def)
qed

section \<open>A sample configuration\<close>

definition sample_api :: api_env where
  "sample_api = \<lparr>ae_env = \<lparr>env_Getenv = (\<lambda>_. []), env_Cwd = ''/''\<rparr>, ae_fs = sample_fs, ae_now = 5, ae_rnd = (\<lambda>n. [of_nat n]),
     ae_hmac = (\<lambda>_ m. m), ae_sha = (\<lambda>m. m), ae_mcpToken = [], ae_removeAll = (\<lambda>_. None)\<rparr>"

definition sample_update :: agentModelUpdate where
  "sample_update = \<lparr>amu_ProviderID = ''openai'', amu_API = ''openai-responses'', amu_BaseURL = ''https://api.openai.com/v1'',
     amu_Model = ''gpt-4o-mini'', amu_Headers = [], amu_APIKey = Some ''sk-1''\<rparr>"

definition sample_box :: box where
  "sample_box = \<lparr>box_seal = (\<lambda>p. Inr (''sealed:'' @ p)), box_open = (\<lambda>t. Inr (drop 7 t))\<rparr>"

definition sample_stored :: storedAgentModel where
  "sample_stored = next_model sample_update (case box_seal sample_box ''sk-1'' of Inr t \<Rightarrow> t | Inl _ \<Rightarrow> [])"

definition sample_settings :: settings_env where
  "sample_settings = \<lparr>se_api = sample_api, se_secrets = Some sample_box,
     se_readModel = (\<lambda>t. if t = ''{}'' then Inr sample_stored else Inl (Err ''json'')),
     se_writeModel = (\<lambda>m. if m = sample_stored then Inr ''{}'' else Inl (Err ''json'')),
     se_readHook = (\<lambda>_. Inl (Err ''json'')), se_writeHook = (\<lambda>_. Inl (Err ''json'')),
     se_modelUpdate = (\<lambda>b. Some (if b = ''test'' then sample_update\<lparr>amu_BaseURL := ''https://evil.example'', amu_APIKey := None\<rparr>
                                else sample_update)),
     se_hookUpdate = (\<lambda>_. None), se_url = (\<lambda>_. None), se_payload = (\<lambda>_. []), se_newRequest = (\<lambda>_. None),
     se_withKey = (\<lambda>u _. u), se_do = (\<lambda>_ _. Inr 200)\<rparr>"

definition sample_ctx :: "string \<Rightarrow> ctx" where
  "sample_ctx b = \<lparr>cx_req = \<lparr>rq_Method = ''POST'', rq_Path = ''/'', rq_Header = (\<lambda>_. []), rq_Remote = ''10.0.0.7:1'', rq_Cookie = None,
     rq_Query = (\<lambda>_. None), rq_Body = b, rq_Cert = None\<rparr>, cx_id = ''r1'', cx_principal = None\<rparr>"

definition idle_server :: "db \<Rightarrow> server" where
  "idle_server d = \<lparr>sv_db = d, sv_hub = new_hub, sv_attempts = Map.empty, sv_removed = [], sv_written = [],
     sv_sent = [], sv_out = [], sv_jobs = []\<rparr>"

definition saved_server :: server where
  "saved_server = snd (putAgentModel sample_settings (sample_ctx ''put'') (idle_server empty_db))"

lemma sample_secrets: "se_secrets sample_settings = Some sample_box"
  by (simp add: sample_settings_def)

lemma sample_box_ok: "box_ok sample_settings"
  by (auto simp: box_ok_def sample_secrets sample_box_def)

lemma sample_json_ok: "json_ok sample_settings"
  by (simp add: json_ok_def sample_settings_def)

lemma sample_saved:
  obtains r where "putAgentModel sample_settings (sample_ctx ''put'') (idle_server empty_db) = (Inr r, saved_server)"
proof -
  have "case fst (putAgentModel sample_settings (sample_ctx ''put'') (idle_server empty_db)) of Inl _ \<Rightarrow> False | Inr _ \<Rightarrow> True"
    by code_simp
  then show ?thesis using that
    by (cases "putAgentModel sample_settings (sample_ctx ''put'') (idle_server empty_db)")
      (auto simp: saved_server_def split: sum.splits)
qed

theorem model_settings_round_trip_witness:
  "\<exists>cfg. sam_Model cfg = ''gpt-4o-mini'' \<and> opened sample_settings (sam_KeyCiphertext cfg) = ''sk-1''
    \<and> fst (getAgentRuntime sample_settings saved_server) = Inr (writeJSON 200 (runtime_answer sample_settings cfg))"
proof -
  obtain r where p: "putAgentModel sample_settings (sample_ctx ''put'') (idle_server empty_db) = (Inr r, saved_server)"
    by (rule sample_saved)
  have u: "se_modelUpdate sample_settings (rq_Body (cx_req (sample_ctx ''put''))) = Some sample_update" by code_simp
  have t: "trim_space (amu_Model sample_update) = ''gpt-4o-mini''" "amu_APIKey sample_update = Some ''sk-1''" by code_simp+
  from model_settings_round_trip[OF sample_json_ok sample_box_ok p]
  obtain v old cfg where v: "se_modelUpdate sample_settings (rq_Body (cx_req (sample_ctx ''put''))) = Some v"
    "updated_model sample_settings v old cfg"
    "fst (getAgentRuntime sample_settings saved_server) = Inr (writeJSON 200 (runtime_answer sample_settings cfg))"
    by blast
  have "v = sample_update" using v(1) u by (metis option.inject)
  then have "sam_Model cfg = ''gpt-4o-mini''" "opened sample_settings (sam_KeyCiphertext cfg) = ''sk-1''"
    using v(2) t by (simp_all only: updated_model_def option.case)
  then show ?thesis using v(3) by blast
qed

lemma probeProvider_sends:
  "se_newRequest e (trim_slashes b @ ''/models'') = None \<Longrightarrow> b \<noteq> [] \<Longrightarrow>
    sv_out (snd (probeProvider e api b key s)) \<noteq> sv_out s"
  by (simp add: probeProvider_def split: prod.split)


end
