(* ===== verification/Mcp.thy ===== *)
theory Mcp
  imports Device_Control Store_Tests
begin

text \<open>
  The tools the agent drives devices with, backend/internal/mcp/server.go.  The service keeps
  the active device and, per device, the case run that step results belong to.  A
  tool call picks its device, acts through the device control service and answers.  The
  state of a call is the database, the service and the trace of device requests; one call is
  atomic here, calls of several agents interleave in Cycle_Interleaving.  The vision models,
  the header of a PNG and the writing of a file are parameters (tool_env); a
  located point is the map from a width and height to pixels.
\<close>

record boundRun =
  br_runID :: string
  br_runDir :: string
  br_steps :: nat
  br_stepTexts :: "string list"

record mcp =
  mcp_active :: string
  mcp_runs :: "string \<rightharpoonup> boundRun"

definition new_mcp :: mcp where
  "new_mcp = \<lparr>mcp_active = [], mcp_runs = Map.empty\<rparr>"

record tool_env =
  te_dev :: dev_env
  te_sink :: bool
  te_vision :: bool
  te_locate :: "string \<Rightarrow> string \<Rightarrow> (int \<Rightarrow> int \<Rightarrow> int \<times> int) list res"
  te_caption :: "string \<Rightarrow> string \<Rightarrow> string res"
  te_vqa :: "(string \<Rightarrow> string \<Rightarrow> string res) option"
  te_png :: "string \<Rightarrow> (int \<times> int) res"
  te_write :: "string \<Rightarrow> bool"

record tools =
  tl_db :: db
  tl_mcp :: mcp
  tl_trace :: "request list"

type_synonym 'a tool = "tools \<Rightarrow> 'a res \<times> tools"

definition SetActive :: "string \<Rightarrow> mcp \<Rightarrow> mcp" where
  "SetActive iid s = s\<lparr>mcp_active := iid\<rparr>"

definition BindRun :: "string \<Rightarrow> string \<Rightarrow> string \<Rightarrow> string list \<Rightarrow> mcp \<Rightarrow> mcp" where
  "BindRun deviceID runID runDir stepTexts s =
    s\<lparr>mcp_runs := (mcp_runs s)(deviceID \<mapsto>
        \<lparr>br_runID = runID, br_runDir = runDir, br_steps = 0, br_stepTexts = stepTexts\<rparr>)\<rparr>"

definition UnbindRun :: "string \<Rightarrow> mcp \<Rightarrow> mcp" where
  "UnbindRun deviceID s = s\<lparr>mcp_runs := (mcp_runs s)(deviceID := None)\<rparr>"

section \<open>Which device a call acts on\<close>

definition no_such_device :: "string \<Rightarrow> go_error" where
  "no_such_device explicit = Err (''no device with id '' @ go_quote explicit @
     '' '' @ em_dash @ '' do not guess or invent device ids. You already operate on the active device, so omit deviceId. '' @
     ''Only use list_devices/select_device when the user names a specific other device'')"

definition no_active_device :: go_error where
  "no_active_device =
    Err ''no active device selected; call select_device with a device id (list_devices to see options)''"

definition resolveDevice :: "string \<Rightarrow> db \<Rightarrow> mcp \<Rightarrow> string res" where
  "resolveDevice explicit d s =
    (if explicit \<noteq> [] then
       (case GetInstance explicit d of Inl _ \<Rightarrow> Inl (no_such_device explicit) | Inr _ \<Rightarrow> Inr explicit)
     else if mcp_active s \<noteq> [] then Inr (mcp_active s)
     else case filter (\<lambda>i. inst_State i = StateRunning \<or> inst_State i = StateOnline) (ListInstances d) of
            [i] \<Rightarrow> Inr (inst_ID i)
          | _ \<Rightarrow> Inl no_active_device)"

definition requireAndroidDevice :: "string \<Rightarrow> db \<Rightarrow> unit res" where
  "requireAndroidDevice iid d =
    (case GetInstance iid d of
       Inl err \<Rightarrow> Inl err
     | Inr i \<Rightarrow>
         (if inst_Platform i \<noteq> [] \<and> inst_Platform i \<noteq> PlatformAndroid
          then Inl (Err (''this device is a '' @ inst_Platform i @
            '' DESKTOP, not Android '' @ em_dash @ '' this particular tool (package launch / accessibility UI tree) is Android-only. '' @
            ''Instead: OPEN an app with open_app {name}; LIST apps with list_apps; READ the screen with ask_screen; '' @
            ''CLICK with tap_element. Those all work on this desktop''))
          else Inr ()))"

text \<open>The tools of the service as actions.\<close>

definition target :: "string \<Rightarrow> string tool" where
  "target explicit s = (resolveDevice explicit (tl_db s) (tl_mcp s), s)"

definition android_only :: "string \<Rightarrow> unit tool" where
  "android_only iid s = (requireAndroidDevice iid (tl_db s), s)"

definition instance_of :: "string \<Rightarrow> Instance tool" where
  "instance_of iid s = (GetInstance iid (tl_db s), s)"

definition device_act :: "(db \<Rightarrow> 'a act) \<Rightarrow> 'a tool" where
  "device_act m s = (case m (tl_db s) (tl_trace s) of (r, tr) \<Rightarrow> (r, s\<lparr>tl_trace := tr\<rparr>))"

section \<open>Devices\<close>

record deviceInfo =
  di_ID :: string
  di_Name :: string
  di_Platform :: string
  di_State :: string
  di_DeviceID :: string
  di_Android :: string

definition info_of :: "Instance \<Rightarrow> deviceInfo" where
  "info_of i = \<lparr>di_ID = inst_ID i, di_Name = inst_Name i, di_Platform = inst_Platform i,
     di_State = inst_State i, di_DeviceID = inst_DeviceID i, di_Android = inst_AndroidVersion i\<rparr>"

definition tool_list_devices :: "deviceInfo list tool" where
  "tool_list_devices s = (Inr (map info_of (ListInstances (tl_db s))), s)"

definition tool_select_device :: "string \<Rightarrow> deviceInfo tool" where
  "tool_select_device deviceID s =
    (case GetInstance deviceID (tl_db s) of
       Inl err \<Rightarrow> (Inl err, s)
     | Inr i \<Rightarrow> (Inr (info_of i), s\<lparr>tl_mcp := SetActive (inst_ID i) (tl_mcp s)\<rparr>))"

definition tool_get_active_device :: "deviceInfo tool" where
  "tool_get_active_device = bnd (target []) (\<lambda>iid. bnd (instance_of iid) (\<lambda>i. ret (info_of i)))"

section \<open>Acting on the device\<close>

record statusOut =
  so_Status :: string
  so_Device :: string

definition ok_on :: "string \<Rightarrow> statusOut" where
  "ok_on iid = \<lparr>so_Status = ''ok'', so_Device = iid\<rparr>"

definition tool_get_ui_tree :: "tool_env \<Rightarrow> string \<Rightarrow> UINode res option tool" where
  "tool_get_ui_tree t dev =
    bnd (target dev) (\<lambda>iid.
    bnd (android_only iid) (\<lambda>_.
    device_act (\<lambda>d. UITree (te_dev t) d iid)))"

definition scroll_delta :: "string \<Rightarrow> int \<Rightarrow> int \<times> int" where
  "scroll_delta direction amount0 =
    (let amount = (if amount0 \<le> 0 then 3 else amount0);
         dir = to_lower (trim_space direction)
     in if dir = ''up'' then (0, - amount)
        else if dir = ''left'' then (- amount, 0)
        else if dir = ''right'' then (amount, 0)
        else (0, amount))"

definition scroll_size :: "tool_env \<Rightarrow> string \<Rightarrow> Instance \<Rightarrow> (int \<times> int) tool" where
  "scroll_size t iid i =
    (if inst_DisplayWidth i \<le> 0 \<or> inst_DisplayHeight i \<le> 0 then
       bnd (attempt (device_act (\<lambda>d. InputSize (te_dev t) d iid))) (\<lambda>r.
       ret (case r of Inr (iw, ih) \<Rightarrow> if 0 < iw \<and> 0 < ih then (iw, ih) else (720, 1280)
            | Inl _ \<Rightarrow> (720, 1280)))
     else ret (inst_DisplayWidth i, inst_DisplayHeight i))"

definition scroll_point :: "tool_env \<Rightarrow> string \<Rightarrow> int \<Rightarrow> int \<Rightarrow> (int \<times> int) tool" where
  "scroll_point t iid x y =
    (if x \<le> 0 \<and> y \<le> 0 then
       bnd (instance_of iid) (\<lambda>i. bnd (scroll_size t iid i) (\<lambda>(w, h). ret (w sdiv 2, h sdiv 2)))
     else ret (x, y))"

definition tool_scroll :: "tool_env \<Rightarrow> string \<Rightarrow> string \<Rightarrow> int \<Rightarrow> int \<Rightarrow> int \<Rightarrow> statusOut tool" where
  "tool_scroll t dev direction amount x0 y0 =
    bnd (target dev) (\<lambda>iid.
    bnd (scroll_point t iid x0 y0) (\<lambda>(x, y).
    bnd (device_act (\<lambda>d. Scroll (te_dev t) d iid x y
           (fst (scroll_delta direction amount)) (snd (scroll_delta direction amount)))) (\<lambda>_.
    ret (ok_on iid))))"

definition tool_click :: "tool_env \<Rightarrow> string \<Rightarrow> int \<Rightarrow> int \<Rightarrow> string \<Rightarrow> int \<Rightarrow> statusOut tool" where
  "tool_click t dev x y button n =
    bnd (target dev) (\<lambda>iid.
    bnd (device_act (\<lambda>d. Click (te_dev t) d iid x y button n)) (\<lambda>_. ret (ok_on iid)))"

definition tool_press_chord :: "tool_env \<Rightarrow> string \<Rightarrow> string list \<Rightarrow> statusOut tool" where
  "tool_press_chord t dev ks =
    bnd (target dev) (\<lambda>iid.
      if ks = [] then fail (Err ''press_chord needs a non-empty keys array, e.g. [\"CTRL\",\"C\"]'')
      else bnd (device_act (\<lambda>d. Chord (te_dev t) d iid ks)) (\<lambda>_. ret (ok_on iid)))"

definition tool_type_text :: "tool_env \<Rightarrow> string \<Rightarrow> string \<Rightarrow> statusOut tool" where
  "tool_type_text t dev txt =
    bnd (target dev) (\<lambda>iid.
    bnd (device_act (\<lambda>d. Text (te_dev t) d iid txt)) (\<lambda>_. ret (ok_on iid)))"

definition tool_press_key :: "tool_env \<Rightarrow> string \<Rightarrow> string \<Rightarrow> statusOut tool" where
  "tool_press_key t dev k =
    bnd (target dev) (\<lambda>iid.
    bnd (device_act (\<lambda>d. Key (te_dev t) d iid k)) (\<lambda>_. ret (ok_on iid)))"

definition tool_tap :: "tool_env \<Rightarrow> string \<Rightarrow> int \<Rightarrow> int \<Rightarrow> statusOut tool" where
  "tool_tap t dev x y =
    bnd (target dev) (\<lambda>iid.
    bnd (device_act (\<lambda>d. Tap (te_dev t) d iid x y)) (\<lambda>_. ret (ok_on iid)))"

text \<open>An error of the launch is replaced by advice.\<close>

definition tool_launch_app :: "tool_env \<Rightarrow> string \<Rightarrow> string \<Rightarrow> statusOut tool" where
  "tool_launch_app t dev pkg =
    bnd (target dev) (\<lambda>iid.
    bnd (android_only iid) (\<lambda>_.
    bnd (attempt (device_act (\<lambda>d. LaunchApp (te_dev t) d iid pkg))) (\<lambda>r.
      case r of
        Inr _ \<Rightarrow> ret (ok_on iid)
      | Inl _ \<Rightarrow> fail (Err (''could not launch '' @ go_quote pkg @
          '' '' @ em_dash @ '' it may not be installed. Call list_apps for exact installed package names, or tap the app's icon '' @
          ''with tap_element. Do not invent package names'')))))"

definition androidPackages :: "(string \<times> string) list" where
  "androidPackages =
    [(''settings'', ''com.android.settings''), (''chrome'', ''com.android.chrome''),
     (''browser'', ''com.android.chrome''), (''clock'', ''com.android.deskclock''),
     (''contacts'', ''com.android.contacts''), (''phone'', ''com.android.dialer''),
     (''dialer'', ''com.android.dialer''), (''messages'', ''com.android.messaging''),
     (''messaging'', ''com.android.messaging''), (''camera'', ''com.android.camera2''),
     (''calculator'', ''com.android.calculator2''), (''files'', ''com.android.documentsui''),
     (''gallery'', ''com.android.gallery3d'')]"

definition tool_open_app :: "tool_env \<Rightarrow> string \<Rightarrow> string \<Rightarrow> statusOut tool" where
  "tool_open_app t dev name0 =
    bnd (target dev) (\<lambda>iid.
    bnd (instance_of iid) (\<lambda>i.
      let name = trim_space name0 in
      if name = [] then fail (Err ''name is required'')
      else if inst_Platform i = [] \<or> inst_Platform i = PlatformAndroid then
        (case map_of androidPackages (to_lower name) of
           None \<Rightarrow> fail (Err (''don't know the Android package for '' @ go_quote name @
                     '' '' @ em_dash @ '' call list_apps and use launch_app with the exact package name''))
         | Some pkg \<Rightarrow> bnd (device_act (\<lambda>d. LaunchApp (te_dev t) d iid pkg)) (\<lambda>_. ret (ok_on iid)))
      else
        bnd (device_act (\<lambda>d. OpenApp (te_dev t) d iid name)) (\<lambda>opened.
        ret \<lparr>so_Status = ''opened '' @ opened, so_Device = iid\<rparr>)))"

definition tool_list_apps :: "tool_env \<Rightarrow> string \<Rightarrow> bool \<Rightarrow> string list tool" where
  "tool_list_apps t dev thirdPartyOnly =
    bnd (target dev) (\<lambda>iid. device_act (\<lambda>d. ListApps (te_dev t) d iid thirdPartyOnly))"

definition tool_current_activity :: "tool_env \<Rightarrow> string \<Rightarrow> string tool" where
  "tool_current_activity t dev =
    bnd (target dev) (\<lambda>iid. device_act (\<lambda>d. CurrentActivity (te_dev t) d iid))"

section \<open>Vision\<close>

definition errVisionUnavailable :: go_error where
  "errVisionUnavailable =
    Err ''vision is not configured; set OPENCUTTLES_VISION_URL and run the vision sidecar''"

definition wrap_error :: "string \<Rightarrow> 'a res \<Rightarrow> 'a res" where
  "wrap_error p r = (case r of Inl e \<Rightarrow> Inl (ErrWrap p e) | Inr x \<Rightarrow> Inr x)"

text \<open>Where the described element is; None when the model does not find it.\<close>

definition locate :: "tool_env \<Rightarrow> string \<Rightarrow> string \<Rightarrow> (int \<times> int) option tool" where
  "locate t iid description =
    (if \<not> te_vision t then fail errVisionUnavailable
     else
       bnd (device_act (\<lambda>d. Screenshot (te_dev t) d iid)) (\<lambda>png.
       bnd (lift (wrap_error ''decode screenshot: '' (te_png t png))) (\<lambda>(cw, ch).
       bnd (lift (te_locate t png (trim_space description))) (\<lambda>points.
         case points of
           [] \<Rightarrow> ret None
         | p # _ \<Rightarrow>
             bnd (attempt (device_act (\<lambda>d. InputSize (te_dev t) d iid))) (\<lambda>r.
             ret (Some (case r of
                 Inr (iw, ih) \<Rightarrow> if 0 < iw \<and> 0 < ih then p iw ih else p cw ch
               | Inl _ \<Rightarrow> p cw ch)))))))"

definition tool_tap_element :: "tool_env \<Rightarrow> string \<Rightarrow> string \<Rightarrow> statusOut tool" where
  "tool_tap_element t dev description =
    bnd (target dev) (\<lambda>iid.
    bnd (locate t iid description) (\<lambda>r.
      case r of
        None \<Rightarrow> fail (Err (''could not find '' @ go_quote description @
          '' on screen; try describing it differently, scroll to reveal it, or use get_ui_tree''))
      | Some (x, y) \<Rightarrow>
          bnd (device_act (\<lambda>d. Tap (te_dev t) d iid x y)) (\<lambda>_. ret (ok_on iid))))"

definition tool_find_element :: "tool_env \<Rightarrow> string \<Rightarrow> string \<Rightarrow> (int \<times> int) option tool" where
  "tool_find_element t dev description = bnd (target dev) (\<lambda>iid. locate t iid description)"

definition tool_ask_screen :: "tool_env \<Rightarrow> string \<Rightarrow> string \<Rightarrow> string tool" where
  "tool_ask_screen t dev question =
    bnd (target dev) (\<lambda>iid.
      if te_vqa t = None \<and> \<not> te_vision t then fail errVisionUnavailable
      else
        bnd (device_act (\<lambda>d. Screenshot (te_dev t) d iid)) (\<lambda>png.
          let llm = (case te_vqa t of None \<Rightarrow> Inl errVisionUnavailable | Some q \<Rightarrow> q png question) in
          case llm of
            Inr answer \<Rightarrow>
              (if trim_space answer \<noteq> [] then ret answer
               else if \<not> te_vision t then fail errVisionUnavailable
               else lift (te_caption t png question))
          | Inl _ \<Rightarrow>
              (if \<not> te_vision t then fail errVisionUnavailable
               else lift (te_caption t png question))))"

section \<open>Step results of a case run\<close>

definition two_digits :: "nat \<Rightarrow> string" where
  "two_digits n = (if n < 10 then ''0'' @ nat_text n else nat_text n)"

definition reported_status :: "string \<Rightarrow> string" where
  "reported_status status0 =
    (let status = to_lower (trim_space status0)
     in if status \<noteq> StepFail \<and> status \<noteq> StepBlocked then StepPass else status)"

definition reported_text :: "int \<Rightarrow> string list \<Rightarrow> string" where
  "reported_text index stepTexts =
    (if 1 \<le> index \<and> index \<le> int (length stepTexts) then stepTexts ! nat (index - 1)
     else ''Step '' @ itoa index)"

text \<open>
  The screenshot of a step: the name of the file when it was taken and written, empty
  otherwise.
\<close>

definition evidence :: "tool_env \<Rightarrow> string \<Rightarrow> boundRun \<Rightarrow> string tool" where
  "evidence t iid b =
    (if br_runDir b = [] then ret []
     else bnd (attempt (device_act (\<lambda>d. Screenshot (te_dev t) d iid))) (\<lambda>r.
       let name = ''step-'' @ two_digits (br_steps b) @ ''.png'' in
       ret (if is_ok r \<and> te_write t (path_join [br_runDir b, name]) then name else [])))"

definition step_of_report :: "boundRun \<Rightarrow> int \<Rightarrow> string \<Rightarrow> string \<Rightarrow> StepResult" where
  "step_of_report b index status0 step_note =
    zero_StepResult\<lparr>step_Text := reported_text index (br_stepTexts b),
      step_Status := reported_status status0, step_Pass := (reported_status status0 = StepPass),
      step_Detail := trim_space step_note\<rparr>"

definition append_evidence :: "string \<Rightarrow> StepResult \<Rightarrow> unit tool" where
  "append_evidence runID st s =
    (case AppendStep runID st (tl_db s) of (r, d) \<Rightarrow> (r, s\<lparr>tl_db := d\<rparr>))"

definition count_step :: "string \<Rightarrow> boundRun \<Rightarrow> unit tool" where
  "count_step iid b s =
    (Inr (), s\<lparr>tl_mcp := (tl_mcp s)\<lparr>mcp_runs := (mcp_runs (tl_mcp s))(iid \<mapsto> b\<lparr>br_steps := br_steps b + 1\<rparr>)\<rparr>\<rparr>)"

definition bound_run :: "tool_env \<Rightarrow> tools \<Rightarrow> (string \<times> boundRun) option" where
  "bound_run t s =
    (case resolveDevice [] (tl_db s) (tl_mcp s) of
       Inl _ \<Rightarrow> None
     | Inr iid \<Rightarrow>
         (case mcp_runs (tl_mcp s) iid of
            None \<Rightarrow> None
          | Some b \<Rightarrow> if te_sink t then Some (iid, b) else None))"

definition tool_report_step_result :: "tool_env \<Rightarrow> int \<Rightarrow> string \<Rightarrow> string \<Rightarrow> bool tool" where
  "tool_report_step_result t index status0 step_note s =
    (case bound_run t s of
       None \<Rightarrow> (Inr False, s)
     | Some (iid, b) \<Rightarrow>
         bnd (count_step iid b) (\<lambda>_.
         bnd (evidence t iid b) (\<lambda>shot.
         bnd (append_evidence (br_runID b) ((step_of_report b index status0 step_note)\<lparr>step_Screenshot := shot\<rparr>)) (\<lambda>_.
         ret True))) s)"

section \<open>What a tool call may touch\<close>

datatype tool_call =
    CListDevices
  | CSelectDevice string
  | CGetActive
  | CUITree string
  | CScroll string string int int int
  | CClick string int int string int
  | CChord string "string list"
  | CText string string
  | CKey string string
  | CTap string int int
  | CLaunch string string
  | COpen string string
  | CApps string bool
  | CActivity string
  | CTapElement string string
  | CFindElement string string
  | CAsk string string
  | CReport int string string

fun run_tool :: "tool_env \<Rightarrow> tool_call \<Rightarrow> unit tool" where
  "run_tool t CListDevices = unit_of tool_list_devices"
| "run_tool t (CSelectDevice k) = unit_of (tool_select_device k)"
| "run_tool t CGetActive = unit_of tool_get_active_device"
| "run_tool t (CUITree dev) = unit_of (tool_get_ui_tree t dev)"
| "run_tool t (CScroll dev dir n x y) = unit_of (tool_scroll t dev dir n x y)"
| "run_tool t (CClick dev x y b n) = unit_of (tool_click t dev x y b n)"
| "run_tool t (CChord dev ks) = unit_of (tool_press_chord t dev ks)"
| "run_tool t (CText dev x) = unit_of (tool_type_text t dev x)"
| "run_tool t (CKey dev k) = unit_of (tool_press_key t dev k)"
| "run_tool t (CTap dev x y) = unit_of (tool_tap t dev x y)"
| "run_tool t (CLaunch dev p) = unit_of (tool_launch_app t dev p)"
| "run_tool t (COpen dev n) = unit_of (tool_open_app t dev n)"
| "run_tool t (CApps dev b) = unit_of (tool_list_apps t dev b)"
| "run_tool t (CActivity dev) = unit_of (tool_current_activity t dev)"
| "run_tool t (CTapElement dev x) = unit_of (tool_tap_element t dev x)"
| "run_tool t (CFindElement dev x) = unit_of (tool_find_element t dev x)"
| "run_tool t (CAsk dev q) = unit_of (tool_ask_screen t dev q)"
| "run_tool t (CReport i st n) = unit_of (tool_report_step_result t i st n)"

text \<open>The device argument of a call; None for the calls that act on no device.\<close>

fun device_arg :: "tool_call \<Rightarrow> string option" where
  "device_arg CListDevices = None"
| "device_arg (CSelectDevice k) = None"
| "device_arg CGetActive = Some []"
| "device_arg (CUITree dev) = Some dev"
| "device_arg (CScroll dev _ _ _ _) = Some dev"
| "device_arg (CClick dev _ _ _ _) = Some dev"
| "device_arg (CChord dev _) = Some dev"
| "device_arg (CText dev _) = Some dev"
| "device_arg (CKey dev _) = Some dev"
| "device_arg (CTap dev _ _) = Some dev"
| "device_arg (CLaunch dev _) = Some dev"
| "device_arg (COpen dev _) = Some dev"
| "device_arg (CApps dev _) = Some dev"
| "device_arg (CActivity dev) = Some dev"
| "device_arg (CTapElement dev _) = Some dev"
| "device_arg (CFindElement dev _) = Some dev"
| "device_arg (CAsk dev _) = Some dev"
| "device_arg (CReport _ _ _) = Some []"

text \<open>acts t iid m: m only appends requests that the device iid may get.\<close>

definition acts :: "tool_env \<Rightarrow> string \<Rightarrow> 'a tool \<Rightarrow> bool" where
  "acts t iid m = (\<forall>s. \<exists>q. snd (m s) = s\<lparr>tl_trace := tl_trace s @ q\<rparr>
      \<and> list_all (addressed (te_dev t) (tl_db s) iid) q)"

named_theorems acts_intros

lemma actsD:
  "acts t iid m \<Longrightarrow> \<exists>q. snd (m s) = s\<lparr>tl_trace := tl_trace s @ q\<rparr>
      \<and> list_all (addressed (te_dev t) (tl_db s) iid) q"
  by (simp add: acts_def)

lemma acts_silent: "(\<And>s. snd (m s) = s) \<Longrightarrow> acts t iid m"
  unfolding acts_def by (intro allI exI[of _ "[]"]) simp

lemma acts_ret [acts_intros]: "acts t iid (ret x)"
  by (rule acts_silent) (simp add: ret_apply)

lemma acts_fail [acts_intros]: "acts t iid (fail e)"
  by (rule acts_silent) (simp add: fail_apply)

lemma acts_lift [acts_intros]: "acts t iid (lift r)"
  by (rule acts_silent) (simp add: lift_apply)

lemma acts_instance_of [acts_intros]: "acts t iid (instance_of k)"
  by (rule acts_silent) (simp add: instance_of_def)

lemma acts_android_only [acts_intros]: "acts t iid (android_only k)"
  by (rule acts_silent) (simp add: android_only_def)

lemma acts_bnd [acts_intros]:
  assumes m: "acts t iid m" and f: "\<And>x. acts t iid (f x)"
  shows "acts t iid (bnd m f)"
  unfolding acts_def
proof
  fix s
  obtain q where q: "snd (m s) = s\<lparr>tl_trace := tl_trace s @ q\<rparr>" "list_all (addressed (te_dev t) (tl_db s) iid) q"
    using actsD[OF m] by blast
  show "\<exists>q. snd (bnd m f s) = s\<lparr>tl_trace := tl_trace s @ q\<rparr> \<and> list_all (addressed (te_dev t) (tl_db s) iid) q"
  proof (cases "fst (m s)")
    case (Inl e)
    then have "snd (bnd m f s) = snd (m s)" by (cases "m s") (simp add: bnd_def)
    then show ?thesis using q by auto
  next
    case (Inr x)
    then have b: "bnd m f s = f x (snd (m s))" by (cases "m s") (simp add: bnd_def)
    obtain q' where q': "snd (f x (snd (m s))) = (snd (m s))\<lparr>tl_trace := tl_trace (snd (m s)) @ q'\<rparr>"
      "list_all (addressed (te_dev t) (tl_db (snd (m s))) iid) q'"
      using actsD[OF f] by blast
    show ?thesis using q q' b by (intro exI[of _ "q @ q'"]) simp
  qed
qed

lemma acts_attempt [acts_intros]: "acts t iid m \<Longrightarrow> acts t iid (attempt m)"
  by (simp add: acts_def attempt_def)

lemma acts_unit_of [acts_intros]: "acts t iid m \<Longrightarrow> acts t iid (unit_of m)"
  unfolding unit_of_def by (intro acts_intros)

lemma acts_if [acts_intros]: "(b \<Longrightarrow> acts t iid m) \<Longrightarrow> (\<not> b \<Longrightarrow> acts t iid n) \<Longrightarrow> acts t iid (if b then m else n)"
  by simp

lemma acts_sum [acts_intros]:
  "(\<And>x. acts t iid (f x)) \<Longrightarrow> (\<And>x. acts t iid (g x)) \<Longrightarrow> acts t iid (case_sum f g r)"
  by (cases r) simp_all

lemma acts_option [acts_intros]:
  "acts t iid m \<Longrightarrow> (\<And>x. acts t iid (g x)) \<Longrightarrow> acts t iid (case_option m g r)"
  by (cases r) simp_all

lemma acts_list [acts_intros]:
  "acts t iid m \<Longrightarrow> (\<And>x xs. acts t iid (g x xs)) \<Longrightarrow> acts t iid (case_list m g r)"
  by (cases r) simp_all

lemma acts_prod [acts_intros]: "(\<And>x y. acts t iid (f x y)) \<Longrightarrow> acts t iid (case_prod f p)"
  by (cases p) simp

lemma acts_let [acts_intros]: "(\<And>x. acts t iid (f x)) \<Longrightarrow> acts t iid (Let x f)"
  by (simp add: Let_def)

lemma acts_device:
  assumes "\<And>d. sends (addressed (te_dev t) d iid) (m d)"
  shows "acts t iid (device_act m)"
  unfolding acts_def
proof
  fix s :: tools
  obtain q where "snd (m (tl_db s) (tl_trace s)) = tl_trace s @ q" "list_all (addressed (te_dev t) (tl_db s) iid) q"
    using sendsD[OF assms] by blast
  then show "\<exists>q. snd (device_act m s) = s\<lparr>tl_trace := tl_trace s @ q\<rparr>
      \<and> list_all (addressed (te_dev t) (tl_db s) iid) q"
    by (auto simp: device_act_def split: prod.split)
qed

lemmas acts_ops [acts_intros] =
  sends_gestures[THEN acts_device] sends_queries[THEN acts_device] sends_changes[THEN acts_device]

text \<open>A call with a device argument acts on the device that the argument resolves to.\<close>

definition touches :: "tool_env \<Rightarrow> string \<Rightarrow> 'a tool \<Rightarrow> bool" where
  "touches t dev m = (\<forall>s.
     case resolveDevice dev (tl_db s) (tl_mcp s) of
       Inl _ \<Rightarrow> snd (m s) = s
     | Inr iid \<Rightarrow> (\<exists>q. snd (m s) = s\<lparr>tl_trace := tl_trace s @ q\<rparr>
                     \<and> list_all (addressed (te_dev t) (tl_db s) iid) q))"

lemma touches_target:
  assumes "\<And>iid. acts t iid (f iid)"
  shows "touches t dev (bnd (target dev) f)"
  unfolding touches_def
proof
  fix s
  show "case resolveDevice dev (tl_db s) (tl_mcp s) of
       Inl _ \<Rightarrow> snd (bnd (target dev) f s) = s
     | Inr iid \<Rightarrow> (\<exists>q. snd (bnd (target dev) f s) = s\<lparr>tl_trace := tl_trace s @ q\<rparr>
                     \<and> list_all (addressed (te_dev t) (tl_db s) iid) q)"
    using actsD[OF assms] by (cases "resolveDevice dev (tl_db s) (tl_mcp s)") (simp_all add: bnd_def target_def)
qed

lemma touches_unit_of: "touches t dev m \<Longrightarrow> touches t dev (unit_of m)"
  unfolding touches_def unit_of_def bnd_def ret_def
  by (auto split: prod.splits sum.splits simp: prod_eq_iff)

lemma acts_locate [acts_intros]: "acts t iid (locate t iid x)"
  unfolding locate_def by (intro acts_intros)

lemma acts_scroll_size [acts_intros]: "acts t iid (scroll_size t iid i)"
  unfolding scroll_size_def by (intro acts_intros)

lemma acts_scroll_point [acts_intros]: "acts t iid (scroll_point t iid x y)"
  unfolding scroll_point_def by (intro acts_intros)

lemma touches_queries:
  "touches t [] tool_get_active_device" "touches t dev (tool_get_ui_tree t dev)"
  "touches t dev (tool_list_apps t dev b)" "touches t dev (tool_current_activity t dev)"
  "touches t dev (tool_find_element t dev x)" "touches t dev (tool_ask_screen t dev q)"
  unfolding tool_get_active_device_def tool_get_ui_tree_def tool_list_apps_def tool_current_activity_def
    tool_find_element_def tool_ask_screen_def
  by (intro touches_target acts_intros)+

lemma touches_gestures:
  "touches t dev (tool_scroll t dev dir n x y)" "touches t dev (tool_click t dev x y b n)"
  "touches t dev (tool_press_chord t dev ks)" "touches t dev (tool_type_text t dev w)"
  "touches t dev (tool_press_key t dev k)" "touches t dev (tool_tap t dev x y)"
  "touches t dev (tool_tap_element t dev w)"
  unfolding tool_scroll_def tool_click_def tool_press_chord_def tool_type_text_def tool_press_key_def
    tool_tap_def tool_tap_element_def
  by (intro touches_target acts_intros)+

lemma touches_launches:
  "touches t dev (tool_launch_app t dev p)" "touches t dev (tool_open_app t dev n)"
  unfolding tool_launch_app_def tool_open_app_def
  by (intro touches_target acts_intros)+

lemmas tools_touch = touches_queries touches_gestures touches_launches

lemma acts_evidence: "acts t iid (evidence t iid b)"
  unfolding evidence_def by (intro acts_intros)

lemma evidence_result:
  "\<exists>shot. fst (evidence t iid b s) = Inr shot \<and> shot \<in> {[], ''step-'' @ two_digits (br_steps b) @ ''.png''}"
  by (simp add: evidence_def bnd_def attempt_def ret_apply Let_def)

definition counted :: "string \<Rightarrow> boundRun \<Rightarrow> tools \<Rightarrow> tools" where
  "counted iid b s = snd (count_step iid b s)"

lemma counted_fields [simp]:
  "tl_db (counted iid b s) = tl_db s" "tl_trace (counted iid b s) = tl_trace s"
  "mcp_active (tl_mcp (counted iid b s)) = mcp_active (tl_mcp s)"
  "mcp_runs (tl_mcp (counted iid b s)) = (mcp_runs (tl_mcp s))(iid \<mapsto> b\<lparr>br_steps := br_steps b + 1\<rparr>)"
  by (simp_all add: counted_def count_step_def)

lemma report_unbound: "bound_run t s = None \<Longrightarrow> tool_report_step_result t i st n s = (Inr False, s)"
  by (simp add: tool_report_step_result_def)

lemma report_bound:
  assumes "bound_run t s = Some (iid, b)"
  shows "\<exists>q shot. shot \<in> {[], ''step-'' @ two_digits (br_steps b) @ ''.png''}
     \<and> list_all (addressed (te_dev t) (tl_db s) iid) q
     \<and> tool_report_step_result t i st n s =
        (map_sum id (\<lambda>_. True) (fst (AppendStep (br_runID b) ((step_of_report b i st n)\<lparr>step_Screenshot := shot\<rparr>) (tl_db s))),
         (counted iid b s)\<lparr>tl_trace := tl_trace s @ q,
            tl_db := snd (AppendStep (br_runID b) ((step_of_report b i st n)\<lparr>step_Screenshot := shot\<rparr>) (tl_db s))\<rparr>)"
proof -
  let ?s1 = "counted iid b s"
  obtain shot where shot: "fst (evidence t iid b ?s1) = Inr shot"
    and name: "shot \<in> {[], ''step-'' @ two_digits (br_steps b) @ ''.png''}"
    using evidence_result by blast
  obtain q where q: "snd (evidence t iid b ?s1) = ?s1\<lparr>tl_trace := tl_trace ?s1 @ q\<rparr>"
    and own: "list_all (addressed (te_dev t) (tl_db ?s1) iid) q"
    using actsD[OF acts_evidence] by blast
  have e: "evidence t iid b ?s1 = (Inr shot, ?s1\<lparr>tl_trace := tl_trace s @ q\<rparr>)"
    using shot q by (simp add: prod_eq_iff)
  have c: "count_step iid b s = (Inr (), ?s1)" by (simp add: counted_def count_step_def)
  let ?a = "AppendStep (br_runID b) ((step_of_report b i st n)\<lparr>step_Screenshot := shot\<rparr>) (tl_db s)"
  have "tool_report_step_result t i st n s = (map_sum id (\<lambda>_. True) (fst ?a),
      ?s1\<lparr>tl_trace := tl_trace s @ q, tl_db := snd ?a\<rparr>)"
    unfolding tool_report_step_result_def assms option.case prod.case bnd_def[of "count_step iid b"] c sum.case
    unfolding bnd_def[of "evidence t iid b"] e prod.case sum.case
    by (cases ?a; cases "fst ?a") (simp_all add: bnd_def append_evidence_def ret_apply)
  then show ?thesis using name own by (intro exI[of _ q] exI[of _ shot]) simp
qed

lemma bound_run_target:
  "bound_run t s = Some (iid, b) \<Longrightarrow> resolveDevice [] (tl_db s) (tl_mcp s) = Inr iid
     \<and> mcp_runs (tl_mcp s) iid = Some b \<and> te_sink t"
  by (auto simp: bound_run_def split: sum.splits option.splits if_splits)

definition may_get :: "tool_env \<Rightarrow> tools \<Rightarrow> tool_call \<Rightarrow> request \<Rightarrow> bool" where
  "may_get t s c r =
    (case device_arg c of None \<Rightarrow> False
     | Some dev \<Rightarrow>
         (case resolveDevice dev (tl_db s) (tl_mcp s) of Inl _ \<Rightarrow> False
          | Inr iid \<Rightarrow> addressed (te_dev t) (tl_db s) iid r))"

definition keeps :: "tool_env \<Rightarrow> tools \<Rightarrow> tool_call \<Rightarrow> tools \<Rightarrow> bool" where
  "keeps t s c s' =
    ((case c of CReport _ _ _ \<Rightarrow> True | _ \<Rightarrow> tl_db s' = tl_db s \<and> mcp_runs (tl_mcp s') = mcp_runs (tl_mcp s))
     \<and> (case c of CSelectDevice _ \<Rightarrow> True | _ \<Rightarrow> mcp_active (tl_mcp s') = mcp_active (tl_mcp s)))"

lemma touches_case:
  assumes "touches t dev m" "device_arg c = Some dev"
  shows "\<exists>q. snd (m s) = s\<lparr>tl_trace := tl_trace s @ q\<rparr> \<and> list_all (may_get t s c) q"
proof (cases "resolveDevice dev (tl_db s) (tl_mcp s)")
  case (Inl e)
  then have "snd (m s) = s" using assms(1)[unfolded touches_def, THEN spec, of s] by simp
  then show ?thesis by (intro exI[of _ "[]"]) simp
next
  case (Inr iid)
  then have "may_get t s c = addressed (te_dev t) (tl_db s) iid"
    using assms(2) by (simp add: may_get_def fun_eq_iff)
  then show ?thesis using assms(1)[unfolded touches_def, THEN spec, of s] Inr by simp
qed

lemma plain_tool:
  assumes "case c of CListDevices \<Rightarrow> False | CSelectDevice _ \<Rightarrow> False | CReport _ _ _ \<Rightarrow> False | _ \<Rightarrow> True"
  shows "\<exists>q. snd (run_tool t c s) = s\<lparr>tl_trace := tl_trace s @ q\<rparr> \<and> list_all (may_get t s c) q"
proof -
  have "\<exists>dev. touches t dev (run_tool t c) \<and> device_arg c = Some dev"
    using assms by (cases c) (auto intro: touches_unit_of tools_touch)
  then show ?thesis using touches_case by blast
qed

lemma run_tool_effect:
  "\<exists>q. tl_trace (snd (run_tool t c s)) = tl_trace s @ q \<and> list_all (may_get t s c) q
     \<and> keeps t s c (snd (run_tool t c s))"
proof (cases "case c of CListDevices \<Rightarrow> False | CSelectDevice _ \<Rightarrow> False | CReport _ _ _ \<Rightarrow> False | _ \<Rightarrow> True")
  case True
  from plain_tool[OF this, of t s] obtain q where
    "snd (run_tool t c s) = s\<lparr>tl_trace := tl_trace s @ q\<rparr>" "list_all (may_get t s c) q" by blast
  then show ?thesis by (intro exI[of _ q]) (simp add: keeps_def split: tool_call.split)
next
  case False
  then consider "c = CListDevices" | k where "c = CSelectDevice k" | i st n where "c = CReport i st n"
    by (cases c) auto
  then show ?thesis
  proof cases
    case 1
    then show ?thesis
      by (intro exI[of _ "[]"]) (simp add: unit_of_def bnd_def tool_list_devices_def ret_apply keeps_def)
  next
    case 2
    then show ?thesis
      by (intro exI[of _ "[]"])
        (simp add: unit_of_def bnd_def tool_select_device_def ret_apply keeps_def SetActive_def split: sum.split)
  next
    case 3
    have snd_unit: "snd (unit_of m s) = snd (m s)" for m :: "bool tool"
      by (simp add: unit_of_def bnd_def ret_apply split: prod.split sum.split)
    show ?thesis
    proof (cases "bound_run t s")
      case None
      then show ?thesis using 3 by (intro exI[of _ "[]"]) (simp add: snd_unit report_unbound keeps_def)
    next
      case (Some p)
      obtain iid b where p: "p = (iid, b)" by (cases p)
      from report_bound[OF Some[unfolded p], of i st n] obtain q shot where
        "list_all (addressed (te_dev t) (tl_db s) iid) q"
        "snd (tool_report_step_result t i st n s) = (counted iid b s)\<lparr>tl_trace := tl_trace s @ q,
            tl_db := snd (AppendStep (br_runID b) ((step_of_report b i st n)\<lparr>step_Screenshot := shot\<rparr>) (tl_db s))\<rparr>"
        by auto
      moreover have "may_get t s c = addressed (te_dev t) (tl_db s) iid"
        using bound_run_target[OF Some[unfolded p]] 3 by (simp add: may_get_def fun_eq_iff)
      ultimately show ?thesis using 3 by (intro exI[of _ q]) (simp add: snd_unit keeps_def)
    qed
  qed
qed

text \<open>C13: a tool call sends requests only to the one device that its device argument (or the active
  device) resolves to; only a step report changes the database or a binding, only select_device changes the
  active device.\<close>

theorem tool_calls_confined:
  "\<exists>q. tl_trace (snd (run_tool t c s)) = tl_trace s @ q \<and> list_all (may_get t s c) q
     \<and> keeps t s c (snd (run_tool t c s))"
  by (rule run_tool_effect)

section \<open>The sink of step results\<close>

locale run_sink =
  fixes append :: "string \<Rightarrow> StepResult \<Rightarrow> 'd \<Rightarrow> unit res \<times> 'd"
    and steps_of :: "'d \<Rightarrow> string \<Rightarrow> StepResult list option"
  assumes append_known: "steps_of d rid = Some ss \<Longrightarrow> fst (append rid st d) = Inr ()
      \<and> steps_of (snd (append rid st d)) rid = Some (ss @ [st\<lparr>step_Index := int (length ss)\<rparr>])"
    and append_other: "k \<noteq> rid \<Longrightarrow> steps_of (snd (append rid st d)) k = steps_of d k"
    and append_unknown: "steps_of d rid = None \<Longrightarrow> \<exists>e. append rid st d = (Inl e, d)"
begin

lemma record_all:
  "steps_of d rid = Some ss \<Longrightarrow>
   steps_of (foldl (\<lambda>d st. snd (append rid st d)) d sts) rid = Some (ss @ numbered (length ss) sts)"
proof (induction sts arbitrary: d ss)
  case (Cons st sts)
  from append_known[OF Cons.prems, of st] Cons.IH show ?case by (simp add: numbered_def)
qed (simp add: numbered_def)

lemma record_others:
  "k \<noteq> rid \<Longrightarrow> steps_of (foldl (\<lambda>d st. snd (append rid st d)) d sts) k = steps_of d k"
  by (induction sts arbitrary: d) (simp_all add: append_other)

lemma append_result:
  "(case steps_of d rid of
      None \<Rightarrow> \<exists>e. append rid st d = (Inl e, d)
    | Some ss \<Rightarrow> fst (append rid st d) = Inr ()
        \<and> steps_of (snd (append rid st d)) = (steps_of d)(rid \<mapsto> ss @ [st\<lparr>step_Index := int (length ss)\<rparr>]))"
proof (cases "steps_of d rid")
  case None
  then show ?thesis using append_unknown by simp
next
  case (Some ss)
  then have "steps_of (snd (append rid st d)) = (steps_of d)(rid \<mapsto> ss @ [st\<lparr>step_Index := int (length ss)\<rparr>])"
    using append_known[OF Some, of st] append_other[of _ rid st d] by (intro ext) simp
  then show ?thesis using append_known[OF Some, of st] Some by simp
qed

end

definition steps_at :: "db \<Rightarrow> string \<Rightarrow> StepResult list option" where
  "steps_at d rid = map_option run_Steps (tbl_find run_ID rid (db_test_runs d))"

lemma AppendStep_unknown:
  "tbl_find run_ID rid (db_test_runs d) = None \<Longrightarrow> AppendStep rid st d = (Inl ErrNoRows, d)"
  by (simp add: AppendStep_def GetTestRun_def scan_row_def)

interpretation sqlite_sink: run_sink AppendStep steps_at
proof
  fix d rid ss st
  assume "steps_at d rid = Some ss"
  then obtain r where r: "tbl_find run_ID rid (db_test_runs d) = Some r" "run_Steps r = ss"
    by (auto simp: steps_at_def)
  have "fst (AppendStep rid st d) = Inr ()"
    using r by (simp add: AppendStep_def GetTestRun_def scan_row_def Let_def)
  then show "fst (AppendStep rid st d) = Inr ()
      \<and> steps_at (snd (AppendStep rid st d)) rid = Some (ss @ [st\<lparr>step_Index := int (length ss)\<rparr>])"
    using AppendStep_find[OF r(1), of rid st] r(2) by (simp add: steps_at_def)
next
  fix k rid :: string and st d
  assume "k \<noteq> rid"
  then show "steps_at (snd (AppendStep rid st d)) k = steps_at d k"
    by (cases "tbl_find run_ID rid (db_test_runs d)")
      (simp_all add: steps_at_def AppendStep_find AppendStep_unknown)
next
  fix d rid st
  assume "steps_at d rid = None"
  then show "\<exists>e. AppendStep rid st d = (Inl e, d)"
    by (simp add: steps_at_def AppendStep_unknown)
qed

definition named_shot :: "boundRun \<Rightarrow> string \<Rightarrow> bool" where
  "named_shot b shot = (shot \<in> {[], ''step-'' @ two_digits (br_steps b) @ ''.png''})"

text \<open>A step report changes nothing when no case run is bound to the active device; otherwise it
  appends exactly one step, with the reported text, the status read as pass unless it is fail or blocked, the
  next index and the screenshot named by the report count, to the bound run and to no other run.  The report
  fails, recording nothing, when that run no longer exists.\<close>

theorem report_step_result_spec:
  "(case bound_run t s of
      None \<Rightarrow> tool_report_step_result t i st n s = (Inr False, s)
    | Some (iid, b) \<Rightarrow>
        (case steps_at (tl_db s) (br_runID b) of
           None \<Rightarrow> \<exists>e. fst (tool_report_step_result t i st n s) = Inl e
                    \<and> tl_db (snd (tool_report_step_result t i st n s)) = tl_db s
         | Some ss \<Rightarrow> fst (tool_report_step_result t i st n s) = Inr True
             \<and> (\<exists>shot. named_shot b shot
                  \<and> steps_at (tl_db (snd (tool_report_step_result t i st n s)))
                    = (steps_at (tl_db s))(br_runID b \<mapsto> ss @ [(step_of_report b i st n)
                        \<lparr>step_Screenshot := shot, step_Index := int (length ss)\<rparr>]))))"
proof (cases "bound_run t s")
  case None
  then show ?thesis by (simp add: report_unbound)
next
  case (Some p)
  obtain iid b where p: "p = (iid, b)" by (cases p)
  from report_bound[OF Some[unfolded p], of i st n] obtain q shot where
    shot: "named_shot b shot" and
    r: "tool_report_step_result t i st n s =
        (map_sum id (\<lambda>_. True) (fst (AppendStep (br_runID b) ((step_of_report b i st n)\<lparr>step_Screenshot := shot\<rparr>) (tl_db s))),
         (counted iid b s)\<lparr>tl_trace := tl_trace s @ q,
            tl_db := snd (AppendStep (br_runID b) ((step_of_report b i st n)\<lparr>step_Screenshot := shot\<rparr>) (tl_db s))\<rparr>)"
    by (auto simp: named_shot_def)
  have a: "case steps_at (tl_db s) (br_runID b) of
      None \<Rightarrow> \<exists>e. AppendStep (br_runID b) ((step_of_report b i st n)\<lparr>step_Screenshot := shot\<rparr>) (tl_db s) = (Inl e, tl_db s)
    | Some ss \<Rightarrow> fst (AppendStep (br_runID b) ((step_of_report b i st n)\<lparr>step_Screenshot := shot\<rparr>) (tl_db s)) = Inr ()
        \<and> steps_at (snd (AppendStep (br_runID b) ((step_of_report b i st n)\<lparr>step_Screenshot := shot\<rparr>) (tl_db s)))
          = (steps_at (tl_db s))(br_runID b \<mapsto> ss @ [((step_of_report b i st n)\<lparr>step_Screenshot := shot\<rparr>)\<lparr>step_Index := int (length ss)\<rparr>])"
    by (rule sqlite_sink.append_result)
  show ?thesis
  proof (cases "steps_at (tl_db s) (br_runID b)")
    case None
    then show ?thesis using a Some p r by auto
  next
    case (Some ss)
    then show ?thesis using a \<open>bound_run t s = Some p\<close> p r shot by auto
  qed
qed

text \<open>An unknown status counts as a pass, and the index of a report is not checked.\<close>

lemma unknown_status_passes: "reported_status ''skipped'' = StepPass" "reported_status '' FAIL '' = StepFail"
  by code_simp+

end
