(* ===== verification/Regex.thy ===== *)
theory Regex
  imports Go_Base
begin

text \<open>
  The part of Go's regexp package that the modelled code uses, on byte strings: leftmost-first matching with
  greedy and lazy repetition and capture groups.  A match lists, in the order of preference, every way
  to go on behind the expression; the first one is what the package reports.  The letters of a literal match
  in either case, as under the flag i.
\<close>

datatype rx =
    Word string
  | Space
  | Dot
  | WordChar
  | NotIn string
  | Seq rx rx
  | Alt rx rx
  | Opt bool rx
  | Star bool rx
  | Group nat rx
  | Boundary
  | AtEnd

text \<open>Where a match stands: the byte before, the text that is left, and the groups closed so far.\<close>

type_synonym pos = "char option \<times> string \<times> (nat \<times> string) list"

fun pos_rest :: "pos \<Rightarrow> string" where
  "pos_rest (_, s, _) = s"

definition rx_space :: "char \<Rightarrow> bool" where
  "rx_space c = ((of_char c :: nat) \<in> {9, 10, 12, 13, 32})"

definition word_char :: "char \<Rightarrow> bool" where
  "word_char c = (is_alnum c \<or> c = CHR ''_'')"

fun one_char :: "(char \<Rightarrow> bool) \<Rightarrow> pos \<Rightarrow> pos list" where
  "one_char p (_, [], g) = []"
| "one_char p (_, c # s, g) = (if p c then [(Some c, s, g)] else [])"

fun word_at :: "string \<Rightarrow> pos \<Rightarrow> pos list" where
  "word_at [] t = [t]"
| "word_at (w # ws) (_, [], g) = []"
| "word_at (w # ws) (_, c # s, g) = (if lower_char c = w then word_at ws (Some c, s, g) else [])"

definition is_word :: "char option \<Rightarrow> bool" where
  "is_word c = (case c of None \<Rightarrow> False | Some x \<Rightarrow> word_char x)"

fun at_boundary :: "pos \<Rightarrow> bool" where
  "at_boundary (p, s, _) = (is_word p \<noteq> is_word (case s of [] \<Rightarrow> None | c # _ \<Rightarrow> Some c))"

fun close_group :: "nat \<Rightarrow> string \<Rightarrow> pos \<Rightarrow> pos" where
  "close_group n start (p, s, g) = (p, s, (n, take (length start - length s) start) # g)"

definition either :: "bool \<Rightarrow> pos list \<Rightarrow> pos list \<Rightarrow> pos list" where
  "either greedy more stop = (if greedy then more @ stop else stop @ more)"

function matches_from :: "rx \<Rightarrow> pos \<Rightarrow> pos list" where
  "matches_from (Word w) t = word_at w t"
| "matches_from Space t = one_char rx_space t"
| "matches_from Dot t = one_char (\<lambda>c. c \<noteq> CHR 0x0A) t"
| "matches_from WordChar t = one_char word_char t"
| "matches_from (NotIn cs) t = one_char (\<lambda>c. c \<notin> set cs) t"
| "matches_from (Seq a b) t = concat (map (matches_from b) (matches_from a t))"
| "matches_from (Alt a b) t = matches_from a t @ matches_from b t"
| "matches_from (Opt greedy a) t = either greedy (matches_from a t) [t]"
| "matches_from (Star greedy a) t =
    either greedy
      (concat (map (\<lambda>u. if length (pos_rest u) < length (pos_rest t) then matches_from (Star greedy a) u else [])
                 (matches_from a t)))
      [t]"
| "matches_from (Group n a) t = map (close_group n (pos_rest t)) (matches_from a t)"
| "matches_from Boundary t = (if at_boundary t then [t] else [])"
| "matches_from AtEnd t = (if pos_rest t = [] then [t] else [])"
  by pat_completeness auto
termination
  by (relation "measures [\<lambda>(r, t). size r, \<lambda>(r, t). length (pos_rest t)]") auto

definition Plus :: "bool \<Rightarrow> rx \<Rightarrow> rx" where
  "Plus greedy a = Seq a (Star greedy a)"

fun alts :: "string list \<Rightarrow> rx" where
  "alts [] = Word []"
| "alts [w] = Word w"
| "alts (w # v # ws) = Alt (Word w) (alts (v # ws))"

fun seqs :: "rx list \<Rightarrow> rx" where
  "seqs [] = Word []"
| "seqs [a] = a"
| "seqs (a # b # rs) = Seq a (seqs (b # rs))"

text \<open>The match of an expression anchored at the start of the text, with its groups.\<close>

definition rx_find :: "rx \<Rightarrow> string \<Rightarrow> (nat \<times> string) list option" where
  "rx_find r s = (case matches_from r (None, s, []) of [] \<Rightarrow> None | (_, _, g) # _ \<Rightarrow> Some g)"

definition submatch :: "nat \<Rightarrow> (nat \<times> string) list \<Rightarrow> string" where
  "submatch n g = (case map_of g n of None \<Rightarrow> [] | Some w \<Rightarrow> w)"

end
