(* ===== verification/Test_Runner.thy ===== *)
theory Test_Runner
  imports Mcp Regex
begin

text \<open>
  The runner of plain tests, backend/internal/scenario/runner.go: each step of a test is classified by
  regular expressions, carried out on the device and recorded with its evidence; the run ends at the
  first step that fails.  The state is that of a tool call (database and device trace); the
  vision model, PNG headers and files are the parameters of tool_env.  The deadline of a run is
  a function of the number of device requests made so far; once it has passed, the database refuses writes, since
  every statement carries the context of the run.
\<close>

section \<open>The classification of steps\<close>

abbreviation VerbTap :: string where "VerbTap \<equiv> ''tap''"
abbreviation VerbType :: string where "VerbType \<equiv> ''type''"
abbreviation VerbOpen :: string where "VerbOpen \<equiv> ''open''"
abbreviation VerbSwipe :: string where "VerbSwipe \<equiv> ''swipe''"
abbreviation VerbAssert :: string where "VerbAssert \<equiv> ''assert''"
abbreviation VerbWait :: string where "VerbWait \<equiv> ''wait''"
abbreviation VerbKey :: string where "VerbKey \<equiv> ''key''"

definition spaces1 :: rx where "spaces1 = Plus True Space"
definition spaces :: rx where "spaces = Star True Space"
definition the_opt :: rx where "the_opt = Opt True (Seq (Word ''the'') spaces1)"
definition quote_opt :: rx where "quote_opt = Opt True (Word ''\"'')"
definition lazy_text :: "nat \<Rightarrow> rx" where "lazy_text n = Group n (Plus False Dot)"

definition reOpen :: rx where
  "reOpen = seqs [alts [''open'', ''launch'', ''start''], spaces1, the_opt, lazy_text 1,
     Opt True (Seq spaces1 (Word ''app'')), spaces, AtEnd]"

definition reType :: rx where
  "reType = seqs [alts [''type'', ''enter'', ''input'', ''write''], spaces1, quote_opt,
     Group 1 (Plus False (NotIn ''\"'')), quote_opt,
     Opt True (seqs [spaces1, alts [''into'', ''in'', ''to''], spaces1, the_opt, lazy_text 2]), spaces, AtEnd]"

definition reTap :: rx where
  "reTap = seqs [alts [''tap'', ''click'', ''press'', ''select'', ''choose'', ''toggle''], spaces1,
     Opt True (Seq (Word ''on'') spaces1), the_opt, lazy_text 1, spaces, AtEnd]"

definition reSwipe :: rx where
  "reSwipe = seqs [alts [''swipe'', ''scroll''], spaces,
     Opt True (seqs [Word ''to'', Opt True (Word ''wards''), spaces1]), the_opt,
     Opt True (Group 1 (alts [''up'', ''down'', ''left'', ''right''])), Star True WordChar, spaces, AtEnd]"

definition reAssert :: rx where
  "reAssert = seqs [alts [''assert'', ''verify'', ''check'', ''confirm'', ''expect''],
     Opt True (Seq spaces1 (Word ''that'')), spaces1, quote_opt, lazy_text 1, quote_opt,
     Opt True (seqs [spaces1, alts [''is'', ''are''], spaces1,
       Alt (Word ''visible'') (Alt (Word ''shown'') (Alt (Word ''displayed'')
         (Alt (seqs [Word ''on'', Opt True (Seq spaces1 (Word ''the'')), spaces1, Word ''screen'']) (Word ''present''))))]),
     spaces, AtEnd]"

definition reWait :: rx where
  "reWait = Seq (Word ''wait'') Boundary"

definition reSee :: rx where
  "reSee = seqs [Opt True (Seq (Word ''i'') spaces1), Opt True (Seq (Word ''should'') spaces1), Word ''see'', spaces1,
     quote_opt, lazy_text 1, quote_opt, spaces, AtEnd]"

definition knownPackages :: "(string \<times> string) list" where
  "knownPackages =
    [(''settings'', ''com.android.settings''), (''clock'', ''com.android.deskclock''),
     (''chrome'', ''com.android.chrome''), (''browser'', ''com.android.chrome''),
     (''contacts'', ''com.android.contacts''), (''phone'', ''com.android.dialer''),
     (''dialer'', ''com.android.dialer''), (''messaging'', ''com.android.messaging''),
     (''messages'', ''com.android.messaging''), (''camera'', ''com.android.camera2''),
     (''gallery'', ''com.android.gallery3d'')]"

definition keyNames :: "(string \<times> string) list" where
  "keyNames = [(''home'', ''HOME''), (''back'', ''BACK''), (''recents'', ''APP_SWITCH''), (''enter'', ''ENTER'')]"

definition swipe_verb :: "(nat \<times> string) list \<Rightarrow> string \<times> string \<times> string" where
  "swipe_verb g = (let dir = to_lower (submatch 1 g) in (VerbSwipe, if dir = [] then ''up'' else dir, []))"

definition tap_verb :: "(nat \<times> string) list \<Rightarrow> string \<times> string \<times> string" where
  "tap_verb g =
    (let t = trim_space (submatch 1 g) in
     case map_of keyNames (to_lower t) of Some k \<Rightarrow> (VerbKey, k, []) | None \<Rightarrow> (VerbTap, t, []))"

fun first_rule ::
  "(rx \<times> ((nat \<times> string) list \<Rightarrow> string \<times> string \<times> string)) list \<Rightarrow> string \<Rightarrow> string \<times> string \<times> string" where
  "first_rule [] step = ([], step, [])"
| "first_rule ((r, f) # rules) step =
    (case rx_find r step of Some g \<Rightarrow> f g | None \<Rightarrow> first_rule rules step)"

definition Classify :: "string \<Rightarrow> string \<times> string \<times> string" where
  "Classify text =
    first_rule
      [(reWait, \<lambda>_. (VerbWait, [], [])),
       (reAssert, \<lambda>g. (VerbAssert, submatch 1 g, [])),
       (reSee, \<lambda>g. (VerbAssert, submatch 1 g, [])),
       (reType, \<lambda>g. (VerbType, trim_space (submatch 2 g), trim_space (submatch 1 g))),
       (reOpen, \<lambda>g. (VerbOpen, trim_space (submatch 1 g), [])),
       (reSwipe, swipe_verb),
       (reTap, tap_verb)]
      (trim_space text)"

definition loose_word :: "string \<Rightarrow> string" where
  "loose_word w = trim_by (\<lambda>c. c \<in> set (''.,!?\"'' @ [char_of (39 :: nat)])) w"

definition word_matched :: "string \<Rightarrow> string \<Rightarrow> bool" where
  "word_matched hay w0 =
    (let w = loose_word w0 in length w \<le> 2 \<or> w = ''the'' \<or> w = ''and'' \<or> contains w hay)"

definition containsLoosely :: "string \<Rightarrow> string \<Rightarrow> bool" where
  "containsLoosely haystack expected =
    (let ws = Go_Base.fields (to_lower expected)
     in ws \<noteq> [] \<and> list_all (word_matched (to_lower haystack)) ws)"

definition swipeCoords :: "string \<Rightarrow> (int \<times> int) res \<Rightarrow> int \<times> int \<times> int \<times> int" where
  "swipeCoords direction png =
    (let (w, h) = (case png of Inl _ \<Rightarrow> (720, 1280) | Inr sz \<Rightarrow> sz);
         cx = w sdiv 2; cy = h sdiv 2; dx = w sdiv 3; dy = h sdiv 3
     in if direction = ''down'' then (cx, cy - dy, cx, cy + dy)
        else if direction = ''left'' then (cx + dx, cy, cx - dx, cy)
        else if direction = ''right'' then (cx - dx, cy, cx + dx, cy)
        else (cx, cy + dy, cx, cy - dy))"

section \<open>One step\<close>

record run_env =
  rn_tools :: tool_env
  rn_now :: time
  rn_mkdir :: "go_error option"
  rn_done :: "nat \<Rightarrow> bool"
  rn_ms :: "nat \<Rightarrow> int"

definition ctx_done :: "run_env \<Rightarrow> tools \<Rightarrow> bool" where
  "ctx_done e s = rn_done e (length (tl_trace s))"

definition elapsed :: "run_env \<Rightarrow> tools \<Rightarrow> int" where
  "elapsed e s = rn_ms e (length (tl_trace s))"

definition pass :: "run_env \<Rightarrow> StepResult \<Rightarrow> tools \<Rightarrow> StepResult \<times> tools" where
  "pass e r s = (r\<lparr>step_Pass := True, step_DurationMs := elapsed e s\<rparr>, s)"

definition failed_step :: "run_env \<Rightarrow> StepResult \<Rightarrow> string \<Rightarrow> tools \<Rightarrow> StepResult \<times> tools" where
  "failed_step e r detail s = (r\<lparr>step_Pass := False, step_Detail := detail, step_DurationMs := elapsed e s\<rparr>, s)"

text \<open>A device request that ends the step: passed, or failed with the text of the error.\<close>

definition ends_with :: "run_env \<Rightarrow> StepResult \<Rightarrow> unit tool \<Rightarrow> tools \<Rightarrow> StepResult \<times> tools" where
  "ends_with e r m s =
    (case m s of (Inl err, s1) \<Rightarrow> failed_step e r (err_text err) s1 | (Inr _, s1) \<Rightarrow> pass e r s1)"

definition shoot :: "run_env \<Rightarrow> string \<Rightarrow> string tool" where
  "shoot e iid = device_act (\<lambda>d. Screenshot (te_dev (rn_tools e)) d iid)"

definition fresh_shot :: "run_env \<Rightarrow> string \<Rightarrow> string \<Rightarrow> tools \<Rightarrow> string \<times> tools" where
  "fresh_shot e iid shot s =
    (case shoot e iid s of (Inl _, s1) \<Rightarrow> (shot, s1) | (Inr fresh, s1) \<Rightarrow> (fresh, s1))"

fun find_points ::
  "run_env \<Rightarrow> string \<Rightarrow> string \<Rightarrow> nat \<Rightarrow> string \<Rightarrow> tools
    \<Rightarrow> (string + (int \<Rightarrow> int \<Rightarrow> int \<times> int) list \<times> string) \<times> tools" where
  "find_points e iid what 0 shot s = (Inr ([], shot), s)"
| "find_points e iid what (Suc n) shot s =
    (case te_locate (rn_tools e) shot (trim_space what) of
       Inl err \<Rightarrow> (Inl (''vision point: '' @ err_text err), s)
     | Inr (p # ps) \<Rightarrow> (Inr (p # ps, shot), s)
     | Inr [] \<Rightarrow>
         (if ctx_done e s then (Inl ''cancelled'', s)
          else case fresh_shot e iid shot s of (shot', s1) \<Rightarrow> find_points e iid what n shot' s1))"

definition tap_first ::
  "run_env \<Rightarrow> string \<Rightarrow> StepResult \<Rightarrow> (int \<Rightarrow> int \<Rightarrow> int \<times> int) list \<Rightarrow> string \<Rightarrow> tools \<Rightarrow> StepResult \<times> tools" where
  "tap_first e iid r points shot s =
    (case points of
       [] \<Rightarrow> failed_step e r (''could not find '' @ go_quote (step_Target r) @ '' on screen'') s
     | p # _ \<Rightarrow>
         (case te_png (rn_tools e) shot of
            Inl err \<Rightarrow> failed_step e r (''decode screenshot: '' @ err_text err) s
          | Inr (w, h) \<Rightarrow>
              (let (x, y) = p w h; r1 = r\<lparr>step_X := x, step_Y := y\<rparr>
               in ends_with e r1 (device_act (\<lambda>d. Tap (te_dev (rn_tools e)) d iid x y)) s)))"

definition groundAndTap ::
  "run_env \<Rightarrow> string \<Rightarrow> StepResult \<Rightarrow> string \<Rightarrow> tools \<Rightarrow> StepResult \<times> tools" where
  "groundAndTap e iid r shot s =
    (case find_points e iid (step_Target r) 4 shot s of
       (Inl detail, s1) \<Rightarrow> failed_step e r detail s1
     | (Inr (points, shot1), s1) \<Rightarrow> tap_first e iid r points shot1 s1)"

fun assert_step ::
  "run_env \<Rightarrow> string \<Rightarrow> StepResult \<Rightarrow> nat \<Rightarrow> string \<Rightarrow> tools \<Rightarrow> StepResult \<times> tools" where
  "assert_step e iid r 0 shot s = failed_step e r (''expected '' @ go_quote (step_Target r) @ '' on screen'') s"
| "assert_step e iid r (Suc n) shot s =
    (case te_caption (rn_tools e) shot ''Describe the screen and all visible text.'' of
       Inl err \<Rightarrow> failed_step e r (''vision query: '' @ err_text err) s
     | Inr answer \<Rightarrow>
         (let r1 = r\<lparr>step_ModelOut := answer\<rparr> in
          if containsLoosely answer (step_Target r) then pass e r1 s
          else if ctx_done e s then failed_step e r1 ''cancelled'' s
          else case fresh_shot e iid shot s of (shot', s1) \<Rightarrow> assert_step e iid r1 n shot' s1))"

definition type_into :: "run_env \<Rightarrow> string \<Rightarrow> StepResult \<Rightarrow> tools \<Rightarrow> StepResult \<times> tools" where
  "type_into e iid r s = ends_with e r (device_act (\<lambda>d. Text (te_dev (rn_tools e)) d iid (step_Value r))) s"

definition type_step :: "run_env \<Rightarrow> string \<Rightarrow> StepResult \<Rightarrow> string \<Rightarrow> tools \<Rightarrow> StepResult \<times> tools" where
  "type_step e iid r shot s =
    (if step_Target r = [] then type_into e iid r s
     else case groundAndTap e iid r shot s of
            (r1, s1) \<Rightarrow> if step_Pass r1 then type_into e iid r1 s1 else (r1, s1))"

definition open_step :: "run_env \<Rightarrow> string \<Rightarrow> StepResult \<Rightarrow> string \<Rightarrow> tools \<Rightarrow> StepResult \<times> tools" where
  "open_step e iid r shot s =
    (case map_of knownPackages (to_lower (step_Target r)) of
       Some pkg \<Rightarrow> ends_with e r (device_act (\<lambda>d. LaunchApp (te_dev (rn_tools e)) d iid pkg)) s
     | None \<Rightarrow> groundAndTap e iid r shot s)"

definition swipe_step :: "run_env \<Rightarrow> string \<Rightarrow> StepResult \<Rightarrow> string \<Rightarrow> tools \<Rightarrow> StepResult \<times> tools" where
  "swipe_step e iid r shot s =
    (case swipeCoords (step_Target r) (te_png (rn_tools e) shot) of (x1, y1, x2, y2) \<Rightarrow>
       ends_with e r (device_act (\<lambda>d. Swipe (te_dev (rn_tools e)) d iid x1 y1 x2 y2 300)) s)"

definition perform :: "run_env \<Rightarrow> string \<Rightarrow> StepResult \<Rightarrow> string \<Rightarrow> string \<Rightarrow> tools \<Rightarrow> StepResult \<times> tools" where
  "perform e iid r text shot s =
    (if step_Verb r = VerbWait then (if ctx_done e s then failed_step e r ''cancelled'' s else pass e r s)
     else if step_Verb r = VerbKey then
       ends_with e r (device_act (\<lambda>d. Key (te_dev (rn_tools e)) d iid (step_Target r))) s
     else if step_Verb r = VerbOpen then open_step e iid r shot s
     else if step_Verb r = VerbTap then groundAndTap e iid r shot s
     else if step_Verb r = VerbType then type_step e iid r shot s
     else if step_Verb r = VerbSwipe then swipe_step e iid r shot s
     else if step_Verb r = VerbAssert then assert_step e iid r 3 shot s
     else failed_step e r (''could not understand step '' @ go_quote text) s)"

definition classified :: "int \<Rightarrow> string \<Rightarrow> StepResult" where
  "classified index text =
    (case Classify text of (verb, what, val) \<Rightarrow>
       zero_StepResult\<lparr>step_Index := index, step_Text := text, step_Verb := verb, step_Target := what,
         step_Value := val\<rparr>)"

definition with_evidence :: "run_env \<Rightarrow> string \<Rightarrow> StepResult \<Rightarrow> StepResult" where
  "with_evidence e runDir r =
    (let name = ''step-'' @ two_digits (nat (step_Index r)) @ ''.png''
     in if te_write (rn_tools e) (path_join [runDir, name]) then r\<lparr>step_Screenshot := name\<rparr> else r)"

definition with_battery :: "run_env \<Rightarrow> string \<Rightarrow> StepResult \<Rightarrow> tools \<Rightarrow> StepResult \<times> tools" where
  "with_battery e iid r s =
    (case device_act (\<lambda>d. Perf (te_dev (rn_tools e)) d iid []) s of
       (Inl _, s1) \<Rightarrow> (r, s1)
     | (Inr snap, s1) \<Rightarrow> (r\<lparr>step_Battery := perf_BatteryLevel snap\<rparr>, s1))"

definition runStep :: "run_env \<Rightarrow> string \<Rightarrow> int \<Rightarrow> string \<Rightarrow> string \<Rightarrow> tools \<Rightarrow> StepResult \<times> tools" where
  "runStep e iid index text runDir s =
    (case shoot e iid s of
       (Inl err, s1) \<Rightarrow> failed_step e (classified index text) (''screenshot: '' @ err_text err) s1
     | (Inr shot, s1) \<Rightarrow>
         (case with_battery e iid (with_evidence e runDir (classified index text)) s1 of
            (r, s2) \<Rightarrow> perform e iid r text shot s2))"

section \<open>A run\<close>

definition ArtifactRoot :: "env \<Rightarrow> string" where
  "ArtifactRoot e =
    (let root = env_Getenv e ''OPENCUTTLES_ARTIFACT_ROOT'' in if root = [] then ''./data/artifacts'' else root)"

text \<open>Start, with the test that execute gets.\<close>

definition Start_test :: "time \<Rightarrow> 8 word list \<Rightarrow> string \<Rightarrow> string \<Rightarrow> db \<Rightarrow> (Test \<times> TestRun) res \<times> db" where
  "Start_test now rnd testID instanceID d =
    (case GetTest testID d of
       Inl err \<Rightarrow> (Inl err, d)
     | Inr t \<Rightarrow>
         (case GetInstance instanceID d of
            Inl err \<Rightarrow> (Inl err, d)
          | Inr i \<Rightarrow>
              (if inst_State i \<noteq> StateRunning
               then (Inl (Err (''instance '' @ inst_Name i @ '' is not running'')), d)
               else case CreateTestRun now rnd (test_ID t) (inst_ID i) d of
                      (Inl err, d1) \<Rightarrow> (Inl err, d1)
                    | (Inr run, d1) \<Rightarrow> (Inr (t, run), d1))))"

definition save_run :: "run_env \<Rightarrow> TestRun \<Rightarrow> tools \<Rightarrow> tools" where
  "save_run e run s = (if ctx_done e s then s else s\<lparr>tl_db := UpdateTestRun run (tl_db s)\<rparr>)"

definition finished_run :: "run_env \<Rightarrow> TestRun \<Rightarrow> bool \<Rightarrow> string \<Rightarrow> TestRun" where
  "finished_run e run passed errMsg =
    (let ok = passed \<and> errMsg = []
     in run\<lparr>run_FinishedAt := Some (rn_now e), run_Passed := ok, run_Error := errMsg,
            run_Status := (if ok then ''passed'' else ''failed'')\<rparr>)"

definition finish :: "run_env \<Rightarrow> TestRun \<Rightarrow> bool \<Rightarrow> string \<Rightarrow> tools \<Rightarrow> tools" where
  "finish e run passed errMsg s = save_run e (finished_run e run passed errMsg) s"

datatype outcome = AllPassed | StepFailed | TimedOut

fun run_steps ::
  "run_env \<Rightarrow> string \<Rightarrow> string \<Rightarrow> int \<Rightarrow> string list \<Rightarrow> TestRun \<Rightarrow> tools \<Rightarrow> outcome \<times> TestRun \<times> tools" where
  "run_steps e iid runDir i [] run s = (AllPassed, run, s)"
| "run_steps e iid runDir i (text # texts) run s =
    (case runStep e iid i text runDir s of
       (r, s1) \<Rightarrow>
         let run1 = run\<lparr>run_Steps := run_Steps run @ [r]\<rparr>; s2 = save_run e run1 s1
         in if \<not> step_Pass r then (StepFailed, run1, s2)
            else if ctx_done e s2 then (TimedOut, run1, s2)
            else run_steps e iid runDir (i + 1) texts run1 s2)"

definition start_recording :: "run_env \<Rightarrow> Instance \<Rightarrow> tools \<Rightarrow> bool \<times> tools" where
  "start_recording e i s =
    (if inst_Platform i = [] \<or> inst_Platform i = PlatformAndroid then
       (case device_act (\<lambda>d. StartRecording (te_dev (rn_tools e)) d (inst_ID i)) s of (r, s1) \<Rightarrow> (is_ok r, s1))
     else (False, s))"

definition stop_recording :: "run_env \<Rightarrow> Instance \<Rightarrow> string \<Rightarrow> bool \<Rightarrow> TestRun \<Rightarrow> tools \<Rightarrow> TestRun \<times> tools" where
  "stop_recording e i runDir recording run s =
    (if \<not> recording then (run, s)
     else case device_act (\<lambda>d. StopRecording (te_dev (rn_tools e)) d (inst_ID i)) s of
            (r, s1) \<Rightarrow>
              (if is_ok r \<and> te_write (rn_tools e) (path_join [runDir, ''session.mp4''])
               then run\<lparr>run_Video := ''session.mp4''\<rparr> else run, s1))"

definition after_steps ::
  "run_env \<Rightarrow> Instance \<Rightarrow> string \<Rightarrow> bool \<Rightarrow> outcome \<times> TestRun \<times> tools \<Rightarrow> tools" where
  "after_steps e i runDir recording r =
    (case r of (out, run, s) \<Rightarrow>
       if out = TimedOut then finish e run False ''run timed out'' s
       else case stop_recording e i runDir recording run s of
              (run1, s1) \<Rightarrow> finish e run1 (out = AllPassed) [] s1)"

definition execute_test :: "run_env \<Rightarrow> string \<Rightarrow> Test \<Rightarrow> Instance \<Rightarrow> TestRun \<Rightarrow> tools \<Rightarrow> tools" where
  "execute_test e root t i run s =
    (let runDir = path_join [root, run_ID run] in
     case rn_mkdir e of
       Some err \<Rightarrow> finish e run False (''create artifact dir: '' @ err_text err) s
     | None \<Rightarrow>
         (case start_recording e i s of
            (recording, s1) \<Rightarrow>
              after_steps e i runDir recording (run_steps e (inst_ID i) runDir 0 (test_Steps t) run s1)))"

section \<open>What a step may change\<close>

definition labels :: "StepResult \<Rightarrow> int \<times> string" where
  "labels r = (step_Index r, step_Text r)"

definition keeps_step :: "StepResult \<Rightarrow> tools \<Rightarrow> StepResult \<times> tools \<Rightarrow> bool" where
  "keeps_step r s p = (labels (fst p) = labels r \<and> tl_db (snd p) = tl_db s)"

named_theorems stepping \<open>a step keeps its labels and the database\<close>

lemma device_act_db: "device_act m s = (r, s') \<Longrightarrow> tl_db s' = tl_db s"
  by (auto simp: device_act_def split: prod.splits)

lemma keeps_ends [stepping]: "keeps_step r s (pass e r s)" "keeps_step r s (failed_step e r m s)"
  by (simp_all add: keeps_step_def labels_def pass_def failed_step_def)

lemma keeps_trans: "tl_db s' = tl_db s \<Longrightarrow> labels r' = labels r \<Longrightarrow> keeps_step r' s' p \<Longrightarrow> keeps_step r s p"
  by (simp add: keeps_step_def)

lemma keeps_ends_with [stepping]: "keeps_step r s (ends_with e r (device_act m) s)"
proof -
  obtain x s1 where "device_act m s = (x, s1)" by fastforce
  then show ?thesis
    using device_act_db[of m s] by (auto simp: ends_with_def pass_def failed_step_def keeps_step_def labels_def split: sum.split)
qed

lemma fresh_shot_db: "fresh_shot e iid shot s = (x, s') \<Longrightarrow> tl_db s' = tl_db s"
  by (auto simp: fresh_shot_def shoot_def dest: device_act_db split: prod.splits sum.splits)

lemma find_points_db: "find_points e iid what n shot s = (x, s') \<Longrightarrow> tl_db s' = tl_db s"
proof (induction n arbitrary: shot s)
  case (Suc n)
  then show ?case
    by (auto dest: fresh_shot_db split: sum.splits list.splits if_splits prod.splits)
qed simp

lemma keeps_tap_first [stepping]: "keeps_step r s (tap_first e iid r points shot s)"
  by (auto simp: tap_first_def Let_def intro!: stepping keeps_trans[OF refl _ keeps_ends_with]
      split: list.split sum.split prod.split) (auto simp: labels_def)

lemma keeps_groundAndTap [stepping]: "keeps_step r s (groundAndTap e iid r shot s)"
  by (auto simp: groundAndTap_def dest!: find_points_db
      intro: keeps_trans[OF _ refl keeps_ends(2)] keeps_trans[OF _ refl keeps_tap_first] split: prod.split sum.split)

lemma keeps_assert [stepping]: "keeps_step r s (assert_step e iid r n shot s)"
proof (induction n arbitrary: r shot s)
  case 0
  show ?case by (simp add: stepping)
next
  case (Suc n)
  have l: "labels (r\<lparr>step_ModelOut := a\<rparr>) = labels r" for a by (simp add: labels_def)
  show ?case
    by (auto simp: Let_def stepping intro: keeps_trans[OF refl l keeps_ends(1)] keeps_trans[OF refl l keeps_ends(2)]
        keeps_trans[OF _ l Suc.IH] dest!: fresh_shot_db split: sum.split prod.split)
qed

lemma keeps_perform: "keeps_step r s (perform e iid r text shot s)"
proof -
  have "keeps_step r s (type_step e iid r shot s)"
    using keeps_groundAndTap[of r s e iid shot]
    by (cases "groundAndTap e iid r shot s")
      (auto simp: type_step_def type_into_def stepping keeps_step_def[of r s "(_, _)"]
        intro: keeps_trans[OF _ _ keeps_ends_with])
  then show ?thesis
    by (auto simp: perform_def open_step_def swipe_step_def stepping split: option.split prod.split)
qed

lemma keeps_runStep:
  assumes "runStep e iid i text runDir s = (r, s')"
  shows "step_Text r = text" "step_Index r = i" "tl_db s' = tl_db s"
proof -
  have c: "labels (classified i text) = (i, text)" by (simp add: classified_def labels_def split: prod.split)
  have v: "labels (with_evidence e runDir r0) = labels r0" for r0
    by (simp add: with_evidence_def Let_def labels_def)
  have b: "with_battery e iid r0 s0 = (r1, s1) \<Longrightarrow> labels r1 = labels r0 \<and> tl_db s1 = tl_db s0" for r0 r1 s0 s1
    by (auto simp: with_battery_def labels_def dest: device_act_db split: prod.splits sum.splits)
  have "keeps_step (classified i text) s (runStep e iid i text runDir s)"
    by (auto simp: runStep_def shoot_def v dest!: device_act_db b
        intro: keeps_trans[OF _ _ keeps_ends(2)] keeps_trans[OF _ _ keeps_perform] split: prod.split sum.split)
  then show "step_Text r = text" "step_Index r = i" "tl_db s' = tl_db s"
    using c unfolding assms keeps_step_def by (simp_all add: labels_def)
qed

section \<open>What a run records\<close>

text \<open>The row of a run in the database, and a row that holds what the run says.\<close>

definition run_row_at :: "string \<Rightarrow> db \<Rightarrow> TestRun option" where
  "run_row_at k d = tbl_find run_ID k (db_test_runs d)"

lemma UpdateTestRun_row:
  "run_row_at (run_ID run) d = Some row \<Longrightarrow>
    \<exists>row'. run_row_at (run_ID run) (UpdateTestRun run d) = Some row'
      \<and> run_Status row' = run_Status run \<and> run_Passed row' = run_Passed run \<and> run_Steps row' = run_Steps run
      \<and> run_Error row' = run_Error run \<and> run_FinishedAt row' = run_FinishedAt run"
  by (simp add: run_row_at_def UpdateTestRun_def tbl_find_update)

lemma UpdateTestRun_others: "k \<noteq> run_ID run \<Longrightarrow> run_row_at k (UpdateTestRun run d) = run_row_at k d"
  by (simp add: run_row_at_def UpdateTestRun_def tbl_find_update)

definition same_runs_but :: "string \<Rightarrow> tools \<Rightarrow> tools \<Rightarrow> bool" where
  "same_runs_but k s s' =
    ((run_row_at k (tl_db s) \<noteq> None \<longrightarrow> run_row_at k (tl_db s') \<noteq> None)
     \<and> (\<forall>j. j \<noteq> k \<longrightarrow> run_row_at j (tl_db s') = run_row_at j (tl_db s)))"

lemma same_runs_refl: "tl_db s' = tl_db s \<Longrightarrow> same_runs_but k s s'"
  by (simp add: same_runs_but_def)

lemma same_runs_trans: "same_runs_but k a b \<Longrightarrow> same_runs_but k b c \<Longrightarrow> same_runs_but k a c"
  by (simp add: same_runs_but_def)

lemma save_run_same: "same_runs_but (run_ID run) s (save_run e run s)"
  by (auto simp: same_runs_but_def save_run_def UpdateTestRun_others dest: UpdateTestRun_row)

text \<open>The steps of a run: the texts in order from an index, all passed but perhaps the last.\<close>

definition recorded :: "int \<Rightarrow> string list \<Rightarrow> StepResult list \<Rightarrow> bool" where
  "recorded i texts rs =
    (map step_Text rs = take (length rs) texts \<and> map step_Index rs = map (\<lambda>k. i + int k) [0..<length rs]
     \<and> list_all step_Pass (butlast rs))"

lemma recorded_Cons:
  assumes "step_Text r = text" "step_Index r = i" "step_Pass r \<or> rs = []" "recorded (i + 1) texts rs"
  shows "recorded i (text # texts) (r # rs)"
proof -
  have "[0..<Suc (length rs)] = 0 # map Suc [0..<length rs]" by (simp add: upt_conv_Cons map_Suc_upt del: upt_Suc)
  then have "map (\<lambda>k. i + int k) [0..<Suc (length rs)] = i # map (\<lambda>k. i + 1 + int k) [0..<length rs]"
    by (simp add: comp_def add.assoc)
  then show ?thesis using assms by (auto simp: recorded_def simp del: upt_Suc)
qed

definition steps_outcome :: "outcome \<Rightarrow> string list \<Rightarrow> StepResult list \<Rightarrow> bool" where
  "steps_outcome out texts rs =
    (case out of
       AllPassed \<Rightarrow> length rs = length texts \<and> list_all step_Pass rs
     | StepFailed \<Rightarrow> rs \<noteq> [] \<and> \<not> step_Pass (last rs)
     | TimedOut \<Rightarrow> list_all step_Pass rs)"

lemma run_steps_recorded:
  "run_steps e iid runDir i texts run s = (out, run', s') \<Longrightarrow>
    \<exists>rs. run' = run\<lparr>run_Steps := run_Steps run @ rs\<rparr> \<and> recorded i texts rs \<and> steps_outcome out texts rs
      \<and> same_runs_but (run_ID run) s s' \<and> (out = TimedOut \<longrightarrow> ctx_done e s')"
proof (induction texts arbitrary: i run s)
  case Nil
  then show ?case
    by (intro exI[of _ "[]"]) (simp add: recorded_def steps_outcome_def same_runs_refl)
next
  case (Cons tx texts)
  obtain r s1 where r: "runStep e iid i tx runDir s = (r, s1)" by fastforce
  define run1 where "run1 = run\<lparr>run_Steps := run_Steps run @ [r]\<rparr>"
  define s2 where "s2 = save_run e run1 s1"
  have s2: "same_runs_but (run_ID run) s s2"
    using same_runs_trans[OF same_runs_refl save_run_same[of run1]] keeps_runStep(3)[OF r]
    by (simp add: s2_def run1_def)
  note step = keeps_runStep(1,2)[OF r]
  show ?case
  proof (cases "step_Pass r \<and> \<not> ctx_done e s2")
    case False
    then have "(out = StepFailed \<and> \<not> step_Pass r \<or> out = TimedOut \<and> step_Pass r \<and> ctx_done e s2)
        \<and> run' = run1 \<and> s' = s2"
      using Cons.prems r by (auto simp: Let_def run1_def s2_def split: if_splits)
    then show ?thesis using s2 step
      by (intro exI[of _ "[r]"]) (auto simp: run1_def recorded_def steps_outcome_def)
  next
    case True
    then have "run_steps e iid runDir (i + 1) texts run1 s2 = (out, run', s')"
      using Cons.prems r by (simp add: Let_def run1_def s2_def)
    then obtain rs where rs: "run' = run1\<lparr>run_Steps := run_Steps run1 @ rs\<rparr>" "recorded (i + 1) texts rs"
        "steps_outcome out texts rs" "same_runs_but (run_ID run1) s2 s'" "out = TimedOut \<longrightarrow> ctx_done e s'"
      using Cons.IH by blast
    have "steps_outcome out (tx # texts) (r # rs)" using rs(3) True
      by (auto simp: steps_outcome_def split: outcome.splits)
    then show ?thesis using rs s2 recorded_Cons[OF step _ rs(2)] True
      by (intro exI[of _ "r # rs"]) (auto simp: run1_def intro: same_runs_trans)
  qed
qed

definition settled_run :: "run_env \<Rightarrow> Test \<Rightarrow> TestRun \<Rightarrow> bool" where
  "settled_run e t r =
    (run_FinishedAt r = Some (rn_now e) \<and> run_Error r = [] \<and> recorded 0 (test_Steps t) (run_Steps r)
     \<and> run_Status r = (if run_Passed r then ''passed'' else ''failed'')
     \<and> run_Passed r = (length (run_Steps r) = length (test_Steps t) \<and> list_all step_Pass (run_Steps r))
     \<and> (\<not> run_Passed r \<longrightarrow> run_Steps r \<noteq> [] \<and> \<not> step_Pass (last (run_Steps r))))"

lemma stop_recording_frame:
  "stop_recording e i runDir recording run s = (run', s') \<Longrightarrow>
    tl_db s' = tl_db s \<and> (\<exists>v. run' = run\<lparr>run_Video := v\<rparr>)"
  by (auto simp: stop_recording_def dest: device_act_db split: if_splits prod.splits) (metis TestRun.surjective TestRun.update_convs(8))+

lemma finish_row:
  assumes "\<And>n. \<not> rn_done e n" "run_row_at (run_ID run) (tl_db s) \<noteq> None"
  obtains row where "run_row_at (run_ID run) (tl_db (finish e run p m s)) = Some row"
    "run_FinishedAt row = Some (rn_now e)" "run_Error row = m" "run_Steps row = run_Steps run"
    "run_Passed row = (p \<and> m = [])" "run_Status row = (if p \<and> m = [] then ''passed'' else ''failed'')"
proof -
  obtain row0 where "run_row_at (run_ID (finished_run e run p m)) (tl_db s) = Some row0"
    using assms(2) by (auto simp: finished_run_def Let_def)
  from UpdateTestRun_row[OF this] show ?thesis
    using that assms(1) by (auto simp: finish_def save_run_def ctx_done_def finished_run_def Let_def)
qed


definition seeing :: "string \<Rightarrow> tool_env" where
  "seeing caption = \<lparr>te_dev = quiet_env, te_sink = True, te_vision = True, te_locate = (\<lambda>_ _. Inr [\<lambda>w h. (w div 2, h div 2)]),
     te_caption = (\<lambda>_ _. Inr caption), te_vqa = None, te_png = (\<lambda>_. Inr (720, 1280)), te_write = (\<lambda>_. True)\<rparr>"

definition steady :: "string \<Rightarrow> run_env" where
  "steady caption = \<lparr>rn_tools = seeing caption, rn_now = 9, rn_mkdir = None, rn_done = (\<lambda>_. False), rn_ms = (\<lambda>_. 0)\<rparr>"

definition wifi_test :: Test where
  "wifi_test = zero_Test\<lparr>test_ID := ''test_01'', test_Name := ''wifi'',
     test_Steps := [''tap Wi-Fi'', ''verify Connected'', ''go on'']\<rparr>"

definition wifi_run :: TestRun where
  "wifi_run = zero_TestRun\<lparr>run_ID := ''run_03'', run_TestID := ''test_01'', run_InstanceID := ''phy_1'',
     run_Status := ''running''\<rparr>"

definition wifi_state :: tools where
  "wifi_state = \<lparr>tl_db = sample_devices\<lparr>db_tests := [wifi_test], db_test_runs := [wifi_run]\<rparr>,
     tl_mcp = new_mcp, tl_trace = []\<rparr>"


lemma classified_steps:
  "Classify ''tap Wi-Fi'' = (VerbTap, ''Wi-Fi'', [])"
  "Classify ''verify Connected'' = (VerbAssert, ''Connected'', [])"
  "Classify ''go on'' = ([], ''go on'', [])"
  "Classify ''Press Enter'' = (VerbKey, ''ENTER'', [])"
  by code_simp+

text \<open>
  An assertion whose words have at most two letters holds on every screen: they count as stop words.
\<close>

lemma short_words_are_always_seen:
  assumes "Go_Base.fields (to_lower expected) \<noteq> []"
    "list_all (\<lambda>w. length (loose_word w) \<le> 2) (Go_Base.fields (to_lower expected))"
  shows "containsLoosely haystack expected"
  using assms by (auto simp: containsLoosely_def word_matched_def Let_def list_all_iff)

lemma asserting_OK_always_passes: "containsLoosely haystack ''OK''"
  by (rule short_words_are_always_seen) code_simp+

text \<open>
  When the time of a run is up between two steps, the final write carries the expired context and is lost: the row keeps
  the state it had, so the run is shown as running for ever.
\<close>

lemma timed_out_run_is_not_finished:
  assumes "run_steps e iid runDir i texts run s = (TimedOut, run1, s1)"
  shows "after_steps e inst runDir recording (TimedOut, run1, s1) = s1"
proof -
  have "ctx_done e s1" using run_steps_recorded[OF assms] by blast
  then show ?thesis by (simp add: after_steps_def finish_def save_run_def)
qed

end
