(* ===== verification/Cycle_Executor.thy ===== *)
theory Cycle_Executor
  imports Mcp
begin

text \<open>
  The headless run of a test cycle, backend/internal/scenario/cycle.go.  For each case the
  executor creates a case run, points the tool server at the device, binds step
  reports to the run and calls the agent, which does nothing but tool calls and ends with
  a text or an error.  The agent is a parameter: the calls it makes and its last words may
  depend on the whole state it starts in.  runCase and execute follow the code
  of one cycle run; Cycle_Interleaving lets several cycle runs and their
  agents interleave, one critical section or tool call at a time.
\<close>

section \<open>The verdict on a case\<close>

definition has_status :: "string \<Rightarrow> StepResult list \<Rightarrow> bool" where
  "has_status st steps = list_ex (\<lambda>s. step_Status s = st) steps"

definition classifyCase ::
  "StepResult list \<Rightarrow> nat \<Rightarrow> go_error option \<Rightarrow> string \<Rightarrow> string \<times> bool \<times> string" where
  "classifyCase steps expected agentErr terminal =
    (case agentErr of
       Some err \<Rightarrow> (''fail'', False, err_text err)
     | None \<Rightarrow>
         (if has_status StepFail steps then (''fail'', False, [])
          else if steps = [] then
            (let low = to_lower terminal
             in if contains ''fail'' low \<or> contains ''block'' low \<or> contains ''could not'' low
                then (''fail'', False, ''no per-step results reported; agent summary indicated failure'')
                else (StepBlocked, False, ''no per-step results reported; case could not be verified''))
          else if 0 < expected \<and> length steps < expected
          then (StepBlocked, False, ''incomplete: '' @ nat_text (length steps) @ '' of '' @
                 nat_text expected @ '' steps verified'')
          else if has_status StepBlocked steps then (StepBlocked, False, [])
          else (StepPass, True, [])))"

section \<open>The prompt of a case\<close>

definition prompt_line :: "nat \<Rightarrow> TestStep \<Rightarrow> string" where
  "prompt_line i st =
    nat_text (i + 1) @ ''. '' @ trim_space (ts_Action st)
    @ (if trim_space (ts_TestData st) \<noteq> [] then ''  [data: '' @ trim_space (ts_TestData st) @ '']'' else [])
    @ (if trim_space (ts_Expected st) \<noteq> []
       then ''  '' @ right_arrow @ '' expected: '' @ trim_space (ts_Expected st) else [])
    @ [CHR 0x0A]"

definition renderCasePrompt :: "TestCase \<Rightarrow> string" where
  "renderCasePrompt tc =
    ''You are running an AUTOMATED test case on the active device. Execute each step in order, '' @
    ''then verify its Expected Result before moving on.'' @ [CHR 0x0A, CHR 0x0A]
    @ ''Test case: '' @ case_Summary tc @ [CHR 0x0A]
    @ (if trim_space (case_Precondition tc) \<noteq> []
       then ''Precondition: '' @ case_Precondition tc @ [CHR 0x0A] else [])
    @ [CHR 0x0A] @ ''Steps:'' @ [CHR 0x0A]
    @ concat (map (\<lambda>(i, st). prompt_line i st) (enumerate 0 (case_Steps tc)))
    @ [CHR 0x0A] @ ''For EACH numbered step: perform the action, verify its Expected Result on screen, '' @
    ''then call report_step_result with that step's 1-based index, a status of '' @ [CHR 0x22] @ ''pass'' @
    [CHR 0x22] @ '' / '' @ [CHR 0x22] @ ''fail'' @ [CHR 0x22] @ '' / '' @ [CHR 0x22] @ ''blocked'' @ [CHR 0x22] @
    '', and a short note of what you observed. If a step's expected result cannot be achieved, report it '' @
    [CHR 0x22] @ ''fail'' @ [CHR 0x22] @
    '' and stop. When finished, reply with a single line: PASS or FAIL and one sentence why.''"

section \<open>One case\<close>

text \<open>
  What a cycle run takes from outside: the tools, the agent, the artifact root, and per
  case the bytes of its identifier and the instants at which it starts and ends.
\<close>

record exec_env =
  ee_tools :: tool_env
  ee_agent :: "string \<Rightarrow> string \<Rightarrow> tools \<Rightarrow> tool_call list \<times> string \<times> go_error option"
  ee_artifact :: string
  ee_rnd :: "nat \<Rightarrow> 8 word list"
  ee_started :: "nat \<Rightarrow> time"
  ee_ended :: "nat \<Rightarrow> time"
  ee_done :: time

definition with_db :: "(db \<Rightarrow> 'a \<times> db) \<Rightarrow> tools \<Rightarrow> 'a \<times> tools" where
  "with_db f s = (case f (tl_db s) of (x, d) \<Rightarrow> (x, s\<lparr>tl_db := d\<rparr>))"

definition on_mcp :: "(mcp \<Rightarrow> mcp) \<Rightarrow> tools \<Rightarrow> tools" where
  "on_mcp f s = s\<lparr>tl_mcp := f (tl_mcp s)\<rparr>"

text \<open>runCase up to the call of the agent: the category of a case that cannot run, or its case and run.\<close>

definition begin_case ::
  "exec_env \<Rightarrow> string \<Rightarrow> string \<Rightarrow> nat \<Rightarrow> string \<Rightarrow> tools \<Rightarrow> (string + TestCase \<times> TestRun) \<times> tools" where
  "begin_case e cycleRunID instanceID index caseID s =
    (case GetTestCase caseID (tl_db s) of
       Inl _ \<Rightarrow> (Inl ''notrun'', s)
     | Inr tc \<Rightarrow>
         (case with_db (CreateCaseRun (ee_started e index) (ee_rnd e index) cycleRunID caseID instanceID) s of
            (Inl _, s1) \<Rightarrow> (Inl ''fail'', s1)
          | (Inr caseRun, s1) \<Rightarrow>
              (let runDir = path_join [ee_artifact e, run_ID caseRun];
                   stepTexts = map ts_Action (case_Steps tc);
                   s2 = on_mcp (BindRun instanceID (run_ID caseRun) runDir stepTexts) (on_mcp (SetActive instanceID) s1)
               in (Inr (tc, caseRun), s2))))"

definition run_tools :: "tool_env \<Rightarrow> tool_call list \<Rightarrow> tools \<Rightarrow> tools" where
  "run_tools t cs s = foldl (\<lambda>s c. snd (run_tool t c s)) s cs"

text \<open>runCase after the call of the agent.\<close>

definition settle_run :: "time \<Rightarrow> bool \<Rightarrow> string \<Rightarrow> TestRun \<Rightarrow> TestRun" where
  "settle_run now passed detail r =
    r\<lparr>run_FinishedAt := Some now, run_Passed := passed,
      run_Status := (if passed then ''passed'' else ''failed''),
      run_Error := (if detail \<noteq> [] then detail else run_Error r)\<rparr>"

definition reload :: "TestRun \<Rightarrow> db \<Rightarrow> TestRun" where
  "reload caseRun d = (case GetTestRun (run_ID caseRun) d of Inl _ \<Rightarrow> caseRun | Inr r \<Rightarrow> r)"

fun record_verdict :: "time \<Rightarrow> TestRun \<Rightarrow> tools \<Rightarrow> string \<times> bool \<times> string \<Rightarrow> string \<times> tools" where
  "record_verdict now caseRun s (category, passed, detail) =
    (category, s\<lparr>tl_db := UpdateTestRun (settle_run now passed detail caseRun) (tl_db s)\<rparr>)"

definition judge_case ::
  "time \<Rightarrow> TestCase \<Rightarrow> TestRun \<Rightarrow> string \<Rightarrow> go_error option \<Rightarrow> tools \<Rightarrow> string \<times> tools" where
  "judge_case now tc caseRun terminal agentErr s =
    record_verdict now caseRun s (classifyCase (run_Steps caseRun) (length (case_Steps tc)) agentErr terminal)"

definition finish_case ::
  "exec_env \<Rightarrow> string \<Rightarrow> nat \<Rightarrow> TestCase \<Rightarrow> TestRun \<Rightarrow> string \<Rightarrow> go_error option \<Rightarrow> tools \<Rightarrow> string \<times> tools" where
  "finish_case e instanceID index tc caseRun terminal agentErr s =
    judge_case (ee_ended e index) tc (reload caseRun (tl_db s)) terminal agentErr (on_mcp (UnbindRun instanceID) s)"

text \<open>The call of the agent: what it did with its tools, then its last words or its error.\<close>

fun agent_done ::
  "exec_env \<Rightarrow> string \<Rightarrow> nat \<Rightarrow> TestCase \<Rightarrow> TestRun \<Rightarrow> tools \<Rightarrow> tool_call list \<times> string \<times> go_error option
    \<Rightarrow> string \<times> tools" where
  "agent_done e instanceID index tc caseRun s (calls, terminal, agentErr) =
    finish_case e instanceID index tc caseRun terminal agentErr (run_tools (ee_tools e) calls s)"

fun run_begun ::
  "exec_env \<Rightarrow> string \<Rightarrow> string \<Rightarrow> nat \<Rightarrow> (string + TestCase \<times> TestRun) \<times> tools \<Rightarrow> string \<times> tools" where
  "run_begun e cycleRunID instanceID index (Inl category, s) = (category, s)"
| "run_begun e cycleRunID instanceID index (Inr (tc, caseRun), s) =
    agent_done e instanceID index tc caseRun s
      (ee_agent e (''cyc-'' @ cycleRunID @ ''-'' @ nat_text index) (renderCasePrompt tc) s)"

definition runCase :: "exec_env \<Rightarrow> string \<Rightarrow> string \<Rightarrow> nat \<Rightarrow> string \<Rightarrow> tools \<Rightarrow> string \<times> tools" where
  "runCase e cycleRunID instanceID index caseID s =
    run_begun e cycleRunID instanceID index (begin_case e cycleRunID instanceID index caseID s)"

section \<open>One cycle run\<close>

definition count_category :: "string \<Rightarrow> CycleTotals \<Rightarrow> CycleTotals" where
  "count_category category t =
    (if category = StepPass then t\<lparr>tot_Pass := tot_Pass t + 1\<rparr>
     else if category = StepBlocked then t\<lparr>tot_Blocked := tot_Blocked t + 1\<rparr>
     else if category = ''notrun'' then t\<lparr>tot_NotRun := tot_NotRun t + 1\<rparr>
     else t\<lparr>tot_Fail := tot_Fail t + 1\<rparr>)"

definition save_totals :: "CycleRun \<Rightarrow> CycleTotals \<Rightarrow> tools \<Rightarrow> tools" where
  "save_totals run t s = s\<lparr>tl_db := UpdateCycleRun (run\<lparr>crun_Totals := t\<rparr>) (tl_db s)\<rparr>"

definition count_case :: "CycleRun \<Rightarrow> CycleTotals \<Rightarrow> string \<times> tools \<Rightarrow> CycleTotals \<times> tools" where
  "count_case run t r =
    (count_category (fst r) t, save_totals run (count_category (fst r) t) (snd r))"

fun run_cases ::
  "exec_env \<Rightarrow> CycleRun \<Rightarrow> string \<Rightarrow> nat \<Rightarrow> string list \<Rightarrow> CycleTotals \<times> tools \<Rightarrow> CycleTotals \<times> tools" where
  "run_cases e run instanceID i [] (t, s) = (t, s)"
| "run_cases e run instanceID i (c # cs) (t, s) =
    run_cases e run instanceID (i + 1) cs (count_case run t (runCase e (crun_ID run) instanceID i c s))"

definition verdict :: "CycleTotals \<Rightarrow> string" where
  "verdict t = (if 0 < tot_Fail t \<or> 0 < tot_Blocked t then ''failed'' else ''passed'')"

text \<open>The executor: the devices in use and the runs handed to the notifier.\<close>

record executor =
  ex_tools :: tools
  ex_running :: "string \<Rightarrow> bool"
  ex_notified :: "CycleRun list"

definition finishCycle :: "exec_env \<Rightarrow> CycleRun \<Rightarrow> string \<Rightarrow> executor \<Rightarrow> executor" where
  "finishCycle e run status x =
    (let run' = run\<lparr>crun_FinishedAt := Some (ee_done e), crun_Status := status\<rparr>
     in x\<lparr>ex_tools := (ex_tools x)\<lparr>tl_db := UpdateCycleRun run' (tl_db (ex_tools x))\<rparr>,
          ex_notified := ex_notified x @ [run']\<rparr>)"

definition installBuild :: "exec_env \<Rightarrow> Instance \<Rightarrow> string \<Rightarrow> tools \<Rightarrow> tools" where
  "installBuild e i buildID s =
    (case GetBuild buildID (tl_db s) of
       Inl _ \<Rightarrow> s
     | Inr b \<Rightarrow>
         (if inst_Platform i = [] \<or> inst_Platform i = PlatformAndroid
          then snd (device_act (\<lambda>d. InstallAPK (te_dev (ee_tools e)) d (inst_ID i) (bld_Path b)) s)
          else snd (device_act (\<lambda>d. InstallDesktopBuild (te_dev (ee_tools e)) d (inst_ID i) (bld_ID b)
                      (bld_Filename b) []) s)))"

definition zero_totals :: "TestCycle \<Rightarrow> CycleTotals" where
  "zero_totals c = zero_CycleTotals\<lparr>tot_Cases := int (length (cyc_CaseIDs c))\<rparr>"

definition release :: "string \<Rightarrow> executor \<Rightarrow> executor" where
  "release instanceID x = x\<lparr>ex_running := (ex_running x)(instanceID := False)\<rparr>"

fun conclude :: "exec_env \<Rightarrow> CycleRun \<Rightarrow> executor \<Rightarrow> CycleTotals \<times> tools \<Rightarrow> executor" where
  "conclude e run x (t, s) = finishCycle e (run\<lparr>crun_Totals := t\<rparr>) (verdict t) (x\<lparr>ex_tools := s\<rparr>)"

definition execute_on :: "exec_env \<Rightarrow> TestCycle \<Rightarrow> string \<Rightarrow> CycleRun \<Rightarrow> executor \<Rightarrow> executor" where
  "execute_on e c instanceID run x =
    (case GetInstance instanceID (tl_db (ex_tools x)) of
       Inl _ \<Rightarrow> finishCycle e run ''failed'' x
     | Inr i \<Rightarrow>
         conclude e run x
           (run_cases e run instanceID 0 (cyc_CaseIDs c)
             (zero_totals c,
              if crun_BuildID run \<noteq> [] then installBuild e i (crun_BuildID run) (ex_tools x) else ex_tools x)))"

definition execute :: "exec_env \<Rightarrow> TestCycle \<Rightarrow> string \<Rightarrow> CycleRun \<Rightarrow> executor \<Rightarrow> executor" where
  "execute e c instanceID run x =
    (if ex_running x instanceID then finishCycle e run ''failed'' x
     else release instanceID
            (execute_on e c instanceID run (x\<lparr>ex_running := (ex_running x)(instanceID := True)\<rparr>)))"

text \<open>Start: the run is created and the rest is left to execute.\<close>

definition Start ::
  "time \<Rightarrow> 8 word list \<Rightarrow> string \<Rightarrow> string \<Rightarrow> string \<Rightarrow> string \<Rightarrow> db \<Rightarrow> (TestCycle \<times> CycleRun) res \<times> db" where
  "Start now rnd cycleID instanceID trigger buildID d =
    (case GetTestCycle cycleID d of
       Inl err \<Rightarrow> (Inl err, d)
     | Inr c \<Rightarrow>
         (case GetInstance instanceID d of
            Inl err \<Rightarrow> (Inl err, d)
          | Inr _ \<Rightarrow>
              (case CreateCycleRun now rnd (zero_CycleRun\<lparr>crun_CycleID := cyc_ID c, crun_Trigger := trigger,
                      crun_BuildID := buildID, crun_InstanceID := instanceID\<rparr>) d of
                 (Inl err, d1) \<Rightarrow> (Inl err, d1)
               | (Inr run, d1) \<Rightarrow> (Inr (c, run\<lparr>crun_CycleName := cyc_Name c\<rparr>), d1))))"

section \<open>When a case passes\<close>

text \<open>A case is judged passed exactly when the agent ended without an error, some step was
  reported, at least as many as the case defines, and no report is a failure or a block; the pass flag agrees
  with the category and there are only the three categories.\<close>

theorem classifyCase_pass_iff:
  "(fst (classifyCase steps expected agentErr terminal) = StepPass \<longleftrightarrow>
      agentErr = None \<and> steps \<noteq> [] \<and> expected \<le> length steps
      \<and> \<not> has_status StepFail steps \<and> \<not> has_status StepBlocked steps)
   \<and> fst (snd (classifyCase steps expected agentErr terminal))
      = (fst (classifyCase steps expected agentErr terminal) = StepPass)
   \<and> fst (classifyCase steps expected agentErr terminal) \<in> {StepPass, StepFail, StepBlocked}"
  by (auto simp: classifyCase_def Let_def split: option.split)

lemma classify_pass:
  assumes "classifyCase steps expected agentErr terminal = (StepPass, passed, detail)"
  shows "agentErr = None" "steps \<noteq> []" "expected \<le> length steps" "\<not> has_status StepFail steps"
    "\<not> has_status StepBlocked steps" "passed" "detail = []"
  using assms by (auto simp: classifyCase_def Let_def split: option.splits if_splits)

text \<open>What tool calls do to the test runs: steps are appended, nothing else.\<close>

definition run_meta :: "db \<Rightarrow> string \<Rightarrow> (string \<times> string \<times> string) option" where
  "run_meta d k =
    map_option (\<lambda>r. (run_CaseID r, run_CycleRunID r, run_InstanceID r)) (tbl_find run_ID k (db_test_runs d))"

definition same_besides_runs :: "db \<Rightarrow> db \<Rightarrow> bool" where
  "same_besides_runs d d' =
    (d'\<lparr>db_test_runs := []\<rparr> = d\<lparr>db_test_runs := []\<rparr> \<and> run_meta d' = run_meta d)"

lemma same_besides_refl: "same_besides_runs d d"
  by (simp add: same_besides_runs_def)

lemma same_besides_trans: "same_besides_runs a b \<Longrightarrow> same_besides_runs b c \<Longrightarrow> same_besides_runs a c"
  by (simp add: same_besides_runs_def)

lemma same_besides_cycle_runs: "same_besides_runs d d' \<Longrightarrow> db_cycle_runs d' = db_cycle_runs d"
  unfolding same_besides_runs_def by (metis db.select_convs(13) db.surjective db.update_convs(9))

lemma AppendStep_same: "same_besides_runs d (snd (AppendStep rid st d))"
proof (cases "tbl_find run_ID rid (db_test_runs d)")
  case None
  then show ?thesis by (simp add: AppendStep_unknown same_besides_refl)
next
  case (Some r)
  have "run_meta (snd (AppendStep rid st d)) = run_meta d"
    using AppendStep_find[OF Some] Some by (auto simp: run_meta_def fun_eq_iff)
  moreover have "(snd (AppendStep rid st d))\<lparr>db_test_runs := []\<rparr> = d\<lparr>db_test_runs := []\<rparr>"
    by (simp add: AppendStep_def UpdateTestRun_def Let_def split: sum.split)
  ultimately show ?thesis by (simp add: same_besides_runs_def)
qed

lemma run_tool_same: "same_besides_runs (tl_db s) (tl_db (snd (run_tool t c s)))"
proof (cases "\<exists>i st n. c = CReport i st n")
  case True
  then obtain i st n where c: "c = CReport i st n" by blast
  have snd_unit: "snd (unit_of m s) = snd (m s)" for m :: "bool tool"
    by (simp add: unit_of_def bnd_def ret_apply split: prod.split sum.split)
  show ?thesis
  proof (cases "bound_run t s")
    case None
    then show ?thesis by (simp add: c snd_unit report_unbound same_besides_refl)
  next
    case (Some p)
    then obtain iid b where "bound_run t s = Some (iid, b)" by (cases p) auto
    from report_bound[OF this, of i st n] show ?thesis
      by (auto simp: c snd_unit AppendStep_same)
  qed
next
  case False
  then have "tl_db (snd (run_tool t c s)) = tl_db s"
    using run_tool_effect[of t c s] by (cases c) (auto simp: keeps_def)
  then show ?thesis by (simp add: same_besides_refl)
qed

lemma run_tools_same: "same_besides_runs (tl_db s) (tl_db (run_tools t cs s))"
  unfolding run_tools_def
proof (induction cs arbitrary: s)
  case (Cons c cs)
  show ?case using same_besides_trans[OF run_tool_same Cons.IH] by simp
qed (simp add: same_besides_refl)

lemma GetTestRun_steps:
  assumes "GetTestRun k d = Inr r"
  shows "\<exists>row. tbl_find run_ID k (db_test_runs d) = Some row \<and> run_Steps r = run_Steps row \<and> run_ID r = k"
proof -
  obtain row where row: "tbl_find run_ID k (db_test_runs d) = Some row" "r = scanTestRun d row"
    using assms by (auto simp: GetTestRun_def scan_row_def split: option.splits)
  then show ?thesis using runs.lookup_key[OF row(1)] by (simp add: scanTestRun_def)
qed

lemma UpdateTestRun_find:
  "tbl_find run_ID k (db_test_runs (UpdateTestRun r d)) =
     map_option (\<lambda>x. if k = run_ID r
       then x\<lparr>run_Status := run_Status r, run_Passed := run_Passed r, run_Steps := run_Steps r,
              run_Video := run_Video r, run_Error := run_Error r, run_FinishedAt := run_FinishedAt r\<rparr>
       else x) (tbl_find run_ID k (db_test_runs d))"
  by (cases "tbl_find run_ID k (db_test_runs d)") (auto simp: UpdateTestRun_def runs.lookup_update)

definition passed_evidence :: "TestCase \<Rightarrow> TestRun \<Rightarrow> bool" where
  "passed_evidence tc r =
    (run_Passed r \<and> run_Status r = ''passed'' \<and> run_Steps r \<noteq> []
     \<and> length (case_Steps tc) \<le> length (run_Steps r)
     \<and> \<not> has_status StepFail (run_Steps r) \<and> \<not> has_status StepBlocked (run_Steps r))"

lemma begin_case_run:
  assumes "begin_case e cr inst i c s = (Inr (tc, r), s1)"
  shows "GetTestCase c (tl_db s) = Inr tc" "run_Steps r = []" "run_ID r = newID ''run'' (ee_rnd e i)"
    "run_meta (tl_db s1) (run_ID r) = Some (c, cr, inst)"
proof -
  obtain d where r: "GetTestCase c (tl_db s) = Inr tc"
    "CreateCaseRun (ee_started e i) (ee_rnd e i) cr c inst (tl_db s) = (Inr r, d)"
    "tl_db s1 = d"
    using assms unfolding begin_case_def with_db_def Let_def
    by (auto simp: on_mcp_def split: sum.splits prod.splits)
  then show "GetTestCase c (tl_db s) = Inr tc" by blast
  obtain rows where rows: "tbl_insert run_ID r (db_test_runs (tl_db s)) = Inr rows" "d = (tl_db s)\<lparr>db_test_runs := rows\<rparr>"
    "run_Steps r = []" "run_ID r = newID ''run'' (ee_rnd e i)" "run_CaseID r = c" "run_CycleRunID r = cr"
    "run_InstanceID r = inst"
    using r(2) by (auto simp: CreateCaseRun_def Let_def zero_TestRun_def split: sum.splits)
  then show "run_Steps r = []" "run_ID r = newID ''run'' (ee_rnd e i)" by blast+
  have "tbl_find run_ID (run_ID r) rows = Some r" using rows(1) by (rule runs.insert_same)
  then show "run_meta (tl_db s1) (run_ID r) = Some (c, cr, inst)"
    using rows r(3) by (simp add: run_meta_def)
qed

lemma finish_case_pass:
  assumes "finish_case e inst i tc r terminal err s = (StepPass, s')" "run_Steps r = []"
    "run_meta (tl_db s) (run_ID r) = Some m"
  shows "\<exists>row. tbl_find run_ID (run_ID r) (db_test_runs (tl_db s')) = Some row
     \<and> (run_CaseID row, run_CycleRunID row, run_InstanceID row) = m \<and> passed_evidence tc row"
proof -
  let ?d = "tl_db s"
  let ?r = "reload r ?d"
  obtain passed detail where cl: "classifyCase (run_Steps ?r) (length (case_Steps tc)) err terminal = (StepPass, passed, detail)"
    and s': "tl_db s' = UpdateTestRun (settle_run (ee_ended e i) passed detail ?r) ?d"
    using assms(1) unfolding finish_case_def judge_case_def
    by (cases "classifyCase (run_Steps ?r) (length (case_Steps tc)) err terminal") (auto simp: on_mcp_def)
  note ok = classify_pass[OF cl]
  obtain r' where r': "GetTestRun (run_ID r) ?d = Inr r'"
    using ok(2) assms(2) by (cases "GetTestRun (run_ID r) ?d") (auto simp: reload_def)
  obtain row where row: "tbl_find run_ID (run_ID r) (db_test_runs ?d) = Some row" "run_Steps r' = run_Steps row"
    "run_ID r' = run_ID r"
    using GetTestRun_steps[OF r'] by blast
  have "(run_CaseID row, run_CycleRunID row, run_InstanceID row) = m"
    using assms(3) row(1) by (simp add: run_meta_def)
  then show ?thesis
    using s' ok r' row by (simp add: UpdateTestRun_find settle_run_def passed_evidence_def reload_def)
qed

text \<open>C4: when a case counts as passed, the case run that was created for it is stored as passed with the
  evidence: it belongs to this cycle run, case and device, holds at least one step and as many as the case
  defines, and none of them is a failure or a block, whatever the agent did with its tools.\<close>

theorem runCase_pass_evidence:
  assumes "runCase e cycleRunID instanceID i caseID s = (StepPass, s')"
  shows "\<exists>tc r. GetTestCase caseID (tl_db s) = Inr tc
      \<and> tbl_find run_ID (newID ''run'' (ee_rnd e i)) (db_test_runs (tl_db s')) = Some r
      \<and> run_CaseID r = caseID \<and> run_CycleRunID r = cycleRunID \<and> run_InstanceID r = instanceID
      \<and> passed_evidence tc r"
proof -
  obtain res s1 where b: "begin_case e cycleRunID instanceID i caseID s = (res, s1)" by fastforce
  show ?thesis
  proof (cases res)
    case (Inl category)
    then have "category \<in> {''notrun'', ''fail''}"
      using b by (auto simp: begin_case_def Let_def split: sum.splits prod.splits)
    then show ?thesis using assms b Inl by (auto simp: runCase_def)
  next
    case (Inr p)
    obtain tc r where p: "p = (tc, r)" by (cases p)
    note begun = begin_case_run[OF b[unfolded Inr p]]
    let ?ag = "ee_agent e (''cyc-'' @ cycleRunID @ ''-'' @ nat_text i) (renderCasePrompt tc) s1"
    obtain calls terminal err where ag: "?ag = (calls, terminal, err)" by (cases ?ag)
    have fin: "finish_case e instanceID i tc r terminal err (run_tools (ee_tools e) calls s1) = (StepPass, s')"
      using assms b ag Inr p by (simp add: runCase_def)
    have "run_meta (tl_db (run_tools (ee_tools e) calls s1)) (run_ID r) = Some (caseID, cycleRunID, instanceID)"
      using run_tools_same[of s1 "ee_tools e" calls] begun(4) by (simp add: same_besides_runs_def)
    from finish_case_pass[OF fin begun(2) this] begun(1,3) show ?thesis by auto
  qed
qed

section \<open>A sample cycle\<close>

definition sample_tools :: tool_env where
  "sample_tools = \<lparr>te_dev = quiet_env, te_sink = True, te_vision = False, te_locate = (\<lambda>_ _. Inr []),
     te_caption = (\<lambda>_ _. Inr []), te_vqa = None, te_png = (\<lambda>_. Inr (1080, 2400)), te_write = (\<lambda>_. True)\<rparr>"

definition reporting_agent :: "tool_call list \<Rightarrow> string \<Rightarrow> string \<Rightarrow> tools \<Rightarrow> tool_call list \<times> string \<times> go_error option" where
  "reporting_agent calls conv prompt s = (calls, ''PASS'', None)"

definition sample_exec :: "tool_call list \<Rightarrow> exec_env" where
  "sample_exec calls = \<lparr>ee_tools = sample_tools, ee_agent = reporting_agent calls, ee_artifact = ''art'',
     ee_rnd = (\<lambda>i. [of_nat i]), ee_started = (\<lambda>i. 10), ee_ended = (\<lambda>i. 20), ee_done = 30\<rparr>"

definition two_steps :: TestCase where
  "two_steps = zero_TestCase\<lparr>case_Summary := ''log in'',
     case_Steps := [zero_TestStep\<lparr>ts_Action := ''open''\<rparr>, zero_TestStep\<lparr>ts_Action := ''sign in''\<rparr>]\<rparr>"

definition sample_cases_db :: db where
  "sample_cases_db =
    (let d1 = snd (UpdateInstanceState 1 ''phy_02'' StateOnline [] sample_phone);
         d2 = snd (CreateTestCase 1 [7] two_steps d1);
         d3 = snd (CreateTestCycle 1 [1] (sample_cycle\<lparr>cyc_CaseIDs := [''case_07'', ''case_99'']\<rparr>) d2)
     in snd (CreateCycleRun 2 [5] (zero_CycleRun\<lparr>crun_CycleID := ''cycle_01'', crun_InstanceID := ''phy_02''\<rparr>) d3))"

definition sample_state :: tools where
  "sample_state = \<lparr>tl_db = sample_cases_db, tl_mcp = new_mcp, tl_trace = []\<rparr>"

definition both_steps :: "tool_call list" where
  "both_steps = [CReport 1 ''pass'' ''opened'', CReport 2 ''Pass'' ''signed in'']"

lemma sample_case_passes:
  "fst (runCase (sample_exec both_steps) ''cyc_05'' ''phy_02'' 0 ''case_07'' sample_state) = StepPass"
  by code_simp

text \<open>Reporting the first step twice passes a case of two steps: reports are counted, not steps.\<close>

lemma first_step_twice_passes:
  "fst (runCase (sample_exec [CReport 1 ''pass'' [], CReport 1 ''pass'' []]) ''cyc_05'' ''phy_02'' 0 ''case_07'' sample_state)
    = StepPass"
  by code_simp

lemma runCase_pass_evidence_witness:
  "\<exists>tc r. GetTestCase ''case_07'' (tl_db sample_state) = Inr tc
      \<and> tbl_find run_ID (newID ''run'' (ee_rnd (sample_exec both_steps) 0)) (db_test_runs (tl_db
          (snd (runCase (sample_exec both_steps) ''cyc_05'' ''phy_02'' 0 ''case_07'' sample_state)))) = Some r
      \<and> run_CaseID r = ''case_07'' \<and> run_CycleRunID r = ''cyc_05'' \<and> run_InstanceID r = ''phy_02''
      \<and> passed_evidence tc r"
  by (rule runCase_pass_evidence) (simp add: prod_eq_iff sample_case_passes)

section \<open>The verdict on a cycle run\<close>

lemma begin_case_cycle_runs:
  "db_cycle_runs (tl_db (snd (begin_case e cr inst i c s))) = db_cycle_runs (tl_db s)"
  by (simp add: begin_case_def with_db_def CreateCaseRun_def Let_def on_mcp_def split: sum.split prod.split)

lemma finish_case_cycle_runs:
  "db_cycle_runs (tl_db (snd (finish_case e inst i tc r terminal err s))) = db_cycle_runs (tl_db s)"
proof -
  obtain x y z where "classifyCase (run_Steps (reload r (tl_db s))) (length (case_Steps tc)) err terminal = (x, y, z)"
    by (metis prod_cases3)
  then show ?thesis by (simp add: finish_case_def judge_case_def UpdateTestRun_def on_mcp_def)
qed

lemma runCase_cycle_runs:
  "db_cycle_runs (tl_db (snd (runCase e cr inst i c s))) = db_cycle_runs (tl_db s)"
proof -
  obtain res s1 where b: "begin_case e cr inst i c s = (res, s1)" by fastforce
  then have s1: "db_cycle_runs (tl_db s1) = db_cycle_runs (tl_db s)"
    using begin_case_cycle_runs[of e cr inst i c s] by simp
  show ?thesis
  proof (cases res)
    case (Inl category)
    then show ?thesis using b s1 by (simp add: runCase_def)
  next
    case (Inr p)
    obtain tc r where p: "p = (tc, r)" by (cases p)
    obtain calls terminal err where ag:
      "ee_agent e (''cyc-'' @ cr @ ''-'' @ nat_text i) (renderCasePrompt tc) s1 = (calls, terminal, err)"
      by (metis prod_cases3)
    have "db_cycle_runs (tl_db (run_tools (ee_tools e) calls s1)) = db_cycle_runs (tl_db s1)"
      by (rule same_besides_cycle_runs) (rule run_tools_same)
    then show ?thesis using b Inr p ag s1 by (simp add: runCase_def finish_case_cycle_runs)
  qed
qed

lemma UpdateCycleRun_find:
  "tbl_find crun_ID k (db_cycle_runs (UpdateCycleRun r d)) =
     map_option (\<lambda>x. if k = crun_ID r
       then x\<lparr>crun_Status := crun_Status r, crun_Totals := crun_Totals r, crun_InstanceID := crun_InstanceID r,
              crun_BuildID := crun_BuildID r, crun_FinishedAt := crun_FinishedAt r\<rparr>
       else x) (tbl_find crun_ID k (db_cycle_runs d))"
  by (cases "tbl_find crun_ID k (db_cycle_runs d)")
    (auto simp: UpdateCycleRun_def cycle_runs.lookup_update)

definition tally :: "CycleTotals \<Rightarrow> int" where
  "tally t = tot_Pass t + tot_Fail t + tot_Blocked t + tot_NotRun t"

definition counts_ok :: "CycleTotals \<Rightarrow> bool" where
  "counts_ok t = (0 \<le> tot_Pass t \<and> 0 \<le> tot_Fail t \<and> 0 \<le> tot_Blocked t \<and> 0 \<le> tot_NotRun t)"

lemma count_category_tally [simp]:
  "tally (count_category c t) = tally t + 1" "tot_Cases (count_category c t) = tot_Cases t"
  by (simp_all add: count_category_def tally_def)

lemma count_category_ok: "counts_ok t \<Longrightarrow> counts_ok (count_category c t)"
  by (simp add: count_category_def counts_ok_def)

definition stored :: "CycleRun \<Rightarrow> tools \<Rightarrow> bool" where
  "stored run s = (tbl_find crun_ID (crun_ID run) (db_cycle_runs (tl_db s)) \<noteq> None)"

lemma stored_save: "stored run s \<Longrightarrow> stored run (save_totals run t s)"
  by (simp add: stored_def save_totals_def UpdateCycleRun_find)

lemma run_cases_result:
  assumes "run_cases e run inst i cs (t, s) = (t', s')" "counts_ok t" "stored run s"
  shows "counts_ok t' \<and> tally t' = tally t + int (length cs) \<and> tot_Cases t' = tot_Cases t \<and> stored run s'"
  using assms
proof (induction cs arbitrary: i t s)
  case (Cons c cs)
  let ?r = "runCase e (crun_ID run) inst i c s"
  have "run_cases e run inst (i + 1) cs (count_category (fst ?r) t, save_totals run (count_category (fst ?r) t) (snd ?r))
      = (t', s')"
    using Cons.prems(1) by (simp add: count_case_def)
  moreover have "stored run (save_totals run (count_category (fst ?r) t) (snd ?r))"
    using Cons.prems(3) by (intro stored_save) (simp add: stored_def runCase_cycle_runs)
  ultimately show ?case using Cons.IH count_category_ok[OF Cons.prems(2)] by fastforce
qed simp

lemma installBuild_db [simp]: "tl_db (installBuild e i b s) = tl_db s"
  by (simp add: installBuild_def device_act_def split: sum.split prod.split)

lemma zero_totals_ok: "counts_ok (zero_totals c)" "tally (zero_totals c) = 0"
  "tot_Cases (zero_totals c) = int (length (cyc_CaseIDs c))"
  by (simp_all add: counts_ok_def tally_def zero_totals_def zero_CycleTotals_def)

definition cycle_row :: "CycleRun \<Rightarrow> executor \<Rightarrow> CycleRun option" where
  "cycle_row run x = tbl_find crun_ID (crun_ID run) (db_cycle_runs (tl_db (ex_tools x)))"

definition final_row :: "exec_env \<Rightarrow> TestCycle \<Rightarrow> CycleRun \<Rightarrow> bool" where
  "final_row e c r =
    (crun_FinishedAt r = Some (ee_done e)
     \<and> tot_Cases (crun_Totals r) = int (length (cyc_CaseIDs c))
     \<and> counts_ok (crun_Totals r) \<and> tally (crun_Totals r) = int (length (cyc_CaseIDs c))
     \<and> crun_Status r = (if tot_Fail (crun_Totals r) = 0 \<and> tot_Blocked (crun_Totals r) = 0
                        then ''passed'' else ''failed''))"

lemma finishCycle_row:
  assumes "cycle_row run x \<noteq> None"
  shows "\<exists>r. cycle_row run (finishCycle e run st x) = Some r \<and> crun_Totals r = crun_Totals run
     \<and> crun_Status r = st \<and> crun_FinishedAt r = Some (ee_done e)"
  using assms by (auto simp: cycle_row_def finishCycle_def Let_def UpdateCycleRun_find)

lemma release_row [simp]: "cycle_row run (release inst x) = cycle_row run x"
  by (simp add: cycle_row_def release_def)

lemma conclude_notified:
  "\<exists>n. ex_notified (conclude e run x p) = ex_notified x @ [n] \<and> crun_ID n = crun_ID run
     \<and> ex_running (conclude e run x p) = ex_running x"
  by (cases p) (simp add: finishCycle_def Let_def)


definition sample_run :: CycleRun where
  "sample_run = zero_CycleRun\<lparr>crun_ID := ''cyc_05'', crun_CycleID := ''cycle_01'', crun_InstanceID := ''phy_02''\<rparr>"

definition sample_executor :: executor where
  "sample_executor = \<lparr>ex_tools = sample_state, ex_running = (\<lambda>_. False), ex_notified = []\<rparr>"

definition cycle_of :: "string list \<Rightarrow> TestCycle" where
  "cycle_of ids = sample_cycle\<lparr>cyc_ID := ''cycle_01'', cyc_CaseIDs := ids\<rparr>"


text \<open>A cycle whose only case no longer exists, or that has no case at all, is stored as passed.\<close>

lemma missing_cases_pass:
  "map_option crun_Status (cycle_row sample_run
      (execute (sample_exec []) (cycle_of [''case_99'']) ''phy_02'' sample_run sample_executor)) = Some ''passed''"
  by code_simp

end
