(* ===== verification/Scheduler.thy ===== *)
theory Scheduler
  imports Cycle_Executor "HOL-Library.Sublist"
begin

text \<open>
  The schedules of the test cycles, backend/internal/scheduler/scheduler.go and cron.go.
  The parser of cron lines (robfig/cron) and the time zone table are parameters; a parsed
  line is the function from an instant to the next one.  A tick of the loop is one function
  of the database: it returns the cycle runs it has started, which execute on their own
  (Cycle_Executor).  The locale schedule_store states what the loop needs of the
  store so that it does not spin; it is interpreted by the SQLite store.
\<close>

section \<open>Cron lines\<close>

record cron_env =
  ce_zone :: "string \<Rightarrow> unit res"
  ce_cron :: "string \<Rightarrow> (time \<Rightarrow> time) res"

definition cron_parse :: "cron_env \<Rightarrow> string \<Rightarrow> string \<Rightarrow> (time \<Rightarrow> time) res" where
  "cron_parse e spec0 tz0 =
    (let spec = trim_space spec0; tz = trim_space tz0
     in if spec = [] then Inl (Err ''cron spec is empty'')
        else if tz = [] then ce_cron e spec
        else case ce_zone e tz of
            Inl err \<Rightarrow> Inl (ErrWrap (''unknown timezone '' @ go_quote tz @ '': '') err)
          | Inr _ \<Rightarrow>
              ce_cron e (if has_prefix ''CRON_TZ='' spec \<or> has_prefix ''TZ='' spec then spec
                         else ''CRON_TZ='' @ tz @ '' '' @ spec))"

definition NextIn :: "cron_env \<Rightarrow> string \<Rightarrow> string \<Rightarrow> time \<Rightarrow> time res" where
  "NextIn e spec tz from_time =
    (case cron_parse e spec tz of Inl err \<Rightarrow> Inl err | Inr sched \<Rightarrow> Inr (sched from_time))"

definition Next :: "cron_env \<Rightarrow> string \<Rightarrow> time \<Rightarrow> time res" where
  "Next e spec from_time = NextIn e spec [] from_time"

definition Valid :: "cron_env \<Rightarrow> string \<Rightarrow> bool" where
  "Valid e spec = is_ok (cron_parse e spec [])"

definition ValidTimezone :: "cron_env \<Rightarrow> string \<Rightarrow> bool" where
  "ValidTimezone e tz0 = (let tz = trim_space tz0 in tz = [] \<or> is_ok (ce_zone e tz))"

section \<open>One tick\<close>

definition errNoTarget :: go_error where
  "errNoTarget = Err ''no running/online device matches the cycle platform''"

definition platform_of :: "Instance \<Rightarrow> string" where
  "platform_of i = (if inst_Platform i = [] then PlatformAndroid else inst_Platform i)"

definition suits :: "TestCycle \<Rightarrow> Instance \<Rightarrow> bool" where
  "suits c i = (platform_of i = cyc_Platform c
     \<and> (inst_State i = StateRunning \<or> inst_State i = StateOnline))"

definition resolveTarget :: "TestCycle \<Rightarrow> db \<Rightarrow> string res" where
  "resolveTarget c d =
    (case find (suits c) (ListInstances d) of None \<Rightarrow> Inl errNoTarget | Some i \<Rightarrow> Inr (inst_ID i))"

definition next_run :: "cron_env \<Rightarrow> time \<Rightarrow> TestCycle \<Rightarrow> time option" where
  "next_run e now c =
    (case NextIn e (cyc_Cron c) (cyc_Timezone c) now of Inl _ \<Rightarrow> None | Inr t \<Rightarrow> Some t)"

text \<open>
  What a tick takes from outside: the cron library, and for the runs it starts the instant and the
  random bytes of their identifier.
\<close>

record tick_env =
  tk_cron :: cron_env
  tk_at :: "nat \<Rightarrow> time"
  tk_rnd :: "nat \<Rightarrow> 8 word list"

fun started_runs :: "(TestCycle \<times> CycleRun) res \<times> db \<Rightarrow> (TestCycle \<times> CycleRun) list \<times> db" where
  "started_runs (Inl _, d) = ([], d)"
| "started_runs (Inr p, d) = ([p], d)"

fun launch_cycle ::
  "tick_env \<Rightarrow> nat \<Rightarrow> TestCycle \<Rightarrow> string res \<Rightarrow> db \<Rightarrow> (TestCycle \<times> CycleRun) list \<times> db" where
  "launch_cycle e k c (Inl _) d = ([], d)"
| "launch_cycle e k c (Inr iid) d =
    started_runs (Start (tk_at e k) (tk_rnd e k) (cyc_ID c) iid CycleTriggerCron (cyc_BuildID c) d)"

definition tick_cycle ::
  "tick_env \<Rightarrow> time \<Rightarrow> nat \<Rightarrow> TestCycle \<Rightarrow> db \<Rightarrow> (TestCycle \<times> CycleRun) list \<times> db" where
  "tick_cycle e now k c d =
    (let d1 = SetCycleSchedule (cyc_ID c) (Some now) (next_run (tk_cron e) now c) d
     in launch_cycle e k c (resolveTarget c d1) d1)"

fun tick_cycles ::
  "tick_env \<Rightarrow> time \<Rightarrow> nat \<Rightarrow> TestCycle list \<Rightarrow> db \<Rightarrow> (TestCycle \<times> CycleRun) list \<times> db" where
  "tick_cycles e now k [] d = ([], d)"
| "tick_cycles e now k (c # cs) d =
    (case tick_cycle e now k c d of
       (rs, d1) \<Rightarrow> (case tick_cycles e now (k + 1) cs d1 of (rs', d2) \<Rightarrow> (rs @ rs', d2)))"

definition tick :: "tick_env \<Rightarrow> time \<Rightarrow> db \<Rightarrow> (TestCycle \<times> CycleRun) list \<times> db" where
  "tick e now d = tick_cycles e now 0 (ListDueCycles now d) d"

section \<open>What a tick leaves of the database\<close>

text \<open>The tables a tick reads or writes, besides the cycle runs that it adds.\<close>

lemma schedule_fields [simp]:
  "db_instances (SetCycleSchedule k l nx d) = db_instances d"
  "db_cycle_runs (SetCycleSchedule k l nx d) = db_cycle_runs d"
  "ListInstances (SetCycleSchedule k l nx d) = ListInstances d"
  "resolveTarget c (SetCycleSchedule k l nx d) = resolveTarget c d"
  by (simp_all add: SetCycleSchedule_def ListInstances_def resolveTarget_def)

lemma CreateCycleRun_result:
  "(\<exists>err. CreateCycleRun now rnd r d = (Inl err, d))
   \<or> CreateCycleRun now rnd r d =
      (Inr (r\<lparr>crun_ID := newID ''cyc'' rnd, crun_Status := ''running'', crun_StartedAt := now\<rparr>),
       d\<lparr>db_cycle_runs := db_cycle_runs d @ [r\<lparr>crun_ID := newID ''cyc'' rnd, crun_Status := ''running'',
            crun_StartedAt := now, crun_FinishedAt := None\<rparr>]\<rparr>)"
  by (simp add: CreateCycleRun_def Let_def tbl_insert_def)

text \<open>A run that Start has created for a cycle on a device.\<close>

definition created :: "string \<Rightarrow> string \<Rightarrow> string \<Rightarrow> string \<Rightarrow> CycleRun \<Rightarrow> bool" where
  "created cid iid trg bid r =
    (crun_CycleID r = cid \<and> crun_InstanceID r = iid \<and> crun_Trigger r = trg \<and> crun_BuildID r = bid
     \<and> crun_Status r = ''running'' \<and> crun_FinishedAt r = None)"

definition run_row :: "CycleRun \<Rightarrow> CycleRun" where
  "run_row r = r\<lparr>crun_CycleName := []\<rparr>"

lemma GetTestCycle_ID: "GetTestCycle cid d = Inr c \<Longrightarrow> cyc_ID c = cid"
  by (auto simp: GetTestCycle_def scan_row_def scanTestCycle_def dest!: tbl_find_key split: option.splits if_splits)

lemma Start_result:
  "(\<exists>err. Start now rnd cid iid trg bid d = (Inl err, d))
   \<or> (\<exists>c r. Start now rnd cid iid trg bid d = (Inr (c, r), d\<lparr>db_cycle_runs := db_cycle_runs d @ [run_row r]\<rparr>)
        \<and> created cid iid trg bid r \<and> crun_ID r = newID ''cyc'' rnd \<and> GetTestCycle cid d = Inr c)"
proof (cases "GetTestCycle cid d")
  case c: (Inr c)
  show ?thesis
  proof (cases "GetInstance iid d")
    case i: (Inr i)
    let ?r = "zero_CycleRun\<lparr>crun_CycleID := cyc_ID c, crun_Trigger := trg, crun_BuildID := bid, crun_InstanceID := iid\<rparr>"
    show ?thesis
      using CreateCycleRun_result[of now rnd ?r d]
      by (auto simp: Start_def c i created_def run_row_def zero_CycleRun_def GetTestCycle_ID[OF c])
  qed (simp add: Start_def c)
qed (simp add: Start_def)

text \<open>What one due cycle does to the database: its schedule moves on, and one run may be added.\<close>

definition started_by :: "tick_env \<Rightarrow> db \<Rightarrow> nat \<Rightarrow> TestCycle \<Rightarrow> TestCycle \<times> CycleRun \<Rightarrow> bool" where
  "started_by e d k c p =
    (\<exists>iid. resolveTarget c d = Inr iid
      \<and> created (cyc_ID c) iid CycleTriggerCron (cyc_BuildID c) (snd p)
      \<and> crun_ID (snd p) = newID ''cyc'' (tk_rnd e k) \<and> cyc_ID (fst p) = cyc_ID c)"

lemma tick_cycle_result:
  "\<exists>rs. tick_cycle e now k c d =
      (rs, (SetCycleSchedule (cyc_ID c) (Some now) (next_run (tk_cron e) now c) d)
             \<lparr>db_cycle_runs := db_cycle_runs d @ map (run_row \<circ> snd) rs\<rparr>)
    \<and> (rs = [] \<or> (\<exists>p. rs = [p] \<and> started_by e d k c p))"
proof (cases "resolveTarget c d")
  case (Inl err)
  have "d1\<lparr>db_cycle_runs := db_cycle_runs d1\<rparr> = d1" for d1 :: db by simp
  from this[of "SetCycleSchedule (cyc_ID c) (Some now) (next_run (tk_cron e) now c) d"]
  show ?thesis using Inl by (intro exI[of _ "[]"]) (simp add: tick_cycle_def)
next
  case (Inr iid)
  let ?d1 = "SetCycleSchedule (cyc_ID c) (Some now) (next_run (tk_cron e) now c) d"
  have same: "?d1\<lparr>db_cycle_runs := db_cycle_runs d\<rparr> = ?d1" by (simp add: SetCycleSchedule_def)
  show ?thesis
    using Start_result[of "tk_at e k" "tk_rnd e k" "cyc_ID c" iid CycleTriggerCron "cyc_BuildID c" ?d1] Inr same
    by (auto simp: tick_cycle_def started_by_def GetTestCycle_ID)
qed

text \<open>The same for the whole list.\<close>

fun moves_on :: "cron_env \<Rightarrow> time \<Rightarrow> TestCycle list \<Rightarrow> TestCycle list \<Rightarrow> TestCycle list" where
  "moves_on e now [] t = t"
| "moves_on e now (c # cs) t = moves_on e now cs
     (tbl_update cyc_ID (cyc_ID c) (\<lambda>x. x\<lparr>cyc_LastRunAt := Some now, cyc_NextRunAt := next_run e now c\<rparr>) t)"

lemma tick_cycles_result:
  "\<exists>rs. tick_cycles e now k cs d =
      (rs, d\<lparr>db_cycles := moves_on (tk_cron e) now cs (db_cycles d),
             db_cycle_runs := db_cycle_runs d @ map (run_row \<circ> snd) rs\<rparr>)
    \<and> (\<forall>p\<in>set rs. \<exists>i<length cs. started_by e d (k + i) (cs ! i) p)
    \<and> subseq (map (crun_CycleID \<circ> snd) rs) (map cyc_ID cs)"
proof (induction cs arbitrary: k d)
  case Nil
  then show ?case by simp
next
  case (Cons c cs)
  obtain rs where one: "tick_cycle e now k c d =
      (rs, (SetCycleSchedule (cyc_ID c) (Some now) (next_run (tk_cron e) now c) d)
             \<lparr>db_cycle_runs := db_cycle_runs d @ map (run_row \<circ> snd) rs\<rparr>)" (is "_ = (rs, ?d1)")
    and rs: "rs = [] \<or> (\<exists>p. rs = [p] \<and> started_by e d k c p)"
    using tick_cycle_result by blast
  have res: "resolveTarget x ?d1 = resolveTarget x d" for x
    by (simp add: resolveTarget_def ListInstances_def)
  obtain rs' where rest: "tick_cycles e now (k + 1) cs ?d1 =
      (rs', ?d1\<lparr>db_cycles := moves_on (tk_cron e) now cs (db_cycles ?d1),
             db_cycle_runs := db_cycle_runs ?d1 @ map (run_row \<circ> snd) rs'\<rparr>)"
    and rs': "\<forall>p\<in>set rs'. \<exists>i<length cs. started_by e ?d1 (k + 1 + i) (cs ! i) p"
      "subseq (map (crun_CycleID \<circ> snd) rs') (map cyc_ID cs)"
    using Cons.IH[of "k + 1" ?d1] by blast
  have "\<exists>i<length (c # cs). started_by e d (k + i) ((c # cs) ! i) p" if "p \<in> set (rs @ rs')" for p
  proof -
    have "p \<in> set rs \<or> p \<in> set rs'" using that by simp
    then show ?thesis
    proof
      assume "p \<in> set rs"
      then show ?thesis using rs by (intro exI[of _ 0]) auto
    next
      assume "p \<in> set rs'"
      then obtain i where "i < length cs" "started_by e ?d1 (k + 1 + i) (cs ! i) p" using rs'(1) by blast
      then show ?thesis by (intro exI[of _ "Suc i"]) (simp add: started_by_def res)
    qed
  qed
  moreover have "subseq (map (crun_CycleID \<circ> snd) (rs @ rs')) (map cyc_ID (c # cs))"
    using rs rs'(2) by (auto simp: started_by_def created_def)
  moreover have "tick_cycles e now k (c # cs) d =
      (rs @ rs', d\<lparr>db_cycles := moves_on (tk_cron e) now (c # cs) (db_cycles d),
                    db_cycle_runs := db_cycle_runs d @ map (run_row \<circ> snd) (rs @ rs')\<rparr>)"
    unfolding tick_cycles.simps one prod.case rest by (simp add: SetCycleSchedule_def)
  ultimately show ?case by blast
qed

text \<open>With fresh identifiers nothing but a missing device keeps a due cycle from starting.\<close>

definition fresh_ids :: "tick_env \<Rightarrow> nat \<Rightarrow> nat \<Rightarrow> db \<Rightarrow> bool" where
  "fresh_ids e k n d =
    (distinct (map (\<lambda>i. newID ''cyc'' (tk_rnd e i)) [k..<k + n])
     \<and> (\<forall>i\<in>{k..<k + n}. newID ''cyc'' (tk_rnd e i) \<notin> crun_ID ` set (db_cycle_runs d)))"

lemma resolveTarget_known:
  assumes "resolveTarget c d = Inr iid"
  shows "is_ok (GetInstance iid d)"
proof -
  obtain i where "i \<in> set (ListInstances d)" "inst_ID i = iid"
    using assms by (auto simp: resolveTarget_def dest: find_SomeD split: option.splits)
  then obtain r where "r \<in> set (db_instances d)" "inst_ID r = iid"
    by (auto simp: ListInstances_def)
  then have "tbl_find inst_ID iid (db_instances d) \<noteq> None" by (auto simp: tbl_find_None)
  then show ?thesis by (auto simp: GetInstance_def scan_row_def)
qed

lemma Start_ok:
  assumes "tbl_find cyc_ID cid (db_cycles d) \<noteq> None" "is_ok (GetInstance iid d)"
    "newID ''cyc'' rnd \<notin> crun_ID ` set (db_cycle_runs d)"
  shows "is_ok (fst (Start now rnd cid iid trg bid d))"
proof -
  obtain c where c: "GetTestCycle cid d = Inr c"
    using assms(1) by (auto simp: GetTestCycle_def scan_row_def)
  obtain i where i: "GetInstance iid d = Inr i" using assms(2) by (cases "GetInstance iid d") auto
  show ?thesis
    using assms(1,3) by (auto simp: Start_def c i CreateCycleRun_def Let_def tbl_insert_def image_iff GetTestCycle_ID[OF c])
qed

lemma tick_cycle_starts:
  assumes "is_ok (resolveTarget c d)" "tbl_find cyc_ID (cyc_ID c) (db_cycles d) \<noteq> None"
    "newID ''cyc'' (tk_rnd e k) \<notin> crun_ID ` set (db_cycle_runs d)"
  shows "fst (tick_cycle e now k c d) \<noteq> []"
proof -
  obtain iid where iid: "resolveTarget c d = Inr iid" using assms(1) by (cases "resolveTarget c d") auto
  let ?d1 = "SetCycleSchedule (cyc_ID c) (Some now) (next_run (tk_cron e) now c) d"
  have "is_ok (fst (Start (tk_at e k) (tk_rnd e k) (cyc_ID c) iid CycleTriggerCron (cyc_BuildID c) ?d1))"
  proof (rule Start_ok)
    show "tbl_find cyc_ID (cyc_ID c) (db_cycles ?d1) \<noteq> None"
      using assms(2) by (simp add: SetCycleSchedule_def cycles.lookup_update)
    show "is_ok (GetInstance iid ?d1)"
      using resolveTarget_known[OF iid] by (simp add: GetInstance_def SetCycleSchedule_def)
  qed (use assms(3) in simp)
  then show ?thesis
    using Start_result[of "tk_at e k" "tk_rnd e k" "cyc_ID c" iid CycleTriggerCron "cyc_BuildID c" ?d1]
    by (auto simp: tick_cycle_def iid)
qed

lemma tick_cycles_start:
  assumes "fresh_ids e k (length cs) d" "\<forall>c\<in>set cs. tbl_find cyc_ID (cyc_ID c) (db_cycles d) \<noteq> None"
    "c \<in> set cs" "is_ok (resolveTarget c d)"
  shows "cyc_ID c \<in> crun_CycleID ` snd ` set (fst (tick_cycles e now k cs d))"
  using assms
proof (induction cs arbitrary: k d)
  case (Cons x cs)
  obtain rs where one: "tick_cycle e now k x d =
      (rs, (SetCycleSchedule (cyc_ID x) (Some now) (next_run (tk_cron e) now x) d)
             \<lparr>db_cycle_runs := db_cycle_runs d @ map (run_row \<circ> snd) rs\<rparr>)" (is "_ = (rs, ?d1)")
    and rs: "rs = [] \<or> (\<exists>p. rs = [p] \<and> started_by e d k x p)"
    using tick_cycle_result by blast
  have all: "set (fst (tick_cycles e now k (x # cs) d)) = set rs \<union> set (fst (tick_cycles e now (k + 1) cs ?d1))"
    unfolding tick_cycles.simps one prod.case by (simp split: prod.split)
  show ?case
  proof (cases "c = x")
    case True
    have "rs \<noteq> []"
      using tick_cycle_starts[of x d e k now] Cons.prems True by (simp add: one fresh_ids_def)
    then show ?thesis using rs True unfolding all by (auto simp: started_by_def created_def)
  next
    case False
    have new: "crun_ID (snd p) = newID ''cyc'' (tk_rnd e k)" if "p \<in> set rs" for p
      using rs that by (auto simp: started_by_def)
    have ids: "crun_ID ` set (db_cycle_runs ?d1) \<subseteq> insert (newID ''cyc'' (tk_rnd e k)) (crun_ID ` set (db_cycle_runs d))"
      by (auto simp: run_row_def dest: new)
    have rest: "[k..<k + length (x # cs)] = k # [k + 1..<k + 1 + length cs]"
      by (subst upt_conv_Cons) simp_all
    have "fresh_ids e (k + 1) (length cs) ?d1"
      unfolding fresh_ids_def
    proof (intro conjI ballI)
      show "distinct (map (\<lambda>i. newID ''cyc'' (tk_rnd e i)) [k + 1..<k + 1 + length cs])"
        using Cons.prems(1) unfolding fresh_ids_def rest by simp
      fix i assume i: "i \<in> {k + 1..<k + 1 + length cs}"
      have "newID ''cyc'' (tk_rnd e k) \<notin> (\<lambda>i. newID ''cyc'' (tk_rnd e i)) ` {k + 1..<k + 1 + length cs}"
        using Cons.prems(1) unfolding fresh_ids_def rest list.map distinct.simps set_map set_upt by blast
      then have "newID ''cyc'' (tk_rnd e i) \<noteq> newID ''cyc'' (tk_rnd e k)" using i by (metis image_eqI)
      moreover have "newID ''cyc'' (tk_rnd e i) \<notin> crun_ID ` set (db_cycle_runs d)"
        using Cons.prems(1) i unfolding fresh_ids_def by auto
      ultimately show "newID ''cyc'' (tk_rnd e i) \<notin> crun_ID ` set (db_cycle_runs ?d1)"
        using ids by blast
    qed
    moreover have "\<forall>c\<in>set cs. tbl_find cyc_ID (cyc_ID c) (db_cycles ?d1) \<noteq> None"
      using Cons.prems(2) by (simp add: SetCycleSchedule_def cycles.lookup_update)
    moreover have "is_ok (resolveTarget c ?d1)"
      using Cons.prems(4) by (simp add: resolveTarget_def ListInstances_def)
    ultimately show ?thesis using Cons.IH[of "k + 1" ?d1] Cons.prems(3) False unfolding all by auto
  qed
qed simp

section \<open>The tick as a whole\<close>

definition advanced :: "cron_env \<Rightarrow> time \<Rightarrow> TestCycle \<Rightarrow> TestCycle" where
  "advanced e now c = c\<lparr>cyc_LastRunAt := Some now, cyc_NextRunAt := next_run e now c\<rparr>"

lemma next_run_same: "cyc_Cron c = cyc_Cron c' \<Longrightarrow> cyc_Timezone c = cyc_Timezone c' \<Longrightarrow> next_run e now c = next_run e now c'"
  by (simp add: next_run_def)

lemma moves_on_map:
  "moves_on e now cs t =
    map (\<lambda>x. case find (\<lambda>c. cyc_ID c = cyc_ID x) (rev cs) of None \<Rightarrow> x
         | Some c \<Rightarrow> x\<lparr>cyc_LastRunAt := Some now, cyc_NextRunAt := next_run e now c\<rparr>) t"
  by (induction cs arbitrary: t)
    (auto simp: tbl_update_def find_append split: option.split)

lemma moves_on_due:
  assumes "unique_keys cyc_ID t"
  shows "moves_on e now (map scanTestCycle (filter P t)) t = map (\<lambda>c. if P c then advanced e now c else c) t"
  unfolding moves_on_map
proof (rule map_cong[OF refl])
  fix x assume x: "x \<in> set t"
  have scan: "cyc_ID (scanTestCycle c) = cyc_ID c" "next_run e now (scanTestCycle c) = next_run e now c" for c
    by (auto simp: scanTestCycle_def intro: next_run_same)
  show "(case find (\<lambda>c. cyc_ID c = cyc_ID x) (rev (map scanTestCycle (filter P t))) of None \<Rightarrow> x
      | Some c \<Rightarrow> x\<lparr>cyc_LastRunAt := Some now, cyc_NextRunAt := next_run e now c\<rparr>)
      = (if P x then advanced e now x else x)" (is "(case ?f of None \<Rightarrow> x | Some c \<Rightarrow> ?g c) = _")
  proof (cases ?f)
    case None
    then have "\<not> P x" using x by (auto simp: find_None_iff scan)
    then show ?thesis using None by simp
  next
    case (Some c)
    from find_SomeD[OF this] obtain y where y: "y \<in> set t" "P y" "c = scanTestCycle y" "cyc_ID y = cyc_ID x"
      by (auto simp: scan)
    then have "y = x" using assms x by (auto simp: unique_keys_def distinct_map dest: inj_onD)
    then show ?thesis using Some y by (simp add: advanced_def scan)
  qed
qed

definition due_now :: "time \<Rightarrow> db \<Rightarrow> TestCycle \<Rightarrow> bool" where
  "due_now now d c = (schedule_due now c \<and> \<not> in_flight d (cyc_ID c))"

definition fired :: "db \<Rightarrow> time \<Rightarrow> TestCycle \<times> CycleRun \<Rightarrow> bool" where
  "fired d now p =
    (\<exists>c\<in>set (ListDueCycles now d). cyc_ID (fst p) = cyc_ID c
      \<and> (\<exists>iid. resolveTarget c d = Inr iid
           \<and> created (cyc_ID c) iid CycleTriggerCron (cyc_BuildID c) (snd p)))"

text \<open>C27: a tick moves the schedule of every due cycle on to the next instant of its cron line, in its
  zone, and of no other cycle; it adds the runs it has started and changes no other table; every started run
  belongs to one due cycle, on a running or online device of the platform of the cycle; and when the
  identifiers are fresh every due cycle with such a device is started.\<close>

theorem tick_starts_due_cycles:
  assumes "unique_keys cyc_ID (db_cycles d)" "tick e now d = (started, d')"
  shows "d' = d\<lparr>db_cycles := map (\<lambda>c. if due_now now d c then advanced (tk_cron e) now c else c) (db_cycles d),
          db_cycle_runs := db_cycle_runs d @ map (run_row \<circ> snd) started\<rparr>
    \<and> list_all (fired d now) started \<and> distinct (map (crun_CycleID \<circ> snd) started)
    \<and> (fresh_ids e 0 (length (ListDueCycles now d)) d \<longrightarrow>
        (\<forall>c\<in>set (ListDueCycles now d). is_ok (resolveTarget c d) \<longrightarrow>
           cyc_ID c \<in> crun_CycleID ` snd ` set started))"
proof -
  let ?due = "ListDueCycles now d"
  have due: "?due = map scanTestCycle (filter (due_now now d) (db_cycles d))"
    by (simp add: ListDueCycles_def due_now_def [abs_def])
  obtain rs where rs: "tick e now d = (rs, d\<lparr>db_cycles := moves_on (tk_cron e) now ?due (db_cycles d),
        db_cycle_runs := db_cycle_runs d @ map (run_row \<circ> snd) rs\<rparr>)"
    and who: "\<forall>p\<in>set rs. \<exists>i<length ?due. started_by e d (0 + i) (?due ! i) p"
    and sub: "subseq (map (crun_CycleID \<circ> snd) rs) (map cyc_ID ?due)"
    using tick_cycles_result[of e now 0 ?due d] unfolding tick_def by blast
  have eq: "started = rs" "d' = d\<lparr>db_cycles := moves_on (tk_cron e) now ?due (db_cycles d),
        db_cycle_runs := db_cycle_runs d @ map (run_row \<circ> snd) rs\<rparr>" using rs assms(2) by simp_all
  have ids: "map cyc_ID ?due = map cyc_ID (filter (due_now now d) (db_cycles d))"
    unfolding due by (simp add: scanTestCycle_def)
  have "distinct (map cyc_ID ?due)"
    using assms(1) unfolding ids unique_keys_def by (rule distinct_map_filter)
  then have one: "distinct (map (crun_CycleID \<circ> snd) started)"
    using sub unfolding eq(1) subseq_conv_nths by (auto intro: distinct_nthsI)
  have "list_all (fired d now) started"
    using who unfolding eq(1) list_all_iff fired_def started_by_def by (metis add_0 nth_mem)
  moreover have "d' = d\<lparr>db_cycles := map (\<lambda>c. if due_now now d c then advanced (tk_cron e) now c else c) (db_cycles d),
          db_cycle_runs := db_cycle_runs d @ map (run_row \<circ> snd) started\<rparr>"
    unfolding eq due moves_on_due[OF assms(1)] ..
  moreover have "cyc_ID c \<in> crun_CycleID ` snd ` set started"
    if "fresh_ids e 0 (length ?due) d" "c \<in> set ?due" "is_ok (resolveTarget c d)" for c
  proof -
    have "\<forall>c\<in>set ?due. tbl_find cyc_ID (cyc_ID c) (db_cycles d) \<noteq> None"
      unfolding due by (auto simp: tbl_find_None scanTestCycle_def)
    from tick_cycles_start[OF that(1) this that(2,3), of now] show ?thesis
      using assms(2) unfolding tick_def by simp
  qed
  ultimately show ?thesis using one by blast
qed

section \<open>The loop does not spin\<close>

text \<open>
  What the loop relies on: the store lists what is due, an advance decides alone when the cycle is
  due again, and starting a run makes nothing due.
\<close>

locale schedule_store =
  fixes due :: "time \<Rightarrow> 'd \<Rightarrow> 'k \<Rightarrow> bool"
    and advance :: "'k \<Rightarrow> time option \<Rightarrow> time option \<Rightarrow> 'd \<Rightarrow> 'd"
    and start :: "'x \<Rightarrow> 'd \<Rightarrow> 'd"
  assumes due_advance: "due t (advance k l nx d) k \<Longrightarrow> \<exists>n. nx = Some n \<and> text_le n t"
    and due_other: "j \<noteq> k \<Longrightarrow> due t (advance k l nx d) j \<Longrightarrow> due t d j"
    and due_start: "due t (start x d) j \<Longrightarrow> due t d j"
begin

definition work :: "time option \<Rightarrow> ('k \<times> time option \<times> 'x) list \<Rightarrow> 'd \<Rightarrow> 'd" where
  "work l js d = foldl (\<lambda>d (k, nx, x). start x (advance k l nx d)) d js"

lemma due_after:
  "due t (work l js d) j \<Longrightarrow> due t d j \<or> (\<exists>nx x n. (j, nx, x) \<in> set js \<and> nx = Some n \<and> text_le n t)"
proof (induction js arbitrary: d)
  case (Cons p js)
  obtain k nx x where p: "p = (k, nx, x)" by (cases p)
  let ?d1 = "start x (advance k l nx d)"
  have "due t (work l js ?d1) j" using Cons.prems by (simp add: work_def p)
  from Cons.IH[OF this] show ?case
  proof
    assume "due t ?d1 j"
    then have "due t (advance k l nx d) j" by (rule due_start)
    then show ?thesis using due_advance due_other p by (cases "j = k") fastforce+
  qed (use p in auto)
qed (simp add: work_def)

lemma due_again:
  assumes "due t (work l js d) j" "j \<in> fst ` set js"
  shows "\<exists>nx x n. (j, nx, x) \<in> set js \<and> nx = Some n \<and> text_le n t"
  using assms
proof (induction js arbitrary: d)
  case (Cons p js)
  obtain k nx x where p: "p = (k, nx, x)" by (cases p)
  let ?d1 = "start x (advance k l nx d)"
  have later: "due t (work l js ?d1) j" using Cons.prems by (simp add: work_def p)
  show ?case
  proof (cases "j = k")
    case True
    from due_after[OF later] show ?thesis
      using due_start[of t x "advance k l nx d" j] due_advance[of t k l nx d] True p by fastforce
  next
    case False
    then show ?thesis using Cons.IH[OF later] Cons.prems(2) p by fastforce
  qed
qed simp

end

definition is_due :: "time \<Rightarrow> db \<Rightarrow> string \<Rightarrow> bool" where
  "is_due t d k = (k \<in> cyc_ID ` set (ListDueCycles t d))"

lemma is_due_row:
  "is_due t d k \<longleftrightarrow> (\<exists>c\<in>set (db_cycles d). cyc_ID c = k \<and> schedule_due t c) \<and> \<not> in_flight d k"
proof -
  have "cyc_ID (scanTestCycle c) = cyc_ID c" for c by (simp add: scanTestCycle_def)
  then show ?thesis by (auto simp: is_due_def ListDueCycles_def image_image)
qed

definition launch_on :: "(tick_env \<times> nat \<times> TestCycle) \<Rightarrow> db \<Rightarrow> db" where
  "launch_on x d = (case x of (e, k, c) \<Rightarrow> snd (launch_cycle e k c (resolveTarget c d) d))"

lemma launch_on_result:
  "\<exists>rs. launch_on x d = d\<lparr>db_cycle_runs := db_cycle_runs d @ map run_row rs\<rparr>"
proof -
  obtain e k c where x: "x = (e, k, c)" by (cases x)
  show ?thesis
  proof (cases "resolveTarget c d")
    case (Inl err)
    then show ?thesis by (intro exI[of _ "[]"]) (simp add: launch_on_def x)
  next
    case (Inr iid)
    from Start_result[of "tk_at e k" "tk_rnd e k" "cyc_ID c" iid CycleTriggerCron "cyc_BuildID c" d]
    show ?thesis
    proof (elim disjE exE conjE)
      fix err assume "Start (tk_at e k) (tk_rnd e k) (cyc_ID c) iid CycleTriggerCron (cyc_BuildID c) d = (Inl err, d)"
      then show ?thesis using Inr by (intro exI[of _ "[]"]) (simp add: launch_on_def x)
    next
      fix c' r assume "Start (tk_at e k) (tk_rnd e k) (cyc_ID c) iid CycleTriggerCron (cyc_BuildID c) d =
          (Inr (c', r), d\<lparr>db_cycle_runs := db_cycle_runs d @ [run_row r]\<rparr>)"
      then show ?thesis using Inr by (intro exI[of _ "[r]"]) (simp add: launch_on_def x)
    qed
  qed
qed

interpretation sqlite_schedule: schedule_store is_due SetCycleSchedule launch_on
proof
  fix t d k l nx
  assume "is_due t (SetCycleSchedule k l nx d) k"
  then show "\<exists>n. nx = Some n \<and> text_le n t"
    by (auto simp: is_due_row SetCycleSchedule_def tbl_update_def schedule_due_def split: option.splits if_splits)
next
  fix t d k l nx and j :: string
  assume "j \<noteq> k" "is_due t (SetCycleSchedule k l nx d) j"
  then show "is_due t d j"
    by (auto simp: is_due_row SetCycleSchedule_def tbl_update_def in_flight_def)
next
  fix t x d j
  assume "is_due t (launch_on x d) j"
  then show "is_due t d j"
    using launch_on_result[of x d] by (auto simp: is_due_row in_flight_def)
qed

lemma tick_is_work:
  "snd (tick_cycles e now k cs d) =
    sqlite_schedule.work (Some now)
      (map (\<lambda>(i, c). (cyc_ID c, next_run (tk_cron e) now c, (e, i, c))) (enumerate k cs)) d"
proof (induction cs arbitrary: k d)
  case (Cons c cs)
  have "snd (tick_cycle e now k c d) =
      launch_on (e, k, c) (SetCycleSchedule (cyc_ID c) (Some now) (next_run (tk_cron e) now c) d)"
    by (simp add: tick_cycle_def launch_on_def)
  moreover have "snd (tick_cycles e now k (c # cs) d) = snd (tick_cycles e now (Suc k) cs (snd (tick_cycle e now k c d)))"
    by (simp split: prod.split)
  ultimately show ?case by (simp add: Cons.IH sqlite_schedule.work_def del: tick_cycles.simps)
qed (simp add: sqlite_schedule.work_def)

text \<open>No cycle that a tick found due is due again before the second of the next instant of its cron
  line, whether its run was started or no device was there to run it.\<close>

theorem tick_does_not_repeat:
  assumes "tick e now d = (started, d')" "c \<in> set (ListDueCycles now d)" "0 \<le> t"
    and later: "\<And>x n. x \<in> set (ListDueCycles now d) \<Longrightarrow> next_run (tk_cron e) now x = Some n \<Longrightarrow>
        in_range n \<and> t div second < n div second"
  shows "cyc_ID c \<notin> cyc_ID ` set (ListDueCycles t d')"
proof
  let ?js = "map (\<lambda>(i, c). (cyc_ID c, next_run (tk_cron e) now c, (e, i, c))) (enumerate 0 (ListDueCycles now d))"
  assume "cyc_ID c \<in> cyc_ID ` set (ListDueCycles t d')"
  moreover have "d' = sqlite_schedule.work (Some now) ?js d"
    using assms(1) tick_is_work[of e now 0 "ListDueCycles now d" d] by (simp add: tick_def)
  ultimately have "is_due t (sqlite_schedule.work (Some now) ?js d) (cyc_ID c)" by (simp add: is_due_def)
  moreover have "fst ` set ?js = cyc_ID ` set (ListDueCycles now d)"
  proof -
    have "map fst ?js = map cyc_ID (map snd (enumerate 0 (ListDueCycles now d)))"
      unfolding map_map by (rule map_cong) auto
    then show ?thesis by (metis map_snd_enumerate set_map)
  qed
  ultimately obtain nx x n where "(cyc_ID c, nx, x) \<in> set ?js" "nx = Some n" "text_le n t"
    using sqlite_schedule.due_again[of t "Some now" ?js d "cyc_ID c"] assms(2) by blast
  then obtain i y where "(i, y) \<in> set (enumerate 0 (ListDueCycles now d))" "text_le n t"
      "next_run (tk_cron e) now y = Some n"
    by auto
  then have "y \<in> set (ListDueCycles now d)" "text_le n t" "next_run (tk_cron e) now y = Some n"
    by (auto simp: in_set_enumerate_eq)
  then show False using later text_le_seconds(2)[OF assms(3), of n] by blast
qed

section \<open>A concrete tick\<close>

text \<open>A cron library that knows one line, every hour on the hour, and one that never fires.\<close>

definition hourly :: "string \<Rightarrow> (time \<Rightarrow> time) res" where
  "hourly spec =
    (if spec = ''5 4 * * *'' then Inr (\<lambda>t. (t div hour + 1) * hour)
     else if spec = ''0 0 30 2 *'' then Inr (\<lambda>_. zero_time)
     else Inl (Err ''expected exactly 5 fields''))"

definition sample_tick :: tick_env where
  "sample_tick = \<lparr>tk_cron = \<lparr>ce_zone = (\<lambda>_. Inl (Err ''unknown time zone'')), ce_cron = hourly\<rparr>,
     tk_at = (\<lambda>_. 3), tk_rnd = (\<lambda>k. [of_nat k])\<rparr>"

definition sample_due_db :: db where
  "sample_due_db =
    (let d1 = snd (UpdateInstanceState 1 ''phy_02'' StateOnline [] sample_phone)
     in snd (CreateTestCycle 1 [1] (sample_cycle\<lparr>cyc_Platform := PlatformAndroid\<rparr>) d1))"

theorem tick_starts_due_cycles_witness:
  "\<exists>started d'. tick sample_tick 5000000000 sample_due_db = (started, d')
    \<and> crun_CycleID ` snd ` set started = {''cycle_01''}
    \<and> map cyc_NextRunAt (db_cycles d') = [Some 3600000000000]"
proof -
  let ?now = "5000000000 :: time"
  obtain started d' where t: "tick sample_tick ?now sample_due_db = (started, d')" by fastforce
  have "unique_keys cyc_ID (db_cycles sample_due_db)" by code_simp
  note spec = tick_starts_due_cycles[OF this t]
  have due: "map cyc_ID (ListDueCycles ?now sample_due_db) = [''cycle_01'']" by code_simp
  have tgt: "list_all (\<lambda>c. is_ok (resolveTarget c sample_due_db)) (ListDueCycles ?now sample_due_db)"
    by code_simp
  have len: "length (ListDueCycles ?now sample_due_db) = 1" using arg_cong[OF due, of length] by simp
  have fresh: "fresh_ids sample_tick 0 (length (ListDueCycles ?now sample_due_db)) sample_due_db"
  proof -
    have "db_cycle_runs sample_due_db = []" by code_simp
    then show ?thesis by (simp add: len fresh_ids_def)
  qed
  have moved: "map cyc_NextRunAt (map (\<lambda>c. if due_now ?now sample_due_db c then advanced (tk_cron sample_tick) ?now c else c)
      (db_cycles sample_due_db)) = [Some 3600000000000]" by code_simp
  have ids: "cyc_ID ` set (ListDueCycles ?now sample_due_db) = {''cycle_01''}"
    using arg_cong[OF due, of set] by simp
  have "crun_CycleID (snd p) \<in> cyc_ID ` set (ListDueCycles ?now sample_due_db)" if "p \<in> set started" for p
    using spec that by (auto simp: list_all_iff fired_def created_def)
  moreover have "cyc_ID ` set (ListDueCycles ?now sample_due_db) \<subseteq> crun_CycleID ` snd ` set started"
    using spec fresh tgt by (auto simp: list_all_iff)
  ultimately have fired: "crun_CycleID ` snd ` set started = {''cycle_01''}" unfolding ids by blast
  obtain M R where "d' = sample_due_db\<lparr>db_cycles := M, db_cycle_runs := R\<rparr>"
    "map cyc_NextRunAt M = [Some 3600000000000]" by (rule that[OF conjunct1[OF spec] moved])
  then have "map cyc_NextRunAt (db_cycles d') = [Some 3600000000000]" by simp
  then show ?thesis using t fired by (intro exI[of _ started] exI[of _ d'] conjI)
qed

theorem tick_does_not_repeat_witness:
  "''cycle_01'' \<notin> cyc_ID ` set (ListDueCycles 6000000000 (snd (tick sample_tick 5000000000 sample_due_db)))"
proof -
  let ?due = "ListDueCycles 5000000000 sample_due_db"
  have due: "map cyc_ID ?due = [''cycle_01'']" by code_simp
  then obtain c where c: "c \<in> set ?due" "cyc_ID c = ''cycle_01''" by (cases ?due) auto
  have at: "list_all (\<lambda>x. next_run (tk_cron sample_tick) 5000000000 x = Some 3600000000000) ?due" by code_simp
  have "in_range 3600000000000" by code_simp
  then have "cyc_ID c \<notin> cyc_ID ` set (ListDueCycles 6000000000 (snd (tick sample_tick 5000000000 sample_due_db)))"
    using at c(1) by (intro tick_does_not_repeat[OF prod.collapse[symmetric]])
      (auto simp: list_all_iff second_def)
  then show ?thesis by (simp add: c(2))
qed

text \<open>
  A line whose day never comes parses, and its next instant is the zero time, long past: the cycle stays due
  at every tick.
\<close>

lemma impossible_date_spins:
  "Valid (tk_cron sample_tick) ''0 0 30 2 *''"
  "cyc_ID c = ''cycle_01'' \<Longrightarrow> cyc_Cron c = ''0 0 30 2 *'' \<Longrightarrow> cyc_Timezone c = [] \<Longrightarrow>
    next_run (tk_cron sample_tick) now c = Some zero_time"
  by (simp_all add: Valid_def next_run_def NextIn_def cron_parse_def sample_tick_def hourly_def trim_space_def
      trim_by_def is_space_def)

lemma impossible_date_is_due_again:
  "map cyc_ID (ListDueCycles 60000000000 (snd (tick sample_tick 5000000000
      (sample_due_db\<lparr>db_cycles := map (\<lambda>c. c\<lparr>cyc_Cron := ''0 0 30 2 *''\<rparr>) (db_cycles sample_due_db),
         db_instances := []\<rparr>)))) = [''cycle_01'']"
  by code_simp

end
