(* ===== verification/Api_Tests.thy ===== *)
theory Api_Tests
  imports Api_Settings Test_Runner Cycle_Executor Scheduler
begin

text \<open>
  The handlers for tests, cases, cycles, runs, builds, imports, exports and drafts: api/tests.go,
  api/cases.go, api/builds.go, api/exports.go and api/casedraft.go.  JSON, multipart forms, the writers of CSV, XLSX and
  XML, the cron library and the disk are parameters.  A run that a handler starts is left to a job.
\<close>

section \<open>Surroundings\<close>

datatype form_error = TooLarge | Malformed

record form =
  fm_value :: "string \<Rightarrow> string"
  fm_file :: "string \<Rightarrow> (string \<times> string res) option"

record tests_json =
  tj_case :: "string \<Rightarrow> TestCase option"
  tj_cycle :: "string \<Rightarrow> TestCycle option"
  tj_path :: "string \<Rightarrow> string option"
  tj_ids :: "string \<Rightarrow> string list option"
  tj_schedule :: "string \<Rightarrow> (string \<times> string \<times> bool \<times> bool) option"
  tj_run :: "string \<Rightarrow> (string \<times> string) option"
  tj_test :: "string \<Rightarrow> (string \<times> string list) option"
  tj_instance :: "string \<Rightarrow> string option"
  tj_spec :: "string \<Rightarrow> (string \<times> string) option"

text \<open>The form of a body (under a limit on its size), the writers, the disk and the model.\<close>

record tests_env =
  tn_settings :: settings_env
  tn_json :: tests_json
  tn_cron :: cron_env
  tn_form :: "int option \<Rightarrow> string \<Rightarrow> form_error + form"
  tn_readers :: readers
  tn_docs :: doc_env
  tn_llm :: "llm_config \<Rightarrow> string \<Rightarrow> string \<times> go_error option"
  tn_csv :: "string list list \<Rightarrow> string res"
  tn_xlsx :: "string \<Rightarrow> string list list \<Rightarrow> string res"
  tn_xml :: "junitSuite \<Rightarrow> string res"
  tn_walk :: "string list \<Rightarrow> string list"
  tn_byStart :: "TestRun list \<Rightarrow> TestRun list"
  tn_mkdir :: "string \<Rightarrow> go_error option"
  tn_create :: "string \<Rightarrow> go_error option"

abbreviation tn_api :: "tests_env \<Rightarrow> api_env" where "tn_api e \<equiv> se_api (tn_settings e)"
abbreviation tn_now :: "tests_env \<Rightarrow> time" where "tn_now e \<equiv> ae_now (tn_api e)"
abbreviation tn_rnd :: "tests_env \<Rightarrow> nat \<Rightarrow> 8 word list" where "tn_rnd e \<equiv> ae_rnd (tn_api e)"
abbreviation tn_os :: "tests_env \<Rightarrow> env" where "tn_os e \<equiv> ae_env (tn_api e)"
abbreviation tn_audit where "tn_audit e \<equiv> audit_as (tn_api e)"

definition ok_body :: body where
  "ok_body = StatusBody ''ok''"

definition query :: "ctx \<Rightarrow> string \<Rightarrow> string" where
  "query c k = (case rq_Query (cx_req c) k of None \<Rightarrow> [] | Some v \<Rightarrow> v)"

definition atoiDefault :: "string \<Rightarrow> int \<Rightarrow> int" where
  "atoiDefault s d = (if s = [] then d else case atoi s of None \<Rightarrow> d | Some n \<Rightarrow> n)"

section \<open>Scripted tests\<close>

definition listTests :: "response act" where
  "listTests = andThen (store_get (\<lambda>d. Inr (ListTests d))) (\<lambda>ts. answer 200 (TestsBody ts))"

definition createTest :: "tests_env \<Rightarrow> ctx \<Rightarrow> response act" where
  "createTest e c =
    andThen (decodeJSON (tj_test (tn_json e)) ([], []) c) (\<lambda>(name, steps).
    andThen (check (trim_space name \<noteq> []) (badRequest ''test name is required'')) (\<lambda>_.
    andThen (or_bad (store_do (CreateTest (tn_now e) (tn_rnd e 1) name steps))) (\<lambda>t.
    andThen (tn_audit e c ''create_test'' ''test'' (test_ID t) ''succeeded'' (test_Name t)) (\<lambda>_.
      answer 201 (TestBody t)))))"

definition deleteTest :: "tests_env \<Rightarrow> string \<Rightarrow> ctx \<Rightarrow> response act" where
  "deleteTest e k c =
    andThen (store_set (DeleteTest k)) (\<lambda>_.
    andThen (tn_audit e c ''delete_test'' ''test'' k ''succeeded'' []) (\<lambda>_. answer 200 ok_body))"

definition runTest :: "tests_env \<Rightarrow> string \<Rightarrow> ctx \<Rightarrow> response act" where
  "runTest e k c =
    andThen (decodeJSON (tj_instance (tn_json e)) [] c) (\<lambda>iid.
    andThen (check (trim_space iid \<noteq> []) (badRequest ''instanceId is required'')) (\<lambda>_.
    andThen (or_bad (store_do (Start_test (tn_now e) (tn_rnd e 1) k iid))) (\<lambda>(t, run).
    andThen (spawn (TestJob t iid run)) (\<lambda>_.
    andThen (tn_audit e c ''run_test'' ''test'' (run_TestID run) ''accepted'' (run_ID run)) (\<lambda>_.
      answer 202 (TestRunBody run))))))"

definition listTestRuns :: "response act" where
  "listTestRuns = andThen (store_get (\<lambda>d. Inr (ListTestRuns d))) (\<lambda>rs. answer 200 (TestRunsBody rs))"

definition getTestRun :: "string \<Rightarrow> response act" where
  "getTestRun k = andThen (store_get (GetTestRun k)) (\<lambda>r. answer 200 (TestRunBody r))"

text \<open>http.ServeFile answers with the file at the path.\<close>

definition testArtifact :: "tests_env \<Rightarrow> string \<Rightarrow> string \<Rightarrow> response act" where
  "testArtifact e k name =
    andThen (check (name = base_name name \<and> \<not> has_prefix ''.'' name) (badRequest ''invalid artifact name'')) (\<lambda>_.
    andThen (store_get (GetTestRun k)) (\<lambda>_.
      answer 200 (FileBody (path_join [ArtifactRoot (tn_os e), k, name]))))"

section \<open>Cases\<close>

definition listCases :: "response act" where
  "listCases = andThen (store_get (\<lambda>d. Inr (ListTestCases d))) (\<lambda>cs. answer 200 (CasesBody cs))"

definition listCaseFolders :: "response act" where
  "listCaseFolders = andThen (store_get (\<lambda>d. Inr (ListCaseFolders d))) (\<lambda>fs. answer 200 (NamesBody fs))"

definition createCaseFolder :: "tests_env \<Rightarrow> ctx \<Rightarrow> response act" where
  "createCaseFolder e c =
    andThen (decodeJSON (tj_path (tn_json e)) [] c) (\<lambda>path.
    andThen (or_bad (store_do (CreateCaseFolder (tn_now e) path))) (\<lambda>_. answer 201 ok_body))"

definition deleteCaseFolder :: "tests_env \<Rightarrow> ctx \<Rightarrow> response act" where
  "deleteCaseFolder e c =
    andThen (decodeJSON (tj_path (tn_json e)) [] c) (\<lambda>path.
    andThen (store_set (DeleteCaseFolder path)) (\<lambda>_. answer 200 ok_body))"

definition createCase :: "tests_env \<Rightarrow> ctx \<Rightarrow> response act" where
  "createCase e c =
    andThen (decodeJSON (tj_case (tn_json e)) zero_TestCase c) (\<lambda>tc.
    andThen (check (trim_space (case_Summary tc) \<noteq> []) (badRequest ''summary is required'')) (\<lambda>_.
    andThen (or_bad (store_do (CreateTestCase (tn_now e) (tn_rnd e 1) tc))) (\<lambda>created.
    andThen (tn_audit e c ''create_case'' ''case'' (case_ID created) ''succeeded'' (case_Summary created)) (\<lambda>_.
      answer 201 (CaseBody created)))))"

definition getCase :: "string \<Rightarrow> response act" where
  "getCase k = andThen (store_get (GetTestCase k)) (\<lambda>tc. answer 200 (CaseBody tc))"

definition stored_case :: "string \<Rightarrow> db \<Rightarrow> TestCase" where
  "stored_case k d = (case GetTestCase k d of Inl _ \<Rightarrow> zero_TestCase | Inr tc \<Rightarrow> tc)"

definition updateCase :: "tests_env \<Rightarrow> string \<Rightarrow> ctx \<Rightarrow> response act" where
  "updateCase e k c =
    andThen (decodeJSON (tj_case (tn_json e)) zero_TestCase c) (\<lambda>tc0.
     let tc = tc0\<lparr>case_ID := k\<rparr> in
    andThen (store_get (GetTestCase k)) (\<lambda>_.
    andThen (store_set (UpdateTestCase (tn_now e) tc)) (\<lambda>_.
    andThen (tn_audit e c ''update_case'' ''case'' k ''succeeded'' (case_Summary tc)) (\<lambda>_.
    andThen (store_get (\<lambda>d. Inr (stored_case k d))) (\<lambda>updated. answer 200 (CaseBody updated))))))"

definition deleteCase :: "tests_env \<Rightarrow> string \<Rightarrow> ctx \<Rightarrow> response act" where
  "deleteCase e k c =
    andThen (store_set (DeleteTestCase k)) (\<lambda>_.
    andThen (tn_audit e c ''delete_case'' ''case'' k ''succeeded'' []) (\<lambda>_. answer 200 ok_body))"

text \<open>Uploads: the form of the body, and one of its files.\<close>

definition the_form :: "tests_env \<Rightarrow> int option \<Rightarrow> string \<Rightarrow> string \<Rightarrow> ctx \<Rightarrow> form act" where
  "the_form e limit_bytes large message c =
    (case tn_form e limit_bytes (rq_Body (cx_req c)) of
       Inl TooLarge \<Rightarrow> refuse (Client 413 large)
     | Inl Malformed \<Rightarrow> refuse (badRequest message)
     | Inr f \<Rightarrow> give f)"

definition the_file :: "form \<Rightarrow> string \<Rightarrow> string \<Rightarrow> (string \<times> string res) act" where
  "the_file f field message = (case fm_file f field of None \<Rightarrow> refuse (badRequest message) | Some x \<Rightarrow> give x)"

definition import_limit :: nat where
  "import_limit = 33554432"

definition read_upload :: "string res \<Rightarrow> string act" where
  "read_upload data =
    (case data of Inl _ \<Rightarrow> refuse (badRequest ''could not read upload'') | Inr s \<Rightarrow> give (take import_limit s))"

definition importCases :: "tests_env \<Rightarrow> ctx \<Rightarrow> response act" where
  "importCases e c =
    andThen (the_form e None [] ''invalid upload'' c) (\<lambda>f.
    andThen (the_file f ''file'' ''a 'file' field is required'') (\<lambda>(filename, content).
    andThen (read_upload content) (\<lambda>data.
    andThen (or_bad (store_get (\<lambda>_. ParseFile (tn_readers e) filename data))) (\<lambda>r.
    andThen (store_do (BulkCreateCases (tn_now e) (\<lambda>n. tn_rnd e (10 + n)) (pr_Cases r))) (\<lambda>n.
    andThen (tn_audit e c ''import_cases'' ''case'' filename ''succeeded'' []) (\<lambda>_.
      answer 200 (ImportBody (r\<lparr>pr_CasesParsed := n\<rparr>))))))))"

section \<open>Cycles\<close>

definition listCycles :: "response act" where
  "listCycles = andThen (store_get (\<lambda>d. Inr (ListTestCycles d))) (\<lambda>cs. answer 200 (CyclesBody cs))"

definition applyCron :: "tests_env \<Rightarrow> TestCycle \<Rightarrow> TestCycle act" where
  "applyCron e cy0 =
    (let cy = cy0\<lparr>cyc_Timezone := trim_space (cyc_Timezone cy0)\<rparr> in
     andThen (check (ValidTimezone (tn_cron e) (cyc_Timezone cy))
               (badRequest (''unknown timezone: '' @ cyc_Timezone cy))) (\<lambda>_.
       if trim_space (cyc_Cron cy) = [] then give (cy\<lparr>cyc_Cron := [], cyc_NextRunAt := None\<rparr>)
       else case NextIn (tn_cron e) (cyc_Cron cy) (cyc_Timezone cy) (tn_now e) of
              Inl _ \<Rightarrow> refuse (badRequest (''invalid cron expression: '' @ cyc_Cron cy))
            | Inr t \<Rightarrow> give (cy\<lparr>cyc_NextRunAt := Some t\<rparr>)))"

definition createCycle :: "tests_env \<Rightarrow> ctx \<Rightarrow> response act" where
  "createCycle e c =
    andThen (decodeJSON (tj_cycle (tn_json e)) zero_TestCycle c) (\<lambda>cy0.
    andThen (check (trim_space (cyc_Name cy0) \<noteq> []) (badRequest ''name is required'')) (\<lambda>_.
    andThen (applyCron e cy0) (\<lambda>cy.
    andThen (or_bad (store_do (CreateTestCycle (tn_now e) (tn_rnd e 1) cy))) (\<lambda>created.
    andThen (tn_audit e c ''create_cycle'' ''cycle'' (cyc_ID created) ''succeeded'' (cyc_Name created)) (\<lambda>_.
      answer 201 (CycleBody created))))))"

definition getCycle :: "string \<Rightarrow> response act" where
  "getCycle k = andThen (store_get (GetTestCycle k)) (\<lambda>cy. answer 200 (CycleBody cy))"

definition stored_cycle :: "string \<Rightarrow> db \<Rightarrow> TestCycle" where
  "stored_cycle k d = (case GetTestCycle k d of Inl _ \<Rightarrow> zero_TestCycle | Inr cy \<Rightarrow> cy)"

definition updateCycle :: "tests_env \<Rightarrow> string \<Rightarrow> ctx \<Rightarrow> response act" where
  "updateCycle e k c =
    andThen (decodeJSON (tj_cycle (tn_json e)) zero_TestCycle c) (\<lambda>cy0.
    andThen (store_get (GetTestCycle k)) (\<lambda>existing.
    andThen (applyCron e (cy0\<lparr>cyc_ID := k, cyc_CreatedAt := cyc_CreatedAt existing\<rparr>)) (\<lambda>cy.
    andThen (or_bad (store_do (UpdateTestCycle cy))) (\<lambda>_.
    andThen (tn_audit e c ''update_cycle'' ''cycle'' k ''succeeded'' (cyc_Name cy)) (\<lambda>_.
    andThen (store_get (\<lambda>d. Inr (stored_cycle k d))) (\<lambda>updated. answer 200 (CycleBody updated)))))))"

definition deleteCycle :: "tests_env \<Rightarrow> string \<Rightarrow> ctx \<Rightarrow> response act" where
  "deleteCycle e k c =
    andThen (store_set (DeleteTestCycle k)) (\<lambda>_.
    andThen (tn_audit e c ''delete_cycle'' ''cycle'' k ''succeeded'' []) (\<lambda>_. answer 200 ok_body))"

definition updateCycleCases :: "tests_env \<Rightarrow> string \<Rightarrow> ctx \<Rightarrow> response act" where
  "updateCycleCases e k c =
    andThen (decodeJSON (tj_ids (tn_json e)) [] c) (\<lambda>ids.
    andThen (store_get (GetTestCycle k)) (\<lambda>cy.
    andThen (store_do (UpdateTestCycle (cy\<lparr>cyc_CaseIDs := ids\<rparr>))) (\<lambda>_.
      answer 200 (CycleBody (cy\<lparr>cyc_CaseIDs := ids\<rparr>)))))"

definition updateCycleSchedule :: "tests_env \<Rightarrow> string \<Rightarrow> ctx \<Rightarrow> response act" where
  "updateCycleSchedule e k c =
    andThen (decodeJSON (tj_schedule (tn_json e)) ([], [], False, False) c) (\<lambda>(cron, tz, onNewBuild, enabled).
    andThen (store_get (GetTestCycle k)) (\<lambda>cy0.
    andThen (applyCron e (cy0\<lparr>cyc_Cron := trim_space cron, cyc_Timezone := trim_space tz,
               cyc_OnNewBuild := onNewBuild, cyc_Enabled := enabled\<rparr>)) (\<lambda>cy.
    andThen (store_do (UpdateTestCycle cy)) (\<lambda>_.
    andThen (tn_audit e c ''schedule_cycle'' ''cycle'' (cyc_ID cy) ''succeeded'' (cyc_Cron cy)) (\<lambda>_.
      answer 200 (CycleBody cy))))))"

definition resolveCycleTarget :: "TestCycle \<Rightarrow> string \<Rightarrow> string act" where
  "resolveCycleTarget cy explicit s =
    (if explicit \<noteq> [] then
       (if is_ok (GetInstance explicit (sv_db s)) then give explicit s
        else refuse (badRequest ''unknown instanceId'') s)
     else case find (suits cy) (ListInstances (sv_db s)) of
            Some i \<Rightarrow> give (inst_ID i) s
          | None \<Rightarrow> refuse (badRequest (''no running/online '' @ cyc_Platform cy
                        @ '' device is available to run this cycle'')) s)"

text \<open>CycleExecutor.Start: the run is created and the rest is left to a job.\<close>

definition start_cycle :: "tests_env \<Rightarrow> nat \<Rightarrow> string \<Rightarrow> string \<Rightarrow> string \<Rightarrow> string \<Rightarrow> CycleRun act" where
  "start_cycle e n k iid trigger buildID =
    andThen (store_do (Start (tn_now e) (tn_rnd e n) k iid trigger buildID)) (\<lambda>(cy, run).
    andThen (spawn (CycleJob cy iid run)) (\<lambda>_. give run))"

definition runCycle :: "tests_env \<Rightarrow> string \<Rightarrow> ctx \<Rightarrow> response act" where
  "runCycle e k c =
    andThen (decodeJSON (tj_run (tn_json e)) ([], []) c) (\<lambda>(iid, bid).
    andThen (store_get (GetTestCycle k)) (\<lambda>cy.
    andThen (resolveCycleTarget cy iid) (\<lambda>target.
    andThen (or_bad (start_cycle e 1 (cyc_ID cy) target CycleTriggerManual (if bid = [] then cyc_BuildID cy else bid))) (\<lambda>run.
    andThen (tn_audit e c ''run_cycle'' ''cycle'' (cyc_ID cy) ''accepted'' (crun_ID run)) (\<lambda>_.
      answer 202 (CycleRunBody run))))))"

section \<open>Cycle runs\<close>

definition listCycleRuns_page :: "ctx \<Rightarrow> response act" where
  "listCycleRuns_page c =
    (let paged = (rq_Query (cx_req c) ''limit'' \<noteq> None \<or> rq_Query (cx_req c) ''offset'' \<noteq> None);
         l = atoiDefault (query c ''limit'') 200; f = atoiDefault (query c ''offset'') 0 in
     andThen (store_get (\<lambda>d. Inr (ListCycleRunsPage l f d))) (\<lambda>(runs, total).
       answer 200 (if paged then CyclePageBody runs total l f else CycleRunsBody runs)))"

definition caseHealth :: "tests_env \<Rightarrow> ctx \<Rightarrow> response act" where
  "caseHealth e c =
    andThen (store_get (\<lambda>d. Inr (ListRecentCaseRuns (atoiDefault (query c ''window'') 2000) d))) (\<lambda>runs.
      answer 200 (HealthBody (CaseHealthFrom (tn_walk e) (tn_byStart e) runs)))"

definition getCycleRun :: "string \<Rightarrow> response act" where
  "getCycleRun k =
    andThen (store_get (GetCycleRun k)) (\<lambda>run.
    andThen (store_get (\<lambda>d. Inr (ListTestRunsByCycleRun k d))) (\<lambda>cases. answer 200 (ReportBody run cases)))"

definition remove_all :: "tests_env \<Rightarrow> string list \<Rightarrow> unit act" where
  "remove_all e paths s =
    (Inr (), s\<lparr>sv_removed := sv_removed s @ filter (\<lambda>p. ae_removeAll (tn_api e) p = None) paths\<rparr>)"

definition deleteCycleRun :: "tests_env \<Rightarrow> string \<Rightarrow> ctx \<Rightarrow> response act" where
  "deleteCycleRun e k c =
    andThen (store_get (\<lambda>d. Inr (ListTestRunsByCycleRun k d))) (\<lambda>cases.
    andThen (store_set (DeleteCycleRun k)) (\<lambda>_.
    andThen (remove_all e (map (\<lambda>r. path_join [ArtifactRoot (tn_os e), run_ID r]) cases)) (\<lambda>_.
    andThen (tn_audit e c ''delete_cycle_run'' ''cycle-run'' k ''succeeded'' []) (\<lambda>_. answer 200 ok_body))))"

section \<open>Builds\<close>

definition buildExtensions :: "(string \<times> string list) list" where
  "buildExtensions =
    [(PlatformAndroid, [''.apk'']), (PlatformWindows, [''.exe'', ''.msi'']),
     (PlatformLinux, [''.deb'', ''.rpm'', ''.appimage'', ''.run'', ''.sh'']),
     (PlatformMacOS, [''.dmg'', ''.pkg'', ''.zip''])]"

definition hasAllowedExt :: "string \<Rightarrow> string list \<Rightarrow> bool" where
  "hasAllowedExt name exts = list_ex (\<lambda>x. has_suffix x (to_lower name)) exts"

definition listBuilds :: "ctx \<Rightarrow> response act" where
  "listBuilds c =
    andThen (store_get (\<lambda>d. Inr (ListBuilds (query c ''platform'') d))) (\<lambda>bs. answer 200 (BuildsBody bs))"

definition maxUploadBytes :: "env \<Rightarrow> int" where
  "maxUploadBytes e =
    (case atoi (env_Getenv e ''OPENCUTTLES_MAX_UPLOAD_BYTES'') of
       None \<Rightarrow> 2147483648 | Some n \<Rightarrow> if 0 < n then n else 2147483648)"

text \<open>Making the directory, creating the file and copying into it, each of which may fail.\<close>

definition store_file :: "tests_env \<Rightarrow> string \<Rightarrow> string \<Rightarrow> string res \<Rightarrow> string act" where
  "store_file e dir path data s =
    (case tn_mkdir e dir of
       Some err \<Rightarrow> refuse (Other err) s
     | None \<Rightarrow>
         (case tn_create e path of
            Some err \<Rightarrow> refuse (Other err) s
          | None \<Rightarrow>
              (case data of
                 Inl err \<Rightarrow> refuse (Other err) s
               | Inr content \<Rightarrow> (Inr content, s\<lparr>sv_written := sv_written s @ [(path, content)]\<rparr>))))"

definition build_platform :: "form \<Rightarrow> string" where
  "build_platform f =
    (let p = trim_space (fm_value f ''platform'') in if p = [] then PlatformAndroid else p)"

definition new_build :: "form \<Rightarrow> string \<Rightarrow> Build" where
  "new_build f filename =
    zero_Build\<lparr>bld_Platform := build_platform f, bld_Filename := base_name filename,
      bld_Version := trim_space (fm_value f ''version''), bld_Note := trim_space (fm_value f ''note'')\<rparr>"

definition keep_build :: "tests_env \<Rightarrow> ctx \<Rightarrow> Build \<Rightarrow> string res \<Rightarrow> response act" where
  "keep_build e c b0 data =
    (let dir = path_join [ArtifactRoot (tn_os e), ''builds'', bld_ID b0];
         path = path_join [dir, bld_Filename b0] in
     andThen (store_file e dir path data) (\<lambda>content.
      let b = b0\<lparr>bld_Path := path, bld_SizeBytes := int (length content),
                 bld_SHA256 := hex_encode (ae_sha (tn_api e) (bytes_of content))\<rparr> in
     andThen (store_set (SetBuildLocation (bld_ID b) path (bld_SizeBytes b) (bld_SHA256 b))) (\<lambda>_.
     andThen (tn_audit e c ''upload_build'' ''build'' (bld_ID b) ''succeeded'' (bld_Filename b)) (\<lambda>_.
     andThen (spawn (BuildJob b)) (\<lambda>_. answer 201 (BuildBody b))))))"

definition uploadBuild :: "tests_env \<Rightarrow> ctx \<Rightarrow> response act" where
  "uploadBuild e c =
    andThen (the_form e (Some (maxUploadBytes (tn_os e))) ''build exceeds the upload size limit'' ''invalid upload'' c) (\<lambda>f.
      case map_of buildExtensions (build_platform f) of
        None \<Rightarrow> refuse (badRequest (''unknown platform '' @ build_platform f))
      | Some exts \<Rightarrow>
          andThen (the_file f ''artifact'' ''an 'artifact' file field is required'') (\<lambda>(filename, data).
          andThen (check (hasAllowedExt filename exts)
                     (badRequest (''unexpected file type for '' @ build_platform f @ '' (want '' @ join ''/'' exts @ '')''))) (\<lambda>_.
          andThen (store_do (CreateBuild (tn_now e) (tn_rnd e 1) (new_build f filename))) (\<lambda>b.
            keep_build e c b data))))"

text \<open>The goroutine behind an upload: every cycle that asks for new builds and has a target is started.\<close>

fun trigger_cycles :: "tests_env \<Rightarrow> nat \<Rightarrow> string \<Rightarrow> TestCycle list \<Rightarrow> server \<Rightarrow> server" where
  "trigger_cycles e n bid [] s = s"
| "trigger_cycles e n bid (cy # cs) s =
    trigger_cycles e (n + 1) bid cs
      (snd (andThen (resolveCycleTarget cy [])
              (\<lambda>target. start_cycle e n (cyc_ID cy) target CycleTriggerBuild bid) s))"

definition triggerBuildCycles :: "tests_env \<Rightarrow> Build \<Rightarrow> server \<Rightarrow> server" where
  "triggerBuildCycles e b s = trigger_cycles e 20 (bld_ID b) (ListCyclesForBuild (bld_Platform b) (sv_db s)) s"

section \<open>Exports\<close>

definition CasesCSV :: "tests_env \<Rightarrow> TestCase list \<Rightarrow> string res" where
  "CasesCSV e cs = tn_csv e (caseRows cs)"

definition CasesXLSX :: "tests_env \<Rightarrow> TestCase list \<Rightarrow> string res" where
  "CasesXLSX e cs = tn_xlsx e ''Cases'' (caseRows cs)"

definition ResultsCSV :: "tests_env \<Rightarrow> TestRun list \<Rightarrow> (string \<Rightarrow> string) \<Rightarrow> string res" where
  "ResultsCSV e rs name = tn_csv e (resultRows name rs)"

definition ResultsXLSX :: "tests_env \<Rightarrow> TestRun list \<Rightarrow> (string \<Rightarrow> string) \<Rightarrow> string res" where
  "ResultsXLSX e rs name = tn_xlsx e ''Results'' (resultRows name rs)"

definition writeDownload :: "string res \<Rightarrow> string \<Rightarrow> response act" where
  "writeDownload data filename = andThen (store_get (\<lambda>_. data)) (\<lambda>s. answer 200 (DownloadBody filename s))"

definition export_folder :: "string \<Rightarrow> string" where
  "export_folder f =
    trim_by (\<lambda>ch. ch = CHR ''/'') (map (\<lambda>ch. if ch = CHR 0x5C then CHR ''/'' else ch) f)"

definition in_folder :: "string \<Rightarrow> TestCase \<Rightarrow> bool" where
  "in_folder folder tc = (case_FolderPath tc = folder \<or> has_prefix (folder @ ''/'') (case_FolderPath tc))"

definition exported_cases :: "string \<Rightarrow> TestCase list \<Rightarrow> TestCase list" where
  "exported_cases folder cs =
    (let f = trim_space folder in if f = [] then cs else filter (in_folder (export_folder f)) cs)"

definition exportCases :: "tests_env \<Rightarrow> ctx \<Rightarrow> response act" where
  "exportCases e c =
    andThen (store_get (\<lambda>d. Inr (exported_cases (query c ''folder'') (ListTestCases d)))) (\<lambda>cs.
     let format = to_lower (query c ''format'') in
       if format = [] \<or> format = ''csv'' then writeDownload (CasesCSV e cs) ''cases-export.csv''
       else if format = ''xlsx'' then writeDownload (CasesXLSX e cs) ''cases-export.xlsx''
       else refuse (badRequest ''format must be csv or xlsx''))"

text \<open>caseNamer: the name of a case in the database of the request.\<close>

definition caseNamer :: "db \<Rightarrow> string \<Rightarrow> string" where
  "caseNamer d k = (if k = [] then [] else case GetTestCase k d of Inl _ \<Rightarrow> [] | Inr tc \<Rightarrow> case_Summary tc)"

definition exportCycleRun :: "tests_env \<Rightarrow> string \<Rightarrow> ctx \<Rightarrow> response act" where
  "exportCycleRun e k c =
    andThen (store_get (GetCycleRun k)) (\<lambda>run.
    andThen (store_get (\<lambda>d. Inr (ListTestRunsByCycleRun k d))) (\<lambda>runs.
    andThen (store_get (\<lambda>d. Inr (caseNamer d))) (\<lambda>namer.
     let format = to_lower (query c ''format''); name = ''cyclerun-'' @ k in
       if format = [] \<or> format = ''junit'' then writeDownload (tn_xml e (JUnit run runs namer)) (name @ ''-junit.xml'')
       else if format = ''csv'' then writeDownload (ResultsCSV e runs namer) (name @ ''-results.csv'')
       else if format = ''xlsx'' then writeDownload (ResultsXLSX e runs namer) (name @ ''-results.xlsx'')
       else refuse (badRequest ''format must be junit, csv, or xlsx''))))"

section \<open>Drafts from a specification\<close>

definition readSpecRequest :: "tests_env \<Rightarrow> ctx \<Rightarrow> (string \<times> string \<times> string) act" where
  "readSpecRequest e c =
    (if has_prefix ''multipart/form-data'' (rq_Header (cx_req c) ''Content-Type'') then
       andThen (the_form e None [] ''invalid upload'' c) (\<lambda>f.
       andThen (the_file f ''file'' ''a 'file' field is required'') (\<lambda>(filename, content).
       andThen (read_upload content) (\<lambda>data. give (filename, data, fm_value f ''folder''))))
     else
       andThen (decodeJSON (tj_spec (tn_json e)) ([], []) c) (\<lambda>(txt, folder).
       andThen (check (trim_space txt \<noteq> []) (badRequest ''upload a document or paste the specification text'')) (\<lambda>_.
         give ([], txt, folder))))"

definition lower_summary :: "TestCase \<Rightarrow> string" where
  "lower_summary tc = to_lower (trim_space (case_Summary tc))"

definition duplicateWarnings :: "TestCase list \<Rightarrow> db \<Rightarrow> string list" where
  "duplicateWarnings drafts d =
    (let known = map lower_summary (ListTestCases d);
         dupes = map (\<lambda>tc. trim_space (case_Summary tc)) (filter (\<lambda>tc. lower_summary tc \<in> set known) drafts)
     in if dupes = [] then []
        else [''already in the case library, so accepting these would duplicate them: '' @ join ''; '' dupes])"

definition draft_docs :: "tests_env \<Rightarrow> llm_config \<Rightarrow> doc_env" where
  "draft_docs e cfg = (tn_docs e)\<lparr>dc_complete := tn_llm e cfg\<rparr>"

definition draftCases :: "tests_env \<Rightarrow> ctx \<Rightarrow> response act" where
  "draftCases e c =
    andThen (readSpecRequest e c) (\<lambda>(filename, txt, folder).
    andThen (or_bad (store_get (\<lambda>_. Extract (tn_docs e) filename txt))) (\<lambda>spec.
    andThen (or_bad (store_get (specCompleter (tn_settings e)))) (\<lambda>cfg.
    andThen (or_bad (store_get (\<lambda>_. Generate (draft_docs e cfg) spec folder))) (\<lambda>r.
    andThen (store_get (\<lambda>d. Inr (duplicateWarnings (dr_Cases r) d))) (\<lambda>dupes.
    andThen (tn_audit e c ''draft_cases'' ''case'' filename ''succeeded'' []) (\<lambda>_.
      answer 200 (DraftBody (r\<lparr>dr_Warnings := dr_Warnings r @ dupes\<rparr>))))))))"

section \<open>What the handlers do to the database\<close>

abbreviation tn_step :: "tests_env \<Rightarrow> db \<Rightarrow> db \<Rightarrow> bool" where
  "tn_step e \<equiv> db_step (ae_hmac (tn_api e)) (ae_sha (tn_api e))"

lemma on_test_moves: "(\<And>d. tests_step d (snd (f d))) \<Longrightarrow> moves (db_step hmac sha) (store_do f)"
  by (rule all.moves_do) (rule one_test)

lemma on_test_sets: "(\<And>d. tests_step d (f d)) \<Longrightarrow> moves (db_step hmac sha) (store_set f)"
  by (rule all.moves_set) (rule one_test)

lemma Start_steps: "(db_step hmac sha)\<^sup>*\<^sup>* d (snd (Start now rnd k iid trigger bid d))"
proof -
  have "CreateCycleRun now rnd r d = (x, d1) \<Longrightarrow> (db_step hmac sha)\<^sup>*\<^sup>* d d1" for r x d1
    using one_test[OF tests_step.create_cycle_run[of d now rnd r]] by simp
  then show ?thesis by (auto simp: Start_def split: sum.split prod.split)
qed

lemma Start_test_steps: "(db_step hmac sha)\<^sup>*\<^sup>* d (snd (Start_test now rnd k iid d))"
proof -
  have "CreateTestRun now rnd t i d = (x, d1) \<Longrightarrow> (db_step hmac sha)\<^sup>*\<^sup>* d d1" for t i x d1
    using one_test[OF tests_step.create_run[of d now rnd t i]] by simp
  then show ?thesis by (auto simp: Start_test_def split: sum.split prod.split)
qed

lemma resolve_moves: "moves R (resolveCycleTarget cy iid)"
  by (rule moves_same) (simp add: resolveCycleTarget_def give_def refuse_def split: option.split)

lemma form_moves: "moves R (the_form e l g m c)"
  by (rule moves_same) (simp add: the_form_def give_def refuse_def split: sum.split form_error.split)

lemma file_moves: "moves R (the_file f field m)"
  by (rule moves_same) (simp add: the_file_def give_def refuse_def split: option.split)

lemma upload_moves: "moves R (read_upload data)"
  by (rule moves_same) (simp add: read_upload_def give_def refuse_def split: sum.split)

lemma disk_moves: "moves R (store_file e dir path data)" "moves R (remove_all e paths)"
  by (rule moves_same, simp add: store_file_def remove_all_def give_def refuse_def split: option.split sum.split)+

lemma cron_moves: "moves (db_step hmac sha) (applyCron e cy)"
  unfolding applyCron_def Let_def by (intro all.rules)

lemmas test_rules = all.rules resolve_moves form_moves file_moves upload_moves disk_moves cron_moves
  all.moves_do[OF Start_steps] all.moves_do[OF Start_test_steps]
  on_test_moves[OF tests_step.create_test] on_test_sets[OF tests_step.delete_test]
  on_test_moves[OF tests_step.create_case] on_test_moves[OF tests_step.bulk_create]
  on_test_moves[OF tests_step.create_folder] on_test_sets[OF tests_step.delete_folder]
  on_test_sets[OF tests_step.update_case] on_test_sets[OF tests_step.delete_case]
  on_test_moves[OF tests_step.create_cycle] on_test_moves[OF tests_step.update_cycle]
  on_test_sets[OF tests_step.delete_cycle] on_test_sets[OF tests_step.delete_cycle_run]
  on_test_moves[OF tests_step.create_build] on_test_sets[OF tests_step.build_location]

lemma test_moves:
  "moves (tn_step e) listTests" "moves (tn_step e) (createTest e c)" "moves (tn_step e) (deleteTest e k c)"
  "moves (tn_step e) (runTest e k c)" "moves (tn_step e) listTestRuns" "moves (tn_step e) (getTestRun k)"
  "moves (tn_step e) (testArtifact e k name)"
  unfolding listTests_def createTest_def deleteTest_def runTest_def listTestRuns_def getTestRun_def testArtifact_def
  by (intro test_rules)+

lemma case_moves:
  "moves (tn_step e) listCases" "moves (tn_step e) listCaseFolders" "moves (tn_step e) (createCaseFolder e c)"
  "moves (tn_step e) (deleteCaseFolder e c)" "moves (tn_step e) (createCase e c)" "moves (tn_step e) (getCase k)"
  "moves (tn_step e) (updateCase e k c)" "moves (tn_step e) (deleteCase e k c)" "moves (tn_step e) (importCases e c)"
  unfolding listCases_def listCaseFolders_def createCaseFolder_def deleteCaseFolder_def createCase_def getCase_def
    updateCase_def deleteCase_def importCases_def Let_def
  by (intro test_rules)+

lemma cycle_moves:
  "moves (tn_step e) listCycles" "moves (tn_step e) (createCycle e c)" "moves (tn_step e) (getCycle k)"
  "moves (tn_step e) (updateCycle e k c)" "moves (tn_step e) (deleteCycle e k c)"
  "moves (tn_step e) (updateCycleCases e k c)" "moves (tn_step e) (updateCycleSchedule e k c)"
  "moves (tn_step e) (runCycle e k c)" "moves (tn_step e) (listCycleRuns_page c)" "moves (tn_step e) (caseHealth e c)"
  "moves (tn_step e) (getCycleRun k)" "moves (tn_step e) (deleteCycleRun e k c)"
  unfolding listCycles_def createCycle_def getCycle_def updateCycle_def deleteCycle_def updateCycleCases_def
    updateCycleSchedule_def runCycle_def start_cycle_def listCycleRuns_page_def caseHealth_def getCycleRun_def
    deleteCycleRun_def Let_def
  by (intro test_rules)+

lemma build_moves: "moves (tn_step e) (listBuilds c)" "moves (tn_step e) (uploadBuild e c)"
  unfolding listBuilds_def uploadBuild_def keep_build_def Let_def by (intro test_rules)+

lemma trigger_moves: "(tn_step e)\<^sup>*\<^sup>* (sv_db s) (sv_db (trigger_cycles e n bid cs s))"
proof (induction e n bid cs s rule: trigger_cycles.induct)
  case (2 e n bid cy cs s)
  have "moves (tn_step e) (andThen (resolveCycleTarget cy [])
      (\<lambda>target. start_cycle e n (cyc_ID cy) target CycleTriggerBuild bid))"
    unfolding start_cycle_def by (intro test_rules)
  then have "(tn_step e)\<^sup>*\<^sup>* (sv_db s) (sv_db (snd (andThen (resolveCycleTarget cy [])
      (\<lambda>target. start_cycle e n (cyc_ID cy) target CycleTriggerBuild bid) s)))"
    by (simp add: moves_def)
  from rtranclp_trans[OF this 2] show ?case by simp
qed simp

lemma export_moves: "moves (tn_step e) (exportCases e c)" "moves (tn_step e) (exportCycleRun e k c)"
  unfolding exportCases_def exportCycleRun_def writeDownload_def Let_def by (intro test_rules)+

lemma spec_moves: "moves (db_step hmac sha) (readSpecRequest e c)" "moves only_audit (readSpecRequest e c)"
  unfolding readSpecRequest_def by (intro test_rules, intro log.rules form_moves file_moves upload_moves)

lemma draft_moves: "moves (tn_step e) (draftCases e c)"
  unfolding draftCases_def by (intro test_rules spec_moves)

section \<open>Drafting writes no case\<close>

lemma draft_audits: "moves only_audit (draftCases e c)"
  unfolding draftCases_def by (intro log.rules spec_moves)

lemma only_audit_tables:
  "only_audit\<^sup>*\<^sup>* d d' \<Longrightarrow> fleet_tables d' = fleet_tables d \<and> test_tables d' = test_tables d
    \<and> db_users d' = db_users d \<and> db_sessions d' = db_sessions d \<and> db_settings d' = db_settings d"
  by (induction rule: rtranclp_induct)
    (auto simp: only_audit_def CreateAuditEvent_def Let_def tables split: sum.splits)

text \<open>Drafting cases from a document leaves every table but the audit trail as it was, whatever the document and
  the model say, and whether it succeeds or not.\<close>

theorem draftCases_writes_nothing:
  "test_tables (sv_db (snd (draftCases e c s))) = test_tables (sv_db s)
   \<and> fleet_tables (sv_db (snd (draftCases e c s))) = fleet_tables (sv_db s)
   \<and> db_users (sv_db (snd (draftCases e c s))) = db_users (sv_db s)
   \<and> db_settings (sv_db (snd (draftCases e c s))) = db_settings (sv_db s)"
  using only_audit_tables[OF draft_audits[unfolded moves_def, rule_format]] by blast


section \<open>What is recorded about an upload\<close>

lemma find_in: "find P xs = Some x \<Longrightarrow> x \<in> set xs \<and> P x"
  by (induction xs) (auto split: if_splits)

lemma resolve_explicit:
  "resolveCycleTarget cy iid s = (Inr t, s') \<Longrightarrow>
    s' = s \<and> (if iid \<noteq> [] then t = iid \<and> is_ok (GetInstance iid (sv_db s))
       else \<exists>i\<in>set (ListInstances (sv_db s)). inst_ID i = t \<and> suits cy i)"
  using find_in by (fastforce simp: resolveCycleTarget_def give_def refuse_def split: if_splits option.splits)

lemma ran_form:
  "andThen (the_form e l g m c) f s = (Inr x, s')
    \<longleftrightarrow> (\<exists>y. tn_form e l (rq_Body (cx_req c)) = Inr y \<and> f y s = (Inr x, s'))"
  by (auto simp: andThen_def the_form_def give_def refuse_def split: sum.splits form_error.splits)

lemma ran_file:
  "andThen (the_file fm field m) f s = (Inr x, s') \<longleftrightarrow> (\<exists>y. fm_file fm field = Some y \<and> f y s = (Inr x, s'))"
  by (auto simp: andThen_def the_file_def give_def refuse_def split: option.splits)

lemma ran_store_file:
  "andThen (store_file e dir path data) f s = (Inr x, s')
    \<longleftrightarrow> (\<exists>y. data = Inr y \<and> tn_mkdir e dir = None \<and> tn_create e path = None
          \<and> f y (s\<lparr>sv_written := sv_written s @ [(path, y)]\<rparr>) = (Inr x, s'))"
  by (auto simp: andThen_def store_file_def refuse_def split: sum.splits option.splits)

lemma ran_spawn: "andThen (spawn j) f s = f () (s\<lparr>sv_jobs := sv_jobs s @ [j]\<rparr>)"
  by (simp add: andThen_def spawn_def)

lemma GetBuild_located:
  assumes "CreateBuild now rnd b d = (Inr b', d1)"
  shows "GetBuild (bld_ID b') (snd (CreateAuditEvent now' rnd' ev (SetBuildLocation (bld_ID b') path sz sha d1)))
    = Inr (b'\<lparr>bld_Path := path, bld_SizeBytes := sz, bld_SHA256 := sha\<rparr>)"
proof -
  obtain t where t: "tbl_insert bld_ID b' (db_builds d) = Inr t" "d1 = d\<lparr>db_builds := t\<rparr>"
    using assms by (auto simp: CreateBuild_def Let_def split: sum.splits)
  have f: "tbl_find bld_ID (bld_ID b') t = Some b'" using tbl_find_insert[OF t(1)] by simp
  have "db_builds (snd (CreateAuditEvent now' rnd' ev x)) = db_builds x" for x
    by (simp add: CreateAuditEvent_def Let_def split: sum.split)
  then show ?thesis
    by (simp add: GetBuild_def SetBuildLocation_def t(2) tbl_find_update f scan_row_def)
qed

lemma new_build_platform: "bld_Platform (new_build f filename) = build_platform f"
  by (simp add: new_build_def)

text \<open>An accepted upload wrote exactly one file, and the build that is answered and the stored
  one agree: path, size and hash are those of the file written, the extension fits the platform, and the build
  is handed to the cycles that wait for one.\<close>

theorem uploadBuild_records:
  assumes "uploadBuild e c s = (Inr r, s')"
  shows "\<exists>b content exts. r = writeJSON 201 (BuildBody b) \<and> sv_written s' = sv_written s @ [(bld_Path b, content)]
    \<and> bld_SizeBytes b = int (length content) \<and> bld_SHA256 b = hex_encode (ae_sha (tn_api e) (bytes_of content))
    \<and> map_of buildExtensions (bld_Platform b) = Some exts
    \<and> bld_Path b = path_join [path_join [ArtifactRoot (tn_os e), ''builds'', bld_ID b], bld_Filename b]
    \<and> GetBuild (bld_ID b) (sv_db s') = Inr b \<and> sv_jobs s' = sv_jobs s @ [BuildJob b]"
proof -
  from assms obtain f exts filename content b0 d1 where
    f: "map_of buildExtensions (build_platform f) = Some exts"
    and b0: "CreateBuild (tn_now e) (tn_rnd e 1) (new_build f filename) (sv_db s) = (Inr b0, d1)"
    and k: "keep_build e c b0 (Inr content) (s\<lparr>sv_db := d1\<rparr>) = (Inr r, s')"
    by (auto simp: uploadBuild_def ran_form ran_file ran keep_build_def Let_def ran_store_file refuse_def
        split: option.splits)
  have p: "bld_Platform b0 = build_platform f"
    using b0 by (auto simp: CreateBuild_def Let_def new_build_platform split: sum.splits)
  show ?thesis using k f p GetBuild_located[OF b0]
    by (auto simp: keep_build_def Let_def ran_store_file ran ran_spawn)
qed


definition sample_form :: form where
  "sample_form = \<lparr>fm_value = (\<lambda>k. if k = ''version'' then ''1.2'' else []),
     fm_file = (\<lambda>k. if k = ''artifact'' then Some (''App.APK'', Inr ''PK'') else None)\<rparr>"

definition sample_tests :: tests_env where
  "sample_tests =
    \<lparr>tn_settings = sample_settings,
     tn_json = \<lparr>tj_case = (\<lambda>_. None), tj_cycle = (\<lambda>_. None), tj_path = (\<lambda>_. None), tj_ids = (\<lambda>_. None),
       tj_schedule = (\<lambda>_. None), tj_run = (\<lambda>_. None), tj_test = (\<lambda>_. None), tj_instance = (\<lambda>_. None), tj_spec = (\<lambda>_. None)\<rparr>,
     tn_cron = \<lparr>ce_zone = (\<lambda>_. Inl (Err [])), ce_cron = (\<lambda>_. Inl (Err []))\<rparr>, tn_form = (\<lambda>_ _. Inr sample_form),
     tn_readers = \<lparr>rd_csv = (\<lambda>_. Inr []), rd_open = (\<lambda>_. Inr []), rd_sheet = (\<lambda>_ _. Inr []), rd_orders = (\<lambda>_. [])\<rparr>,
     tn_docs = proposing, tn_llm = (\<lambda>_ _. ([], None)), tn_csv = (\<lambda>_. Inr []), tn_xlsx = (\<lambda>_ _. Inr []), tn_xml = (\<lambda>_. Inr []),
     tn_walk = id, tn_byStart = id, tn_mkdir = (\<lambda>_. None), tn_create = (\<lambda>_. None)\<rparr>"

definition uploaded :: "(api_error + response) \<times> server" where
  "uploaded = uploadBuild sample_tests (sample_ctx []) (idle_server empty_db)"

lemma run_cases: "(case fst p of Inl _ \<Rightarrow> False | Inr _ \<Rightarrow> True) \<Longrightarrow> \<exists>r. p = (Inr r, snd p)"
  by (cases p) (auto split: sum.splits)

theorem uploadBuild_records_witness:
  "\<exists>b. GetBuild (bld_ID b) (sv_db (snd uploaded)) = Inr b \<and> sv_written (snd uploaded) = [(bld_Path b, ''PK'')]
    \<and> bld_SizeBytes b = 2 \<and> bld_Platform b \<in> set (map fst buildExtensions) \<and> sv_jobs (snd uploaded) = [BuildJob b]"
proof -
  have "case fst uploaded of Inl _ \<Rightarrow> False | Inr _ \<Rightarrow> True" by code_simp
  then obtain r where u: "uploadBuild sample_tests (sample_ctx []) (idle_server empty_db) = (Inr r, snd uploaded)"
    using run_cases[of uploaded] by (auto simp: uploaded_def)
  have w: "map snd (sv_written (snd uploaded)) = [''PK'']" "sv_written (idle_server empty_db) = []" "sv_jobs (idle_server empty_db) = []"
    by code_simp+
  from uploadBuild_records[OF u] obtain b content exts where
    b: "sv_written (snd uploaded) = [(bld_Path b, content)]" "bld_SizeBytes b = int (length content)"
    "map_of buildExtensions (bld_Platform b) = Some exts" "GetBuild (bld_ID b) (sv_db (snd uploaded)) = Inr b"
    "sv_jobs (snd uploaded) = [BuildJob b]" using w by auto
  have "content = ''PK''" using w(1) b(1) by simp
  moreover have "bld_Platform b \<in> set (map fst buildExtensions)"
    using map_of_SomeD[OF b(3)] by (metis fst_conv image_eqI set_map)
  ultimately show ?thesis using b by (intro exI[of _ b]) simp
qed

section \<open>What a started cycle runs on\<close>

lemma or_bad_Inr: "or_bad m s = (Inr x, s') \<longleftrightarrow> m s = (Inr x, s')"
  by (auto simp: or_bad_def split: prod.splits sum.splits)

text \<open>A cycle that is run by hand runs on the device that was named, or on one that is up and fits.\<close>

lemma ran_decodeJSON:
  "andThen (decodeJSON parse z c) f s = (Inr x, s')
    \<longleftrightarrow> (\<exists>y. (if blank_json (rq_Body (cx_req c)) then y = z else parse (rq_Body (cx_req c)) = Some y) \<and> f y s = (Inr x, s'))"
  by (auto simp: andThen_def decodeJSON_def decode_def give_def refuse_def split: option.splits)

lemma ran_resolve:
  "andThen (resolveCycleTarget cy iid) f s = (Inr x, s')
    \<longleftrightarrow> (\<exists>t. resolveCycleTarget cy iid s = (Inr t, s) \<and> f t s = (Inr x, s'))"
  by (auto simp: andThen_def split: prod.splits sum.splits dest: resolve_explicit)

lemma ran_give: "andThen (give x) f s = f x s"
  by (simp add: andThen_def give_def)

lemma ran_bad: "andThen (or_bad m) f s = (Inr x, s') \<longleftrightarrow> andThen m f s = (Inr x, s')"
  by (auto simp: andThen_def or_bad_def split: prod.splits sum.splits)

lemma runCycle_target:
  assumes "runCycle e k c s = (Inr r, s')"
  shows "\<exists>cy iid target cy' run. GetTestCycle k (sv_db s) = Inr cy \<and> resolveCycleTarget cy iid s = (Inr target, s)
    \<and> r = writeJSON 202 (CycleRunBody run) \<and> sv_jobs s' = sv_jobs s @ [CycleJob cy' target run]"
  using assms
  by (auto simp: runCycle_def ran ran_decodeJSON ran_resolve ran_bad start_cycle_def ran_spawn ran_give
      split: prod.splits)

section \<open>Artifacts stay in their directory\<close>

lemma base_name_flat: "base_name p \<noteq> ''/'' \<Longrightarrow> CHR ''/'' \<notin> set (base_name p)"
  by (cases "p = []"; cases "trim_slashes p = []") (auto simp: base_name_def Let_def dest: set_takeWhileD)

text \<open>An artifact is served only under a name that is no path and no hidden file, for a run that exists.\<close>

lemma testArtifact_confined:
  assumes "testArtifact e k name s = (Inr r, s')"
  shows "(name = ''/'' \<or> CHR ''/'' \<notin> set name) \<and> \<not> has_prefix ''.'' name \<and> is_ok (GetTestRun k (sv_db s))
    \<and> r = writeJSON 200 (FileBody (path_join [ArtifactRoot (tn_os e), k, name]))"
  using assms base_name_flat[of name] by (auto simp: testArtifact_def ran)


text \<open>An escaped slash passes the check: the file that is served is the directory of the run.\<close>

lemma slash_is_served:
  "is_ok (GetTestRun k (sv_db s)) \<Longrightarrow>
    fst (testArtifact e k ''/'' s) = Inr (writeJSON 200 (FileBody (path_join [ArtifactRoot (tn_os e), k, ''/''])))"
proof -
  have "base_name ''/'' = ''/''" "\<not> has_prefix ''.'' ''/''" by code_simp+
  then show "is_ok (GetTestRun k (sv_db s)) \<Longrightarrow> ?thesis"
    by (auto simp: testArtifact_def andThen_fst check_def give_def store_get_def answer_def is_ok_def split: sum.splits)
qed

lemma run_directory: "path_join [''/data'', ''run_1'', ''/''] = ''/data/run_1''" by code_simp

section \<open>The next run of a schedule\<close>

text \<open>applyCron: a schedule that is accepted has a known zone, and a next run exactly when it has a cron line,
  namely the next instant of that line.\<close>

lemma applyCron_next:
  assumes "applyCron e cy s = (Inr cy', s')"
  shows "s' = s \<and> ValidTimezone (tn_cron e) (cyc_Timezone cy') \<and> cyc_CaseIDs cy' = cyc_CaseIDs cy
    \<and> (cyc_NextRunAt cy' = (if trim_space (cyc_Cron cy) = [] then None else next_run (tn_cron e) (tn_now e) cy'))
    \<and> (cyc_Cron cy' \<noteq> [] \<longrightarrow> cyc_NextRunAt cy' \<noteq> None)"
  using assms
  by (auto simp: applyCron_def Let_def andThen_def check_def give_def refuse_def next_run_def
      split: if_splits sum.splits)

end
