(* ===== verification/Device_Watch.thy ===== *)
theory Device_Watch
  imports Device_Control
begin

text \<open>
  The reachability poller of physical handsets, backend/internal/devicewatch: the parser
  of the device list of adb, the reconciliation of the stored state with what adb
  reports, and the screen geometry read when a device comes up.  One poll is a function of
  the database and the trace of adb commands; the answers of adb are those of dev_env.
\<close>

section \<open>The device list\<close>

abbreviation AdbDevice :: string where "AdbDevice \<equiv> ''device''"
abbreviation AdbOffline :: string where "AdbOffline \<equiv> ''offline''"
abbreviation AdbUnauthorized :: string where "AdbUnauthorized \<equiv> ''unauthorized''"
abbreviation AdbNoPermissions :: string where "AdbNoPermissions \<equiv> ''no permissions''"

record DeviceStatus =
  ds_Serial :: string
  ds_State :: string
  ds_Model :: string
  ds_Product :: string

definition zero_DeviceStatus :: DeviceStatus where
  "zero_DeviceStatus = \<lparr>ds_Serial = [], ds_State = [], ds_Model = [], ds_Product = []\<rparr>"

definition parseState :: "string \<Rightarrow> string" where
  "parseState rest =
    (if has_prefix AdbNoPermissions rest then AdbNoPermissions
     else if has_prefix AdbUnauthorized rest then AdbUnauthorized
     else if has_prefix AdbOffline rest then AdbOffline
     else if has_prefix AdbDevice rest then AdbDevice
     else [])"

definition add_field :: "DeviceStatus \<Rightarrow> string \<Rightarrow> DeviceStatus" where
  "add_field st field =
    (case cut_at (CHR '':'') field of
       None \<Rightarrow> st
     | Some (k, v) \<Rightarrow> if k = ''model'' then st\<lparr>ds_Model := v\<rparr>
                     else if k = ''product'' then st\<lparr>ds_Product := v\<rparr> else st)"

text \<open>One line of the list; None is a line that is skipped.\<close>

definition parse_line :: "string \<Rightarrow> DeviceStatus option" where
  "parse_line line0 =
    (let line = trim_space (filter (\<lambda>c. c \<noteq> CHR 0x0D) line0)
     in if line = [] \<or> has_prefix ''List of devices'' line \<or> has_prefix ''*'' line
          \<or> has_prefix ''adb server'' line then None
        else let serial = takeWhile (\<lambda>c. \<not> is_space c) line;
                 tail = dropWhile (\<lambda>c. \<not> is_space c) line;
                 rest = trim_space tail
             in if tail = [] \<or> serial = [] \<or> rest = [] then None
                else Some (foldl add_field
                       (zero_DeviceStatus\<lparr>ds_Serial := serial, ds_State := parseState rest\<rparr>)
                       (Go_Base.fields rest)))"

definition note_line :: "(string \<rightharpoonup> DeviceStatus) \<Rightarrow> string \<Rightarrow> (string \<rightharpoonup> DeviceStatus)" where
  "note_line m line = (case parse_line line of None \<Rightarrow> m | Some st \<Rightarrow> m(ds_Serial st \<mapsto> st))"

definition ParseADBDevices :: "string \<Rightarrow> (string \<rightharpoonup> DeviceStatus)" where
  "ParseADBDevices out = foldl note_line Map.empty (lines_of out)"

section \<open>Screen geometry\<close>

text \<open>The value of strconv.Atoi when its error is dropped: the nearest limit when out of range.\<close>

definition atoi_value :: "string \<Rightarrow> int" where
  "atoi_value s =
    (case atoi s of Some v \<Rightarrow> v
     | None \<Rightarrow>
         (let neg = (case s of c # _ \<Rightarrow> c = CHR ''-'' | [] \<Rightarrow> False);
              body = (case s of c # r \<Rightarrow> (if c = CHR ''-'' \<or> c = CHR ''+'' then r else s) | [] \<Rightarrow> s)
          in if body = [] \<or> digits_val 0 body = None then 0
             else if neg then - (2 ^ 63) else 2 ^ 63 - 1))"

definition density_line :: "int \<times> int \<Rightarrow> string \<Rightarrow> int \<times> int" where
  "density_line st line0 =
    (let line = trim_space line0; (physical, override) = st
     in if has_prefix ''Physical density:'' line
        then (atoi_value (trim_space (trim_prefix ''Physical density:'' line)), override)
        else if has_prefix ''Override density:'' line
        then (physical, atoi_value (trim_space (trim_prefix ''Override density:'' line)))
        else st)"

definition parseDensity :: "string \<Rightarrow> int" where
  "parseDensity out =
    (let (physical, override) = foldl density_line (0, 0) (lines_of out)
     in if 0 < override then override else physical)"

section \<open>The poller\<close>

record watch =
  wt_db :: db
  wt_trace :: "request list"

definition watch_run :: "dev_env \<Rightarrow> string list \<Rightarrow> watch \<Rightarrow> (string \<times> go_error option) \<times> watch" where
  "watch_run e args w =
    (case run_adb e args (wt_trace w) of (r, tr) \<Rightarrow> (r, w\<lparr>wt_trace := tr\<rparr>))"

definition adbDevices :: "dev_env \<Rightarrow> watch \<Rightarrow> (string \<rightharpoonup> DeviceStatus) \<times> watch" where
  "adbDevices e w =
    (case watch_run e [''devices'', ''-l''] w of
       ((out, None), w1) \<Rightarrow> (ParseADBDevices out, w1)
     | ((out, Some _), w1) \<Rightarrow> (Map.empty, w1))"

definition refreshDisplay :: "dev_env \<Rightarrow> time \<Rightarrow> Instance \<Rightarrow> watch \<Rightarrow> watch" where
  "refreshDisplay e now device w =
    (let target = trim_space (inst_ADBTarget device);
         ((sizeOut, err), w1) = watch_run e [''-s'', target, ''shell'', ''wm'', ''size''] w
     in case err of
          Some _ \<Rightarrow> w1
        | None \<Rightarrow>
            (case ParseWMSize sizeOut of
               Inl _ \<Rightarrow> w1
             | Inr (width, height) \<Rightarrow>
                 (let ((densityOut, err2), w2) = watch_run e [''-s'', target, ''shell'', ''wm'', ''density''] w1;
                      dpi = (if err2 = None then parseDensity densityOut else 0)
                  in w2\<lparr>wt_db := UpdateInstanceDisplay now (inst_ID device) width height dpi (wt_db w2)\<rparr>)))"

text \<open>The state and the message that a listed status, or none, asks for.\<close>

definition wanted :: "string \<Rightarrow> string \<times> string" where
  "wanted st =
    (if st = AdbDevice then (StateOnline, [])
     else if st = AdbUnauthorized
     then (StateOffline, ''USB debugging is not authorized on the device '' @ em_dash @ '' accept the prompt on its screen'')
     else if st = AdbNoPermissions
     then (StateOffline, ''the appliance cannot access this device (udev rules or group membership)'')
     else if st = AdbOffline then (StateOffline, ''device is offline'')
     else (StateOffline, ''device not visible to adb''))"

definition reconcile :: "dev_env \<Rightarrow> time \<Rightarrow> Instance \<Rightarrow> DeviceStatus \<Rightarrow> watch \<Rightarrow> watch" where
  "reconcile e now device st w =
    (let (wantState, message) = wanted (ds_State st)
     in if inst_State device = wantState \<and> inst_LastError device = message then w
        else case UpdateInstanceState now (inst_ID device) wantState message (wt_db w) of
          (Inl _, d1) \<Rightarrow> w\<lparr>wt_db := d1\<rparr>
        | (Inr _, d1) \<Rightarrow>
            (if wantState = StateOnline then refreshDisplay e now device (w\<lparr>wt_db := d1\<rparr>)
             else w\<lparr>wt_db := d1\<rparr>))"

definition status_of :: "(string \<rightharpoonup> DeviceStatus) \<Rightarrow> Instance \<Rightarrow> DeviceStatus" where
  "status_of seen device =
    (case seen (trim_space (inst_ADBTarget device)) of None \<Rightarrow> zero_DeviceStatus | Some st \<Rightarrow> st)"

fun reconnect :: "dev_env \<Rightarrow> (string \<rightharpoonup> DeviceStatus) \<Rightarrow> Instance list \<Rightarrow> watch \<Rightarrow> watch" where
  "reconnect e seen [] w = w"
| "reconnect e seen (d # ds) w =
    (let target = trim_space (inst_ADBTarget d)
     in if target = [] \<or> \<not> contains '':'' target then reconnect e seen ds w
        else if (case seen target of None \<Rightarrow> True | Some st \<Rightarrow> ds_State st = AdbOffline)
        then reconnect e seen ds (snd (watch_run e [''connect'', target] w))
        else reconnect e seen ds w)"

fun reconcile_all :: "dev_env \<Rightarrow> time \<Rightarrow> (string \<rightharpoonup> DeviceStatus) \<Rightarrow> Instance list \<Rightarrow> watch \<Rightarrow> watch" where
  "reconcile_all e now seen [] w = w"
| "reconcile_all e now seen (d # ds) w =
    reconcile_all e now seen ds (reconcile e now d (status_of seen d) w)"

definition pollOnce :: "dev_env \<Rightarrow> time \<Rightarrow> watch \<Rightarrow> watch" where
  "pollOnce e now w =
    (let devices = ListPhysicalAndroid (wt_db w)
     in if devices = [] then w
        else let (seen, w1) = adbDevices e w;
                 w2 = reconnect e seen devices w1;
                 (seen2, w3) = adbDevices e w2
             in reconcile_all e now seen2 devices w3)"

section \<open>One poll settles every handset\<close>

lemma watch_run_db [simp]: "wt_db (snd (watch_run e args w)) = wt_db w"
  by (simp add: watch_run_def run_adb_def)

lemma adbDevices_db [simp]: "wt_db (snd (adbDevices e w)) = wt_db w"
proof -
  obtain out err w1 where r: "watch_run e [''devices'', ''-l''] w = ((out, err), w1)"
    by (metis surj_pair)
  then have "wt_db w1 = wt_db w" using watch_run_db[of e "[''devices'', ''-l'']" w] by simp
  then show ?thesis using r by (cases err) (simp_all add: adbDevices_def)
qed

lemma reconnect_db [simp]: "wt_db (reconnect e seen ds w) = wt_db w"
  by (induction e seen ds w rule: reconnect.induct) (simp_all add: Let_def)

definition row_update :: "Instance \<Rightarrow> DeviceStatus \<Rightarrow> (InstanceRow \<Rightarrow> InstanceRow) \<Rightarrow> bool" where
  "row_update dev st f =
    (\<forall>r. inst_ID (f r) = inst_ID r \<and> inst_Src (f r) = inst_Src r \<and> inst_ADBTarget (f r) = inst_ADBTarget r
       \<and> (inst_State r = inst_State dev \<and> inst_LastError r = inst_LastError dev \<longrightarrow>
          (inst_State (f r), inst_LastError (f r)) = wanted (ds_State st)))"

lemma refreshDisplay_rows:
  "\<exists>f. db_instances (wt_db (refreshDisplay e now dev w)) = tbl_update inst_ID (inst_ID dev) f (db_instances (wt_db w))
     \<and> (\<forall>r. inst_ID (f r) = inst_ID r \<and> inst_Src (f r) = inst_Src r \<and> inst_ADBTarget (f r) = inst_ADBTarget r
         \<and> inst_State (f r) = inst_State r \<and> inst_LastError (f r) = inst_LastError r)"
  (is "\<exists>f. ?P f \<and> ?Q f")
proof -
  let ?args = "[''-s'', trim_space (inst_ADBTarget dev), ''shell'', ''wm'', ''size'']"
  obtain out err w1 where r: "watch_run e ?args w = ((out, err), w1)" by (metis surj_pair)
  have w1: "wt_db w1 = wt_db w" using watch_run_db[of e ?args w] r by simp
  show ?thesis
  proof (cases "err = None \<and> is_ok (ParseWMSize out)")
    case False
    then have "wt_db (refreshDisplay e now dev w) = wt_db w"
      using r w1 by (auto simp: refreshDisplay_def Let_def split: option.splits sum.splits)
    then show ?thesis by (intro exI[of _ "\<lambda>r. r"]) (simp add: tbl_update_def)
  next
    case True
    then obtain wd ht where p: "ParseWMSize out = Inr (wd, ht)" "err = None"
      by (cases "ParseWMSize out") auto
    let ?args2 = "[''-s'', trim_space (inst_ADBTarget dev), ''shell'', ''wm'', ''density'']"
    obtain out2 err2 w2 where r2: "watch_run e ?args2 w1 = ((out2, err2), w2)" by (metis surj_pair)
    have w2: "wt_db w2 = wt_db w" using watch_run_db[of e ?args2 w1] r2 w1 by simp
    let ?dpi = "if err2 = None then parseDensity out2 else 0"
    have "db_instances (wt_db (refreshDisplay e now dev w))
      = tbl_update inst_ID (inst_ID dev) (\<lambda>i. i\<lparr>inst_DisplayWidth := wd, inst_DisplayHeight := ht,
          inst_DPI := ?dpi, inst_UpdatedAt := now\<rparr>) (db_instances (wt_db w))"
      using r r2 p w2 by (simp add: refreshDisplay_def Let_def UpdateInstanceDisplay_def update_instance_def)
    then show ?thesis
      by (intro exI[of _ "\<lambda>i. i\<lparr>inst_DisplayWidth := wd, inst_DisplayHeight := ht,
          inst_DPI := ?dpi, inst_UpdatedAt := now\<rparr>"]) simp
  qed
qed

lemma tbl_update_twice:
  assumes "\<And>r. key (f r) = key r"
  shows "tbl_update key k g (tbl_update key k f t) = tbl_update key k (\<lambda>r. g (f r)) t"
  by (simp add: tbl_update_def assms)

lemma reconcile_rows:
  "\<exists>f. db_instances (wt_db (reconcile e now dev st w)) = tbl_update inst_ID (inst_ID dev) f (db_instances (wt_db w))
     \<and> row_update dev st f"
proof -
  obtain ws msg where wm: "wanted (ds_State st) = (ws, msg)" by (cases "wanted (ds_State st)")
  let ?f = "\<lambda>i. i\<lparr>inst_State := ws, inst_LastError := msg, inst_UpdatedAt := now\<rparr> :: InstanceRow"
  let ?d1 = "update_instance (inst_ID dev) ?f (wt_db w)"
  have d1: "db_instances ?d1 = tbl_update inst_ID (inst_ID dev) ?f (db_instances (wt_db w))"
    by (simp add: update_instance_def)
  have ok: "row_update dev st ?f" by (simp add: row_update_def wm)
  show ?thesis
  proof (cases "inst_State dev = ws \<and> inst_LastError dev = msg")
    case True
    then show ?thesis
      by (intro exI[of _ "\<lambda>r. r"]) (auto simp: reconcile_def wm Let_def tbl_update_def row_update_def)
  next
    case False
    have u: "reconcile e now dev st w = (case UpdateInstanceState now (inst_ID dev) ws msg (wt_db w) of
        (Inl _, d1) \<Rightarrow> w\<lparr>wt_db := d1\<rparr>
      | (Inr _, d1) \<Rightarrow> (if ws = StateOnline then refreshDisplay e now dev (w\<lparr>wt_db := d1\<rparr>) else w\<lparr>wt_db := d1\<rparr>))"
      unfolding reconcile_def wm Let_def using False by (simp only: prod.case if_False)
    have "reconcile e now dev st w \<in>
        {w\<lparr>wt_db := ?d1\<rparr>, refreshDisplay e now dev (w\<lparr>wt_db := ?d1\<rparr>)}"
      unfolding u UpdateInstanceState_def Let_def prod.case by (auto split: sum.split)
    then consider "wt_db (reconcile e now dev st w) = ?d1"
      | "reconcile e now dev st w = refreshDisplay e now dev (w\<lparr>wt_db := ?d1\<rparr>)"
      by auto
    then show ?thesis
    proof cases
      case 1
      then show ?thesis using d1 ok by auto
    next
      case 2
      obtain g where g: "db_instances (wt_db (refreshDisplay e now dev (w\<lparr>wt_db := ?d1\<rparr>)))
          = tbl_update inst_ID (inst_ID dev) g (db_instances ?d1)"
        and same: "\<forall>r. inst_ID (g r) = inst_ID r \<and> inst_Src (g r) = inst_Src r \<and> inst_ADBTarget (g r) = inst_ADBTarget r
         \<and> inst_State (g r) = inst_State r \<and> inst_LastError (g r) = inst_LastError r"
        using refreshDisplay_rows[of e now dev "w\<lparr>wt_db := ?d1\<rparr>"] by auto
      have "row_update dev st (\<lambda>r. g (?f r))" using same by (simp add: row_update_def wm)
      moreover have "db_instances (wt_db (reconcile e now dev st w))
          = tbl_update inst_ID (inst_ID dev) (\<lambda>r. g (?f r)) (db_instances (wt_db w))"
        unfolding 2 g d1 by (rule tbl_update_twice) simp
      ultimately show ?thesis by blast
    qed
  qed
qed

lemma reconcile_all_rows:
  assumes "distinct (map inst_ID ds)"
  shows "\<exists>g. db_instances (wt_db (reconcile_all e now seen ds w)) = map g (db_instances (wt_db w))
     \<and> (\<forall>r. inst_ID r \<notin> inst_ID ` set ds \<longrightarrow> g r = r)
     \<and> (\<forall>r d. d \<in> set ds \<and> inst_ID d = inst_ID r \<and> inst_State r = inst_State d \<and> inst_LastError r = inst_LastError d
          \<longrightarrow> inst_Src (g r) = inst_Src r \<and> inst_ADBTarget (g r) = inst_ADBTarget r
             \<and> (inst_State (g r), inst_LastError (g r)) = wanted (ds_State (status_of seen d)))"
  using assms
proof (induction ds arbitrary: w)
  case Nil
  then show ?case by (intro exI[of _ "\<lambda>r. r"]) simp
next
  case (Cons d ds)
  let ?st = "status_of seen d"
  obtain f where f: "db_instances (wt_db (reconcile e now d ?st w)) = tbl_update inst_ID (inst_ID d) f (db_instances (wt_db w))"
    and upd: "row_update d ?st f"
    using reconcile_rows[of e now d ?st w] by blast
  have "distinct (map inst_ID ds)" using Cons.prems by simp
  from Cons.IH[OF this, of "reconcile e now d ?st w"] obtain g
    where g: "db_instances (wt_db (reconcile_all e now seen ds (reconcile e now d ?st w)))
      = map g (db_instances (wt_db (reconcile e now d ?st w)))"
    and out: "\<forall>r. inst_ID r \<notin> inst_ID ` set ds \<longrightarrow> g r = r"
    and ins: "\<forall>r c. c \<in> set ds \<and> inst_ID c = inst_ID r \<and> inst_State r = inst_State c
        \<and> inst_LastError r = inst_LastError c \<longrightarrow> inst_Src (g r) = inst_Src r \<and> inst_ADBTarget (g r) = inst_ADBTarget r
             \<and> (inst_State (g r), inst_LastError (g r)) = wanted (ds_State (status_of seen c))"
    by blast
  have fresh: "inst_ID d \<notin> inst_ID ` set ds" using Cons.prems by auto
  let ?g = "\<lambda>r. if inst_ID r = inst_ID d then f r else g r"
  have A: "map ?g rows = map g (tbl_update inst_ID (inst_ID d) f rows)" for rows
    using out fresh upd by (simp add: tbl_update_def row_update_def)
  have C: "inst_Src (?g r) = inst_Src r \<and> inst_ADBTarget (?g r) = inst_ADBTarget r
      \<and> (inst_State (?g r), inst_LastError (?g r)) = wanted (ds_State (status_of seen c))"
    if c: "c \<in> set (d # ds)" "inst_ID c = inst_ID r" "inst_State r = inst_State c" "inst_LastError r = inst_LastError c"
    for r c
  proof (cases "c = d")
    case True
    then show ?thesis using c upd by (simp add: row_update_def)
  next
    case False
    then have "c \<in> set ds" using c by simp
    moreover from this have "inst_ID r \<noteq> inst_ID d" using fresh c(2) by (metis image_eqI)
    ultimately show ?thesis using ins c by simp
  qed
  show ?case
  proof (intro exI[of _ ?g] conjI allI impI)
    show "db_instances (wt_db (reconcile_all e now seen (d # ds) w)) = map ?g (db_instances (wt_db w))"
      unfolding A using f g by simp
    show "?g r = r" if "inst_ID r \<notin> inst_ID ` set (d # ds)" for r using out that by simp
  qed (use C in blast)+
qed

definition listing :: "dev_env \<Rightarrow> watch \<Rightarrow> (string \<rightharpoonup> DeviceStatus)" where
  "listing e w =
    (let (seen, w1) = adbDevices e w
     in fst (adbDevices e (reconnect e seen (ListPhysicalAndroid (wt_db w)) w1)))"

definition target_status :: "(string \<rightharpoonup> DeviceStatus) \<Rightarrow> InstanceRow \<Rightarrow> string" where
  "target_status seen r =
    (case seen (trim_space (inst_ADBTarget r)) of None \<Rightarrow> [] | Some st \<Rightarrow> ds_State st)"

definition settled_row :: "(string \<rightharpoonup> DeviceStatus) \<Rightarrow> InstanceRow \<Rightarrow> bool" where
  "settled_row seen r = ((inst_State r, inst_LastError r) = wanted (target_status seen r))"

lemma status_of_scan: "ds_State (status_of seen (scanInstance r)) = target_status seen r"
  by (simp add: status_of_def target_status_def zero_DeviceStatus_def split: option.split)

lemma ListPhysicalAndroid_set:
  "set (ListPhysicalAndroid d) = scanInstance ` {r \<in> set (db_instances d). inst_Src r = SourcePhysical}"
  by (simp add: ListPhysicalAndroid_def set_order_asc)

lemma ListPhysicalAndroid_distinct:
  assumes "unique_keys inst_ID (db_instances d)"
  shows "distinct (map inst_ID (ListPhysicalAndroid d))"
proof -
  have "distinct (map inst_ID (filter (\<lambda>r. inst_Src r = SourcePhysical) (db_instances d)))"
    using assms by (simp add: unique_keys_def distinct_map_filter)
  then have "distinct (map inst_ID (order_asc inst_Name (filter (\<lambda>r. inst_Src r = SourcePhysical) (db_instances d))))"
    by (simp add: order_asc_sort distinct_map)
  then show ?thesis by (simp add: ListPhysicalAndroid_def comp_def)
qed

lemma pollOnce_rows:
  assumes uniq: "unique_keys inst_ID (db_instances (wt_db w))"
  shows "\<exists>g. db_instances (wt_db (pollOnce e now w)) = map g (db_instances (wt_db w))
    \<and> (\<forall>r \<in> set (db_instances (wt_db w)).
        if inst_Src r = SourcePhysical
        then inst_Src (g r) = SourcePhysical \<and> settled_row (listing e w) (g r)
        else g r = r)"
proof (cases "ListPhysicalAndroid (wt_db w) = []")
  case True
  then have "\<And>r. r \<in> set (db_instances (wt_db w)) \<Longrightarrow> inst_Src r \<noteq> SourcePhysical"
    using ListPhysicalAndroid_set[of "wt_db w"] by auto
  then show ?thesis using True by (intro exI[of _ "\<lambda>r. r"]) (simp add: pollOnce_def)
next
  case False
  let ?ds = "ListPhysicalAndroid (wt_db w)"
  obtain seen w1 where a1: "adbDevices e w = (seen, w1)" by fastforce
  obtain seen2 w3 where a2: "adbDevices e (reconnect e seen ?ds w1) = (seen2, w3)" by fastforce
  have l: "listing e w = seen2" using a1 a2 by (simp add: listing_def)
  have db: "wt_db w3 = wt_db w"
    using adbDevices_db[of e w] adbDevices_db[of e "reconnect e seen ?ds w1"] a1 a2 by simp
  obtain g where g: "db_instances (wt_db (reconcile_all e now seen2 ?ds w3)) = map g (db_instances (wt_db w))"
    and out: "\<forall>r. inst_ID r \<notin> inst_ID ` set ?ds \<longrightarrow> g r = r"
    and ins: "\<forall>r d. d \<in> set ?ds \<and> inst_ID d = inst_ID r \<and> inst_State r = inst_State d \<and> inst_LastError r = inst_LastError d
          \<longrightarrow> inst_Src (g r) = inst_Src r \<and> inst_ADBTarget (g r) = inst_ADBTarget r
             \<and> (inst_State (g r), inst_LastError (g r)) = wanted (ds_State (status_of seen2 d))"
    using reconcile_all_rows[OF ListPhysicalAndroid_distinct[OF uniq], of e now seen2 w3] db by force
  have "if inst_Src r = SourcePhysical
        then inst_Src (g r) = SourcePhysical \<and> settled_row seen2 (g r) else g r = r"
    if r: "r \<in> set (db_instances (wt_db w))" for r
  proof (cases "inst_Src r = SourcePhysical")
    case True
    then have "scanInstance r \<in> set ?ds" using r by (simp add: ListPhysicalAndroid_set)
    then have "inst_Src (g r) = inst_Src r \<and> inst_ADBTarget (g r) = inst_ADBTarget r
       \<and> (inst_State (g r), inst_LastError (g r)) = wanted (ds_State (status_of seen2 (scanInstance r)))"
      using ins by (metis scanInstance_fields(1-3))
    then show ?thesis using True by (simp add: settled_row_def status_of_scan target_status_def)
  next
    case f: False
    have "inst_ID r \<notin> inst_ID ` set ?ds"
    proof
      assume "inst_ID r \<in> inst_ID ` set ?ds"
      then obtain s where "s \<in> set (db_instances (wt_db w))" "inst_Src s = SourcePhysical" "inst_ID s = inst_ID r"
        by (auto simp: ListPhysicalAndroid_set)
      then show False using r uniq f by (auto simp: unique_keys_def distinct_map dest: inj_onD)
    qed
    then show ?thesis using out f by simp
  qed
  then show ?thesis using False a1 a2 g l by (intro exI[of _ g]) (simp add: pollOnce_def)
qed


text \<open>An adb that lists the sample phone as ready and answers the size and density queries.\<close>

definition device_list :: string where
  "device_list = ''List of devices attached'' @ [CHR 0x0A] @ ''R5CT10'' @ [CHR 0x09]
     @ ''device product:a52 model:SM_A525F'' @ [CHR 0x0A] @ ''emulator-5554'' @ [CHR 0x09]
     @ ''no permissions (user in plugdev group)'' @ [CHR 0x0A]"

definition plugged_run :: "request list \<Rightarrow> string list \<Rightarrow> string \<times> go_error option" where
  "plugged_run tr args =
    (if args = [''devices'', ''-l''] then (device_list, None)
     else if last args = ''size'' then (''Physical size: 1080x2400'', None)
     else if last args = ''density'' then (''Physical density: 420'', None)
     else ([], None))"

definition plugged_env :: dev_env where
  "plugged_env = quiet_env\<lparr>de_run := plugged_run\<rparr>"

lemma device_list_parsed:
  "map_option ds_State (ParseADBDevices device_list ''R5CT10'') = Some AdbDevice
   \<and> map_option ds_Model (ParseADBDevices device_list ''R5CT10'') = Some ''SM_A525F''
   \<and> map_option ds_State (ParseADBDevices device_list ''emulator-5554'') = Some AdbNoPermissions
   \<and> ParseADBDevices device_list ''List'' = None"
  by code_simp

lemma sample_phone_inv: "fleet_inv sample_phone"
  by code_simp


section \<open>Reading a printed device list\<close>

text \<open>A device as adb prints it: the serial, a tab, the state and the prose after it.\<close>

type_synonym listed = "string \<times> string \<times> string"

definition device_line :: "listed \<Rightarrow> string" where
  "device_line d = (case d of (serial, st, prose) \<Rightarrow> serial @ CHR 0x09 # st @ prose)"

definition listing_text :: "listed list \<Rightarrow> string" where
  "listing_text ds =
    ''List of devices attached'' @ CHR 0x0A # concat (map (\<lambda>d. device_line d @ [CHR 0x0A]) ds)"

definition well_listed :: "listed \<Rightarrow> bool" where
  "well_listed d = (case d of (serial, st, prose) \<Rightarrow>
     matches_adbTargetPattern serial \<and> st \<in> {AdbDevice, AdbOffline, AdbUnauthorized, AdbNoPermissions}
     \<and> CHR 0x0A \<notin> set prose \<and> CHR 0x0D \<notin> set prose \<and> (prose = [] \<or> \<not> is_space (last prose)))"

lemma split_char_lines:
  "\<forall>l\<in>set ls. c \<notin> set l \<Longrightarrow> split_char c (concat (map (\<lambda>l. l @ [c]) ls)) = ls @ [[]]"
  by (induction ls) (simp_all add: split_char_append)

lemma serial_chars:
  assumes "matches_adbTargetPattern serial"
  shows "serial \<noteq> []" "\<forall>c\<in>set serial. \<not> is_space c" "CHR 0x0A \<notin> set serial" "CHR 0x0D \<notin> set serial"
    "hd serial \<noteq> CHR ''*''"
proof -
  have ok: "adb_target_char c" if "c \<in> set serial" for c
    using assms that
    by (cases serial) (auto simp: matches_adbTargetPattern_def adb_target_char_def list_all_iff)
  have ns: "\<not> is_space c" if "adb_target_char c" for c
    using that by (auto simp: adb_target_char_def is_alnum_def is_space_def is_digit_def is_upper_char_def
        is_lower_char_def)
  show "serial \<noteq> []" using assms by (auto simp: matches_adbTargetPattern_def)
  show *: "\<forall>c\<in>set serial. \<not> is_space c" using ok ns by blast
  have "is_space (CHR 0x0A)" "is_space (CHR 0x0D)" by code_simp+
  then show "CHR 0x0A \<notin> set serial" "CHR 0x0D \<notin> set serial" using * by metis+
  have "\<not> is_alnum (CHR ''*'')" by code_simp
  moreover have "is_alnum (hd serial)"
    using assms by (cases serial) (auto simp: matches_adbTargetPattern_def)
  ultimately show "hd serial \<noteq> CHR ''*''" by metis
qed

lemma add_fields_keep:
  "ds_State (foldl add_field st fs) = ds_State st \<and> ds_Serial (foldl add_field st fs) = ds_Serial st"
  by (induction fs arbitrary: st) (simp_all add: add_field_def split: option.split prod.split)

lemma has_prefix_other:
  assumes "\<forall>c\<in>set serial. \<not> is_space c" "is_space t" "p = q @ CHR '' '' # r" "t \<noteq> CHR '' ''"
    "\<forall>c\<in>set q. \<not> is_space c"
  shows "\<not> has_prefix p (serial @ t # rest)"
proof
  assume "has_prefix p (serial @ t # rest)"
  then obtain z where z: "serial @ t # rest = q @ CHR '' '' # r @ z"
    using assms(3) by (auto simp: has_prefix_iff)
  have "takeWhile (\<lambda>c. \<not> is_space c) (serial @ t # rest) = serial"
    "takeWhile (\<lambda>c. \<not> is_space c) (q @ CHR '' '' # r @ z) = q"
    using assms(1,2,5) by (simp_all add: takeWhile_append is_space_def)
  then show False using z assms(4) by simp
qed

lemma trim_space_drop:
  assumes "is_space c" shows "trim_space (c # s) = trim_space s"
  using assms by (simp add: trim_space_def trim_by_def)

lemma parseState_known:
  assumes "st \<in> {AdbDevice, AdbOffline, AdbUnauthorized, AdbNoPermissions}"
  shows "parseState (st @ prose) = st"
proof -
  consider "st = AdbDevice" | "st = AdbOffline" | "st = AdbUnauthorized" | "st = AdbNoPermissions"
    using assms by blast
  then show ?thesis by cases (simp_all add: parseState_def has_prefix_def)
qed

lemma state_ends:
  assumes "st \<in> {AdbDevice, AdbOffline, AdbUnauthorized, AdbNoPermissions}"
  shows "st \<noteq> [] \<and> \<not> is_space (hd st) \<and> \<not> is_space (last st) \<and> CHR 0x0A \<notin> set st \<and> CHR 0x0D \<notin> set st"
proof -
  have "list_all (\<lambda>st. st \<noteq> [] \<and> \<not> is_space (hd st) \<and> \<not> is_space (last st)
      \<and> list_all (\<lambda>c. c \<noteq> CHR 0x0A \<and> c \<noteq> CHR 0x0D) st)
    [AdbDevice, AdbOffline, AdbUnauthorized, AdbNoPermissions]"
    by code_simp
  then show ?thesis using assms by (auto simp: list_all_iff)
qed

lemma parse_device_line:
  assumes "well_listed (serial, st, prose)"
  shows "\<exists>x. parse_line (device_line (serial, st, prose)) = Some x \<and> ds_State x = st \<and> ds_Serial x = serial"
proof -
  have m: "matches_adbTargetPattern serial" and st: "st \<in> {AdbDevice, AdbOffline, AdbUnauthorized, AdbNoPermissions}"
    and nl: "CHR 0x0D \<notin> set prose" and last: "prose = [] \<or> \<not> is_space (last prose)"
    using assms by (auto simp: well_listed_def)
  note sc = serial_chars[OF m] and se = state_ends[OF st]
  let ?rest = "st @ prose" and ?line = "serial @ CHR 0x09 # st @ prose"
  have tab: "is_space (CHR 0x09)" by code_simp
  have ends: "\<not> is_space (last ?rest)" "\<not> is_space (hd ?rest)"
    using se last by (cases "prose = []"; simp)+
  have rest: "trim_space (CHR 0x09 # ?rest) = ?rest"
    unfolding trim_space_drop[OF tab] unfolding trim_space_def by (rule trim_by_id) (use ends in simp)
  have "filter (\<lambda>c. c \<noteq> CHR 0x0D) ?line = ?line"
    using sc(4) se nl by (intro filter_True) auto
  moreover have "trim_space ?line = ?line"
    unfolding trim_space_def using sc(1,2) ends se by (intro trim_by_id) auto
  ultimately have line: "trim_space (filter (\<lambda>c. c \<noteq> CHR 0x0D) (device_line (serial, st, prose))) = ?line"
    by (simp add: device_line_def)
  have tw: "takeWhile (\<lambda>c. \<not> is_space c) ?line = serial" "dropWhile (\<lambda>c. \<not> is_space c) ?line = CHR 0x09 # ?rest"
    using sc(2) tab by (simp_all add: takeWhile_append dropWhile_append3)
  have "\<not> has_prefix ''List of devices'' ?line"
    by (rule has_prefix_other[OF sc(2) tab, of _ "''List''" "''of devices''"]) (simp_all add: is_space_def)
  moreover have "\<not> has_prefix ''adb server'' ?line"
    by (rule has_prefix_other[OF sc(2) tab, of _ "''adb''" "''server''"]) (simp_all add: is_space_def)
  moreover have "\<not> has_prefix ''*'' ?line" using sc(1,5) by (cases serial) (simp_all add: has_prefix_def)
  ultimately have "parse_line (device_line (serial, st, prose)) = Some (foldl add_field
       (zero_DeviceStatus\<lparr>ds_Serial := serial, ds_State := parseState ?rest\<rparr>) (Go_Base.fields ?rest))"
    unfolding parse_line_def line Let_def tw rest using sc(1) se by simp
  then show ?thesis using parseState_known[OF st] by (simp add: add_fields_keep)
qed

lemma fold_listed:
  assumes "distinct (map fst ds)" "list_all well_listed ds"
  shows "map_option ds_State (foldl note_line m (map device_line ds) k)
    = (case map_of ds k of Some (st, _) \<Rightarrow> Some st | None \<Rightarrow> map_option ds_State (m k))"
  using assms
proof (induction ds arbitrary: m)
  case (Cons d ds)
  obtain serial st prose where d: "d = (serial, st, prose)" by (cases d)
  then obtain x where x: "parse_line (device_line d) = Some x" "ds_State x = st" "ds_Serial x = serial"
    using parse_device_line[of serial st prose] Cons.prems by auto
  have n: "note_line m (device_line d) = m(serial \<mapsto> x)" by (simp add: note_line_def x)
  have "map_of ds serial = None" using Cons.prems d by (simp add: map_of_eq_None_iff)
  then show ?case using Cons n d x by (auto split: option.splits)
qed simp

text \<open>The device list that adb prints is read back exactly: every serial is mapped to its state,
  also when adb appends prose (or puts a blank in the state, as in no permissions), and nothing else is.\<close>

theorem ParseADBDevices_reads_back:
  assumes "distinct (map fst ds)" "list_all well_listed ds"
  shows "map_option ds_State (ParseADBDevices (listing_text ds) serial) = map_option fst (map_of ds serial)"
proof -
  have hd: "CHR 0x0A \<notin> set ''List of devices attached''" by simp
  have nl: "\<forall>l\<in>set (map device_line ds). CHR 0x0A \<notin> set l"
  proof
    fix l assume "l \<in> set (map device_line ds)"
    then obtain serial st prose where l: "l = device_line (serial, st, prose)"
      and w: "well_listed (serial, st, prose)"
      using assms(2) by (fastforce simp: list_all_iff)
    then show "CHR 0x0A \<notin> set l"
      using serial_chars(3)[of serial] state_ends[of st] by (auto simp: well_listed_def device_line_def)
  qed
  have lines: "lines_of (listing_text ds) = ''List of devices attached'' # map device_line ds @ [[]]"
    using split_char_append[OF hd] split_char_lines[OF nl]
    by (simp add: lines_of_def listing_text_def comp_def del: append.simps)
  have none: "parse_line ''List of devices attached'' = None" "parse_line [] = None" by code_simp+
  have skip: "note_line m ''List of devices attached'' = m" "note_line m [] = m" for m
    by (simp_all only: note_line_def none option.case)
  show ?thesis
    unfolding ParseADBDevices_def lines foldl_append foldl_Cons foldl_Nil skip fold_listed[OF assms]
    by (simp split: option.split)
qed

lemma ParseADBDevices_reads_back_witness:
  "map_option ds_State (ParseADBDevices (listing_text
      [(''R5CT10'', AdbDevice, '' model:A52''), (''10.0.0.7:5555'', AdbNoPermissions, '' (user in plugdev group)'')])
      ''10.0.0.7:5555'')
   = map_option fst (map_of
      [(''R5CT10'', AdbDevice, '' model:A52''), (''10.0.0.7:5555'', AdbNoPermissions, '' (user in plugdev group)'')]
      ''10.0.0.7:5555'')"
  by (rule ParseADBDevices_reads_back) code_simp+

end
