(* ===== verification/Runner_Dist.thy ===== *)
theory Runner_Dist
  imports Store_Instances
begin

text \<open>
  backend/internal/runnerdist/runnerdist.go: the prebuilt runner binaries that are embedded in the server.  The
  embedded directory is a list of entries (name, whether a directory, size if it can be read), or nothing when it
  cannot be read.  Two files of the same platform and architecture keep their order (the sort of the code
  leaves it open).
\<close>

record target =
  tgt_Platform :: string
  tgt_Arch :: string
  tgt_DownloadName :: string
  tgt_SizeBytes :: int
  tgt_embeddedName :: string

definition goosToPlatform :: "(string \<times> string) list" where
  "goosToPlatform = [(''windows'', ''windows''), (''linux'', ''linux''), (''darwin'', ''macos'')]"

definition platformToGoos :: "(string \<times> string) list" where
  "platformToGoos = [(''windows'', ''windows''), (''linux'', ''linux''), (''macos'', ''darwin'')]"

definition parseTarget :: "string \<Rightarrow> target option" where
  "parseTarget name =
    (case split_char (CHR ''-'') (trim_prefix ''opencuttles-runner-'' (trim_suffix ''.exe'' name)) of
       [goos, arch] \<Rightarrow>
         (case map_of goosToPlatform goos of
            None \<Rightarrow> None
          | Some platform \<Rightarrow>
              Some \<lparr>tgt_Platform = platform, tgt_Arch = arch,
                    tgt_DownloadName = ''opencuttles-runner'' @ (if goos = ''windows'' then ''.exe'' else []),
                    tgt_SizeBytes = 0, tgt_embeddedName = name\<rparr>)
     | _ \<Rightarrow> None)"

type_synonym bin_dir = "(string \<times> bool \<times> int option) list option"

fun target_of :: "string \<times> bool \<times> int option \<Rightarrow> target list" where
  "target_of (name, isdir, sz) =
    (if isdir \<or> \<not> has_prefix ''opencuttles-runner-'' name then []
     else case parseTarget name of
            None \<Rightarrow> []
          | Some t \<Rightarrow> [case sz of None \<Rightarrow> t | Some n \<Rightarrow> t\<lparr>tgt_SizeBytes := n\<rparr>])"

definition List_targets :: "bin_dir \<Rightarrow> target list" where
  "List_targets dir =
    (case dir of None \<Rightarrow> []
     | Some es \<Rightarrow> sort_key tgt_Platform (sort_key tgt_Arch (concat (map target_of es))))"

definition suits_arch :: "string \<Rightarrow> string \<Rightarrow> target \<Rightarrow> bool" where
  "suits_arch goos arch t =
    (map_of platformToGoos (tgt_Platform t) = Some goos \<and> (arch = [] \<or> tgt_Arch t = arch))"

definition several :: "string \<Rightarrow> target \<Rightarrow> target \<Rightarrow> go_error" where
  "several platform m t =
    Err (''multiple '' @ platform @ '' runners are available; specify an arch ('' @ tgt_Arch m @ '' or ''
         @ tgt_Arch t @ '')'')"

fun pick :: "string \<Rightarrow> string \<Rightarrow> string \<Rightarrow> target option \<Rightarrow> target list \<Rightarrow> target option res" where
  "pick platform goos arch m [] = Inr m"
| "pick platform goos arch m (t # ts) =
    (if \<not> suits_arch goos arch t then pick platform goos arch m ts
     else case m of
            None \<Rightarrow> pick platform goos arch (Some t) ts
          | Some u \<Rightarrow> if arch = [] then Inl (several platform u t) else pick platform goos arch (Some t) ts)"

text \<open>Open without the file itself, which is embedded beside the list.\<close>

definition Open_target :: "bin_dir \<Rightarrow> string \<Rightarrow> string \<Rightarrow> target res" where
  "Open_target dir platform arch =
    (case map_of platformToGoos platform of
       None \<Rightarrow> Inl (Err (''unknown platform '' @ go_quote platform))
     | Some goos \<Rightarrow>
         (case pick platform goos arch None (List_targets dir) of
            Inl err \<Rightarrow> Inl err
          | Inr None \<Rightarrow> Inl (Err (''no runner bundled for '' @ platform @ ''/'' @ arch))
          | Inr (Some t) \<Rightarrow> Inr t))"

section \<open>Only a bundled runner of the platform is handed out\<close>

lemma pick_from:
  "pick platform goos arch m ts = Inr (Some t) \<Longrightarrow>
    m = Some t \<or> t \<in> set ts \<and> suits_arch goos arch t"
  by (induction platform goos arch m ts rule: pick.induct) (auto split: if_splits option.splits)

lemma pick_alone:
  "pick platform goos [] (Some u) ts = Inr (Some t) \<Longrightarrow> filter (suits_arch goos []) ts = []"
  by (induction platform goos "[] :: string" "Some u" ts rule: pick.induct) (auto split: if_splits)

lemma List_targets_sorted: "sorted (map tgt_Platform (List_targets dir))"
  by (simp add: List_targets_def split: option.split)

lemma parseTarget_platform:
  "parseTarget name = Some t \<Longrightarrow> tgt_embeddedName t = name \<and> tgt_Platform t \<in> {''windows'', ''linux'', ''macos''}"
  by (auto simp: parseTarget_def goosToPlatform_def split: list.splits option.splits if_splits)

lemma Open_target_bundled:
  assumes "Open_target dir platform arch = Inr t"
  shows "t \<in> set (List_targets dir)" "arch \<noteq> [] \<longrightarrow> tgt_Arch t = arch"
    "map_of platformToGoos (tgt_Platform t) = map_of platformToGoos platform"
  using assms pick_from by (auto simp: Open_target_def suits_arch_def split: option.splits sum.splits) blast+

lemma parseTarget_samples:
  "map_option (\<lambda>t. (tgt_Platform t, tgt_Arch t, tgt_DownloadName t)) (parseTarget ''opencuttles-runner-windows-amd64.exe'')
    = Some (''windows'', ''amd64'', ''opencuttles-runner.exe'')"
  "map_option tgt_Platform (parseTarget ''opencuttles-runner-darwin-arm64'') = Some ''macos''"
  "parseTarget ''opencuttles-runner-plan9-386'' = None"
  by code_simp+

end
