(* ===== verification/Api_Control.thy ===== *)
theory Api_Control
  imports Api_Tests Device_Watch Runner_Dist
begin

text \<open>
  The handlers of api/control.go, api/adbdiscovery.go and the download of api/runnerdownload.go: direct control of
  a device, the list of what adb sees, and the prebuilt runners.  A handler calls the services of Device_Control and
  appends the requests they send to those of the server; the devices and adb are the parameter dev_env.
\<close>

section \<open>Surroundings\<close>

record inputRequest =
  in_X :: int
  in_Y :: int
  in_X2 :: int
  in_Y2 :: int
  in_Duration :: int
  in_Text :: string
  in_Key :: string

definition zero_inputRequest :: inputRequest where
  "zero_inputRequest =
    \<lparr>in_X = 0, in_Y = 0, in_X2 = 0, in_Y2 = 0, in_Duration = 0, in_Text = [], in_Key = []\<rparr>"

text \<open>
  The devices, the decoders of the bodies, the name of a new temporary file, the order in which the entries of a map
  are visited, and the embedded runners.
\<close>

record control_env =
  ct_tests :: tests_env
  ct_dev :: dev_env
  ct_input :: "string \<Rightarrow> inputRequest option"
  ct_package :: "string \<Rightarrow> string option"
  ct_command :: "string \<Rightarrow> string option"
  ct_orientation :: "string \<Rightarrow> int option"
  ct_temp :: "string res"
  ct_walk :: "(string \<rightharpoonup> DeviceStatus) \<Rightarrow> string list"
  ct_bin :: bin_dir

abbreviation ct_api :: "control_env \<Rightarrow> api_env" where "ct_api e \<equiv> tn_api (ct_tests e)"

text \<open>writeControlError: which errors of the device services have a status of their own.\<close>

definition writeControlError :: "go_error \<Rightarrow> api_error" where
  "writeControlError err =
    (if err_is err ErrExecutionDisabled then Client 503 (err_text err)
     else if err_is err ErrNotRunning then Client 409 (err_text err)
     else Other err)"

text \<open>A call of a device service: its requests are sent, its error is answered as above.\<close>

definition device_call :: "(db \<Rightarrow> 'a Device_Control.act) \<Rightarrow> 'a Api_Base.act" where
  "device_call f s =
    (case f (sv_db s) (sv_sent s) of (r, tr) \<Rightarrow> (map_sum writeControlError id r, s\<lparr>sv_sent := tr\<rparr>))"

definition auditControl :: "control_env \<Rightarrow> ctx \<Rightarrow> string \<Rightarrow> string \<Rightarrow> unit Api_Base.act" where
  "auditControl e c k actn = audit_as (ct_api e) c actn ''instance'' k ''succeeded'' []"

section \<open>Looking at a device\<close>

definition controlScreenshot :: "control_env \<Rightarrow> string \<Rightarrow> response Api_Base.act" where
  "controlScreenshot e k =
    andThen (device_call (\<lambda>d. Screenshot (ct_dev e) d k)) (\<lambda>png. answer 200 (PngBody png))"

text \<open>A panic of the parser ends the connection without an answer, which is the status 0 here.\<close>

definition tree_answer :: "UINode res option \<Rightarrow> response Api_Base.act" where
  "tree_answer t =
    (case t of
       None \<Rightarrow> answer 0 (TreeBody None)
     | Some (Inl err) \<Rightarrow> refuse (writeControlError err)
     | Some (Inr n) \<Rightarrow> answer 200 (TreeBody t))"

definition controlUITree :: "control_env \<Rightarrow> string \<Rightarrow> response Api_Base.act" where
  "controlUITree e k = andThen (device_call (\<lambda>d. UITree (ct_dev e) d k)) tree_answer"

definition controlListApps :: "control_env \<Rightarrow> string \<Rightarrow> ctx \<Rightarrow> response Api_Base.act" where
  "controlListApps e k c =
    andThen (device_call (\<lambda>d. ListApps (ct_dev e) d k (query c ''thirdParty'' = ''1''))) (\<lambda>apps.
      answer 200 (AnswerBody [(''packages'', ListField (map TextField apps))]))"

definition controlCurrentActivity :: "control_env \<Rightarrow> string \<Rightarrow> response Api_Base.act" where
  "controlCurrentActivity e k =
    andThen (device_call (\<lambda>d. CurrentActivity (ct_dev e) d k)) (\<lambda>activity.
      answer 200 (FieldsBody [(''activity'', activity)]))"

definition controlPerf :: "control_env \<Rightarrow> string \<Rightarrow> ctx \<Rightarrow> response Api_Base.act" where
  "controlPerf e k c =
    andThen (device_call (\<lambda>d. Perf (ct_dev e) d k (query c ''package''))) (\<lambda>snap. answer 200 (PerfBody snap))"

definition controlLogcat :: "control_env \<Rightarrow> string \<Rightarrow> ctx \<Rightarrow> response Api_Base.act" where
  "controlLogcat e k c =
    andThen (device_call (\<lambda>d. Logcat (ct_dev e) d k (atoi_value (query c ''lines'')))) (\<lambda>out.
      answer 200 (FieldsBody [(''logcat'', out)]))"

section \<open>Acting on a device\<close>

text \<open>The service that an input action calls, none for an unknown one.\<close>

definition input_service ::
  "control_env \<Rightarrow> string \<Rightarrow> string \<Rightarrow> inputRequest \<Rightarrow> (db \<Rightarrow> unit Device_Control.act) option" where
  "input_service e k actn rq =
    (if actn = ''tap'' then Some (\<lambda>d. Tap (ct_dev e) d k (in_X rq) (in_Y rq))
     else if actn = ''swipe''
     then Some (\<lambda>d. Swipe (ct_dev e) d k (in_X rq) (in_Y rq) (in_X2 rq) (in_Y2 rq) (in_Duration rq))
     else if actn = ''longpress'' then Some (\<lambda>d. LongPress (ct_dev e) d k (in_X rq) (in_Y rq) (in_Duration rq))
     else if actn = ''text'' then Some (\<lambda>d. Text (ct_dev e) d k (in_Text rq))
     else if actn = ''key'' then Some (\<lambda>d. Key (ct_dev e) d k (in_Key rq))
     else None)"

definition controlInput :: "control_env \<Rightarrow> string \<Rightarrow> string \<Rightarrow> ctx \<Rightarrow> response Api_Base.act" where
  "controlInput e k actn c =
    andThen (decodeJSON (ct_input e) zero_inputRequest c) (\<lambda>rq.
      case input_service e k actn rq of
        None \<Rightarrow> refuse (notFound ''unknown input action'')
      | Some f \<Rightarrow>
          andThen (device_call f) (\<lambda>_.
          andThen (auditControl e c k (''input_'' @ actn)) (\<lambda>_. answer 200 ok_body)))"

definition controlLaunchApp :: "control_env \<Rightarrow> string \<Rightarrow> ctx \<Rightarrow> response Api_Base.act" where
  "controlLaunchApp e k c =
    andThen (decodeJSON (ct_package e) [] c) (\<lambda>pkg.
    andThen (check (trim_space pkg \<noteq> []) (badRequest ''package is required'')) (\<lambda>_.
    andThen (device_call (\<lambda>d. LaunchApp (ct_dev e) d k pkg)) (\<lambda>_.
    andThen (auditControl e c k ''launch_app'') (\<lambda>_. answer 200 ok_body))))"

text \<open>The temporary copy of an upload, which is removed on every way out.\<close>

definition with_temp :: "string \<Rightarrow> 'a Api_Base.act \<Rightarrow> 'a Api_Base.act" where
  "with_temp path m s = (case m s of (r, s') \<Rightarrow> (r, s'\<lparr>sv_removed := sv_removed s' @ [path]\<rparr>))"

definition copy_temp :: "string \<Rightarrow> string res \<Rightarrow> unit Api_Base.act" where
  "copy_temp path content s =
    (case content of
       Inl err \<Rightarrow> refuse (Other err) s
     | Inr bytes \<Rightarrow> (Inr (), s\<lparr>sv_written := sv_written s @ [(path, bytes)]\<rparr>))"

definition controlInstallApp :: "control_env \<Rightarrow> string \<Rightarrow> ctx \<Rightarrow> response Api_Base.act" where
  "controlInstallApp e k c =
    andThen (the_form (ct_tests e) (Some (maxUploadBytes (tn_os (ct_tests e))))
               ''apk exceeds the upload size limit'' ''expected multipart apk upload'' c) (\<lambda>f.
    andThen (the_file f ''apk'' ''missing apk file'') (\<lambda>(filename, content).
    andThen (check (has_suffix ''.apk'' (to_lower filename)) (badRequest ''file must be an .apk'')) (\<lambda>_.
    andThen (store_get (\<lambda>_. ct_temp e)) (\<lambda>tmp.
      with_temp tmp
        (andThen (copy_temp tmp content) (\<lambda>_.
         andThen (device_call (\<lambda>d. InstallAPK (ct_dev e) d k tmp)) (\<lambda>_.
         andThen (auditControl e c k ''install_apk'') (\<lambda>_.
           answer 200 (FieldsBody [(''status'', ''ok''), (''file'', base_name filename)])))))))))"

definition controlShell :: "control_env \<Rightarrow> string \<Rightarrow> ctx \<Rightarrow> response Api_Base.act" where
  "controlShell e k c =
    andThen (decodeJSON (ct_command e) [] c) (\<lambda>cmd.
    andThen (check (trim_space cmd \<noteq> []) (badRequest ''command is required'')) (\<lambda>_.
    andThen (device_call (\<lambda>d. Shell (ct_dev e) d k cmd)) (\<lambda>out.
    andThen (auditControl e c k ''shell'') (\<lambda>_. answer 200 (FieldsBody [(''output'', out)])))))"

definition controlRotate :: "control_env \<Rightarrow> string \<Rightarrow> ctx \<Rightarrow> response Api_Base.act" where
  "controlRotate e k c =
    andThen (decodeJSON (ct_orientation e) 0 c) (\<lambda>orientation.
    andThen (device_call (\<lambda>d. Rotate (ct_dev e) d k orientation)) (\<lambda>_.
    andThen (auditControl e c k ''rotate'') (\<lambda>_. answer 200 ok_body)))"

section \<open>The devices that adb sees\<close>

definition rank :: "discoveredDevice \<Rightarrow> nat" where
  "rank d = (if \<not> disc_Registered d \<and> disc_State d = AdbDevice then 0 else if \<not> disc_Registered d then 1 else 2)"

definition in_order :: "discoveredDevice \<Rightarrow> discoveredDevice \<Rightarrow> bool" where
  "in_order a b = (rank a < rank b \<or> rank a = rank b \<and> disc_Serial a \<le> disc_Serial b)"

text \<open>
  The insertion sort: the entries before the current one, nearest first, are exchanged with it until one is in
  order.
\<close>

fun bubble_down :: "discoveredDevice \<Rightarrow> discoveredDevice list \<Rightarrow> discoveredDevice list" where
  "bubble_down b [] = [b]"
| "bubble_down b (a # before) = (if in_order a b then b # a # before else a # bubble_down b before)"

definition sortDiscovered :: "discoveredDevice list \<Rightarrow> discoveredDevice list" where
  "sortDiscovered ds = rev (foldl (\<lambda>before b. bubble_down b before) [] ds)"

definition known_names :: "Instance list \<Rightarrow> (string \<rightharpoonup> string)" where
  "known_names ds = foldl (\<lambda>m d. m(inst_ADBTarget d \<mapsto> inst_Name d)) Map.empty ds"

definition discovered :: "(string \<rightharpoonup> string) \<Rightarrow> string \<Rightarrow> DeviceStatus \<Rightarrow> discoveredDevice" where
  "discovered known serial st =
    \<lparr>disc_Serial = serial, disc_State = ds_State st, disc_Model = ds_Model st, disc_Product = ds_Product st,
     disc_Registered = (known serial \<noteq> None),
     disc_RegisteredAs = (case known serial of None \<Rightarrow> [] | Some n \<Rightarrow> n)\<rparr>"

definition pick_list :: "(string \<rightharpoonup> string) \<Rightarrow> (string \<rightharpoonup> DeviceStatus) \<Rightarrow> string list \<Rightarrow> discoveredDevice list" where
  "pick_list known seen serials = sortDiscovered (map (\<lambda>k. discovered known k (the (seen k))) serials)"

definition adb_listing :: "control_env \<Rightarrow> string Api_Base.act" where
  "adb_listing e s =
    (case run_adb (ct_dev e) [''devices'', ''-l''] (sv_sent s) of
       ((out, err), tr) \<Rightarrow>
         ((case err of
             None \<Rightarrow> Inr out
           | Some er \<Rightarrow> Inl (Client 503 (''could not run adb on the appliance: '' @ err_text er))),
          s\<lparr>sv_sent := tr\<rparr>))"

definition listADBDevices :: "control_env \<Rightarrow> response Api_Base.act" where
  "listADBDevices e =
    andThen (adb_listing e) (\<lambda>out.
    andThen (store_get (\<lambda>d. Inr (known_names (ListPhysicalAndroid d)))) (\<lambda>known.
      answer 200 (DiscoveredBody
        (pick_list known (ParseADBDevices out) (ct_walk e (ParseADBDevices out))))))"

section \<open>Downloading a runner\<close>

definition target_field :: "target \<Rightarrow> field" where
  "target_field t = MapField
    [(''platform'', TextField (tgt_Platform t)), (''arch'', TextField (tgt_Arch t)),
     (''downloadName'', TextField (tgt_DownloadName t)), (''sizeBytes'', NumField (tgt_SizeBytes t))]"

definition listRunnerDownloads :: "control_env \<Rightarrow> response Api_Base.act" where
  "listRunnerDownloads e =
    answer 200 (AnswerBody [(''runners'', ListField (map target_field (List_targets (ct_bin e))))])"

definition bundled :: "target res \<Rightarrow> target Api_Base.act" where
  "bundled r = (case r of Inl err \<Rightarrow> refuse (Client 404 (err_text err)) | Inr t \<Rightarrow> give t)"

definition downloadRunner :: "control_env \<Rightarrow> device_env \<Rightarrow> ctx \<Rightarrow> response Api_Base.act" where
  "downloadRunner e de c =
    andThen (store_get (\<lambda>d. Inr (authorizeRunnerDownload de c d))) (\<lambda>ok.
    andThen (check ok (Client 401 ''a dashboard session or a device enrollment token is required'')) (\<lambda>_.
      let platform = trim_space (query c ''platform''); arch = trim_space (query c ''arch'') in
      andThen (check (platform \<noteq> []) (badRequest ''platform is required (windows, linux, or macos)'')) (\<lambda>_.
      andThen (bundled (Open_target (ct_bin e) platform arch)) (\<lambda>t.
        answer 200 (DownloadBody (tgt_DownloadName t) (tgt_embeddedName t))))))"

section \<open>The routes under a device\<close>

datatype control_op =
    CtlScreenshot
  | CtlUITree
  | CtlListApps
  | CtlCurrentActivity
  | CtlPerf
  | CtlLogcat
  | CtlInput string
  | CtlLaunchApp
  | CtlInstallApp
  | CtlShell
  | CtlRotate

fun control :: "control_env \<Rightarrow> string \<Rightarrow> control_op \<Rightarrow> ctx \<Rightarrow> response Api_Base.act" where
  "control e k CtlScreenshot c = controlScreenshot e k"
| "control e k CtlUITree c = controlUITree e k"
| "control e k CtlListApps c = controlListApps e k c"
| "control e k CtlCurrentActivity c = controlCurrentActivity e k"
| "control e k CtlPerf c = controlPerf e k c"
| "control e k CtlLogcat c = controlLogcat e k c"
| "control e k (CtlInput actn) c = controlInput e k actn c"
| "control e k CtlLaunchApp c = controlLaunchApp e k c"
| "control e k CtlInstallApp c = controlInstallApp e k c"
| "control e k CtlShell c = controlShell e k c"
| "control e k CtlRotate c = controlRotate e k c"

text \<open>What is written to the audit trail when the request succeeds.\<close>

fun audited_as :: "control_op \<Rightarrow> string option" where
  "audited_as (CtlInput actn) = Some (''input_'' @ actn)"
| "audited_as CtlLaunchApp = Some ''launch_app''"
| "audited_as CtlInstallApp = Some ''install_apk''"
| "audited_as CtlShell = Some ''shell''"
| "audited_as CtlRotate = Some ''rotate''"
| "audited_as _ = None"

section \<open>What a control request sends and stores\<close>

definition audited :: "control_env \<Rightarrow> ctx \<Rightarrow> string \<Rightarrow> string option \<Rightarrow> db \<Rightarrow> db" where
  "audited e c k a d =
    (case a of None \<Rightarrow> d
     | Some actn \<Rightarrow> snd (CreateAuditEvent (ae_now (ct_api e)) (ae_rnd (ct_api e) 0)
         (audit_event (ct_api e) c (principalFromContext c) actn ''instance'' k ''succeeded'' []) d))"

text \<open>
  controls e c k a m: m sends only requests for the device k, and leaves the database alone but for the audit entry a,
  which it writes when it succeeds.
\<close>

definition controls :: "control_env \<Rightarrow> ctx \<Rightarrow> string \<Rightarrow> string option \<Rightarrow> 'a Api_Base.act \<Rightarrow> bool" where
  "controls e c k a m =
    (\<forall>s. (\<exists>tr. sv_sent (snd (m s)) = sv_sent s @ tr \<and> list_all (addressed (ct_dev e) (sv_db s) k) tr)
       \<and> sv_db (snd (m s)) = (case fst (m s) of Inl _ \<Rightarrow> sv_db s | Inr _ \<Rightarrow> audited e c k a (sv_db s)))"

named_theorems controlling

lemma controls_refuse [controlling]: "controls e c k a (refuse x)"
  by (simp add: controls_def refuse_def)

lemma controls_answer [controlling]: "controls e c k None (answer st b)"
  by (simp add: controls_def answer_def give_def audited_def)

lemma controls_quiet:
  assumes "\<And>s. snd (m s) = s" and "\<And>x. controls e c k a (f x)"
  shows "controls e c k a (andThen m f)"
  unfolding controls_def
proof
  fix s :: server
  show "(\<exists>tr. sv_sent (snd (andThen m f s)) = sv_sent s @ tr \<and> list_all (addressed (ct_dev e) (sv_db s) k) tr)
    \<and> sv_db (snd (andThen m f s)) = (case fst (andThen m f s) of Inl _ \<Rightarrow> sv_db s | Inr _ \<Rightarrow> audited e c k a (sv_db s))"
    using assms(1)[of s] assms(2) by (cases "fst (m s)") (simp_all add: andThen_fst controls_def)
qed

lemma controls_decodeJSON [controlling]:
  "(\<And>x. controls e c k a (f x)) \<Longrightarrow> controls e c k a (andThen (decodeJSON p z c') f)"
  by (rule controls_quiet) (simp_all add: decodeJSON_def decode_def give_def refuse_def split: option.split)

lemma controls_check [controlling]:
  "(\<And>x. controls e c k a (f x)) \<Longrightarrow> controls e c k a (andThen (check ok er) f)"
  by (rule controls_quiet) (simp_all add: check_def give_def refuse_def)

lemma controls_get [controlling]:
  "(\<And>x. controls e c k a (f x)) \<Longrightarrow> controls e c k a (andThen (store_get g) f)"
  by (rule controls_quiet) (simp_all add: store_get_def)

lemma controls_form [controlling]:
  "(\<And>x. controls e c k a (f x)) \<Longrightarrow> controls e c k a (andThen (the_form te l g m c') f)"
  by (rule controls_quiet) (simp_all add: the_form_def give_def refuse_def split: sum.split form_error.split)

lemma controls_file [controlling]:
  "(\<And>x. controls e c k a (f x)) \<Longrightarrow> controls e c k a (andThen (the_file fm fd m) f)"
  by (rule controls_quiet) (simp_all add: the_file_def give_def refuse_def split: option.split)

lemma controls_copy [controlling]:
  assumes "\<And>x. controls e c k a (f x)"
  shows "controls e c k a (andThen (copy_temp p d) f)"
  unfolding controls_def
proof
  fix s :: server
  let ?s = "\<lambda>b. s\<lparr>sv_written := sv_written s @ [(p, b)]\<rparr>"
  show "(\<exists>tr. sv_sent (snd (andThen (copy_temp p d) f s)) = sv_sent s @ tr
      \<and> list_all (addressed (ct_dev e) (sv_db s) k) tr)
    \<and> sv_db (snd (andThen (copy_temp p d) f s))
      = (case fst (andThen (copy_temp p d) f s) of Inl _ \<Rightarrow> sv_db s | Inr _ \<Rightarrow> audited e c k a (sv_db s))"
    using assms[of "()", unfolded controls_def, rule_format, of "?s (projr d)"]
    by (cases d) (simp_all add: copy_temp_def andThen_def refuse_def cong: sum.case_cong)
qed

lemma controls_temp [controlling]: "controls e c k a m \<Longrightarrow> controls e c k a (with_temp p m)"
  by (simp add: controls_def with_temp_def split: prod.split) (metis fst_conv snd_conv)

lemma controls_prod [controlling]: "(\<And>x y. controls e c k a (f x y)) \<Longrightarrow> controls e c k a (case p of (x, y) \<Rightarrow> f x y)"
  by (cases p) simp

lemma controls_call [controlling]:
  assumes "\<And>d. sends (addressed (ct_dev e) d k) (f d)" and "\<And>x s. sv_sent (snd (g x s)) = sv_sent s"
    and "\<And>x s. sv_db (snd (g x s)) = (case fst (g x s) of Inl _ \<Rightarrow> sv_db s | Inr _ \<Rightarrow> audited e c k a (sv_db s))"
  shows "controls e c k a (andThen (device_call f) g)"
  unfolding controls_def
proof
  fix s :: server
  obtain r tr where f: "f (sv_db s) (sv_sent s) = (r, tr)" by fastforce
  then show "(\<exists>tr. sv_sent (snd (andThen (device_call f) g s)) = sv_sent s @ tr
      \<and> list_all (addressed (ct_dev e) (sv_db s) k) tr)
    \<and> sv_db (snd (andThen (device_call f) g s))
      = (case fst (andThen (device_call f) g s) of Inl _ \<Rightarrow> sv_db s | Inr _ \<Rightarrow> audited e c k a (sv_db s))"
    using sendsD[OF assms(1), of "sv_db s" "sv_sent s"] assms(2,3)
    by (cases r) (simp_all add: andThen_fst device_call_def cong: sum.case_cong)
qed

lemma audit_then_answer:
  "sv_sent (snd (andThen (auditControl e c k actn) (\<lambda>_. answer st b) s)) = sv_sent s"
  "sv_db (snd (andThen (auditControl e c k actn) (\<lambda>_. answer st b) s)) = audited e c k (Some actn) (sv_db s)"
  "fst (andThen (auditControl e c k actn) (\<lambda>_. answer st b) s) = Inr (writeJSON st b)"
  by (simp_all add: auditControl_def ran_audit answer_def give_def audited_def)

lemma only_answers:
  "sv_sent (snd (answer st b s)) = sv_sent s" "sv_db (snd (answer st b s)) = sv_db s"
  "fst (answer st b s) = Inr (writeJSON st b)"
  by (simp_all add: answer_def give_def)

lemma tree_answers:
  "sv_sent (snd (tree_answer t s)) = sv_sent s" "sv_db (snd (tree_answer t s)) = sv_db s"
  by (simp_all add: tree_answer_def answer_def give_def refuse_def split: option.split sum.split)

lemma input_sends: "input_service e k actn rq = Some f \<Longrightarrow> sends (addressed (ct_dev e) d k) (f d)"
  by (auto simp: input_service_def sends_gestures split: if_splits)

lemma control_looks:
  "controls e c k None (controlScreenshot e k)" "controls e c k None (controlUITree e k)"
  "controls e c k None (controlListApps e k c)" "controls e c k None (controlCurrentActivity e k)"
  "controls e c k None (controlPerf e k c)" "controls e c k None (controlLogcat e k c)"
  unfolding controlScreenshot_def controlUITree_def controlListApps_def controlCurrentActivity_def controlPerf_def
    controlLogcat_def
  by (rule controls_call; simp add: sends_gestures sends_queries only_answers tree_answers audited_def split: sum.split)+

lemma control_input: "controls e c k (Some (''input_'' @ actn)) (controlInput e k actn c)"
  unfolding controlInput_def
proof (rule controls_decodeJSON)
  fix rq
  show "controls e c k (Some (''input_'' @ actn))
    (case input_service e k actn rq of
        None \<Rightarrow> refuse (notFound ''unknown input action'')
      | Some f \<Rightarrow>
          andThen (device_call f) (\<lambda>_.
          andThen (auditControl e c k (''input_'' @ actn)) (\<lambda>_. answer 200 ok_body)))"
    by (cases "input_service e k actn rq")
      (auto intro!: controls_refuse controls_call input_sends simp: audit_then_answer)
qed

lemma control_acts:
  "controls e c k (Some ''launch_app'') (controlLaunchApp e k c)"
  "controls e c k (Some ''shell'') (controlShell e k c)"
  "controls e c k (Some ''rotate'') (controlRotate e k c)"
  unfolding controlLaunchApp_def controlShell_def controlRotate_def
  by (intro controls_decodeJSON controls_check controls_call sends_changes sends_queries; simp add: audit_then_answer)+

lemma control_install: "controls e c k (Some ''install_apk'') (controlInstallApp e k c)"
  unfolding controlInstallApp_def
  by (intro controls_form controls_file controls_prod controls_check controls_get controls_temp controls_copy
      controls_call sends_changes; simp add: audit_then_answer)

lemma control_controls: "controls e c k (audited_as op) (control e k op c)"
  by (cases op) (simp_all add: control_looks control_input[simplified] control_acts control_install)

text \<open>C12: a control request sends requests only to the device that its path names, and none when that device cannot be
  driven; it changes nothing in the database but for one entry of the audit trail, which names the principal, the action and
  the device, and which is written exactly when an acting request succeeds.\<close>

theorem control_stays_on_device:
  "case control e k op c s of (r, s') \<Rightarrow>
    (\<exists>tr. sv_sent s' = sv_sent s @ tr
       \<and> (case resolve (ct_dev e) (sv_db s) k of
            Inl _ \<Rightarrow> tr = []
          | Inr i \<Rightarrow> inst_ID i = k \<and> list_all (concerns i) tr))
    \<and> sv_db s' = (case (audited_as op, r) of
        (Some actn, Inr _) \<Rightarrow>
          snd (CreateAuditEvent (ae_now (ct_api e)) (ae_rnd (ct_api e) 0)
            (audit_event (ct_api e) c (principalFromContext c) actn ''instance'' k ''succeeded'' []) (sv_db s))
      | _ \<Rightarrow> sv_db s)"
proof -
  obtain r s' where m: "control e k op c s = (r, s')" by fastforce
  have c: "(\<exists>tr. sv_sent s' = sv_sent s @ tr \<and> list_all (addressed (ct_dev e) (sv_db s) k) tr)"
    "sv_db s' = (case r of Inl _ \<Rightarrow> sv_db s | Inr _ \<Rightarrow> audited e c k (audited_as op) (sv_db s))"
    using control_controls[of e c k op] m by (auto simp: controls_def dest: spec[of _ s])
  have "list_all (addressed (ct_dev e) (sv_db s) k) tr \<Longrightarrow>
    (case resolve (ct_dev e) (sv_db s) k of Inl _ \<Rightarrow> tr = [] | Inr i \<Rightarrow> inst_ID i = k \<and> list_all (concerns i) tr)" for tr
    by (cases tr) (auto simp: addressed_def[abs_def] dest: resolve_ID split: sum.splits)
  then show ?thesis using c by (auto simp: m audited_def split: option.split sum.split)
qed

text \<open>The status that a device that cannot be driven is answered with.\<close>

lemma refused_control:
  assumes "resolve (ct_dev e) (sv_db s) k = Inl err"
  shows "fst (controlScreenshot e k s) = Inl (writeControlError err)"
    "fst (controlUITree e k s) = Inl (writeControlError err)"
    "fst (controlPerf e k c s) = Inl (writeControlError err)"
    "fst (controlLogcat e k c s) = Inl (writeControlError err)"
  using assms
  by (simp_all add: controlScreenshot_def controlUITree_def controlPerf_def controlLogcat_def andThen_fst device_call_def
      Screenshot_def with_driver_def UITree_def Perf_def Logcat_def bnd_def lift_def)

lemma control_statuses:
  "rsp_Status (writeError (writeControlError ErrExecutionDisabled)) = 503"
  "rsp_Status (writeError (writeControlError ErrNotRunning)) = 409"
  "rsp_Status (writeError (writeControlError ErrNoRows)) = 404"
  by code_simp+

section \<open>The pick-list has one order\<close>

lemma in_order_total: "in_order a b \<or> in_order b a"
  by (auto simp: in_order_def)

lemma in_order_trans: "in_order a b \<Longrightarrow> in_order b d \<Longrightarrow> in_order a d"
  by (auto simp: in_order_def)

lemma in_order_serial: "in_order a b \<Longrightarrow> in_order b a \<Longrightarrow> disc_Serial a = disc_Serial b"
  by (auto simp: in_order_def)

lemma mset_bubble: "mset (bubble_down b before) = add_mset b (mset before)"
  by (induction b before rule: bubble_down.induct) auto

lemma bubble_sorted:
  "sorted_wrt (\<lambda>x y. in_order y x) before \<Longrightarrow> sorted_wrt (\<lambda>x y. in_order y x) (bubble_down b before)"
proof (induction b before rule: bubble_down.induct)
  case (2 b a before)
  have "set (bubble_down b before) = insert b (set before)"
    using mset_bubble[of b before] by (metis set_mset_add_mset_insert set_mset_mset)
  then show ?case using 2 in_order_total[of a b] by (auto intro: in_order_trans)
qed simp

lemma bubbles:
  "mset (foldl (\<lambda>p b. bubble_down b p) acc ds) = mset acc + mset ds"
  "sorted_wrt (\<lambda>x y. in_order y x) acc \<Longrightarrow> sorted_wrt (\<lambda>x y. in_order y x) (foldl (\<lambda>p b. bubble_down b p) acc ds)"
  by (induction ds arbitrary: acc) (simp_all add: mset_bubble bubble_sorted)

text \<open>Usable devices that are not registered come first, then the others, each group in the order of the serials.\<close>

lemma sortDiscovered_spec:
  "mset (sortDiscovered ds) = mset ds" "sorted_wrt in_order (sortDiscovered ds)"
  by (simp_all add: sortDiscovered_def bubbles sorted_wrt_rev)

lemma sorted_once:
  assumes "sorted_wrt R xs" "sorted_wrt R ys" "mset xs = mset ys"
    and "\<And>x y. x \<in> set xs \<Longrightarrow> y \<in> set xs \<Longrightarrow> R x y \<Longrightarrow> R y x \<Longrightarrow> x = y"
  shows "xs = ys"
  using assms
proof (induction xs arbitrary: ys)
  case (Cons x xs)
  then obtain y ys' where ys: "ys = y # ys'" by (cases ys) auto
  have "set (x # xs) = set ys" using Cons.prems(3) by (metis set_mset_mset)
  then have "x = y \<or> R x y \<and> R y x" "y \<in> set (x # xs)" using Cons.prems(1,2) ys by auto
  then have "x = y" using Cons.prems(4)[of x y] by auto
  moreover have "xs = ys'"
    using Cons.prems ys \<open>x = y\<close> by (intro Cons.IH) auto
  ultimately show ?case using ys by simp
qed simp

text \<open>The order in which the map of devices is walked does not matter.\<close>

lemma pick_list_any_order:
  assumes "distinct xs" "distinct ys" "set xs = set ys"
  shows "pick_list known seen xs = pick_list known seen ys"
proof -
  let ?f = "\<lambda>k. discovered known k (the (seen k))"
  have m: "mset xs = mset ys" using assms by (metis set_eq_iff_mset_eq_distinct)
  have inj: "x = y" if "x \<in> ?f ` set xs" "y \<in> ?f ` set xs" "disc_Serial x = disc_Serial y" for x y
    using that by (auto simp: discovered_def)
  have members: "set (sortDiscovered (map ?f xs)) = ?f ` set xs"
    using sortDiscovered_spec(1)[of "map ?f xs"] by (metis set_map set_mset_mset)
  show ?thesis unfolding pick_list_def
  proof (rule sorted_once[where R = in_order])
    show "mset (sortDiscovered (map ?f xs)) = mset (sortDiscovered (map ?f ys))"
      by (simp add: sortDiscovered_spec(1) m)
    fix x y assume "x \<in> set (sortDiscovered (map ?f xs))" "y \<in> set (sortDiscovered (map ?f xs))"
      "in_order x y" "in_order y x"
    then show "x = y" unfolding members by (intro inj in_order_serial)
  qed (rule sortDiscovered_spec(2))+
qed

section \<open>What the handlers do to the database\<close>

lemma control_moves: "moves (tn_step (ct_tests e)) (control e k op c)"
proof (rule movesI)
  fix s
  have "(tn_step (ct_tests e))\<^sup>*\<^sup>* d (audited e c k a d)" for a d
    by (cases a) (auto simp: audited_def intro!: r_into_rtranclp db_step.on_accounts auth_step.audit)
  then show "(tn_step (ct_tests e))\<^sup>*\<^sup>* (sv_db s) (sv_db (snd (control e k op c s)))"
    using control_controls[of e c k op] by (auto simp: controls_def split: sum.split)
qed

lemma listing_moves: "moves R (adb_listing e)"
  by (rule moves_same) (simp add: adb_listing_def split: prod.split option.split)

lemma bundled_moves: "moves R (bundled r)"
  by (rule moves_same) (simp add: bundled_def give_def refuse_def split: sum.split)

lemma discovery_moves:
  "moves (tn_step (ct_tests e)) (listADBDevices e)" "moves (tn_step (ct_tests e)) (listRunnerDownloads e)"
  "moves (tn_step (ct_tests e)) (downloadRunner e de c)"
  unfolding listADBDevices_def listRunnerDownloads_def downloadRunner_def Let_def
  by (intro all.rules listing_moves bundled_moves)+

end
