(* ===== verification/Api.thy ===== *)
theory Api
  imports Api_Control
begin

text \<open>
  The API as a whole: the routes of api/server.go, control.go, tests.go and cases.go with the guard of each, the choice
  of the route as ServeMux of net/http documents it, and the answer to a request.  Requests that are
  handed to another server (the operator of the virtual devices, the agent) or to a component with a protocol of its own
  (the tool server, the tunnel of the runners) are answered with the address they go to; what those components do is
  in Mcp and Runner_Hub.  The facts of the host are a parameter.
\<close>

section \<open>Surroundings\<close>

record api =
  ap_control :: control_env
  ap_json :: device_json
  ap_ca :: authority
  ap_ping :: "go_error option"
  ap_host :: "(string \<times> field) list"
  ap_cpus :: int
  ap_prereqs :: "Prerequisite list"
  ap_disk :: "HealthCheck \<times> bool"
  ap_vision :: "HealthCheck \<times> bool"
  ap_assets :: "(string \<Rightarrow> string option) option"
  ap_agent :: "string res"

abbreviation ap_tests :: "api \<Rightarrow> tests_env" where "ap_tests a \<equiv> ct_tests (ap_control a)"
abbreviation ap_settings :: "api \<Rightarrow> settings_env" where "ap_settings a \<equiv> tn_settings (ap_tests a)"
abbreviation ap_env :: "api \<Rightarrow> api_env" where "ap_env a \<equiv> se_api (ap_settings a)"

definition ap_device :: "api \<Rightarrow> device_env" where
  "ap_device a =
    \<lparr>de_api = ap_env a, de_json = ap_json a, de_secrets = se_secrets (ap_settings a), de_ca = ap_ca a\<rparr>"

section \<open>The host, and what is handed on\<close>

definition operatorPortFromEnv :: "env \<Rightarrow> int" where
  "operatorPortFromEnv e =
    (case atoi (env_Getenv e ''OPENCUTTLES_OPERATOR_PORT'') of
       None \<Rightarrow> 1443 | Some p \<Rightarrow> if 0 < p then p else 1443)"

definition health :: "api \<Rightarrow> response Api_Base.act" where
  "health a =
    (case ap_ping a of
       Some _ \<Rightarrow> answer 503 (FieldsBody [(''status'', ''degraded''), (''detail'', ''database unreachable'')])
     | None \<Rightarrow> answer 200 (StatusBody ''ok''))"

definition host_facts :: "api \<Rightarrow> response Api_Base.act" where
  "host_facts a = answer 200 (AnswerBody (ap_host a))"

definition check_field :: "HealthCheck \<Rightarrow> field" where
  "check_field hc = MapField
    [(''name'', TextField (hc_Name hc)), (''status'', TextField (hc_Status hc)), (''message'', TextField (hc_Message hc))]"

definition deepHealth :: "api \<Rightarrow> response Api_Base.act" where
  "deepHealth a =
    (let (status, checks) = Health (ae_env (ap_env a)) (ap_ping a) (ap_prereqs a) (ap_disk a) (ap_vision a)
     in answer 200 (AnswerBody [(''status'', TextField status), (''checks'', ListField (map check_field checks))]))"

definition version_field :: "AndroidVersion \<Rightarrow> field" where
  "version_field v = MapField
    [(''id'', TextField (ver_ID v)), (''label'', TextField (ver_Label v)), (''branch'', TextField (ver_Branch v)),
     (''buildTarget'', TextField (ver_BuildTarget v)), (''description'', TextField (ver_Description v))]"

definition listAndroidVersions :: "response Api_Base.act" where
  "listAndroidVersions = answer 200 (AnswerBody [([], ListField (map version_field AndroidVersions))])"

definition operatorProxy :: "api \<Rightarrow> ctx \<Rightarrow> response Api_Base.act" where
  "operatorProxy a c =
    answer 200 (ForwardBody
      (''https://127.0.0.1:'' @ itoa (operatorPortFromEnv (ae_env (ap_env a))) @ rq_Path (cx_req c)))"

text \<open>The address of the agent is parsed when a request arrives.\<close>

definition agentProxy :: "api \<Rightarrow> ctx \<Rightarrow> response Api_Base.act" where
  "agentProxy a c =
    andThen (store_get (\<lambda>_. ap_agent a)) (\<lambda>base. answer 200 (ForwardBody (base @ rq_Path (cx_req c))))"

definition handed_to :: "string \<Rightarrow> response Api_Base.act" where
  "handed_to component = answer 200 (ForwardBody component)"

section \<open>Patterns\<close>

datatype seg = Lit string | Hole

record pattern =
  pat_Method :: "string option"
  pat_Path :: "seg list"
  pat_Sub :: bool

definition segments :: "string \<Rightarrow> string list" where
  "segments path = split_char (CHR ''/'') (trim_prefix ''/'' path)"

definition seg_of :: "string \<Rightarrow> seg" where
  "seg_of s = (if has_prefix ''{'' s \<and> has_suffix ''}'' s then Hole else Lit s)"

text \<open>A pattern is an optional method and a path; a path that ends in a slash stands for everything below it.\<close>

definition path_pattern :: "string option \<Rightarrow> string \<Rightarrow> pattern" where
  "path_pattern m path =
    (let segs = segments path; sub = (last segs = [])
     in \<lparr>pat_Method = m, pat_Path = map seg_of (if sub then butlast segs else segs), pat_Sub = sub\<rparr>)"

definition pattern_of :: "string \<Rightarrow> pattern" where
  "pattern_of text =
    (case split_char (CHR '' '') text of
       [m, path] \<Rightarrow> path_pattern (Some m) path
     | _ \<Rightarrow> path_pattern None text)"

text \<open>The values of the holes; a hole does not stand for the end of a path with a trailing slash.\<close>

fun match_segs :: "seg list \<Rightarrow> bool \<Rightarrow> string list \<Rightarrow> string list option" where
  "match_segs [] sub [] = (if sub then None else Some [])"
| "match_segs [] sub (x # xs) = (if sub then Some [] else None)"
| "match_segs (s # ss) sub [] = None"
| "match_segs (Lit l # ss) sub (x # xs) = (if l = x then match_segs ss sub xs else None)"
| "match_segs (Hole # ss) sub (x # xs) =
    (if x = [] \<and> xs = [] then None else map_option (\<lambda>vs. x # vs) (match_segs ss sub xs))"

text \<open>Of two paths that match, the one that is preferred has a literal where the other has a hole or ends.\<close>

fun prefers :: "seg list \<Rightarrow> seg list \<Rightarrow> bool" where
  "prefers (Lit _ # _) (Hole # _) = True"
| "prefers (Hole # _) (Lit _ # _) = False"
| "prefers (_ # _) [] = True"
| "prefers [] _ = False"
| "prefers (_ # p) (_ # q) = prefers p q"

section \<open>Routes\<close>

datatype guard = Open | Session string | Tools | Service

record route =
  rt_Pattern :: pattern
  rt_Guard :: guard
  rt_Run :: "string list \<Rightarrow> ctx \<Rightarrow> response Api_Base.act"

definition on_route :: "string \<Rightarrow> guard \<Rightarrow> (string list \<Rightarrow> ctx \<Rightarrow> response Api_Base.act) \<Rightarrow> route" where
  "on_route text g h = \<lparr>rt_Pattern = pattern_of text, rt_Guard = g, rt_Run = h\<rparr>"

fun better :: "string list \<Rightarrow> route option \<Rightarrow> route \<Rightarrow> route option" where
  "better xs best r =
    (if match_segs (pat_Path (rt_Pattern r)) (pat_Sub (rt_Pattern r)) xs = None then best
     else case best of
            None \<Rightarrow> Some r
          | Some b \<Rightarrow> if prefers (pat_Path (rt_Pattern r)) (pat_Path (rt_Pattern b)) then Some r else best)"

definition best_route :: "route list \<Rightarrow> string option \<Rightarrow> string list \<Rightarrow> route option" where
  "best_route rs m xs = foldl (better xs) None (filter (\<lambda>r. pat_Method (rt_Pattern r) = m) rs)"

text \<open>The routes of the method first, then those of GET for HEAD, then those for any method.\<close>

definition find_route :: "route list \<Rightarrow> string \<Rightarrow> string list \<Rightarrow> route option" where
  "find_route rs m xs =
    (case best_route rs (Some m) xs of
       Some r \<Rightarrow> Some r
     | None \<Rightarrow>
         (case (if m = ''HEAD'' then best_route rs (Some ''GET'') xs else None) of
            Some r \<Rightarrow> Some r
          | None \<Rightarrow> best_route rs None xs))"

text \<open>A match is exact unless a path that ends in a slash stands for something below it.\<close>

definition is_exact :: "route \<Rightarrow> string list \<Rightarrow> bool" where
  "is_exact r xs =
    (\<not> pat_Sub (rt_Pattern r) \<or> last xs = [] \<and> length xs = length (pat_Path (rt_Pattern r)) + 1)"

section \<open>The table\<close>

abbreviation no_hole :: "(ctx \<Rightarrow> response Api_Base.act) \<Rightarrow> string list \<Rightarrow> ctx \<Rightarrow> response Api_Base.act" where
  "no_hole h \<equiv> \<lambda>vs. h"

abbreviation fixed :: "response Api_Base.act \<Rightarrow> string list \<Rightarrow> ctx \<Rightarrow> response Api_Base.act" where
  "fixed m \<equiv> \<lambda>vs c. m"

definition hole :: "(string \<Rightarrow> ctx \<Rightarrow> response Api_Base.act) \<Rightarrow> string list \<Rightarrow> ctx \<Rightarrow> response Api_Base.act" where
  "hole h vs = h (hd vs)"

definition registerControlRoutes :: "api \<Rightarrow> route list" where
  "registerControlRoutes a =
    (let g = Session PermissionControl; c = (\<lambda>op. hole (\<lambda>k. control (ap_control a) k op)) in
     [on_route ''GET /api/v1/instances/{id}/control/screenshot'' g (c CtlScreenshot),
      on_route ''GET /api/v1/instances/{id}/control/ui-tree'' g (c CtlUITree),
      on_route ''GET /api/v1/instances/{id}/control/apps'' g (c CtlListApps),
      on_route ''GET /api/v1/instances/{id}/control/current-activity'' g (c CtlCurrentActivity),
      on_route ''GET /api/v1/instances/{id}/control/perf'' g (c CtlPerf),
      on_route ''GET /api/v1/instances/{id}/control/logcat'' g (c CtlLogcat),
      on_route ''POST /api/v1/instances/{id}/control/input/{action}'' g
        (\<lambda>vs. control (ap_control a) (hd vs) (CtlInput (vs ! 1))),
      on_route ''POST /api/v1/instances/{id}/control/apps/launch'' g (c CtlLaunchApp),
      on_route ''POST /api/v1/instances/{id}/control/apps/install'' g (c CtlInstallApp),
      on_route ''POST /api/v1/instances/{id}/control/shell'' g (c CtlShell),
      on_route ''POST /api/v1/instances/{id}/control/rotate'' g (c CtlRotate)])"

definition registerTestRoutes :: "api \<Rightarrow> route list" where
  "registerTestRoutes a =
    (let g = Session PermissionTest; e = ap_tests a in
     [on_route ''GET /api/v1/tests'' g (fixed listTests),
      on_route ''POST /api/v1/tests'' g (no_hole (createTest e)),
      on_route ''DELETE /api/v1/tests/{id}'' g (hole (deleteTest e)),
      on_route ''POST /api/v1/tests/{id}/run'' g (hole (runTest e)),
      on_route ''GET /api/v1/tests/runs'' g (fixed listTestRuns),
      on_route ''GET /api/v1/tests/runs/{id}'' g (hole (\<lambda>k c. getTestRun k)),
      on_route ''GET /api/v1/tests/runs/{id}/artifacts/{name}'' g (\<lambda>vs c. testArtifact e (hd vs) (vs ! 1))])"

definition registerCaseRoutes :: "api \<Rightarrow> route list" where
  "registerCaseRoutes a =
    (let g = Session PermissionTest; e = ap_tests a in
     [on_route ''GET /api/v1/cases'' g (fixed listCases),
      on_route ''POST /api/v1/cases'' g (no_hole (createCase e)),
      on_route ''GET /api/v1/cases/folders'' g (fixed listCaseFolders),
      on_route ''POST /api/v1/cases/folders'' g (no_hole (createCaseFolder e)),
      on_route ''DELETE /api/v1/cases/folders'' g (no_hole (deleteCaseFolder e)),
      on_route ''POST /api/v1/cases/import'' g (no_hole (importCases e)),
      on_route ''POST /api/v1/cases/draft'' g (no_hole (draftCases e)),
      on_route ''GET /api/v1/cases/export'' g (no_hole (exportCases e)),
      on_route ''GET /api/v1/cases/health'' g (no_hole (caseHealth e)),
      on_route ''GET /api/v1/cases/{id}'' g (hole (\<lambda>k c. getCase k)),
      on_route ''PUT /api/v1/cases/{id}'' g (hole (updateCase e)),
      on_route ''DELETE /api/v1/cases/{id}'' g (hole (deleteCase e)),
      on_route ''GET /api/v1/cycles'' g (fixed listCycles),
      on_route ''POST /api/v1/cycles'' g (no_hole (createCycle e)),
      on_route ''GET /api/v1/cycles/{id}'' g (hole (\<lambda>k c. getCycle k)),
      on_route ''PUT /api/v1/cycles/{id}'' g (hole (updateCycle e)),
      on_route ''DELETE /api/v1/cycles/{id}'' g (hole (deleteCycle e)),
      on_route ''PUT /api/v1/cycles/{id}/cases'' g (hole (updateCycleCases e)),
      on_route ''PUT /api/v1/cycles/{id}/schedule'' g (hole (updateCycleSchedule e)),
      on_route ''POST /api/v1/cycles/{id}/run'' g (hole (runCycle e)),
      on_route ''GET /api/v1/cycle-runs'' g (no_hole listCycleRuns_page),
      on_route ''GET /api/v1/cycle-runs/{id}'' g (hole (\<lambda>k c. getCycleRun k)),
      on_route ''GET /api/v1/cycle-runs/{id}/export'' g (hole (exportCycleRun e)),
      on_route ''DELETE /api/v1/cycle-runs/{id}'' g (hole (deleteCycleRun e)),
      on_route ''GET /api/v1/builds'' g (no_hole listBuilds),
      on_route ''POST /api/v1/builds'' (Session PermissionOperate) (no_hole (uploadBuild e))])"

definition account_routes :: "api \<Rightarrow> route list" where
  "account_routes a =
    (let e = ap_device a; view = Session PermissionView in
     [on_route ''GET /api/v1/healthz'' Open (fixed (health a)),
      on_route ''GET /api/v1/bootstrap'' Open (fixed bootstrapStatus),
      on_route ''POST /api/v1/bootstrap'' Open (no_hole (bootstrapAdmin e)),
      on_route ''POST /api/v1/auth/login'' Open (no_hole (login e)),
      on_route ''POST /api/v1/auth/logout'' view (no_hole (logout e)),
      on_route ''GET /api/v1/auth/me'' view (no_hole me),
      on_route ''GET /api/v1/host'' view (fixed (host_facts a)),
      on_route ''GET /api/v1/health'' view (fixed (deepHealth a)),
      on_route ''GET /api/v1/metrics'' view (fixed (metrics (ap_cpus a))),
      on_route ''GET /api/v1/android-versions'' view (fixed listAndroidVersions)])"

definition device_routes :: "api \<Rightarrow> route list" where
  "device_routes a =
    (let e = ap_device a; view = Session PermissionView; op = Session PermissionOperate;
         admin = Session PermissionAdmin in
     [on_route ''GET /api/v1/images'' view (fixed listImages),
      on_route ''POST /api/v1/images'' op (no_hole (createImage e)),
      on_route ''DELETE /api/v1/images/{id}'' admin (hole (deleteImage e)),
      on_route ''GET /api/v1/adb/devices'' op (fixed (listADBDevices (ap_control a))),
      on_route ''GET /api/v1/instances'' view (fixed listInstances),
      on_route ''POST /api/v1/instances'' op (no_hole (createInstance e)),
      on_route ''GET /api/v1/runner/downloads'' op (fixed (listRunnerDownloads (ap_control a))),
      on_route ''GET /api/v1/runner/download'' Open (no_hole (downloadRunner (ap_control a) e)),
      on_route ''POST /api/v1/instances/{id}/token/rotate'' admin (hole (rotateDesktopToken e)),
      on_route ''DELETE /api/v1/instances/{id}/token'' admin (hole (revokeDesktopToken e)),
      on_route ''GET /api/v1/instances/'' view (no_hole (instanceRoute e)),
      on_route ''POST /api/v1/instances/'' op (no_hole (instanceRoute e)),
      on_route ''DELETE /api/v1/instances/'' op (no_hole (instanceRoute e))])"

definition other_routes :: "api \<Rightarrow> route list" where
  "other_routes a =
    (let e = ap_device a; se = ap_settings a; admin = Session PermissionAdmin; view = Session PermissionView;
         console = Session PermissionOpenConsole in
     [on_route ''/api/v1/mcp'' Tools (fixed (handed_to ''mcp'')),
      on_route ''/api/v1/mcp/'' Tools (fixed (handed_to ''mcp'')),
      on_route ''GET /api/v1/runner/stream'' Open (fixed (handed_to ''runner stream'')),
      on_route ''POST /api/v1/runner/result'' Open (fixed (handed_to ''runner result'')),
      on_route ''GET /api/v1/runner/build/{id}'' Open (hole (runnerBuildArtifact e)),
      on_route ''/agents/'' (Session PermissionControl) (no_hole (agentProxy a)),
      on_route ''GET /api/v1/agent/model'' admin (fixed (getAgentModel se)),
      on_route ''POST /api/v1/agent/model'' admin (no_hole (putAgentModel se)),
      on_route ''POST /api/v1/agent/model/test'' admin (no_hole (testAgentModel se)),
      on_route ''GET /api/v1/settings/notifications'' admin (fixed (getNotifications se)),
      on_route ''PUT /api/v1/settings/notifications'' admin (no_hole (putNotifications se)),
      on_route ''GET /api/v1/agent/runtime'' Service (fixed (getAgentRuntime se)),
      on_route ''GET /api/v1/operations'' view (fixed listOperations),
      on_route ''GET /api/v1/audit'' admin (fixed listAudit),
      on_route ''/infra_config'' console (no_hole (operatorProxy a)),
      on_route ''/polled_connections'' console (no_hole (operatorProxy a)),
      on_route ''/polled_connections/'' console (no_hole (operatorProxy a)),
      on_route ''/devices/'' console (no_hole (operatorProxy a)),
      on_route ''/'' Open (no_hole (serveStatic (ap_assets a)))])"

definition routes :: "api \<Rightarrow> route list" where
  "routes a = account_routes a @ device_routes a @ registerControlRoutes a @ registerTestRoutes a @
    registerCaseRoutes a @ other_routes a"

section \<open>Answering a request\<close>

definition guarded :: "api_env \<Rightarrow> guard \<Rightarrow> (ctx \<Rightarrow> response Api_Base.act) \<Rightarrow> ctx \<Rightarrow> response Api_Base.act" where
  "guarded e g h =
    (case g of Open \<Rightarrow> h | Session p \<Rightarrow> require e p h | Tools \<Rightarrow> mcpAuth e h | Service \<Rightarrow> serviceTokenOnly e h)"

definition cleanPath :: "string \<Rightarrow> string" where
  "cleanPath p0 =
    (let p = (if has_prefix ''/'' p0 then p0 else ''/'' @ p0); np = clean p
     in if last p = CHR ''/'' \<and> np \<noteq> ''/'' then np @ ''/'' else np)"

text \<open>A path whose pattern is only known with a slash at the end.\<close>

definition lacks_slash :: "route list \<Rightarrow> string \<Rightarrow> string list \<Rightarrow> bool" where
  "lacks_slash rs m xs =
    (last xs \<noteq> []
     \<and> (case find_route rs m xs of None \<Rightarrow> True | Some r \<Rightarrow> \<not> is_exact r xs)
     \<and> (case find_route rs m (xs @ [[]]) of None \<Rightarrow> False | Some r \<Rightarrow> is_exact r (xs @ [[]])))"

definition redirect :: "string \<Rightarrow> response Api_Base.act" where
  "redirect path = answer 301 (ForwardBody path)"

definition run_route :: "api \<Rightarrow> route \<Rightarrow> string list \<Rightarrow> ctx \<Rightarrow> response Api_Base.act" where
  "run_route a r xs =
    guarded (ap_env a) (rt_Guard r)
      (rt_Run r (case match_segs (pat_Path (rt_Pattern r)) (pat_Sub (rt_Pattern r)) xs of None \<Rightarrow> [] | Some vs \<Rightarrow> vs))"

definition dispatch :: "api \<Rightarrow> ctx \<Rightarrow> response Api_Base.act" where
  "dispatch a c =
    (let m = rq_Method (cx_req c); path = cleanPath (rq_Path (cx_req c)); xs = segments path
     in if lacks_slash (routes a) m xs then redirect (path @ ''/'')
        else if path \<noteq> rq_Path (cx_req c) then redirect path
        else case find_route (routes a) m xs of
               None \<Rightarrow> refuse (notFound ''404 page not found'')
             | Some r \<Rightarrow> run_route a r xs c)"

definition serve :: "api \<Rightarrow> Api_Base.request \<Rightarrow> server \<Rightarrow> response \<times> server" where
  "serve a r = respond (withMiddleware (ap_env a) (dispatch a) r)"

section \<open>What a request does to the database\<close>

context effect
begin

lemma moves_mcpAuth: "(\<And>c. moves R (h c)) \<Longrightarrow> moves R (mcpAuth e h c)"
proof (rule movesI)
  fix s assume "\<And>c. moves R (h c)"
  then show "R\<^sup>*\<^sup>* (sv_db s) (sv_db (snd (mcpAuth e h c s)))"
    by (simp add: mcpAuth_def refuse_def moves_def split: sum.split prod.split)
qed

lemma moves_guarded: "(\<And>c. moves R (h c)) \<Longrightarrow> moves R (guarded e g h c)"
  by (simp add: guarded_def moves_require moves_mcpAuth moves_service split: guard.split)

end

abbreviation ap_step :: "api \<Rightarrow> db \<Rightarrow> db \<Rightarrow> bool" where
  "ap_step a \<equiv> db_step (ae_hmac (ap_env a)) (ae_sha (ap_env a))"

lemma ap_device_api [simp]: "de_api (ap_device a) = ap_env a"
  by (simp add: ap_device_def)

lemma host_moves:
  "moves R (health a)" "moves R (host_facts a)" "moves R (deepHealth a)" "moves R listAndroidVersions"
  "moves R (operatorProxy a c)" "moves R (handed_to x)" "moves R (agentProxy a c)"
  by (rule moves_same; simp add: health_def host_facts_def deepHealth_def listAndroidVersions_def operatorProxy_def
      handed_to_def agentProxy_def answer_def give_def andThen_fst store_get_def split: option.split prod.split sum.split)+

lemmas shared_moves = host_moves account_moves[of "ap_device a" for a, simplified]
  image_moves[of "ap_device a" for a, simplified] create_moves[of "ap_device a" for a, simplified]
  token_moves[of "ap_device a" for a, simplified] route_moves[of "ap_device a" for a, simplified]
  read_moves[of "ap_device a" for a, simplified] artifact_moves[of "ap_device a" for a, simplified]
  test_moves case_moves cycle_moves build_moves export_moves draft_moves control_moves discovery_moves settings_moves

lemma account_routes_move: "r \<in> set (account_routes a) \<Longrightarrow> moves (ap_step a) (rt_Run r vs c)"
  by (auto simp: account_routes_def Let_def on_route_def hole_def intro: shared_moves)

lemma device_routes_move: "r \<in> set (device_routes a) \<Longrightarrow> moves (ap_step a) (rt_Run r vs c)"
  by (auto simp: device_routes_def Let_def on_route_def hole_def rotateDesktopToken_def revokeDesktopToken_def
      intro: shared_moves)

lemma control_routes_move: "r \<in> set (registerControlRoutes a) \<Longrightarrow> moves (ap_step a) (rt_Run r vs c)"
  by (auto simp: registerControlRoutes_def Let_def on_route_def hole_def simp del: control.simps intro: control_moves)

lemma test_routes_move: "r \<in> set (registerTestRoutes a) \<Longrightarrow> moves (ap_step a) (rt_Run r vs c)"
  by (auto simp: registerTestRoutes_def Let_def on_route_def hole_def intro: test_moves)

lemma case_routes_move: "r \<in> set (registerCaseRoutes a) \<Longrightarrow> moves (ap_step a) (rt_Run r vs c)"
  by (auto simp: registerCaseRoutes_def Let_def on_route_def hole_def
      intro: case_moves cycle_moves build_moves export_moves draft_moves)

lemma other_routes_move: "r \<in> set (other_routes a) \<Longrightarrow> moves (ap_step a) (rt_Run r vs c)"
  by (auto simp: other_routes_def Let_def on_route_def hole_def intro: shared_moves)

lemma routes_move: "r \<in> set (routes a) \<Longrightarrow> moves (ap_step a) (rt_Run r vs c)"
  by (auto simp: routes_def intro: account_routes_move device_routes_move control_routes_move test_routes_move
      case_routes_move other_routes_move)

lemma better_in: "foldl (better xs) b rs = Some r \<Longrightarrow> b = Some r \<or> r \<in> set rs"
  by (induction rs arbitrary: b) (auto split: if_splits option.splits)

lemma best_route_in: "best_route rs m xs = Some r \<Longrightarrow> r \<in> set rs"
  by (auto simp: best_route_def dest: better_in)

lemma find_route_in: "find_route rs m xs = Some r \<Longrightarrow> r \<in> set rs"
  by (auto simp: find_route_def split: option.splits if_splits dest: best_route_in)

lemma dispatch_moves: "moves (ap_step a) (dispatch a c)"
proof -
  have "moves (ap_step a) (case find_route (routes a) m xs of
      None \<Rightarrow> refuse (notFound ''404 page not found'') | Some r \<Rightarrow> run_route a r xs c)" for m xs
  proof (cases "find_route (routes a) m xs")
    case (Some r)
    show ?thesis unfolding Some option.case run_route_def
      by (intro all.moves_guarded routes_move find_route_in[OF Some])
  qed (simp add: all.moves_refuse)
  then show ?thesis unfolding dispatch_def Let_def redirect_def by (intro all.moves_if all.moves_answer)
qed

lemma serve_moves: "(ap_step a)\<^sup>*\<^sup>* (sv_db s) (sv_db (snd (serve a r s)))"
  unfolding serve_def withMiddleware_def
  by (intro all.respond_moves all.moves_if all.moves_answer dispatch_moves)

end
