(* ===== verification/Cycle_Interleaving.thy ===== *)
theory Cycle_Interleaving
  imports Cycle_Executor
begin

text \<open>
  Several cycle runs at once, backend/internal/scenario/cycle.go with the tool server of
  backend/internal/mcp/server.go.  Each run is a job that goes through its cases; the
  steps of different jobs, the tool calls of their agents and of an interactive user
  interleave freely.  A step is one critical section of the code: the entry check of
  execute, the beginning of a case, one tool call, the end of a case, the end of the run.
  The environment (identifiers, instants, last words of the agent) is chosen anew at
  every step.  The invariants hold in every reachable state, and the sequential
  execute is one of the behaviours.
\<close>

section \<open>Jobs and steps\<close>

datatype phase =
    Waiting
  | Between nat CycleTotals
  | InCase nat CycleTotals TestCase TestRun
  | Finished

record job =
  jb_cycle :: TestCycle
  jb_inst :: string
  jb_run :: CycleRun
  jb_phase :: phase

record system =
  sys_ex :: executor
  sys_jobs :: "job list"

fun active_phase :: "phase \<Rightarrow> bool" where
  "active_phase (Between _ _) = True"
| "active_phase (InCase _ _ _ _) = True"
| "active_phase _ = False"

definition active :: "job \<Rightarrow> bool" where
  "active j = active_phase (jb_phase j)"

definition put_job :: "nat \<Rightarrow> phase \<Rightarrow> executor \<Rightarrow> system \<Rightarrow> system" where
  "put_job n p x s = \<lparr>sys_ex = x, sys_jobs = (sys_jobs s)[n := (sys_jobs s ! n)\<lparr>jb_phase := p\<rparr>]\<rparr>"

definition with_tools :: "executor \<Rightarrow> tools \<Rightarrow> executor" where
  "with_tools x t = x\<lparr>ex_tools := t\<rparr>"

definition installed :: "exec_env \<Rightarrow> Instance \<Rightarrow> CycleRun \<Rightarrow> tools \<Rightarrow> tools" where
  "installed e i run s = (if crun_BuildID run \<noteq> [] then installBuild e i (crun_BuildID run) s else s)"

text \<open>The five steps of a job, as functions of its phase; None when the phase does not allow the step.\<close>

definition enter :: "exec_env \<Rightarrow> job \<Rightarrow> executor \<Rightarrow> phase \<times> executor" where
  "enter e j x =
    (if ex_running x (jb_inst j) then (Finished, finishCycle e (jb_run j) ''failed'' x)
     else case GetInstance (jb_inst j) (tl_db (ex_tools x)) of
       Inl _ \<Rightarrow> (Finished, finishCycle e (jb_run j) ''failed'' x)
     | Inr i \<Rightarrow> (Between 0 (zero_totals (jb_cycle j)),
                 x\<lparr>ex_running := (ex_running x)(jb_inst j := True),
                   ex_tools := installed e i (jb_run j) (ex_tools x)\<rparr>))"

fun begun :: "nat \<Rightarrow> CycleTotals \<Rightarrow> CycleRun \<Rightarrow> executor \<Rightarrow> (string + TestCase \<times> TestRun) \<times> tools \<Rightarrow> phase \<times> executor" where
  "begun k t run x (Inl category, s) =
    (Between (k + 1) (count_category category t), with_tools x (save_totals run (count_category category t) s))"
| "begun k t run x (Inr (tc, r), s) = (InCase k t tc r, with_tools x s)"

definition begin_step :: "exec_env \<Rightarrow> job \<Rightarrow> nat \<Rightarrow> CycleTotals \<Rightarrow> executor \<Rightarrow> phase \<times> executor" where
  "begin_step e j k t x =
    begun k t (jb_run j) x
      (begin_case e (crun_ID (jb_run j)) (jb_inst j) k (cyc_CaseIDs (jb_cycle j) ! k) (ex_tools x))"

definition end_step ::
  "exec_env \<Rightarrow> job \<Rightarrow> nat \<Rightarrow> CycleTotals \<Rightarrow> TestCase \<Rightarrow> TestRun \<Rightarrow> string \<Rightarrow> go_error option \<Rightarrow> executor \<Rightarrow> phase \<times> executor" where
  "end_step e j k t tc r terminal err x =
    (let res = finish_case e (jb_inst j) k tc r terminal err (ex_tools x)
     in (Between (k + 1) (count_category (fst res) t),
         with_tools x (save_totals (jb_run j) (count_category (fst res) t) (snd res))))"

definition leave :: "exec_env \<Rightarrow> job \<Rightarrow> CycleTotals \<Rightarrow> executor \<Rightarrow> phase \<times> executor" where
  "leave e j t x =
    (Finished, release (jb_inst j) (finishCycle e ((jb_run j)\<lparr>crun_Totals := t\<rparr>) (verdict t) x))"

inductive sys_step :: "tool_env \<Rightarrow> system \<Rightarrow> system \<Rightarrow> bool" for te where
  start: "Start now rnd cycleID inst trigger buildID (tl_db (ex_tools (sys_ex s))) = (Inr (c, run), d) \<Longrightarrow>
    sys_step te s (s\<lparr>sys_ex := with_tools (sys_ex s) ((ex_tools (sys_ex s))\<lparr>tl_db := d\<rparr>),
      sys_jobs := sys_jobs s @ [\<lparr>jb_cycle = c, jb_inst = inst, jb_run = run, jb_phase = Waiting\<rparr>]\<rparr>)"
| enter: "n < length (sys_jobs s) \<Longrightarrow> jb_phase (sys_jobs s ! n) = Waiting \<Longrightarrow>
    enter e (sys_jobs s ! n) (sys_ex s) = (p, x) \<Longrightarrow> sys_step te s (put_job n p x s)"
| begin_case: "n < length (sys_jobs s) \<Longrightarrow> jb_phase (sys_jobs s ! n) = Between k t \<Longrightarrow>
    k < length (cyc_CaseIDs (jb_cycle (sys_jobs s ! n))) \<Longrightarrow>
    begin_step e (sys_jobs s ! n) k t (sys_ex s) = (p, x) \<Longrightarrow> sys_step te s (put_job n p x s)"
| tool_call: "snd (run_tool te c (ex_tools (sys_ex s))) = s' \<Longrightarrow>
    sys_step te s (s\<lparr>sys_ex := with_tools (sys_ex s) s'\<rparr>)"
| end_case: "n < length (sys_jobs s) \<Longrightarrow> jb_phase (sys_jobs s ! n) = InCase k t tc r \<Longrightarrow>
    end_step e (sys_jobs s ! n) k t tc r terminal err (sys_ex s) = (p, x) \<Longrightarrow> sys_step te s (put_job n p x s)"
| leave: "n < length (sys_jobs s) \<Longrightarrow> jb_phase (sys_jobs s ! n) = Between k t \<Longrightarrow>
    k = length (cyc_CaseIDs (jb_cycle (sys_jobs s ! n))) \<Longrightarrow>
    leave e (sys_jobs s ! n) t (sys_ex s) = (p, x) \<Longrightarrow> sys_step te s (put_job n p x s)"

definition idle :: "db \<Rightarrow> system" where
  "idle d = \<lparr>sys_ex = \<lparr>ex_tools = \<lparr>tl_db = d, tl_mcp = new_mcp, tl_trace = []\<rparr>,
       ex_running = (\<lambda>_. False), ex_notified = []\<rparr>, sys_jobs = []\<rparr>"

inductive sys_reachable :: "tool_env \<Rightarrow> system \<Rightarrow> bool" for te where
  idle: "sys_reachable te (idle d)"
| step: "sys_reachable te s \<Longrightarrow> sys_step te s s' \<Longrightarrow> sys_reachable te s'"

section \<open>The invariants\<close>

text \<open>A device is marked as in use exactly while one active job holds it.\<close>

definition holds :: "system \<Rightarrow> nat \<Rightarrow> string \<Rightarrow> bool" where
  "holds s n dev = (n < length (sys_jobs s) \<and> active (sys_jobs s ! n) \<and> jb_inst (sys_jobs s ! n) = dev)"

definition exclusive :: "system \<Rightarrow> bool" where
  "exclusive s =
    ((\<forall>m n dev. holds s m dev \<and> holds s n dev \<longrightarrow> m = n)
     \<and> (\<forall>dev. ex_running (sys_ex s) dev \<longleftrightarrow> (\<exists>n. holds s n dev)))"

text \<open>The case run that each device is bound to is the one its job is in.\<close>

fun current_run :: "phase \<Rightarrow> string option" where
  "current_run (InCase _ _ _ r) = Some (run_ID r)"
| "current_run _ = None"

definition bound_id :: "tools \<Rightarrow> string \<Rightarrow> string option" where
  "bound_id s dev = map_option br_runID (mcp_runs (tl_mcp s) dev)"

definition bindings :: "system \<Rightarrow> bool" where
  "bindings s =
    ((\<forall>n dev. holds s n dev \<longrightarrow>
        bound_id (ex_tools (sys_ex s)) dev = current_run (jb_phase (sys_jobs s ! n)))
     \<and> (\<forall>dev. \<not> ex_running (sys_ex s) dev \<longrightarrow> bound_id (ex_tools (sys_ex s)) dev = None))"

text \<open>Every finished case has been counted once.\<close>

fun phase_tally :: "TestCycle \<Rightarrow> phase \<Rightarrow> bool" where
  "phase_tally c (Between k t) =
    (counts_ok t \<and> tally t = int k \<and> k \<le> length (cyc_CaseIDs c) \<and> tot_Cases t = int (length (cyc_CaseIDs c)))"
| "phase_tally c (InCase k t _ _) =
    (counts_ok t \<and> tally t = int k \<and> k < length (cyc_CaseIDs c) \<and> tot_Cases t = int (length (cyc_CaseIDs c)))"
| "phase_tally c _ = True"

definition tallies :: "system \<Rightarrow> bool" where
  "tallies s = list_all (\<lambda>j. phase_tally (jb_cycle j) (jb_phase j)) (sys_jobs s)"

section \<open>How one job's step changes who holds a device\<close>

lemma holds_put_job:
  assumes "n < length (sys_jobs s)"
  shows "holds (put_job n p x s) m dev \<longleftrightarrow>
    (if m = n then active_phase p \<and> jb_inst (sys_jobs s ! n) = dev else holds s m dev)"
  using assms by (auto simp: holds_def put_job_def active_def nth_list_update)

lemma put_job_fields [simp]: "sys_ex (put_job n p x s) = x"
  "n < length (sys_jobs s) \<Longrightarrow> sys_jobs (put_job n p x s) ! n = (sys_jobs s ! n)\<lparr>jb_phase := p\<rparr>"
  "m \<noteq> n \<Longrightarrow> sys_jobs (put_job n p x s) ! m = sys_jobs s ! m"
  by (simp_all add: put_job_def)

definition next_running :: "system \<Rightarrow> nat \<Rightarrow> phase \<Rightarrow> executor \<Rightarrow> bool" where
  "next_running s n p x =
    (let inst = jb_inst (sys_jobs s ! n); was = active (sys_jobs s ! n); r = ex_running (sys_ex s)
     in (active_phase p \<and> \<not> was \<longrightarrow> \<not> r inst)
        \<and> ex_running x = r(inst := (active_phase p \<or> \<not> was \<and> r inst)))"

lemma exclusive_put_job:
  assumes ex: "exclusive s" and n: "n < length (sys_jobs s)" and r: "next_running s n p x"
  shows "exclusive (put_job n p x s)"
proof -
  let ?inst = "jb_inst (sys_jobs s ! n)"
  have was: "active (sys_jobs s ! n) \<longleftrightarrow> holds s n ?inst" using n by (simp add: holds_def)
  have one: "holds s m dev \<Longrightarrow> holds s k dev \<Longrightarrow> m = k" for m k dev
    using ex by (auto simp: exclusive_def)
  have run: "ex_running (sys_ex s) dev \<longleftrightarrow> (\<exists>m. holds s m dev)" for dev
    using ex by (auto simp: exclusive_def)
  have free: "active_phase p \<Longrightarrow> m \<noteq> n \<Longrightarrow> \<not> holds s m ?inst" for m
    using r one[of m ?inst n] run[of ?inst] was by (auto simp: next_running_def Let_def)
  have "m = k" if "holds (put_job n p x s) m dev" "holds (put_job n p x s) k dev" for m k dev
    using that one[of m dev k] free[of m] free[of k] by (auto simp: holds_put_job[OF n] split: if_splits)
  moreover have "ex_running x dev \<longleftrightarrow> (\<exists>m. holds (put_job n p x s) m dev)" for dev
  proof (cases "dev = ?inst")
    case False
    then have "(\<exists>m. holds (put_job n p x s) m dev) \<longleftrightarrow> (\<exists>m. m \<noteq> n \<and> holds s m dev)"
      by (auto simp: holds_put_job[OF n])
    also have "\<dots> \<longleftrightarrow> (\<exists>m. holds s m dev)" using False by (auto simp: holds_def)
    finally show ?thesis using False r run by (simp add: next_running_def Let_def)
  next
    case True
    have "(\<exists>m. holds (put_job n p x s) m ?inst) \<longleftrightarrow> active_phase p \<or> (\<exists>m. m \<noteq> n \<and> holds s m ?inst)"
      by (auto simp: holds_put_job[OF n])
    also have "\<dots> \<longleftrightarrow> active_phase p \<or> \<not> active (sys_jobs s ! n) \<and> ex_running (sys_ex s) ?inst"
      using was one[of n ?inst] run[of ?inst] by metis
    finally show ?thesis using True r by (simp add: next_running_def Let_def)
  qed
  ultimately show ?thesis by (simp add: exclusive_def) blast
qed

definition next_bound :: "system \<Rightarrow> nat \<Rightarrow> phase \<Rightarrow> executor \<Rightarrow> bool" where
  "next_bound s n p x =
    (bound_id (ex_tools x) =
      (if active_phase p \<or> active (sys_jobs s ! n)
       then (bound_id (ex_tools (sys_ex s)))(jb_inst (sys_jobs s ! n) := current_run p)
       else bound_id (ex_tools (sys_ex s))))"

lemma current_run_active: "current_run p \<noteq> None \<Longrightarrow> active_phase p"
  by (cases p) simp_all

lemma bindings_put_job:
  assumes ex: "exclusive s" and b: "bindings s" and n: "n < length (sys_jobs s)"
    and r: "next_running s n p x" and nb: "next_bound s n p x"
  shows "bindings (put_job n p x s)"
proof -
  let ?inst = "jb_inst (sys_jobs s ! n)" and ?was = "active (sys_jobs s ! n)"
  let ?old = "bound_id (ex_tools (sys_ex s))"
  have was: "?was \<longleftrightarrow> holds s n ?inst" using n by (simp add: holds_def)
  have one: "holds s m dev \<Longrightarrow> holds s k dev \<Longrightarrow> m = k" for m k dev
    using ex by (auto simp: exclusive_def)
  have run: "holds s m dev \<Longrightarrow> ex_running (sys_ex s) dev" for dev m
    using ex by (auto simp: exclusive_def)
  have other: "dev \<noteq> ?inst \<or> \<not> (active_phase p \<or> ?was)" if "m \<noteq> n" "holds s m dev" for m dev
    using that one[of m dev n] run[of m dev] was r by (auto simp: next_running_def Let_def)
  have "bound_id (ex_tools x) dev = current_run (jb_phase (sys_jobs (put_job n p x s) ! m))"
    if h: "holds (put_job n p x s) m dev" for m dev
  proof (cases "m = n")
    case True
    then show ?thesis using h n nb by (simp add: holds_put_job[OF n] next_bound_def)
  next
    case False
    then have hm: "holds s m dev" using h by (simp add: holds_put_job[OF n])
    then have "?old dev = current_run (jb_phase (sys_jobs s ! m))" using b by (simp add: bindings_def)
    then show ?thesis using other[OF False hm] False nb by (auto simp: next_bound_def)
  qed
  moreover have "bound_id (ex_tools x) dev = None" if "\<not> ex_running x dev" for dev
  proof (cases "dev = ?inst")
    case True
    then have idle: "\<not> active_phase p" "?was \<or> \<not> ex_running (sys_ex s) ?inst"
      using that r by (auto simp: next_running_def Let_def)
    have none: "current_run p = None" using idle(1) by (cases p) simp_all
    show ?thesis
    proof (cases ?was)
      case True
      then show ?thesis using \<open>dev = ?inst\<close> nb none by (simp add: next_bound_def)
    next
      case False
      then have "?old ?inst = None" using idle(2) b by (simp add: bindings_def)
      then show ?thesis using \<open>dev = ?inst\<close> nb idle(1) False by (simp add: next_bound_def)
    qed
  next
    case False
    then have "\<not> ex_running (sys_ex s) dev" using that r by (simp add: next_running_def Let_def)
    then have "?old dev = None" using b by (simp add: bindings_def)
    then show ?thesis using False nb by (simp add: next_bound_def)
  qed
  ultimately show ?thesis by (simp add: bindings_def)
qed

lemma tallies_put_job:
  assumes "tallies s" "n < length (sys_jobs s)" "phase_tally (jb_cycle (sys_jobs s ! n)) p"
  shows "tallies (put_job n p x s)"
  using assms by (auto simp: tallies_def put_job_def list_all_length nth_list_update)

section \<open>What each step does to the marks and the bindings\<close>

lemma finishCycle_marks [simp]:
  "ex_running (finishCycle e run st x) = ex_running x"
  "bound_id (ex_tools (finishCycle e run st x)) = bound_id (ex_tools x)"
  by (simp_all add: finishCycle_def Let_def bound_id_def fun_eq_iff)

lemma release_marks [simp]:
  "ex_running (release dev x) = (ex_running x)(dev := False)"
  "ex_tools (release dev x) = ex_tools x"
  by (simp_all add: release_def)

lemma with_tools_marks [simp]: "ex_running (with_tools x t) = ex_running x" "ex_tools (with_tools x t) = t"
  by (simp_all add: with_tools_def)

lemma save_totals_bound [simp]: "bound_id (save_totals run t s) = bound_id s"
  by (simp add: save_totals_def bound_id_def fun_eq_iff)

lemma installed_bound [simp]: "bound_id (installed e i run s) = bound_id s"
  by (simp add: installed_def installBuild_def device_act_def bound_id_def fun_eq_iff split: sum.split prod.split)

lemma begin_case_bound:
  "bound_id (snd (begin_case e cr inst k c s)) =
     (case fst (begin_case e cr inst k c s) of
        Inl _ \<Rightarrow> bound_id s | Inr (tc, r) \<Rightarrow> (bound_id s)(inst \<mapsto> run_ID r))"
  by (simp add: begin_case_def with_db_def Let_def on_mcp_def BindRun_def SetActive_def bound_id_def fun_eq_iff
      split: sum.split prod.split)

lemma finish_case_bound:
  "bound_id (snd (finish_case e inst k tc r terminal err s)) = (bound_id s)(inst := None)"
proof -
  obtain x y z where "classifyCase (run_Steps (reload r (tl_db s))) (length (case_Steps tc)) err terminal = (x, y, z)"
    by (metis prod_cases3)
  then show ?thesis
    by (simp add: finish_case_def judge_case_def on_mcp_def UnbindRun_def bound_id_def fun_eq_iff)
qed

lemma run_tool_bound: "bound_id (snd (run_tool t c s)) = bound_id s"
proof (cases "\<exists>i st n. c = CReport i st n")
  case True
  then obtain i st n where c: "c = CReport i st n" by blast
  have snd_unit: "snd (unit_of m s) = snd (m s)" for m :: "bool tool"
    by (simp add: unit_of_def bnd_def ret_apply split: prod.split sum.split)
  show ?thesis
  proof (cases "bound_run t s")
    case None
    then show ?thesis by (simp add: c snd_unit report_unbound)
  next
    case (Some q)
    then obtain iid b where b: "bound_run t s = Some (iid, b)" by (cases q) auto
    from report_bound[OF b, of i st n] bound_run_target[OF b] show ?thesis
      by (auto simp: c snd_unit bound_id_def fun_eq_iff)
  qed
next
  case False
  then have "mcp_runs (tl_mcp (snd (run_tool t c s))) = mcp_runs (tl_mcp s)"
    using run_tool_effect[of t c s] by (cases c) (auto simp: keeps_def)
  then show ?thesis by (simp add: bound_id_def fun_eq_iff)
qed

definition sys_inv :: "system \<Rightarrow> bool" where
  "sys_inv s = (exclusive s \<and> bindings s \<and> tallies s)"

definition good_step :: "system \<Rightarrow> nat \<Rightarrow> phase \<Rightarrow> executor \<Rightarrow> bool" where
  "good_step s n p x =
    (next_running s n p x \<and> next_bound s n p x \<and> phase_tally (jb_cycle (sys_jobs s ! n)) p)"

lemma sys_inv_put_job:
  "sys_inv s \<Longrightarrow> n < length (sys_jobs s) \<Longrightarrow> good_step s n p x \<Longrightarrow> sys_inv (put_job n p x s)"
  by (simp add: sys_inv_def good_step_def exclusive_put_job bindings_put_job tallies_put_job)

text \<open>What the invariant says of the job that makes the step.\<close>

lemma active_job:
  assumes "sys_inv s" "n < length (sys_jobs s)" "active (sys_jobs s ! n)"
  shows "ex_running (sys_ex s) (jb_inst (sys_jobs s ! n))"
    "bound_id (ex_tools (sys_ex s)) (jb_inst (sys_jobs s ! n)) = current_run (jb_phase (sys_jobs s ! n))"
proof -
  have "holds s n (jb_inst (sys_jobs s ! n))" using assms(2,3) by (simp add: holds_def)
  then show "ex_running (sys_ex s) (jb_inst (sys_jobs s ! n))"
    "bound_id (ex_tools (sys_ex s)) (jb_inst (sys_jobs s ! n)) = current_run (jb_phase (sys_jobs s ! n))"
    using assms(1) by (auto simp: sys_inv_def exclusive_def bindings_def)
qed

lemma idle_device:
  "sys_inv s \<Longrightarrow> \<not> ex_running (sys_ex s) dev \<Longrightarrow> bound_id (ex_tools (sys_ex s)) dev = None"
  by (simp add: sys_inv_def bindings_def)

lemma job_tally:
  "sys_inv s \<Longrightarrow> n < length (sys_jobs s) \<Longrightarrow> phase_tally (jb_cycle (sys_jobs s ! n)) (jb_phase (sys_jobs s ! n))"
  by (simp add: sys_inv_def tallies_def list_all_length)

lemma enter_good:
  assumes inv: "sys_inv s" and n: "n < length (sys_jobs s)" and ph: "jb_phase (sys_jobs s ! n) = Waiting"
    and st: "enter e (sys_jobs s ! n) (sys_ex s) = (p, x)"
  shows "good_step s n p x"
proof -
  let ?j = "sys_jobs s ! n"
  have was: "\<not> active ?j" by (simp add: active_def ph)
  consider "p = Finished" "x = finishCycle e (jb_run ?j) ''failed'' (sys_ex s)"
    | i where "\<not> ex_running (sys_ex s) (jb_inst ?j)" "p = Between 0 (zero_totals (jb_cycle ?j))"
      "x = (sys_ex s)\<lparr>ex_running := (ex_running (sys_ex s))(jb_inst ?j := True),
              ex_tools := installed e i (jb_run ?j) (ex_tools (sys_ex s))\<rparr>"
    using st by (auto simp: enter_def split: if_splits sum.splits)
  then show ?thesis
  proof cases
    case 1
    then show ?thesis by (simp add: good_step_def next_running_def next_bound_def was Let_def)
  next
    case 2
    moreover have "bound_id (ex_tools (sys_ex s)) (jb_inst ?j) = None" by (rule idle_device[OF inv 2(1)])
    ultimately show ?thesis
      by (simp add: good_step_def next_running_def next_bound_def was Let_def zero_totals_ok fun_upd_idem)
  qed
qed

lemma begin_good:
  assumes inv: "sys_inv s" and n: "n < length (sys_jobs s)" and ph: "jb_phase (sys_jobs s ! n) = Between k t"
    and k: "k < length (cyc_CaseIDs (jb_cycle (sys_jobs s ! n)))"
    and st: "begin_step e (sys_jobs s ! n) k t (sys_ex s) = (p, x)"
  shows "good_step s n p x"
proof -
  let ?j = "sys_jobs s ! n"
  let ?b = "begin_case e (crun_ID (jb_run ?j)) (jb_inst ?j) k (cyc_CaseIDs (jb_cycle ?j) ! k) (ex_tools (sys_ex s))"
  have was: "active ?j" by (simp add: active_def ph)
  note held = active_job[OF inv n was]
  note tally = job_tally[OF inv n, unfolded ph]
  obtain res s1 where b: "?b = (res, s1)" by fastforce
  note bb = begin_case_bound[of e "crun_ID (jb_run ?j)" "jb_inst ?j" k "cyc_CaseIDs (jb_cycle ?j) ! k"
      "ex_tools (sys_ex s)", unfolded b, simplified]
  show ?thesis
  proof (cases res)
    case (Inl category)
    then show ?thesis
      using st b bb held tally k ph
      by (auto simp: begin_step_def good_step_def next_running_def next_bound_def was Let_def fun_upd_idem
          count_category_ok)
  next
    case (Inr q)
    obtain tc r where "q = (tc, r)" by (cases q)
    then show ?thesis
      using Inr st b bb held tally k ph
      by (auto simp: begin_step_def good_step_def next_running_def next_bound_def was Let_def fun_upd_idem)
  qed
qed

lemma end_good:
  assumes inv: "sys_inv s" and n: "n < length (sys_jobs s)" and ph: "jb_phase (sys_jobs s ! n) = InCase k t tc r"
    and st: "end_step e (sys_jobs s ! n) k t tc r terminal err (sys_ex s) = (p, x)"
  shows "good_step s n p x"
proof -
  have was: "active (sys_jobs s ! n)" by (simp add: active_def ph)
  note held = active_job[OF inv n was]
  note tally = job_tally[OF inv n, unfolded ph]
  show ?thesis
    using st held tally
    by (auto simp: end_step_def good_step_def next_running_def next_bound_def was Let_def fun_upd_idem
        count_category_ok finish_case_bound)
qed

lemma leave_good:
  assumes inv: "sys_inv s" and n: "n < length (sys_jobs s)" and ph: "jb_phase (sys_jobs s ! n) = Between k t"
    and st: "leave e (sys_jobs s ! n) t (sys_ex s) = (p, x)"
  shows "good_step s n p x"
proof -
  have was: "active (sys_jobs s ! n)" by (simp add: active_def ph)
  note held = active_job[OF inv n was]
  show ?thesis
    using st held ph
    by (auto simp: leave_def good_step_def next_running_def next_bound_def was Let_def fun_upd_idem)
qed

lemma sys_inv_start:
  assumes "sys_inv s" "bound_id t = bound_id (ex_tools (sys_ex s))"
  shows "sys_inv (s\<lparr>sys_ex := with_tools (sys_ex s) t,
      sys_jobs := sys_jobs s @ [\<lparr>jb_cycle = c, jb_inst = inst, jb_run = run, jb_phase = Waiting\<rparr>]\<rparr>)"
    (is "sys_inv ?s")
proof -
  have "holds ?s n dev \<longleftrightarrow> holds s n dev" for n dev
    by (auto simp: holds_def active_def nth_append less_Suc_eq)
  moreover have "sys_jobs ?s ! n = sys_jobs s ! n" if "holds s n dev" for n dev
    using that by (simp add: holds_def nth_append)
  ultimately show ?thesis
    using assms by (auto simp: sys_inv_def exclusive_def bindings_def tallies_def)
qed

lemma sys_inv_tools:
  assumes "sys_inv s" "bound_id t = bound_id (ex_tools (sys_ex s))"
  shows "sys_inv (s\<lparr>sys_ex := with_tools (sys_ex s) t\<rparr>)"
proof -
  have "holds (s\<lparr>sys_ex := with_tools (sys_ex s) t\<rparr>) n dev \<longleftrightarrow> holds s n dev" for n dev
    by (simp add: holds_def)
  then show ?thesis using assms by (simp add: sys_inv_def exclusive_def bindings_def tallies_def)
qed

lemma sys_inv_step: "sys_step te s s' \<Longrightarrow> sys_inv s \<Longrightarrow> sys_inv s'"
proof (induction rule: sys_step.induct)
  case (start now rnd cycleID inst trigger buildID s c run d)
  show ?case by (rule sys_inv_start[OF start.prems]) (simp add: bound_id_def fun_eq_iff)
next
  case (tool_call c s s')
  show ?case by (rule sys_inv_tools[OF tool_call.prems]) (simp add: tool_call.hyps[symmetric] run_tool_bound)
qed (blast intro: sys_inv_put_job enter_good begin_good end_good leave_good)+

lemma sys_inv_idle: "sys_inv (idle d)"
  by (simp add: sys_inv_def idle_def exclusive_def holds_def bindings_def tallies_def bound_id_def new_mcp_def)

lemma sys_reachable_inv: "sys_reachable te s \<Longrightarrow> sys_inv s"
  by (induction rule: sys_reachable.induct) (auto intro: sys_inv_idle sys_inv_step)

text \<open>C3: however cycle runs, their agents and interactive tool calls interleave, at most one cycle run
  is active on a device and the device is marked in use exactly then; a device is bound to a case run exactly while its
  job is in that case; and the totals of every run count each finished case once.\<close>

theorem cycle_runs_interleave_safely:
  assumes "sys_reachable te s"
  shows "exclusive s \<and> bindings s \<and> tallies s"
  using sys_reachable_inv[OF assms] by (simp add: sys_inv_def)

section \<open>The sequential run is one of the behaviours\<close>

lemma sys_step_tools:
  "(sys_step te)\<^sup>*\<^sup>* s (s\<lparr>sys_ex := with_tools (sys_ex s) (run_tools te cs (ex_tools (sys_ex s)))\<rparr>)"
proof (induction cs arbitrary: s)
  case Nil
  then show ?case by (simp add: run_tools_def with_tools_def)
next
  case (Cons c cs)
  let ?s1 = "s\<lparr>sys_ex := with_tools (sys_ex s) (snd (run_tool te c (ex_tools (sys_ex s))))\<rparr>"
  have "sys_step te s ?s1" by (rule sys_step.tool_call) simp
  moreover have "(sys_step te)\<^sup>*\<^sup>* ?s1
     (?s1\<lparr>sys_ex := with_tools (sys_ex ?s1) (run_tools te cs (ex_tools (sys_ex ?s1)))\<rparr>)" by (rule Cons.IH)
  ultimately show ?case by (simp add: run_tools_def with_tools_def)
qed

text \<open>The system with one job.\<close>

definition solo :: "TestCycle \<Rightarrow> string \<Rightarrow> CycleRun \<Rightarrow> phase \<Rightarrow> executor \<Rightarrow> system" where
  "solo c inst run p x =
    \<lparr>sys_ex = x, sys_jobs = [\<lparr>jb_cycle = c, jb_inst = inst, jb_run = run, jb_phase = p\<rparr>]\<rparr>"

lemma solo_put_job [simp]: "put_job 0 p' x' (solo c inst run p x) = solo c inst run p' x'"
  by (simp add: put_job_def solo_def)

lemma solo_case:
  assumes "k < length (cyc_CaseIDs c)"
  shows "(sys_step (ee_tools e))\<^sup>*\<^sup>* (solo c inst run (Between k t) x)
    (case count_case run t (runCase e (crun_ID run) inst k (cyc_CaseIDs c ! k) (ex_tools x)) of
       (t', s') \<Rightarrow> solo c inst run (Between (k + 1) t') (with_tools x s'))"
proof -
  let ?S = "solo c inst run"
  let ?b = "begin_case e (crun_ID run) inst k (cyc_CaseIDs c ! k) (ex_tools x)"
  obtain res s1 where b: "?b = (res, s1)" by fastforce
  have beg: "sys_step (ee_tools e) (?S (Between k t) x) (?S p x')"
    if "begun k t run x ?b = (p, x')" for p x'
    using sys_step.begin_case[of 0 "?S (Between k t) x" k t e p x' "ee_tools e"] that assms
    by (simp add: solo_def begin_step_def put_job_def)
  show ?thesis
  proof (cases res)
    case (Inl category)
    then show ?thesis
      using beg[of "Between (k + 1) (count_category category t)"] b
      by (auto simp: runCase_def count_case_def)
  next
    case (Inr q)
    obtain tc r where q: "q = (tc, r)" by (cases q)
    obtain calls terminal err where ag:
      "ee_agent e (''cyc-'' @ crun_ID run @ ''-'' @ nat_text k) (renderCasePrompt tc) s1 = (calls, terminal, err)"
      by (metis prod_cases3)
    let ?s2 = "run_tools (ee_tools e) calls s1"
    let ?fin = "finish_case e inst k tc r terminal err ?s2"
    have 1: "sys_step (ee_tools e) (?S (Between k t) x) (?S (InCase k t tc r) (with_tools x s1))"
      by (rule beg) (simp add: b Inr q)
    have 2: "(sys_step (ee_tools e))\<^sup>*\<^sup>* (?S (InCase k t tc r) (with_tools x s1))
        (?S (InCase k t tc r) (with_tools x ?s2))"
      using sys_step_tools[of "ee_tools e" "?S (InCase k t tc r) (with_tools x s1)" calls]
      by (simp add: solo_def with_tools_def)
    have 3: "sys_step (ee_tools e) (?S (InCase k t tc r) (with_tools x ?s2))
        (?S (Between (k + 1) (count_category (fst ?fin) t)) (with_tools x (save_totals run (count_category (fst ?fin) t) (snd ?fin))))"
      using sys_step.end_case[of 0 "?S (InCase k t tc r) (with_tools x ?s2)" k t tc r e terminal err _ _ "ee_tools e"]
      by (simp add: solo_def end_step_def put_job_def Let_def with_tools_def)
    have "runCase e (crun_ID run) inst k (cyc_CaseIDs c ! k) (ex_tools x) = ?fin"
      using b Inr q ag by (simp add: runCase_def)
    then show ?thesis
      using rtranclp.rtrancl_into_rtrancl[OF rtranclp_trans[OF r_into_rtranclp[of "sys_step (ee_tools e)", OF 1] 2] 3]
      by (simp add: count_case_def)
  qed
qed

lemma solo_cases:
  assumes "run_cases e run inst k cs (t, ex_tools x) = (t', s')" "drop k (cyc_CaseIDs c) = cs" "k \<le> length (cyc_CaseIDs c)"
  shows "(sys_step (ee_tools e))\<^sup>*\<^sup>* (solo c inst run (Between k t) x)
    (solo c inst run (Between (length (cyc_CaseIDs c)) t') (with_tools x s'))"
  using assms
proof (induction cs arbitrary: k t x)
  case Nil
  then have "s' = ex_tools x" "t' = t" "k = length (cyc_CaseIDs c)" by simp_all
  then show ?case by (simp add: with_tools_def)
next
  case (Cons i cs)
  have "k < length (cyc_CaseIDs c)" using Cons.prems(2) by (auto intro: ccontr)
  moreover from this have "cyc_CaseIDs c ! k = i \<and> drop (k + 1) (cyc_CaseIDs c) = cs"
    using Cons.prems(2) Cons_nth_drop_Suc[of k "cyc_CaseIDs c"] by simp
  ultimately have k: "k < length (cyc_CaseIDs c)" "cyc_CaseIDs c ! k = i" "drop (k + 1) (cyc_CaseIDs c) = cs"
    by simp_all
  obtain t1 s1 where r: "count_case run t (runCase e (crun_ID run) inst k i (ex_tools x)) = (t1, s1)" by fastforce
  have "run_cases e run inst (k + 1) cs (t1, s1) = (t', s')" using Cons.prems(1) by (simp add: r)
  then have "(sys_step (ee_tools e))\<^sup>*\<^sup>* (solo c inst run (Between (k + 1) t1) (with_tools x s1))
    (solo c inst run (Between (length (cyc_CaseIDs c)) t') (with_tools (with_tools x s1) s'))"
    using k by (intro Cons.IH) simp_all
  moreover have "(sys_step (ee_tools e))\<^sup>*\<^sup>* (solo c inst run (Between k t) x)
      (solo c inst run (Between (k + 1) t1) (with_tools x s1))"
    using solo_case[OF k(1), of e inst run t x] by (simp add: k(2) r)
  ultimately show ?case by (simp add: with_tools_def)
qed

lemma solo_enter:
  "enter e \<lparr>jb_cycle = c, jb_inst = inst, jb_run = run, jb_phase = Waiting\<rparr> x = (p, x') \<Longrightarrow>
    sys_step te (solo c inst run Waiting x) (solo c inst run p x')"
  using sys_step.enter[of 0 "solo c inst run Waiting x" e p x' te] by (simp add: solo_def put_job_def)

lemma execute_steps:
  "(sys_step (ee_tools e))\<^sup>*\<^sup>* (solo c inst run Waiting x) (solo c inst run Finished (execute e c inst run x))"
proof (cases "ex_running x inst")
  case True
  then show ?thesis
    by (intro r_into_rtranclp solo_enter) (simp add: enter_def execute_def)
next
  case free: False
  show ?thesis
  proof (cases "GetInstance inst (tl_db (ex_tools x))")
    case (Inl err)
    then have "execute e c inst run x = finishCycle e run ''failed'' x"
      using free by (simp add: execute_def execute_on_def finishCycle_def release_def Let_def fun_upd_idem)
    then show ?thesis
      using Inl free by (intro r_into_rtranclp solo_enter) (simp add: enter_def)
  next
    case (Inr i)
    let ?x1 = "x\<lparr>ex_running := (ex_running x)(inst := True), ex_tools := installed e i run (ex_tools x)\<rparr>"
    obtain t s where rc: "run_cases e run inst 0 (cyc_CaseIDs c) (zero_totals c, installed e i run (ex_tools x)) = (t, s)"
      by fastforce
    have 1: "sys_step (ee_tools e) (solo c inst run Waiting x) (solo c inst run (Between 0 (zero_totals c)) ?x1)"
      by (rule solo_enter) (simp add: enter_def Inr free)
    have 2: "(sys_step (ee_tools e))\<^sup>*\<^sup>* (solo c inst run (Between 0 (zero_totals c)) ?x1)
        (solo c inst run (Between (length (cyc_CaseIDs c)) t) (with_tools ?x1 s))"
      by (rule solo_cases) (simp_all add: rc)
    let ?final = "release inst (finishCycle e (run\<lparr>crun_Totals := t\<rparr>) (verdict t) (with_tools ?x1 s))"
    have 3: "sys_step (ee_tools e) (solo c inst run (Between (length (cyc_CaseIDs c)) t) (with_tools ?x1 s))
        (solo c inst run Finished ?final)"
      using sys_step.leave[of 0 "solo c inst run (Between (length (cyc_CaseIDs c)) t) (with_tools ?x1 s)"
          "length (cyc_CaseIDs c)" t e Finished ?final "ee_tools e"]
      by (simp add: solo_def leave_def put_job_def)
    have "execute e c inst run x = ?final"
    proof -
      have "execute_on e c inst run (x\<lparr>ex_running := (ex_running x)(inst := True)\<rparr>)
          = finishCycle e (run\<lparr>crun_Totals := t\<rparr>) (verdict t) (with_tools ?x1 s)"
        using rc by (simp add: execute_on_def Inr installed_def with_tools_def split: if_splits)
      then show ?thesis using free by (simp add: execute_def)
    qed
    then show ?thesis
      using rtranclp.rtrancl_into_rtrancl[OF rtranclp_trans[OF r_into_rtranclp[of "sys_step (ee_tools e)", OF 1] 2] 3]
      by simp
  qed
qed


lemma sys_reachable_steps: "(sys_step te)\<^sup>*\<^sup>* s s' \<Longrightarrow> sys_reachable te s \<Longrightarrow> sys_reachable te s'"
  by (induction rule: rtranclp_induct) (auto intro: sys_reachable.step)

lemma sample_start_ok:
  "is_ok (fst (Start 3 [6] ''cycle_01'' ''phy_02'' CycleTriggerManual [] sample_cases_db))"
  by code_simp

theorem cycle_runs_interleave_safely_witness:
  "\<exists>s. exclusive s \<and> bindings s \<and> tallies s \<and> map jb_phase (sys_jobs s) = [Finished]"
proof -
  obtain c run d where st: "Start 3 [6] ''cycle_01'' ''phy_02'' CycleTriggerManual [] sample_cases_db = (Inr (c, run), d)"
    using sample_start_ok
    by (cases "Start 3 [6] ''cycle_01'' ''phy_02'' CycleTriggerManual [] sample_cases_db")
      (auto simp: is_ok_def split: sum.splits)
  let ?te = "ee_tools (sample_exec both_steps)"
  let ?x = "with_tools (sys_ex (idle sample_cases_db)) ((ex_tools (sys_ex (idle sample_cases_db)))\<lparr>tl_db := d\<rparr>)"
  have "sys_step ?te (idle sample_cases_db) (solo c ''phy_02'' run Waiting ?x)"
    using sys_step.start[of 3 "[6]" "''cycle_01''" "''phy_02''" CycleTriggerManual "[]" "idle sample_cases_db" c run d ?te] st
    by (simp add: idle_def solo_def)
  then have "sys_reachable ?te (solo c ''phy_02'' run Waiting ?x)"
    by (rule sys_reachable.step[OF sys_reachable.idle])
  from sys_reachable_steps[OF execute_steps this]
  have "sys_reachable ?te (solo c ''phy_02'' run Finished (execute (sample_exec both_steps) c ''phy_02'' run ?x))" .
  from cycle_runs_interleave_safely[OF this] show ?thesis
    by (intro exI[of _ "solo c ''phy_02'' run Finished (execute (sample_exec both_steps) c ''phy_02'' run ?x)"])
      (simp add: solo_def)
qed

text \<open>
  A case that begins takes over the active device, so that every step report that follows is
  recorded in its run, also one by the agent of another run whose case is still going on.
\<close>

lemma reports_go_to_the_last_begun_case:
  assumes "begin_case e cr inst k c s = (Inr (tc, r), s')" "inst \<noteq> []" "te_sink t"
  shows "\<exists>b. bound_run t s' = Some (inst, b) \<and> br_runID b = run_ID r"
  using assms
  by (auto simp: begin_case_def with_db_def Let_def on_mcp_def BindRun_def SetActive_def bound_run_def
      resolveDevice_def split: sum.splits prod.splits)

end
