(* ===== verification/Appliance.thy ===== *)
theory Appliance
  imports Api Device_Watch Cycle_Interleaving
begin

text \<open>
  The appliance as a whole: the start of the server program, backend/cmd/opencuttles-api/main.go, and
  the parts that it runs side by side.  They share the database: requests to the API, the
  background jobs of the orchestrator, the poll of the handsets, the scheduler, the cycle runs with the
  tool calls of their agents, the test runs and the reports of the runner tunnel.  Every part moves
  the database by statements of the store only, so the invariant of the database holds whatever they do
  and in whatever order.
\<close>

section \<open>The start\<close>

text \<open>What main does to the database before it serves requests.\<close>

definition startup :: "env \<Rightarrow> host \<Rightarrow> time \<Rightarrow> world \<Rightarrow> world" where
  "startup e h now w =
    (let w1 = Reconcile e h now (w\<lparr>w_db := PruneExpiredSessions now (w_db w)\<rparr>)
     in w1\<lparr>w_db := snd (FailStrandedCycleRuns now ''interrupted by API restart'' (w_db w1))\<rparr>)"

section \<open>The jobs of the orchestrator move the database by statements\<close>

abbreviation fleet_steps :: "db \<Rightarrow> db \<Rightarrow> bool" where
  "fleet_steps \<equiv> fleet_step\<^sup>*\<^sup>*"

lemma fleet_then: "fleet_steps d d1 \<Longrightarrow> fleet_step d1 d2 \<Longrightarrow> fleet_steps d d2"
  by (rule rtranclp.rtrancl_into_rtrancl)

lemma job_writes:
  assumes "fleet_steps d (w_db w)"
  shows "fleet_steps d (w_db (setState now k st m w))" "fleet_steps d (w_db (finishOp now oid st m w))"
  using assms
  by (simp_all add: setState_def finishOp_def fleet_then fleet_step.update_state fleet_step.finish_operation)

lemma job_ends:
  assumes "fleet_steps d (w_db w)"
  shows "fleet_steps d (w_db (fail_job now k oid err w))" "fleet_steps d (w_db (finish_failed now oid err w))"
  by (simp_all add: fail_job_def finish_failed_def job_writes assms)

lemma job_put_state: "fleet_steps d (w_db w) \<Longrightarrow> fleet_steps d (w_db (snd (put_state now k st w)))"
  using fleet_step.update_state[of "w_db w" now k st "[]"]
  by (auto simp: put_state_def intro: fleet_then split: prod.split)

lemma job_console: "fleet_steps d (w_db w) \<Longrightarrow> fleet_steps d (w_db (finalizeConsole e h now i w))"
  by (simp add: finalizeConsole_def fleet_then fleet_step.update_console split: option.split)

lemma job_image: "fleet_steps d (w_db w) \<Longrightarrow> fleet_steps d (w_db (snd (ensureImage e h img w)))"
  by (auto simp: ensureImage_def Let_def run_command_def split: option.split prod.split
      intro!: fleet_then[OF _ fleet_step.image_status])

lemma job_commands:
  assumes "fleet_steps d (w_db w)"
  shows "fleet_steps d (w_db (snd (launch e h i w)))" "fleet_steps d (w_db (snd (waitReady e h i w)))"
    "fleet_steps d (w_db (snd (stop e h i w)))" "fleet_steps d (w_db (snd (isADBReachable e h i w)))"
  using assms by simp_all

lemma job_stage:
  assumes "fleet_steps d (w_db (snd m))"
    and "\<And>err w. fleet_steps d (w_db w) \<Longrightarrow> fleet_steps d (w_db (f err w))"
    and "\<And>x w. fleet_steps d (w_db w) \<Longrightarrow> fleet_steps d (w_db (g x w))"
  shows "fleet_steps d (w_db (case m of (Inl err, w) \<Rightarrow> f err w | (Inr x, w) \<Rightarrow> g x w))"
  using assms by (cases m) (auto split: sum.split)

lemma job_look:
  "(\<And>err. fleet_steps d (w_db (f err))) \<Longrightarrow> (\<And>x. fleet_steps d (w_db (g x)))
    \<Longrightarrow> fleet_steps d (w_db (case r of Inl err \<Rightarrow> f err | Inr x \<Rightarrow> g x))"
  by (cases r) simp_all

lemma job_if: "fleet_steps d (w_db w) \<Longrightarrow> fleet_steps d (w_db w') \<Longrightarrow> fleet_steps d (w_db (if b then w else w'))"
  by simp

lemmas job_rules = job_stage job_look job_writes job_ends job_put_state job_console job_image job_commands

lemma starting_jobs:
  "fleet_steps (w_db w) (w_db (runStart e h now k oid w))" "fleet_steps (w_db w) (w_db (runDeploy e h now k oid w))"
  "fleet_steps (w_db w) (w_db (runStop e h now k oid i w))"
  unfolding runStart_def runDeploy_def runStop_def by (intro job_rules rtranclp.rtrancl_refl; assumption?)+

lemma deleting_job: "fleet_steps (w_db w) (w_db (runDelete e h now k oid i w))"
proof -
  have del: "fleet_steps d (w_db (case DeleteInstance k (w_db w2) of
      (Inl err, d') \<Rightarrow> finish_failed now oid err (w2\<lparr>w_db := d'\<rparr>)
    | (Inr u, d') \<Rightarrow> finishOp now oid ''succeeded'' ''instance deleted'' (w2\<lparr>w_db := d'\<rparr>)))"
    if "fleet_steps d (w_db w2)" for d w2
    using fleet_then[OF that fleet_step.delete_instance[of "w_db w2" k]]
    by (auto split: sum.split prod.split intro!: job_rules)
  have start: "fleet_steps (w_db w) (w_db (snd (if b then stop e h i w else (Inr (), w))))" for b
    by simp
  show ?thesis
    unfolding runDelete_def Let_def by (intro job_stage start job_ends del) simp_all
qed

lemma reconcile_one_steps: "fleet_steps d (w_db w) \<Longrightarrow> fleet_steps d (w_db (reconcile_one e h now i w))"
  by (cases "waitReady e h i w"; cases "isADBReachable e h i w")
    (auto simp: reconcile_one_def Let_def job_writes dest: waitReady_pair pair_db[OF isADBReachable_db]
      split: sum.split bool.split)

lemma Reconcile_steps: "fleet_steps (w_db w) (w_db (Reconcile e h now w))"
proof -
  have "fleet_steps d (w_db w') \<Longrightarrow> fleet_steps d (w_db (foldl (\<lambda>w i. reconcile_one e h now i w) w' is))" for d w' "is"
    by (induction "is" arbitrary: w') (simp_all add: reconcile_one_steps)
  then show ?thesis unfolding Reconcile_def by simp
qed

section \<open>The poll, the scheduler and the runs move it by statements too\<close>

lemma refresh_steps: "fleet_steps d (wt_db w) \<Longrightarrow> fleet_steps d (wt_db (refreshDisplay e now dev w))"
proof -
  assume d: "fleet_steps d (wt_db w)"
  have same: "wt_db w1 = wt_db w0" if "watch_run e args w0 = (r, w1)" for args w0 r w1
    using that watch_run_db[of e args w0] by simp
  have "fleet_steps d (UpdateInstanceDisplay now k wd ht dpi (wt_db w))" for k wd ht dpi
    by (rule fleet_then[OF d fleet_step.update_display])
  then show ?thesis
    using d by (auto simp: refreshDisplay_def Let_def same split: prod.split option.split sum.split)
qed

lemma settle_steps: "fleet_steps d (wt_db w) \<Longrightarrow> fleet_steps d (wt_db (reconcile e now dev st w))"
proof -
  assume d: "fleet_steps d (wt_db w)"
  have "fleet_steps d (snd (UpdateInstanceState now k st m (wt_db w)))" for k st m
    by (rule fleet_then[OF d fleet_step.update_state])
  then have "fleet_steps d d1" if "UpdateInstanceState now k st m (wt_db w) = (r, d1)" for k st m r d1
    using that by (metis snd_conv)
  then show ?thesis using d
    by (auto simp: reconcile_def Let_def intro!: refresh_steps split: prod.split sum.split)
qed

lemma poll_steps: "fleet_steps (wt_db w) (wt_db (pollOnce e now w))"
proof -
  have all: "fleet_steps d (wt_db w') \<Longrightarrow> fleet_steps d (wt_db (reconcile_all e now seen ds w'))" for d w' seen ds
    by (induction e now seen ds w' rule: reconcile_all.induct) (simp_all add: settle_steps)
  have same: "wt_db w1 = wt_db w0" if "adbDevices e w0 = (r, w1)" for w0 r w1
    using that adbDevices_db[of e w0] by simp
  show ?thesis by (auto simp: pollOnce_def Let_def same split: prod.split intro!: all)
qed

abbreviation test_steps :: "db \<Rightarrow> db \<Rightarrow> bool" where
  "test_steps \<equiv> tests_step\<^sup>*\<^sup>*"

lemma test_then: "test_steps d d1 \<Longrightarrow> tests_step d1 d2 \<Longrightarrow> test_steps d d2"
  by (rule rtranclp.rtrancl_into_rtrancl)

lemma one_test_step: "tests_step d d' \<Longrightarrow> test_steps d d'" by (rule r_into_rtranclp)

lemma Start_test_rows: "test_steps d (snd (Start now rnd k iid trg bid d))"
proof -
  have "test_steps d (snd (CreateCycleRun now rnd r d))" for r
    by (rule one_test_step[OF tests_step.create_cycle_run])
  then have "test_steps d d1" if "CreateCycleRun now rnd r d = (x, d1)" for r x d1
    using that by (metis snd_conv)
  then show ?thesis by (auto simp: Start_def split: sum.split prod.split)
qed

lemma tick_steps: "test_steps d (snd (tick e now d))"
proof -
  have "test_steps d1 (snd (started_runs (Start n rnd k iid trg bid d1)))" for n rnd k iid trg bid d1
    using Start_test_rows[of d1 n rnd k iid trg bid]
    by (cases "Start n rnd k iid trg bid d1" rule: started_runs.cases) auto
  then have "test_steps d1 (snd (launch_cycle e n c r d1))" for e n c r d1 by (cases r) auto
  then have one: "test_steps d1 (snd (tick_cycle e now n c d1))" for e now n c d1
    unfolding tick_cycle_def Let_def by (rule rtranclp_trans[OF one_test_step[OF tests_step.set_schedule]])
  have "test_steps d1 (snd (tick_cycles e now n cs d1))" for n cs d1
  proof (induction e now n cs d1 rule: tick_cycles.induct)
    case (2 e now n c cs d1)
    then show ?case using one[of d1 e now n c] by (auto split: prod.split intro: rtranclp_trans[of tests_step d1])
  qed simp
  then show ?thesis by (simp add: tick_def)
qed

lemma tool_steps: "test_steps (tl_db s) (tl_db (snd (run_tool t c s)))"
proof (cases "\<exists>i st n. c = CReport i st n")
  case True
  then obtain i st n where c: "c = CReport i st n" by blast
  have snd_unit: "snd (unit_of m s) = snd (m s)" for m :: "bool tool"
    by (simp add: unit_of_def bnd_def ret_apply split: prod.split sum.split)
  show ?thesis
  proof (cases "bound_run t s")
    case None
    then show ?thesis by (simp add: c snd_unit report_unbound)
  next
    case (Some q)
    then obtain iid b where "bound_run t s = Some (iid, b)" by (cases q) auto
    moreover have "test_steps (tl_db s) (snd (AppendStep k r (tl_db s)))" for k r
      by (rule one_test_step[OF tests_step.append_step])
    ultimately show ?thesis using report_bound[of t s iid b i st n] by (auto simp: c snd_unit)
  qed
next
  case False
  then have "tl_db (snd (run_tool t c s)) = tl_db s"
    using run_tool_effect[of t c s] by (cases c) (auto simp: keeps_def)
  then show ?thesis by simp
qed

lemma finish_cycle_steps:
  "test_steps d (tl_db (ex_tools x)) \<Longrightarrow> test_steps d (tl_db (ex_tools (finishCycle e run st x)))"
  by (simp add: finishCycle_def Let_def test_then tests_step.update_cycle_run)

lemma begin_case_steps: "test_steps (tl_db s) (tl_db (snd (begin_case e cr iid k c s)))"
proof -
  have "test_steps (tl_db s) (snd (CreateCaseRun now rnd cr c iid (tl_db s)))" for now rnd
    by (rule one_test_step[OF tests_step.create_case_run])
  then have "test_steps (tl_db s) d1" if "CreateCaseRun now rnd cr c iid (tl_db s) = (r, d1)" for now rnd r d1
    using that by (metis snd_conv)
  then show ?thesis by (auto simp: begin_case_def with_db_def on_mcp_def Let_def split: sum.split prod.split)
qed

lemma finish_case_steps: "test_steps (tl_db s) (tl_db (snd (finish_case e iid k tc r terminal err s)))"
proof -
  obtain x y z where "classifyCase (run_Steps (reload r (tl_db s))) (length (case_Steps tc)) err terminal = (x, y, z)"
    by (metis prod_cases3)
  then show ?thesis
    by (simp add: finish_case_def judge_case_def on_mcp_def one_test_step tests_step.update_run)
qed

lemma save_totals_steps: "test_steps d (tl_db s) \<Longrightarrow> test_steps d (tl_db (save_totals run t s))"
  by (simp add: save_totals_def test_then tests_step.update_cycle_run)

lemma sys_steps: "sys_step te s s' \<Longrightarrow> test_steps (tl_db (ex_tools (sys_ex s))) (tl_db (ex_tools (sys_ex s')))"
proof (induction rule: sys_step.induct)
  case (start now rnd cycleID inst trigger buildID s c run d)
  then show ?case using Start_test_rows[of "tl_db (ex_tools (sys_ex s))" now rnd cycleID inst trigger buildID]
    by (simp add: with_tools_def)
next
  case (enter n s e p x)
  have i: "tl_db (installed e i run t) = tl_db t" for i run t by (simp add: installed_def)
  from enter(3) show ?case by (auto simp: enter_def i finish_cycle_steps split: if_splits sum.splits)
next
  case (begin_case n s k t e p x)
  let ?b = "begin_case e (crun_ID (jb_run (sys_jobs s ! n))) (jb_inst (sys_jobs s ! n)) k
    (cyc_CaseIDs (jb_cycle (sys_jobs s ! n)) ! k) (ex_tools (sys_ex s))"
  obtain r s1 where b: "?b = (r, s1)" by (metis surj_pair)
  have "test_steps (tl_db (ex_tools (sys_ex s))) (tl_db (snd ?b))" by (rule begin_case_steps)
  then show ?case using begin_case(4) unfolding begin_step_def b
    by (cases r) (auto simp: with_tools_def intro: save_totals_steps)
next
  case (tool_call c s s')
  then show ?case using tool_steps[of "ex_tools (sys_ex s)" te c] by (simp add: with_tools_def)
next
  case (end_case n s k t tc r e terminal err p x)
  have "test_steps (tl_db (ex_tools (sys_ex s)))
      (tl_db (snd (finish_case e (jb_inst (sys_jobs s ! n)) k tc r terminal err (ex_tools (sys_ex s)))))"
    by (rule finish_case_steps)
  then show ?case using end_case(3) by (auto simp: end_step_def Let_def with_tools_def intro: save_totals_steps)
next
  case (leave n s k t e p x)
  then show ?case by (auto simp: leave_def intro: finish_cycle_steps)
qed

lemma test_run_steps: "test_steps (tl_db s) (tl_db (execute_test e rd t i run s))"
proof -
  have save: "test_steps d (tl_db s') \<Longrightarrow> test_steps d (tl_db (save_run e' r s'))" for e' d r s'
    by (simp add: save_run_def test_then tests_step.update_run)
  have stp: "tl_db s2 = tl_db s1" if "runStep e' iid n tx dir s1 = (r, s2)" for e' iid n tx dir s1 r s2
    using keeps_runStep(3)[OF that] .
  have loop: "test_steps d (tl_db s') \<Longrightarrow> test_steps d (tl_db (snd (snd (run_steps e iid dir n texts r s'))))"
    for d iid dir n texts r s'
  proof (induction e iid dir n texts r s' rule: run_steps.induct)
    case (2 e iid dir n tx texts run s')
    obtain r s1 where r: "runStep e iid n tx dir s' = (r, s1)" by (metis surj_pair)
    then show ?case using 2 stp[OF r] save[of d s1 e] by (auto simp: Let_def)
  qed simp
  have rec: "tl_db (snd (start_recording e i s)) = tl_db s"
    by (simp add: start_recording_def device_act_def split: prod.split)
  have stops: "tl_db (snd (stop_recording e i dir b r s')) = tl_db s'" for dir b r s'
    by (simp add: stop_recording_def device_act_def split: prod.split)
  have fin: "test_steps d (tl_db s') \<Longrightarrow> test_steps d (tl_db (finish e r b m s'))" for d r b m s'
    by (simp add: finish_def save)
  have aft: "test_steps d (tl_db (snd (snd p))) \<Longrightarrow> test_steps d (tl_db (after_steps e i dir b p))" for d dir b p
    using stops[of dir b "fst (snd p)" "snd (snd p)"]
    by (auto simp: after_steps_def fin split: prod.split)
  then show ?thesis
    using rec by (auto simp: execute_test_def Let_def fin split: option.split prod.split intro!: aft loop)
qed

section \<open>What the appliance can do to its database\<close>

text \<open>
  One step is what one part does to the database, from any state of what is its own: its memory (mcp, jobs
  and running cycles), the host, the devices and the clock.
\<close>

inductive app_step ::
  "(8 word list \<Rightarrow> 8 word list \<Rightarrow> 8 word list) \<Rightarrow> (8 word list \<Rightarrow> 8 word list) \<Rightarrow> db \<Rightarrow> db \<Rightarrow> bool"
  for hmac sha where
  start: "app_step hmac sha (w_db w) (w_db (startup e h now w))"
| request: "ae_hmac (ap_env a) = hmac \<Longrightarrow> ae_sha (ap_env a) = sha \<Longrightarrow>
    app_step hmac sha (sv_db s) (sv_db (snd (serve a r s)))"
| builds: "ae_hmac (tn_api te) = hmac \<Longrightarrow> ae_sha (tn_api te) = sha \<Longrightarrow>
    app_step hmac sha (sv_db s) (sv_db (triggerBuildCycles te b s))"
| online: "app_step hmac sha d (OnOnline now nt d)"
| start_job: "app_step hmac sha (w_db w) (w_db (runStart e h now k oid w))"
| deploy_job: "app_step hmac sha (w_db w) (w_db (runDeploy e h now k oid w))"
| stop_job: "app_step hmac sha (w_db w) (w_db (runStop e h now k oid i w))"
| delete_job: "app_step hmac sha (w_db w) (w_db (runDelete e h now k oid i w))"
| poll: "app_step hmac sha (wt_db w) (wt_db (pollOnce de now w))"
| tick: "app_step hmac sha d (snd (tick ke now d))"
| cycle_run: "sys_step tv s s' \<Longrightarrow> app_step hmac sha (tl_db (ex_tools (sys_ex s))) (tl_db (ex_tools (sys_ex s')))"
| tool: "app_step hmac sha (tl_db s) (tl_db (snd (run_tool tv c s)))"
| test_run: "app_step hmac sha (tl_db s) (tl_db (execute_test re rd t i run s))"

inductive app_reachable ::
  "(8 word list \<Rightarrow> 8 word list \<Rightarrow> 8 word list) \<Rightarrow> (8 word list \<Rightarrow> 8 word list) \<Rightarrow> db \<Rightarrow> bool"
  for hmac sha where
  fresh: "app_reachable hmac sha empty_db"
| step: "app_reachable hmac sha d \<Longrightarrow> app_step hmac sha d d' \<Longrightarrow> app_reachable hmac sha d'"

lemma fleet_moves: "fleet_steps d d' \<Longrightarrow> (db_step hmac sha)\<^sup>*\<^sup>* d d'"
  by (induction rule: rtranclp_induct) (auto intro: db_step.on_fleet rtranclp.rtrancl_into_rtrancl)

lemma tests_move: "test_steps d d' \<Longrightarrow> (db_step hmac sha)\<^sup>*\<^sup>* d d'"
  by (induction rule: rtranclp_induct) (auto intro: db_step.on_tests rtranclp.rtrancl_into_rtrancl)

lemma startup_moves: "(db_step hmac sha)\<^sup>*\<^sup>* (w_db w) (w_db (startup e h now w))"
proof -
  let ?w = "w\<lparr>w_db := PruneExpiredSessions now (w_db w)\<rparr>"
  have "(db_step hmac sha)\<^sup>*\<^sup>* (w_db w) (w_db ?w)" using one_account[OF auth_step.prune] by simp
  moreover have "(db_step hmac sha)\<^sup>*\<^sup>* (w_db ?w) (w_db (Reconcile e h now ?w))"
    by (rule fleet_moves[OF Reconcile_steps])
  moreover have "(db_step hmac sha)\<^sup>*\<^sup>* (w_db (Reconcile e h now ?w)) (w_db (startup e h now w))"
    using one_test[OF tests_step.fail_stranded] by (simp add: startup_def Let_def)
  ultimately show ?thesis by (meson rtranclp_trans)
qed

text \<open>Every step is a sequence of statements of the store.\<close>

lemma app_step_moves: "app_step hmac sha d d' \<Longrightarrow> (db_step hmac sha)\<^sup>*\<^sup>* d d'"
proof (induction rule: app_step.induct)
  case (start w e h now)
  show ?case by (rule startup_moves)
next
  case (request a s r)
  then show ?case using serve_moves[of a s r] by simp
next
  case (builds te s b)
  then show ?case unfolding triggerBuildCycles_def using trigger_moves[of te s] by simp
next
  case (online d now nt)
  show ?case by (cases nt) (simp add: OnOnline_def one_fleet[OF fleet_step.update_state])
qed (auto intro: fleet_moves tests_move starting_jobs deleting_job poll_steps tick_steps sys_steps tool_steps test_run_steps)



section \<open>After the start\<close>

lemma fleet_steps_frame: "fleet_steps d d' \<Longrightarrow> not_fleet d' = not_fleet d"
  by (induction rule: rtranclp_induct) (auto dest: fleet_step_frame)


definition interrupted :: world where
  "interrupted = (sample_world StateStopping)
     \<lparr>w_db := (w_db (sample_world StateStopping))\<lparr>db_cycle_runs := [sample_run\<lparr>crun_Status := ''running''\<rparr>]\<rparr>\<rparr>"


end
