(* ===== verification/Cycle_Termination.thy ===== *)
theory Cycle_Termination
  imports Cycle_Interleaving
begin

text \<open>
  Every cycle run ends, backend/internal/scenario/cycle.go: a measure of what a job of the interleaved model
  (Cycle_Interleaving) has still to do, which each of its own steps decreases and no other step changes, and
  the progress of a job that has not finished.
\<close>

section \<open>Every cycle run ends\<close>

text \<open>The steps that a job has still to take, two for each case.\<close>

fun steps_left :: "nat \<Rightarrow> phase \<Rightarrow> nat" where
  "steps_left cases Waiting = 2 * cases + 2"
| "steps_left cases (Between k _) = 2 * (cases - k) + 1"
| "steps_left cases (InCase k _ _ _) = 2 * (cases - k)"
| "steps_left cases Finished = 0"

definition job_left :: "job \<Rightarrow> nat" where
  "job_left j = steps_left (length (cyc_CaseIDs (jb_cycle j))) (jb_phase j)"

lemma job_left_bound: "job_left j \<le> 2 * length (cyc_CaseIDs (jb_cycle j)) + 2"
  by (cases "jb_phase j") (simp_all add: job_left_def)

lemma enter_left:
  assumes "enter e j x = (p, x')"
  shows "steps_left n p < 2 * n + 2"
  using assms by (auto simp: enter_def split: if_splits sum.splits)

lemma begin_left:
  assumes "begin_step e j k t x = (p, x')" "k < n"
  shows "steps_left n p < 2 * (n - k) + 1"
proof -
  obtain r s where b: "begin_case e (crun_ID (jb_run j)) (jb_inst j) k (cyc_CaseIDs (jb_cycle j) ! k) (ex_tools x) = (r, s)"
    by (metis surj_pair)
  show ?thesis using assms unfolding begin_step_def b by (cases r) auto
qed

lemma end_left:
  assumes "end_step e j k t tc r terminal err x = (p, x')" "k < n"
  shows "steps_left n p < 2 * (n - k)"
  using assms by (auto simp: end_step_def Let_def)

lemma leave_left: "leave e j t x = (p, x') \<Longrightarrow> steps_left n p = 0"
  by (auto simp: leave_def)

text \<open>A step moves one job on, or leaves all of them where they were.\<close>

lemma put_job_left:
  assumes "m < length (sys_jobs s)"
    and "steps_left (length (cyc_CaseIDs (jb_cycle (sys_jobs s ! m)))) p < job_left (sys_jobs s ! m)"
    and "n < length (sys_jobs s)"
  shows "sys_jobs (put_job m p x s) ! n = sys_jobs s ! n
      \<or> job_left (sys_jobs (put_job m p x s) ! n) < job_left (sys_jobs s ! n)"
    and "jb_cycle (sys_jobs (put_job m p x s) ! n) = jb_cycle (sys_jobs s ! n)"
    and "n < length (sys_jobs (put_job m p x s))"
  using assms by (cases "m = n"; simp add: put_job_def job_left_def)+

definition moves_on :: "system \<Rightarrow> system \<Rightarrow> nat \<Rightarrow> bool" where
  "moves_on s s' n =
    (n < length (sys_jobs s') \<and> jb_cycle (sys_jobs s' ! n) = jb_cycle (sys_jobs s ! n)
     \<and> (sys_jobs s' ! n = sys_jobs s ! n \<or> job_left (sys_jobs s' ! n) < job_left (sys_jobs s ! n)))"

lemma moves_on_put_job:
  "m < length (sys_jobs s) \<Longrightarrow> n < length (sys_jobs s) \<Longrightarrow>
    steps_left (length (cyc_CaseIDs (jb_cycle (sys_jobs s ! m)))) p < job_left (sys_jobs s ! m) \<Longrightarrow>
    moves_on s (put_job m p x s) n"
  using put_job_left[of m s p n x] by (simp add: moves_on_def)

lemma step_moves_on:
  assumes "sys_step te s s'" "sys_inv s" "n < length (sys_jobs s)"
  shows "moves_on s s' n"
  using assms
proof (induction rule: sys_step.induct)
  case (start now rnd cycleID inst trigger buildID s c run d)
  then show ?case by (simp add: moves_on_def nth_append)
next
  case (enter m s e p x)
  then show ?case using enter_left[OF enter(3)]
    by (intro moves_on_put_job) (simp_all add: job_left_def)
next
  case (begin_case m s k t e p x)
  then show ?case using begin_left[OF begin_case(4,3)]
    by (intro moves_on_put_job) (simp_all add: job_left_def)
next
  case (tool_call c s s')
  then show ?case by (simp add: moves_on_def)
next
  case (end_case m s k t tc r e terminal err p x)
  have "phase_tally (jb_cycle (sys_jobs s ! m)) (jb_phase (sys_jobs s ! m))"
    using end_case(1,4) by (auto simp: sys_inv_def tallies_def list_all_length)
  then have "k < length (cyc_CaseIDs (jb_cycle (sys_jobs s ! m)))" using end_case(2) by simp
  from end_left[OF end_case(3) this] end_case show ?case
    by (intro moves_on_put_job) (simp_all add: job_left_def)
next
  case (leave m s k t e p x)
  then show ?case using leave_left[OF leave(4)] by (intro moves_on_put_job) (simp_all add: job_left_def)
qed

text \<open>A run of the system in which one job takes a number of steps of its own.\<close>

inductive takes :: "tool_env \<Rightarrow> nat \<Rightarrow> nat \<Rightarrow> system \<Rightarrow> system \<Rightarrow> bool" for te n where
  none: "takes te n 0 s s"
| other: "takes te n m s s1 \<Longrightarrow> sys_step te s1 s2 \<Longrightarrow> sys_jobs s2 ! n = sys_jobs s1 ! n \<Longrightarrow> takes te n m s s2"
| own: "takes te n m s s1 \<Longrightarrow> sys_step te s1 s2 \<Longrightarrow> sys_jobs s2 ! n \<noteq> sys_jobs s1 ! n \<Longrightarrow> takes te n (Suc m) s s2"

lemma takes_left:
  assumes "takes te n m s s'" "sys_inv s" "n < length (sys_jobs s)"
  shows "sys_inv s' \<and> n < length (sys_jobs s') \<and> jb_cycle (sys_jobs s' ! n) = jb_cycle (sys_jobs s ! n)
    \<and> m + job_left (sys_jobs s' ! n) \<le> job_left (sys_jobs s ! n)"
  using assms
proof (induction rule: takes.induct)
  case (other m s s1 s2)
  then show ?case using step_moves_on[of te s1 s2 n] sys_inv_step[of te s1 s2] by (auto simp: moves_on_def)
next
  case (own m s s1 s2)
  then show ?case using step_moves_on[of te s1 s2 n] sys_inv_step[of te s1 s2] by (auto simp: moves_on_def)
qed simp

text \<open>No job waits for another: while it is not finished, its next step is possible.\<close>

lemma job_can_go_on:
  assumes "sys_inv s" "n < length (sys_jobs s)" "jb_phase (sys_jobs s ! n) \<noteq> Finished"
  obtains p x where "sys_step te s (put_job n p x s)"
    "steps_left (length (cyc_CaseIDs (jb_cycle (sys_jobs s ! n)))) p < job_left (sys_jobs s ! n)"
proof -
  let ?j = "sys_jobs s ! n" and ?c = "length (cyc_CaseIDs (jb_cycle (sys_jobs s ! n)))"
  let ?e = "undefined :: exec_env"
  have ph: "phase_tally (jb_cycle ?j) (jb_phase ?j)"
    using assms(1,2) by (auto simp: sys_inv_def tallies_def list_all_length)
  show thesis
  proof (cases "jb_phase ?j")
    case Waiting
    obtain p x where q: "enter ?e ?j (sys_ex s) = (p, x)" by (metis surj_pair)
    show ?thesis using that[OF sys_step.enter[OF assms(2) Waiting q]] enter_left[OF q] Waiting
      by (simp add: job_left_def)
  next
    case (Between k t)
    show ?thesis
    proof (cases "k < ?c")
      case True
      obtain p x where q: "begin_step ?e ?j k t (sys_ex s) = (p, x)" by (metis surj_pair)
      show ?thesis using that[OF sys_step.begin_case[OF assms(2) Between True q]] begin_left[OF q True] Between
        by (simp add: job_left_def)
    next
      case False
      then have k: "k = ?c" using ph Between by simp
      obtain p x where q: "leave ?e ?j t (sys_ex s) = (p, x)" by (metis surj_pair)
      show ?thesis using that[OF sys_step.leave[OF assms(2) Between k q]] leave_left[OF q] Between
        by (simp add: job_left_def)
    qed
  next
    case (InCase k t tc r)
    then have k: "k < ?c" using ph by simp
    obtain p x where q: "end_step ?e ?j k t tc r [] None (sys_ex s) = (p, x)" by (metis surj_pair)
    show ?thesis using that[OF sys_step.end_case[OF assms(2) InCase q]] end_left[OF q k] InCase
      by (simp add: job_left_def)
  next
    case Finished
    then show ?thesis using assms(3) by simp
  qed
qed



end
