(* ===== verification/Retention.thy ===== *)
theory Retention
  imports Store_Auth
begin

text \<open>
  The pruning of old run artifacts, backend/internal/retention/retention.go.  The artifact root
  is the list of its entries as os.ReadDir gives them, or nothing when it cannot be read; an
  entry says whether its information can be read and whether its removal succeeds.  The age of
  the window is computed in the 64-bit nanoseconds of time.Duration.
\<close>

section \<open>The window\<close>

definition RetentionDaysSettingKey :: string where
  "RetentionDaysSettingKey = ''retention.days''"

definition defaultDays :: int where
  "defaultDays = 30"

definition retentionDays :: "db \<Rightarrow> int" where
  "retentionDays d =
    (let raw = trim_space (GetSetting RetentionDaysSettingKey d)
     in if raw = [] then defaultDays
        else case atoi raw of None \<Rightarrow> defaultDays | Some n \<Rightarrow> n)"

definition cutoff :: "time \<Rightarrow> int \<Rightarrow> time" where
  "cutoff now days = now + wrap64 (wrap64 (wrap64 (- days) * 24) * hour)"

section \<open>Pruning\<close>

record dir_entry =
  de_Name :: string
  de_IsDir :: bool
  de_ModTime :: "time option"
  de_Removable :: bool

definition spared :: "dir_entry \<Rightarrow> bool" where
  "spared f = (\<not> de_IsDir f \<or> de_Name f = ''builds'' \<or> has_prefix ''.'' (de_Name f))"

definition stale :: "time \<Rightarrow> dir_entry \<Rightarrow> bool" where
  "stale c f = (case de_ModTime f of None \<Rightarrow> False | Some t \<Rightarrow> t < c)"

text \<open>The loop over the entries: what is left, and how many directories were removed.\<close>

fun prune_entries :: "time \<Rightarrow> dir_entry list \<Rightarrow> dir_entry list \<times> nat" where
  "prune_entries c [] = ([], 0)"
| "prune_entries c (f # fs) =
    (case prune_entries c fs of
       (kept, removed) \<Rightarrow>
         (if spared f \<or> \<not> stale c f \<or> \<not> de_Removable f then (f # kept, removed)
          else (kept, removed + 1)))"

definition pruneOnce :: "time \<Rightarrow> db \<Rightarrow> dir_entry list option \<Rightarrow> dir_entry list option \<times> nat" where
  "pruneOnce now d root =
    (let days = retentionDays d
     in if days \<le> 0 then (root, 0)
        else case root of
            None \<Rightarrow> (None, 0)
          | Some fs \<Rightarrow> (case prune_entries (cutoff now days) fs of (kept, removed) \<Rightarrow> (Some kept, removed)))"

section \<open>What is removed\<close>

lemma cutoff_exact:
  assumes "0 < days" "days \<le> 106751"
  shows "cutoff now days = now - days * (24 * hour)"
proof -
  have "wrap64 (- days) = - days" "wrap64 (- days * 24) = - days * 24" using assms by (simp_all add: wrap64_id)
  moreover have "wrap64 (- days * 24 * hour) = - days * 24 * hour"
    using assms by (intro wrap64_id) (simp_all add: hour_def minute_def second_def)
  ultimately show ?thesis by (simp add: cutoff_def)
qed

definition old_run :: "time \<Rightarrow> int \<Rightarrow> dir_entry \<Rightarrow> bool" where
  "old_run now days f =
    (de_IsDir f \<and> de_Name f \<noteq> ''builds'' \<and> \<not> has_prefix ''.'' (de_Name f)
     \<and> (\<exists>t. de_ModTime f = Some t \<and> days * (24 * hour) < now - t))"

lemma prune_entries_filter:
  "prune_entries c fs =
    (filter (\<lambda>f. spared f \<or> \<not> stale c f \<or> \<not> de_Removable f) fs,
     length (filter (\<lambda>f. \<not> (spared f \<or> \<not> stale c f \<or> \<not> de_Removable f)) fs))"
  by (induction fs) auto

lemma old_run_stale:
  assumes "0 < days" "days \<le> 106751"
  shows "old_run now days f \<longleftrightarrow> \<not> spared f \<and> stale (cutoff now days) f"
  using assms by (auto simp: old_run_def spared_def stale_def cutoff_exact split: option.splits)

text \<open>C28: nothing is removed when the window is not positive or the root cannot be read; with a
  window of at most 106751 days exactly the run directories that are older than the window and can be removed
  are gone, and they are counted: files, hidden directories and the builds are never touched.\<close>

theorem pruneOnce_spec:
  assumes "retentionDays d \<le> 106751"
  shows "pruneOnce now d root =
    (if retentionDays d \<le> 0 \<or> root = None then (root, 0)
     else (Some (filter (\<lambda>f. \<not> (old_run now (retentionDays d) f \<and> de_Removable f)) (the root)),
           length (filter (\<lambda>f. old_run now (retentionDays d) f \<and> de_Removable f) (the root))))"
proof (cases "retentionDays d \<le> 0 \<or> root = None")
  case True
  then show ?thesis by (auto simp: pruneOnce_def Let_def)
next
  case False
  then have "0 < retentionDays d" by simp
  note old = old_run_stale[OF this assms, of now]
  have "(spared f \<or> \<not> stale (cutoff now (retentionDays d)) f \<or> \<not> de_Removable f)
      = (\<not> (old_run now (retentionDays d) f \<and> de_Removable f))" for f by (auto simp: old)
  then show ?thesis using False unfolding pruneOnce_def Let_def prune_entries_filter by auto
qed

definition sample_root :: "dir_entry list" where
  "sample_root =
    [\<lparr>de_Name = ''run_01'', de_IsDir = True, de_ModTime = Some 0, de_Removable = True\<rparr>,
     \<lparr>de_Name = ''builds'', de_IsDir = True, de_ModTime = Some 0, de_Removable = True\<rparr>,
     \<lparr>de_Name = ''run_02'', de_IsDir = True, de_ModTime = Some (25 * hour), de_Removable = True\<rparr>]"

theorem pruneOnce_spec_witness:
  "map de_Name (the (fst (pruneOnce (49 * hour) (SetSetting 1 RetentionDaysSettingKey ''1'' empty_db) (Some sample_root))))
     = [''builds'', ''run_02'']"
proof -
  let ?d = "SetSetting 1 RetentionDaysSettingKey ''1'' empty_db"
  have days: "retentionDays ?d = 1" by code_simp
  then have "retentionDays ?d \<le> 106751" by simp
  from pruneOnce_spec[OF this, of "49 * hour" "Some sample_root"] days show ?thesis
    by (simp add: sample_root_def old_run_def has_prefix_def hour_def minute_def second_def)
qed

text \<open>
  One day more and the product no longer fits into 64 bits: the cutoff comes to lie in the
  future and every run directory is removed, whatever its age.
\<close>

lemma long_window_removes_all:
  "now < cutoff now 106752"
  "map de_Name (the (fst (pruneOnce (25 * hour)
      (SetSetting 1 RetentionDaysSettingKey ''106752'' empty_db) (Some sample_root)))) = [''builds'']"
proof -
  show "now < cutoff now 106752" by (simp add: cutoff_def wrap64_def hour_def minute_def second_def)
  show "map de_Name (the (fst (pruneOnce (25 * hour)
      (SetSetting 1 RetentionDaysSettingKey ''106752'' empty_db) (Some sample_root)))) = [''builds'']"
    by code_simp
qed

end
