(* ===== verification/Api_Policy.thy ===== *)
theory Api_Policy
  imports Api
begin

text \<open>
  What holds of every request to the API, over the table of routes of Api: who may change
  anything.  A handler is calm when it changes nothing but the audit trail and the counts of the limiter.
\<close>

section \<open>Calm handlers\<close>

definition lasting ::
  "server \<Rightarrow> (Image list \<times> InstanceRow list \<times> Operation list) \<times>
    (Test list \<times> TestRun list \<times> TestCase list \<times> CaseFolder list \<times> TestCycle list \<times> CycleRun list \<times> Build list) \<times>
    (User list \<times> Session list \<times> Setting list) \<times> hub \<times>
    (string list \<times> (string \<times> string) list \<times> Device_Control.request list
      \<times> (string \<times> (string \<times> string) list \<times> string) list \<times> job list)" where
  "lasting s =
    (fleet_tables (sv_db s), test_tables (sv_db s),
     (db_users (sv_db s), db_sessions (sv_db s), db_settings (sv_db s)), sv_hub s,
     (sv_removed s, sv_written s, sv_sent s, sv_out s, sv_jobs s))"

definition calm :: "'a Api_Base.act \<Rightarrow> bool" where
  "calm m = (\<forall>s. lasting (snd (m s)) = lasting s)"

lemma calm_same: "(\<And>s. snd (m s) = s) \<Longrightarrow> calm m"
  by (simp add: calm_def)

lemma calm_andThen: "calm m \<Longrightarrow> (\<And>x. calm (f x)) \<Longrightarrow> calm (andThen m f)"
  by (simp add: calm_def andThen_fst split: sum.split)

lemma lasting_audit [simp]:
  "lasting (s\<lparr>sv_db := snd (CreateAuditEvent now rnd ev (sv_db s))\<rparr>) = lasting s"
  by (simp add: lasting_def CreateAuditEvent_def Let_def tables split: sum.split)

lemma lasting_attempts [simp]: "lasting (s\<lparr>sv_attempts := m\<rparr>) = lasting s"
  by (simp add: lasting_def)

lemma calm_audit: "calm (audit e c p a rs i oc m)" "calm (audit_as e c a rs i oc m)"
  by (simp_all add: calm_def audit_as_def audit_def store_set_def)

lemma calm_parts:
  "calm (give x)" "calm (refuse er)" "calm (answer st b)" "calm (store_get g)" "calm (check ok er)"
  "calm (decode p m c)" "calm (bundled t)" "calm (limit e key m)"
  by (auto intro: calm_same simp: give_def refuse_def answer_def store_get_def check_def decode_def bundled_def
      split: option.split sum.split)
    (simp add: calm_def limit_def check_def give_def refuse_def split: prod.split)

lemma calm_if: "calm m \<Longrightarrow> calm m' \<Longrightarrow> calm (if b then m else m')"
  by simp

lemma calm_option: "calm m \<Longrightarrow> (\<And>x. calm (f x)) \<Longrightarrow> calm (case r of None \<Rightarrow> m | Some x \<Rightarrow> f x)"
  by (cases r) simp_all

lemmas calm_rules = calm_andThen calm_audit calm_parts calm_if calm_option

lemma open_handlers_calm:
  "calm (health a)" "calm bootstrapStatus" "calm (handed_to x)" "calm (downloadRunner e de c)" "calm (serveStatic as c)"
  "calm (getAgentRuntime se)"
  unfolding health_def bootstrapStatus_def handed_to_def downloadRunner_def serveStatic_def asset_or_index_def
    getAgentRuntime_def Let_def
  by (intro calm_rules)+

lemma artifact_calm: "calm (runnerBuildArtifact e k c)"
  by (auto simp: calm_def runnerBuildArtifact_def refuse_def andThen_fst store_get_def check_def give_def answer_def
      split: sum.split)

section \<open>Who may change anything\<close>

definition may_bootstrap :: "api \<Rightarrow> Api_Base.request \<Rightarrow> db \<Rightarrow> bool" where
  "may_bootstrap a r d =
    (BootstrapRequired d
     \<and> (case js_bootstrap (ap_json a) (rq_Body r) of
          None \<Rightarrow> False
        | Some (token, _) \<Rightarrow> validateBootstrapToken (ae_env (ap_env a)) token = None))"

definition knows_password :: "api \<Rightarrow> Api_Base.request \<Rightarrow> db \<Rightarrow> bool" where
  "knows_password a r d =
    (case js_login (ap_json a) (rq_Body r) of
       None \<Rightarrow> False
     | Some (user, password) \<Rightarrow>
         (case GetUserByUsername (normalizeUsername user) d of
            Inl _ \<Rightarrow> False
          | Inr u \<Rightarrow> \<not> usr_Disabled u \<and> VerifyPassword (ae_hmac (ap_env a)) password (usr_PasswordHash u)))"

lemma bootstrap_calm: "lasting (snd (bootstrapAdmin (ap_device a) c s)) \<noteq> lasting s \<Longrightarrow> may_bootstrap a (cx_req c) (sv_db s)"
  by (auto simp: bootstrapAdmin_def andThen_def limit_def check_def give_def refuse_def decode_def or_bad_def store_do_def
      BootstrapAdmin_def may_bootstrap_def audit_def store_set_def answer_def ap_device_def
      split: prod.splits if_splits option.splits sum.splits)

lemma login_calm: "lasting (snd (login (ap_device a) c s)) \<noteq> lasting s \<Longrightarrow> knows_password a (cx_req c) (sv_db s)"
  by (auto simp: login_def andThen_def limit_def check_def give_def refuse_def decode_def try_act_def store_do_def
      Login_def knows_password_def audit_def store_set_def answer_def ap_device_def
      split: prod.splits if_splits option.splits sum.splits)

text \<open>What the guard of a route asks of a request that changes anything.\<close>

definition permitted :: "api \<Rightarrow> guard \<Rightarrow> Api_Base.request \<Rightarrow> db \<Rightarrow> bool" where
  "permitted a g r d =
    (case g of
       Open \<Rightarrow> may_bootstrap a r d \<or> knows_password a r d
     | Session perm \<Rightarrow>
         (\<exists>p tok. AuthenticateRequest (ae_sha (ap_env a)) (ae_now (ap_env a)) (rq_Cookie r) d = Inr (p, tok)
            \<and> HasPermission p perm)
     | Tools \<Rightarrow> False
     | Service \<Rightarrow> False)"

lemma open_routes:
  assumes "rt \<in> set (routes a)" "rt_Guard rt = Open" "lasting (snd (rt_Run rt vs c s)) \<noteq> lasting s"
  shows "permitted a Open (cx_req c) (sv_db s)"
  using assms open_handlers_calm artifact_calm bootstrap_calm[of a c s] login_calm[of a c s]
  by (auto simp: routes_def account_routes_def device_routes_def registerControlRoutes_def registerTestRoutes_def
      registerCaseRoutes_def other_routes_def Let_def on_route_def hole_def calm_def permitted_def)

lemma service_routes:
  assumes "rt \<in> set (routes a)" "rt_Guard rt = Tools \<or> rt_Guard rt = Service"
  shows "calm (rt_Run rt vs c)"
  using assms open_handlers_calm
  by (auto simp: routes_def account_routes_def device_routes_def registerControlRoutes_def registerTestRoutes_def
      registerCaseRoutes_def other_routes_def Let_def on_route_def hole_def)

lemma require_permitted:
  assumes "lasting (snd (require (ap_env a) perm h c s)) \<noteq> lasting s"
  shows "permitted a (Session perm) (cx_req c) (sv_db s)"
proof (cases "authenticated (ap_env a) c (sv_db s)")
  case (Inl er)
  then show ?thesis using assms by (simp add: require_def refuse_def)
next
  case (Inr pt)
  obtain p tok where pt: "pt = (p, tok)" by fastforce
  have "HasPermission p perm"
  proof (rule ccontr)
    assume "\<not> HasPermission p perm"
    moreover have "calm (andThen (audit (ap_env a) c p ''authorize'' ''api'' (rq_Path (cx_req c)) ''denied'' perm)
        (\<lambda>_. refuse (Client 403 ''forbidden'') :: response Api_Base.act))"
      by (intro calm_rules)
    ultimately show False using assms Inr pt by (simp add: require_def calm_def)
  qed
  then show ?thesis using Inr pt by (auto simp: permitted_def authenticated_def)
qed

lemma calm_guards:
  assumes "\<And>c. calm (h c)"
  shows "calm (mcpAuth e h c)" "calm (serviceTokenOnly e h c)"
  using assms by (simp_all add: calm_def mcpAuth_def serviceTokenOnly_def refuse_def split: sum.split prod.split)

lemma run_route_permitted:
  assumes "rt \<in> set (routes a)" "lasting (snd (run_route a rt xs c s)) \<noteq> lasting s"
  shows "permitted a (rt_Guard rt) (cx_req c) (sv_db s)"
proof (cases "rt_Guard rt")
  case Open
  then show ?thesis using assms open_routes by (fastforce simp: run_route_def guarded_def)
next
  case (Session perm)
  then show ?thesis using assms(2) require_permitted by (fastforce simp: run_route_def guarded_def)
next
  case Tools
  then show ?thesis using assms(2) service_routes[OF assms(1)] calm_guards
    by (auto simp: run_route_def guarded_def calm_def)
next
  case Service
  then show ?thesis using assms(2) service_routes[OF assms(1)] calm_guards
    by (auto simp: run_route_def guarded_def calm_def)
qed

lemma respond_state: "snd (respond m s) = snd (m s)"
  by (simp add: respond_def split: prod.split sum.split)


text \<open>The more specific pattern wins: revoking a token needs the administrator, deleting a device an operator; a
  request for a path that nothing serves ends at the static files.\<close>

lemma token_route: "map_option rt_Guard (find_route (routes a) ''DELETE'' (segments ''/api/v1/instances/ins_1/token'')) = Some (Session PermissionAdmin)"
  by code_simp

lemma delete_device_route: "map_option rt_Guard (find_route (routes a) ''DELETE'' (segments ''/api/v1/instances/ins_1'')) = Some (Session PermissionOperate)"
  by code_simp

lemma head_route: "map_option rt_Guard (find_route (routes a) ''HEAD'' (segments ''/api/v1/cases/health'')) = Some (Session PermissionTest)"
  by code_simp

lemma agents_lacks_slash: "lacks_slash (routes a) ''GET'' (segments ''/agents'')"
  by code_simp

end
