(* ===== verification/Api_Answers.thy ===== *)
theory Api_Answers
  imports Api_Policy
begin

text \<open>
  The form of the answers of the API: an error is answered with an error body and a status from 400 on, every other answer
  has a status of success, a redirection, or is one of two exceptions (the probe of the database, and the
  connection that is closed by a panic).  A handler is judged by its parts, as in a type system.
\<close>

section \<open>The judgement\<close>

definition error_ok :: "api_error \<Rightarrow> bool" where
  "error_ok x = (case x of
      Client st _ \<Rightarrow> st \<in> {400, 401, 403, 404, 409, 413, 429, 503}
    | Other _ \<Rightarrow> True)"

definition regular :: "response \<Rightarrow> bool" where
  "regular r =
    (case rsp_Body r of
       ErrorBody _ \<Rightarrow> rsp_Status r \<in> {400, 401, 403, 404, 409, 413, 429, 500, 503}
     | FieldsBody _ \<Rightarrow> rsp_Status r \<in> {200, 503}
     | ForwardBody _ \<Rightarrow> rsp_Status r \<in> {200, 301}
     | TreeBody t \<Rightarrow> rsp_Status r = (if t = None then 0 else 200)
     | NoBody \<Rightarrow> False
     | _ \<Rightarrow> rsp_Status r \<in> {200, 201, 202})"

definition yields :: "('a \<Rightarrow> bool) \<Rightarrow> 'a Api_Base.act \<Rightarrow> bool" where
  "yields P m = (\<forall>s. case fst (m s) of Inl x \<Rightarrow> error_ok x | Inr y \<Rightarrow> P y)"

abbreviation runs_on :: "'a Api_Base.act \<Rightarrow> bool" where
  "runs_on m \<equiv> yields (\<lambda>_. True) m"

lemma yields_bind:
  assumes "yields Q m" "\<And>x. Q x \<Longrightarrow> yields P (f x)"
  shows "yields P (andThen m f)"
  unfolding yields_def
proof
  fix s
  have m: "case fst (m s) of Inl x \<Rightarrow> error_ok x | Inr y \<Rightarrow> Q y" using assms(1) by (simp add: yields_def)
  show "case fst (andThen m f s) of Inl x \<Rightarrow> error_ok x | Inr y \<Rightarrow> P y"
  proof (cases "fst (m s)")
    case (Inr x)
    then have "yields P (f x)" using m assms(2) by simp
    then show ?thesis using Inr by (simp add: andThen_fst yields_def)
  qed (use m in \<open>simp add: andThen_fst\<close>)
qed

lemma yields_andThen: "runs_on m \<Longrightarrow> (\<And>x. yields P (f x)) \<Longrightarrow> yields P (andThen m f)"
  by (rule yields_bind)

lemma yields_give: "P x \<Longrightarrow> yields P (give x)"
  by (simp add: yields_def give_def)

lemma yields_refuse: "error_ok x \<Longrightarrow> yields P (refuse x)"
  by (simp add: yields_def refuse_def)

lemma yields_answer: "P (writeJSON st b) \<Longrightarrow> yields P (answer st b)"
  by (simp add: answer_def yields_give)

lemma yields_if: "yields P m \<Longrightarrow> yields P m' \<Longrightarrow> yields P (if b then m else m')"
  by simp

lemma yields_option: "yields P m \<Longrightarrow> (\<And>x. yields P (f x)) \<Longrightarrow> yields P (case r of None \<Rightarrow> m | Some x \<Rightarrow> f x)"
  by (cases r) simp_all

lemma yields_sum: "(\<And>x. yields P (f x)) \<Longrightarrow> (\<And>y. yields P (g y)) \<Longrightarrow> yields P (case r of Inl x \<Rightarrow> f x | Inr y \<Rightarrow> g y)"
  by (cases r) simp_all

lemma yields_prod: "(\<And>x y. yields P (f x y)) \<Longrightarrow> yields P (case p of (x, y) \<Rightarrow> f x y)"
  by (cases p) simp

lemma error_ok_Other [simp]: "error_ok (Other err)"
  by (simp add: error_ok_def)

lemma error_ok_Client [simp]: "error_ok (Client st m) \<longleftrightarrow> st \<in> {400, 401, 403, 404, 409, 413, 429, 503}"
  by (simp add: error_ok_def)

lemma error_ok_simps [simp]: "error_ok (badRequest m)" "error_ok (notFound m)" "error_ok (writeControlError err)"
  by (simp_all add: badRequest_def notFound_def writeControlError_def)

lemma runs_store: "runs_on (store_get f)" "runs_on (store_do g)" "runs_on (store_set h)"
proof -
  show "runs_on (store_get f)" unfolding yields_def store_get_def fst_conv
  proof
    fix s :: server
    show "case map_sum Other id (f (sv_db s)) of Inl x \<Rightarrow> error_ok x | Inr y \<Rightarrow> True"
      by (cases "f (sv_db s)") simp_all
  qed
  show "runs_on (store_do g)" unfolding yields_def store_do_def
  proof
    fix s :: server
    obtain r d where "g (sv_db s) = (r, d)" by fastforce
    then show "case fst (case g (sv_db s) of (r, d) \<Rightarrow> (map_sum Other id r, s\<lparr>sv_db := d\<rparr>)) of
        Inl x \<Rightarrow> error_ok x | Inr y \<Rightarrow> True"
      by (cases r) simp_all
  qed
qed (simp add: yields_def store_set_def)

lemma runs_parts:
  "runs_on (or_bad m)" "runs_on (try_act m')" "error_ok er \<Longrightarrow> runs_on (check ok er)" "runs_on (spawn j)"
  "runs_on (on_hub f)" "runs_on (limit e key msg)" "runs_on (decode p msg c)" "runs_on (decodeJSON p z c)"
  "runs_on (audit e c pr a rs i oc msg)" "runs_on (audit_as e c a rs i oc msg)"
  by (auto simp: yields_def or_bad_def try_act_def check_def spawn_def on_hub_def limit_def decode_def decodeJSON_def
      audit_def audit_as_def store_set_def give_def refuse_def split: sum.splits prod.splits option.splits)

lemma runs_wrapped: "runs_on (orch_do w)" "runs_on (save_setting se k v)"
  unfolding orch_do_def save_setting_def by (rule runs_store)+

lemma runs_services:
  "runs_on (the_form te l g m c)" "runs_on (the_file fm fd m)" "runs_on (read_upload d)"
  "runs_on (store_file te dir path d)" "runs_on (remove_files de path)" "runs_on (remove_all te paths)"
  "runs_on (resolveCycleTarget cy k)" "runs_on (bundled t)" "runs_on (adb_listing ce)" "runs_on (copy_temp p d)"
  "runs_on (probeProvider se api base key)"
  by (auto simp: yields_def the_form_def the_file_def read_upload_def store_file_def remove_files_def
      remove_dir_def remove_all_def resolveCycleTarget_def bundled_def adb_listing_def copy_temp_def probeProvider_def
      give_def refuse_def split: sum.splits prod.splits option.splits form_error.splits)

lemma runs_call: "runs_on (device_call f)"
  unfolding yields_def device_call_def
proof
  fix s :: server
  obtain r tr where "f (sv_db s) (sv_sent s) = (r, tr)" by fastforce
  then show "case fst (case f (sv_db s) (sv_sent s) of (r, tr) \<Rightarrow> (map_sum writeControlError id r, s\<lparr>sv_sent := tr\<rparr>)) of
      Inl x \<Rightarrow> error_ok x | Inr y \<Rightarrow> True"
    by (cases r) simp_all
qed

lemma yields_temp: "yields P m \<Longrightarrow> yields P (with_temp p m)"
  by (auto simp: yields_def with_temp_def split: prod.splits) (metis fst_conv)

lemmas yields_rules = yields_andThen yields_give yields_refuse yields_answer yields_if yields_option yields_sum yields_prod
  yields_temp runs_store runs_parts runs_wrapped runs_services runs_call

lemma runs_settings: "runs_on (next_secret se m given kept)" "runs_on (check_model u)"
  unfolding next_secret_def check_model_def
  by (auto intro!: yields_rules simp: split: option.split list.split)

lemma runs_cron: "runs_on (applyCron te cy)"
  unfolding applyCron_def Let_def by (intro yields_rules; simp)

section \<open>Every handler answers in form\<close>

lemma regular_simps [simp]:
  "regular (writeJSON st (ErrorBody m)) \<longleftrightarrow> st \<in> {400, 401, 403, 404, 409, 413, 429, 500, 503}"
  "regular (r\<lparr>rsp_Cookie := ck\<rparr>) = regular r"
  by (simp add: regular_def writeJSON_def) (cases r; simp add: regular_def split: body.split)

lemmas in_form = regular_def writeJSON_def

lemma host_answers:
  "yields regular (health a)" "yields regular (host_facts a)" "yields regular (deepHealth a)"
  "yields regular listAndroidVersions" "yields regular (operatorProxy a c)" "yields regular (handed_to x)"
  "yields regular (agentProxy a c)" "yields regular (redirect p)"
  unfolding health_def host_facts_def deepHealth_def listAndroidVersions_def operatorProxy_def handed_to_def
    agentProxy_def redirect_def Let_def
  by (intro yields_rules; simp add: in_form)+

lemma account_answers:
  "yields regular (bootstrapAdmin e c)" "yields regular (login e c)" "yields regular (logout e c)" "yields regular (me c)"
  "yields regular bootstrapStatus" "yields regular (metrics n)"
  unfolding bootstrapAdmin_def login_def logout_def me_def bootstrapStatus_def metrics_def Let_def
  by (intro yields_rules; simp add: in_form)+

lemma deleteImage_answers: "yields regular (deleteImage e k c)"
proof -
  have "error_ok (image_error (Other err))" for err by (simp add: image_error_def)
  then have "yields (\<lambda>r. case r of Inl x \<Rightarrow> error_ok (image_error x) | Inr _ \<Rightarrow> True) (try_act (store_do (DeleteImage k)))"
    by (auto simp: yields_def try_act_def store_do_def split: prod.splits sum.splits)
      (metis map_sum.simps(1) map_sum_sel(1) sum.disc(1) sum.sel(1) Inl_Inr_False obj_sumE map_sum.simps(2))
  then show ?thesis unfolding deleteImage_def
    by (rule yields_bind) (auto intro!: yields_rules simp: in_form split: sum.splits)
qed

lemma device_answers:
  "yields regular listImages" "yields regular (createImage e c)" "yields regular listInstances"
  "yields regular (createInstance e c)" "yields regular (replaceDesktopToken e k n c)" "yields regular (instanceRoute e c)"
  "yields regular listOperations" "yields regular listAudit" "yields regular (serveStatic as c)"
  unfolding listImages_def createImage_def listInstances_def createInstance_def registerPhysicalAndroid_def
    onboardDesktop_def create_virtual_def version_request_def deploy_def audit_deploy_def replaceDesktopToken_def set_token_def
    instanceRoute_def instance_action_def unless_external_def start_route_def stop_route_def delete_route_def
    console_route_def consoleProxy_def listOperations_def listAudit_def serveStatic_def asset_or_index_def Let_def
  by (intro yields_rules; simp add: in_form)+

lemma settings_answers:
  "yields regular (getAgentModel se)" "yields regular (putAgentModel se c)" "yields regular (testAgentModel se c)"
  "yields regular (getNotifications se)" "yields regular (putNotifications se c)" "yields regular (getAgentRuntime se)"
  unfolding getAgentModel_def putAgentModel_def testAgentModel_def getNotifications_def putNotifications_def
    getAgentRuntime_def model_answer_def hook_answer_def runtime_answer_def Let_def
  by (intro yields_rules runs_settings; simp add: in_form)+

lemma test_answers:
  "yields regular listTests" "yields regular (createTest e c)" "yields regular (deleteTest e k c)"
  "yields regular (runTest e k c)" "yields regular listTestRuns" "yields regular (getTestRun k)"
  "yields regular (testArtifact e k name)"
  unfolding listTests_def createTest_def deleteTest_def runTest_def listTestRuns_def getTestRun_def testArtifact_def ok_body_def
  by (intro yields_rules; simp add: in_form)+

lemma case_answers:
  "yields regular listCases" "yields regular listCaseFolders" "yields regular (createCaseFolder e c)"
  "yields regular (deleteCaseFolder e c)" "yields regular (createCase e c)" "yields regular (getCase k)"
  "yields regular (updateCase e k c)" "yields regular (deleteCase e k c)" "yields regular (importCases e c)"
  unfolding listCases_def listCaseFolders_def createCaseFolder_def deleteCaseFolder_def createCase_def getCase_def
    updateCase_def deleteCase_def importCases_def Let_def ok_body_def
  by (intro yields_rules; simp add: in_form)+

lemma cycle_answers:
  "yields regular listCycles" "yields regular (createCycle e c)" "yields regular (getCycle k)"
  "yields regular (updateCycle e k c)" "yields regular (deleteCycle e k c)" "yields regular (updateCycleCases e k c)"
  "yields regular (updateCycleSchedule e k c)" "yields regular (runCycle e k c)" "yields regular (listCycleRuns_page c)"
  "yields regular (caseHealth e c)" "yields regular (getCycleRun k)" "yields regular (deleteCycleRun e k c)"
  unfolding listCycles_def createCycle_def getCycle_def updateCycle_def deleteCycle_def updateCycleCases_def
    updateCycleSchedule_def runCycle_def start_cycle_def listCycleRuns_page_def caseHealth_def getCycleRun_def
    deleteCycleRun_def Let_def ok_body_def
  by (intro yields_rules runs_cron; simp add: in_form)+

lemma file_answers:
  "yields regular (listBuilds c)" "yields regular (uploadBuild e c)" "yields regular (exportCases e c)"
  "yields regular (exportCycleRun e k c)" "yields regular (draftCases e c)"
  unfolding listBuilds_def uploadBuild_def keep_build_def exportCases_def exportCycleRun_def writeDownload_def
    draftCases_def readSpecRequest_def Let_def
  by (intro yields_rules; simp add: in_form)+

lemma tree_answered: "yields regular (tree_answer t)"
  unfolding tree_answer_def
  by (auto intro!: yields_refuse yields_answer simp: in_form split: option.split sum.split)

lemma look_answers:
  "yields regular (controlScreenshot e k)" "yields regular (controlUITree e k)" "yields regular (controlListApps e k c)"
  "yields regular (controlCurrentActivity e k)" "yields regular (controlPerf e k c)" "yields regular (controlLogcat e k c)"
  unfolding controlScreenshot_def controlUITree_def controlListApps_def controlCurrentActivity_def controlPerf_def
    controlLogcat_def
  by (intro yields_rules tree_answered; simp add: in_form)+

lemma act_answers:
  "yields regular (controlInput e k actn c)" "yields regular (controlLaunchApp e k c)"
  "yields regular (controlInstallApp e k c)" "yields regular (controlShell e k c)" "yields regular (controlRotate e k c)"
  unfolding controlInput_def controlLaunchApp_def controlInstallApp_def controlShell_def controlRotate_def
    auditControl_def ok_body_def
  by (intro yields_rules; simp add: in_form)+

lemma control_answers: "yields regular (control e k op c)"
  by (cases op) (simp_all add: look_answers act_answers)

lemma discovery_answers:
  "yields regular (listADBDevices e)" "yields regular (listRunnerDownloads e)" "yields regular (downloadRunner e de c)"
  unfolding listADBDevices_def listRunnerDownloads_def downloadRunner_def Let_def
  by (intro yields_rules; simp add: in_form)+

lemma artifact_answers: "yields regular (runnerBuildArtifact e k c)"
proof -
  have "yields regular (andThen (store_get (GetBuild k)) (\<lambda>b.
      andThen (check (bld_Path b \<noteq> []) (badRequest ''build has no stored artifact'')) (\<lambda>_.
        answer 200 (FileBody (bld_Path b)))))"
    by (intro yields_rules; simp add: in_form)
  then show ?thesis by (simp add: yields_def runnerBuildArtifact_def refuse_def)
qed

lemmas handler_answers = host_answers account_answers deleteImage_answers device_answers settings_answers test_answers
  case_answers cycle_answers file_answers control_answers discovery_answers artifact_answers

lemma routes_answer: "rt \<in> set (routes a) \<Longrightarrow> yields regular (rt_Run rt vs c)"
  by (auto simp: routes_def account_routes_def device_routes_def registerControlRoutes_def registerTestRoutes_def
      registerCaseRoutes_def other_routes_def Let_def on_route_def hole_def rotateDesktopToken_def revokeDesktopToken_def
      simp del: control.simps intro: handler_answers)

lemma guards_answer:
  assumes "\<And>c. yields regular (h c)"
  shows "yields regular (guarded e g h c)"
proof -
  have "yields regular (require e p h c)" for p
    unfolding yields_def
  proof
    fix s
    have "yields regular (andThen (audit e c q ''authorize'' ''api'' (rq_Path (cx_req c)) ''denied'' p)
        (\<lambda>_. refuse (Client 403 ''forbidden'')))" for q
      by (intro yields_rules; simp)
    note denied = this[unfolded yields_def, rule_format, of _ s]
    show "case fst (require e p h c s) of Inl x \<Rightarrow> error_ok x | Inr y \<Rightarrow> regular y"
    proof (cases "authenticated e c (sv_db s)")
      case (Inr pt)
      then show ?thesis
        using denied[of "fst pt"] assms[unfolded yields_def, rule_format, of "c\<lparr>cx_principal := Some (fst pt)\<rparr>" s]
        by (cases pt) (simp add: require_def)
    qed (simp add: require_def refuse_def)
  qed
  moreover have "yields regular (mcpAuth e h c)" "yields regular (serviceTokenOnly e h c)"
  proof -
    have h: "case fst (h c s) of Inl x \<Rightarrow> error_ok x | Inr y \<Rightarrow> regular y" for c s
      using assms by (simp add: yields_def)
    then show "yields regular (serviceTokenOnly e h c)" by (simp add: yields_def serviceTokenOnly_def refuse_def)
    have "case fst (mcpAuth e h c s) of Inl x \<Rightarrow> error_ok x | Inr y \<Rightarrow> regular y" for s
      using h[of c s] h[of "c\<lparr>cx_principal := Some (fst (projr (authenticated e c (sv_db s))))\<rparr>" s]
      by (cases "authenticated e c (sv_db s)") (auto simp: mcpAuth_def refuse_def split: prod.split)
    then show "yields regular (mcpAuth e h c)" by (simp add: yields_def)
  qed
  ultimately show ?thesis using assms by (simp add: guarded_def split: guard.split)
qed

lemma dispatch_answers: "yields regular (dispatch a c)"
proof -
  have "yields regular (case find_route (routes a) m xs of
      None \<Rightarrow> refuse (notFound ''404 page not found'') | Some rt \<Rightarrow> run_route a rt xs c)" for m xs
  proof (cases "find_route (routes a) m xs")
    case (Some rt)
    show ?thesis unfolding Some option.case run_route_def
      by (rule guards_answer) (rule routes_answer[OF find_route_in[OF Some]])
  qed (simp add: yields_refuse)
  then show ?thesis unfolding dispatch_def Let_def by (intro yields_if host_answers)
qed

lemma writeError_regular: "error_ok x \<Longrightarrow> regular (writeError x)"
  by (auto simp: writeError_def error_ok_def split: api_error.splits)


end
