(* ===== verification/Runner_Keys.thy ===== *)
theory Runner_Keys
  imports Go_Base
begin

text \<open>
  The commands and scripts with which the runner program drives a desktop: src/runner/control_desktop_args.go.  Buttons,
  wheel, keys and chords for X11 (xdotool) and for macOS (AppleScript and cliclick), the choice of an
  application by its name, desktop entries, and the command that installs a build.  The texts arrive decoded from JSON, so
  they are UTF-8, and the number of their runes is the number of bytes that begin one.
\<close>

section \<open>Text helpers\<close>

text \<open>The length of a rune slice.\<close>

definition rune_count :: "string \<Rightarrow> nat" where
  "rune_count s = length (filter (\<lambda>c. \<not> (128 \<le> (of_char c :: nat) \<and> (of_char c :: nat) < 192)) s)"

definition quoted :: "string \<Rightarrow> string" where
  "quoted s = CHR 0x22 # s @ [CHR 0x22]"

definition system_events :: string where
  "system_events = ''tell application '' @ quoted ''System Events'' @ '' to ''"

definition unsupported_key :: "string \<Rightarrow> go_error" where
  "unsupported_key name = Err (''unsupported key '' @ go_quote name @ '' on this platform'')"

section \<open>Applications\<close>

text \<open>The loop of matchApp with the best prefix match and the best substring match so far.\<close>

definition smaller :: "string \<Rightarrow> string \<Rightarrow> string" where
  "smaller best n = (if best = [] \<or> n < best then n else best)"

fun match_loop :: "string \<Rightarrow> string list \<Rightarrow> string \<Rightarrow> string \<Rightarrow> string" where
  "match_loop w [] prefix inner = (if prefix \<noteq> [] then prefix else inner)"
| "match_loop w (n # ns) prefix inner =
    (let l = to_lower n in
     if l = w then n
     else if has_prefix w l then match_loop w ns (smaller prefix n) inner
     else if contains w l then match_loop w ns prefix (smaller inner n)
     else match_loop w ns prefix inner)"

definition matchApp :: "string list \<Rightarrow> string \<Rightarrow> string" where
  "matchApp names want =
    (let w = to_lower (trim_space want) in if w = [] then [] else match_loop w names [] [])"

text \<open>The display name of a desktop entry and whether it is hidden.\<close>

fun entry_lines :: "string list \<Rightarrow> string \<Rightarrow> bool \<Rightarrow> string \<times> bool" where
  "entry_lines [] name hidden = (name, hidden)"
| "entry_lines (l # ls) name hidden =
    (let line = trim_space l in
     if has_prefix ''Name='' line \<and> name = [] then entry_lines ls (trim_prefix ''Name='' line) hidden
     else if line = ''NoDisplay=true'' \<or> line = ''Hidden=true'' then entry_lines ls name True
     else entry_lines ls name hidden)"

definition parseDesktopEntry :: "string \<Rightarrow> string \<times> bool" where
  "parseDesktopEntry content = entry_lines (split_char (CHR 0x0A) content) [] False"

section \<open>X11\<close>

definition x11Buttons :: "(string \<times> string) list" where
  "x11Buttons = [([], ''1''), (''LEFT'', ''1''), (''MIDDLE'', ''2''), (''RIGHT'', ''3'')]"

definition x11ClickArgs :: "int \<Rightarrow> int \<Rightarrow> string \<Rightarrow> int \<Rightarrow> string list res" where
  "x11ClickArgs x y button count0 =
    (case map_of x11Buttons (to_upper (trim_space button)) of
       None \<Rightarrow> Inl (Err (''unsupported mouse button '' @ go_quote button @ '' (want left, right, or middle)''))
     | Some b \<Rightarrow>
         let count = (if count0 \<le> 0 then 1 else count0)
         in Inr ([''mousemove'', itoa x, itoa y, ''click'']
                 @ (if 1 < count then [''--repeat'', itoa count, ''--delay'', ''60''] else []) @ [b]))"

definition wheel :: "int \<Rightarrow> int \<Rightarrow> string \<Rightarrow> int \<Rightarrow> string list list" where
  "wheel x y button n =
    (if n \<le> 0 then []
     else [[''mousemove'', itoa x, itoa y, ''click'', ''--repeat'', itoa n, ''--delay'', ''20'', button]])"

definition x11ScrollArgs :: "int \<Rightarrow> int \<Rightarrow> int \<Rightarrow> int \<Rightarrow> string list list" where
  "x11ScrollArgs x y dx dy =
    (if 0 < dy then wheel x y ''5'' dy else if dy < 0 then wheel x y ''4'' (wrap64 (- dy)) else [])
    @ (if 0 < dx then wheel x y ''7'' dx else if dx < 0 then wheel x y ''6'' (wrap64 (- dx)) else [])"

definition x11Keys :: "(string \<times> string) list" where
  "x11Keys =
    [(''ENTER'', ''Return''), (''RETURN'', ''Return''),
     (''TAB'', ''Tab''), (''ESC'', ''Escape''), (''ESCAPE'', ''Escape''),
     (''BACKSPACE'', ''BackSpace''), (''BACK'', ''BackSpace''),
     (''DELETE'', ''Delete''), (''DEL'', ''Delete''),
     (''SPACE'', ''space''),
     (''UP'', ''Up''), (''DOWN'', ''Down''), (''LEFT'', ''Left''), (''RIGHT'', ''Right''),
     (''HOME'', ''Home''), (''END'', ''End''), (''PAGEUP'', ''Prior''), (''PAGEDOWN'', ''Next''),
     (''WIN'', ''super''), (''SUPER'', ''super''), (''META'', ''super''), (''CMD'', ''super''), (''COMMAND'', ''super''),
     (''CTRL'', ''ctrl''), (''CONTROL'', ''ctrl''), (''ALT'', ''alt''), (''OPTION'', ''alt''), (''SHIFT'', ''shift''),
     (''INSERT'', ''Insert''), (''PRINTSCREEN'', ''Print'')]"

definition isFunctionKey :: "string \<Rightarrow> bool" where
  "isFunctionKey name =
    (if \<not> has_prefix ''F'' name \<or> length name < 2 \<or> 3 < length name then False
     else case atoi (tl name) of None \<Rightarrow> False | Some n \<Rightarrow> 1 \<le> n \<and> n \<le> 12)"

definition x11Keysym :: "string \<Rightarrow> string res" where
  "x11Keysym name =
    (let trimmed = trim_space name; upper = to_upper trimmed
     in case map_of x11Keys upper of
          Some k \<Rightarrow> Inr k
        | None \<Rightarrow>
            if isFunctionKey upper then Inr upper
            else if rune_count trimmed = 1 then Inr (to_lower trimmed)
            else Inl (unsupported_key name))"

fun keysyms :: "string list \<Rightarrow> string list res" where
  "keysyms [] = Inr []"
| "keysyms (k # ks) =
    (case x11Keysym k of
       Inl err \<Rightarrow> Inl err
     | Inr k1 \<Rightarrow> (case keysyms ks of Inl err \<Rightarrow> Inl err | Inr ks1 \<Rightarrow> Inr (k1 # ks1)))"

definition empty_chord :: go_error where
  "empty_chord = Err ''chord needs at least one key''"

definition x11ChordKeysym :: "string list \<Rightarrow> string res" where
  "x11ChordKeysym keys =
    (if keys = [] then Inl empty_chord
     else case keysyms keys of Inl err \<Rightarrow> Inl err | Inr parts \<Rightarrow> Inr (join ''+'' parts))"

text \<open>The program, its arguments, and whether the file must be made executable first.\<close>

definition no_silent_install :: "string \<Rightarrow> go_error" where
  "no_silent_install path =
    Err (''don'' @ [CHR 0x27] @ ''t know how to install '' @ go_quote (base_name path)
         @ '' silently; set per-build installer args'')"

definition linuxInstallCommand :: "string \<Rightarrow> string \<Rightarrow> (string \<times> string list \<times> bool) res" where
  "linuxInstallCommand path args =
    (if trim_space args \<noteq> [] then Inr (path, fields args, True)
     else let ext = to_lower (file_ext path) in
       if ext = ''.deb'' then Inr (''sudo'', [''-n'', ''apt-get'', ''install'', ''-y'', path], False)
       else if ext = ''.rpm'' then Inr (''sudo'', [''-n'', ''dnf'', ''install'', ''-y'', path], False)
       else if ext \<in> {''.appimage'', ''.run'', ''.sh''} then Inr (path, [], True)
       else Inl (no_silent_install path))"

section \<open>macOS\<close>

definition escape_apple_char :: "char \<Rightarrow> string" where
  "escape_apple_char c =
    (if c = CHR 0x5C then [CHR 0x5C, CHR 0x5C] else if c = CHR 0x22 then [CHR 0x5C, CHR 0x22] else [c])"

definition escapeAppleScript :: "string \<Rightarrow> string" where
  "escapeAppleScript s = concat (map escape_apple_char s)"

definition macKeyCodes :: "(string \<times> int) list" where
  "macKeyCodes =
    [(''ENTER'', 36), (''RETURN'', 36),
     (''TAB'', 48), (''ESC'', 53), (''ESCAPE'', 53),
     (''BACKSPACE'', 51), (''BACK'', 51),
     (''DELETE'', 117), (''DEL'', 117),
     (''SPACE'', 49),
     (''UP'', 126), (''DOWN'', 125), (''LEFT'', 123), (''RIGHT'', 124),
     (''HOME'', 115), (''END'', 119), (''PAGEUP'', 116), (''PAGEDOWN'', 121),
     (''F1'', 122), (''F2'', 120), (''F3'', 99), (''F4'', 118), (''F5'', 96), (''F6'', 97),
     (''F7'', 98), (''F8'', 100), (''F9'', 101), (''F10'', 109), (''F11'', 103), (''F12'', 111)]"

definition macModifiers :: "(string \<times> string) list" where
  "macModifiers =
    [(''CMD'', ''command down''), (''COMMAND'', ''command down''), (''WIN'', ''command down''),
     (''SUPER'', ''command down''), (''META'', ''command down''),
     (''CTRL'', ''control down''), (''CONTROL'', ''control down''),
     (''ALT'', ''option down''), (''OPTION'', ''option down''),
     (''SHIFT'', ''shift down'')]"

definition normalizeChar :: "string \<Rightarrow> string" where
  "normalizeChar s = to_lower s"

definition keystroke :: "string \<Rightarrow> string" where
  "keystroke key = ''keystroke '' @ quoted (escapeAppleScript (normalizeChar key))"

definition macKeyScript :: "string \<Rightarrow> string res" where
  "macKeyScript name =
    (let trimmed = trim_space name
     in case map_of macKeyCodes (to_upper trimmed) of
          Some code \<Rightarrow> Inr (system_events @ ''key code '' @ itoa code)
        | None \<Rightarrow>
            if rune_count trimmed = 1 then Inr (system_events @ keystroke trimmed)
            else Inl (unsupported_key name))"

fun modifiers :: "string list \<Rightarrow> string list res" where
  "modifiers [] = Inr []"
| "modifiers (k # ks) =
    (case map_of macModifiers (to_upper (trim_space k)) of
       None \<Rightarrow> Inl (Err (go_quote k @ '' is not a modifier '' @ em_dash @ '' put modifiers first and the real key last''))
     | Some m \<Rightarrow> (case modifiers ks of Inl err \<Rightarrow> Inl err | Inr ms \<Rightarrow> Inr (m # ms)))"

definition key_action :: "string \<Rightarrow> string res" where
  "key_action final =
    (case map_of macKeyCodes (to_upper final) of
       Some code \<Rightarrow> Inr (''key code '' @ itoa code)
     | None \<Rightarrow>
         if rune_count final = 1 then Inr (keystroke final)
         else Inl (Err (''unsupported key '' @ go_quote final @ '' in chord'')))"

definition macChordScript :: "string list \<Rightarrow> string res" where
  "macChordScript keys =
    (if keys = [] then Inl empty_chord
     else case modifiers (butlast keys) of
       Inl err \<Rightarrow> Inl err
     | Inr mods \<Rightarrow>
         (case key_action (trim_space (last keys)) of
            Inl err \<Rightarrow> Inl err
          | Inr actn \<Rightarrow>
              Inr (system_events @ actn
                   @ (if mods = [] then [] else '' using {'' @ join '', '' mods @ ''}''))))"

fun click_lines :: "nat \<Rightarrow> int \<Rightarrow> int \<Rightarrow> string" where
  "click_lines 0 x y = []"
| "click_lines (Suc n) x y =
    [CHR 0x0A, CHR 0x09] @ ''click at {'' @ itoa x @ '', '' @ itoa y @ ''}''
    @ (if 0 < n then [CHR 0x0A, CHR 0x09] @ ''delay 0.06'' else []) @ click_lines n x y"

definition macClickScript :: "int \<Rightarrow> int \<Rightarrow> int \<Rightarrow> string" where
  "macClickScript x y count =
    ''tell application '' @ quoted ''System Events'' @ click_lines (nat (if count \<le> 0 then 1 else count)) x y
    @ [CHR 0x0A] @ ''end tell''"

definition cliclickClickArgs :: "int \<Rightarrow> int \<Rightarrow> string \<Rightarrow> int \<Rightarrow> string list res" where
  "cliclickClickArgs x y button count =
    (let b = to_upper (trim_space button); at = (\<lambda>verb. Inr [verb @ '':'' @ itoa x @ '','' @ itoa y]) in
     if b = [] \<or> b = ''LEFT'' then at (if 2 \<le> count then ''dc'' else ''c'')
     else if b = ''RIGHT'' then at ''rc''
     else if b = ''MIDDLE'' then Inl (Err ''middle-click is not supported on macOS'')
     else Inl (Err (''unsupported mouse button '' @ go_quote button @ '' (want left or right)'')))"

definition darwinInstallCommand :: "string \<Rightarrow> string \<Rightarrow> (string \<times> string list) res" where
  "darwinInstallCommand path args =
    (if trim_space args \<noteq> [] then Inr (path, fields args)
     else let ext = to_lower (file_ext path) in
       if ext = ''.pkg'' then Inr (''sudo'', [''-n'', ''installer'', ''-pkg'', path, ''-target'', ''/''])
       else if ext = ''.zip'' then Inr (''unzip'', [''-o'', path, ''-d'', ''/Applications''])
       else if ext = ''.dmg''
       then Inl (Err (''.dmg has no reliable silent install (it needs mounting and a drag-install); ''
                      @ ''ship a .pkg or .zip, or set per-build installer args''))
       else Inl (no_silent_install path))"

section \<open>What is chosen and typed\<close>

text \<open>The best match among those that qualify is the least.\<close>

definition least :: "string list \<Rightarrow> string" where
  "least ns = (if ns = [] then [] else Min (set ns))"

lemma smaller_least:
  assumes "n \<noteq> []"
  shows "smaller (least ns) n = (if [] \<in> set ns then smaller (least ns) n else least (n # ns))"
proof (cases "ns = []")
  case True
  then show ?thesis by (simp add: smaller_def least_def)
next
  case False
  show ?thesis
  proof (cases "[] \<in> set ns")
    case no: False
    define m where "m = Min (set ns)"
    have "m \<in> set ns" unfolding m_def by (rule Min_in) (use False in simp_all)
    then have "m \<noteq> []" using no by metis
    moreover have "Min (insert n (set ns)) = min n m" unfolding m_def by (rule Min_insert) (use False in simp_all)
    ultimately show ?thesis using False no by (auto simp: smaller_def least_def min_def simp flip: m_def)
  qed simp
qed

lemma match_loop_result:
  assumes "w \<noteq> []" "[] \<notin> set ps" "[] \<notin> set is"
  shows "match_loop w ns (least ps) (least is) =
    (case find (\<lambda>n. to_lower n = w) ns of
       Some n \<Rightarrow> n
     | None \<Rightarrow>
         (let ps' = rev (filter (\<lambda>n. has_prefix w (to_lower n)) ns) @ ps;
              is' = rev (filter (\<lambda>n. \<not> has_prefix w (to_lower n) \<and> contains w (to_lower n)) ns) @ is
          in if ps' \<noteq> [] then least ps' else least is'))"
  using assms
proof (induction ns arbitrary: ps "is")
  case Nil
  have "Min (set ps) \<in> set ps" if "ps \<noteq> []" using that by (intro Min_in) simp_all
  then have "least ps = [] \<longleftrightarrow> ps = []" using Nil(2) unfolding least_def by metis
  then show ?case by (simp add: Let_def)
next
  case (Cons n ns)
  have n: "n \<noteq> []" if "has_prefix w (to_lower n) \<or> contains w (to_lower n)"
    using that Cons.prems(1) by (auto simp: to_lower_def has_prefix_def)
  consider (exact) "to_lower n = w"
    | (begins) "to_lower n \<noteq> w" "has_prefix w (to_lower n)"
    | (holds) "to_lower n \<noteq> w" "\<not> has_prefix w (to_lower n)" "contains w (to_lower n)"
    | (other) "to_lower n \<noteq> w" "\<not> has_prefix w (to_lower n)" "\<not> contains w (to_lower n)"
    by blast
  then show ?case
  proof cases
    case exact
    then show ?thesis by simp
  next
    case begins
    have "smaller (least ps) n = least (n # ps)" using smaller_least[of n ps] n begins Cons.prems by simp
    then show ?thesis using Cons.IH[of "n # ps" "is"] Cons.prems begins n by (simp add: Let_def split: option.split)
  next
    case holds
    have "smaller (least is) n = least (n # is)" using smaller_least[of n "is"] n holds Cons.prems by simp
    then show ?thesis using Cons.IH[of ps "n # is"] Cons.prems holds n by (simp add: Let_def split: option.split)
  next
    case other
    then show ?thesis using Cons.IH[OF Cons.prems] by (simp add: Let_def split: option.split)
  qed
qed

lemma app_find_unique:
  assumes "n \<in> set ns" "P n" "\<And>m. m \<in> set ns \<Longrightarrow> P m \<Longrightarrow> m = n"
  shows "find P ns = Some n"
proof (cases "find P ns")
  case None
  then show ?thesis using assms(1,2) by (simp add: find_None_iff)
next
  case (Some k)
  then have "k \<in> set ns" "P k" by (auto simp: find_Some_iff)
  then show ?thesis using Some assms(3) by simp
qed

lemma least_set: "set ms = set ns \<Longrightarrow> least ms = least ns"
  by (cases ns) (auto simp: least_def)

text \<open>The choice of an application does not depend on the order in which the applications are listed (the desktop entries
  come out of a map), as long as no two names differ in the case of their letters only.\<close>

theorem matchApp_any_order:
  assumes "set ms = set ns" "inj_on to_lower (set ns)"
  shows "matchApp ms want = matchApp ns want"
proof (cases "trim_space want = []")
  case True
  then show ?thesis by (simp add: matchApp_def to_lower_def)
next
  case False
  define w where "w = to_lower (trim_space want)"
  have w: "w \<noteq> []" using False by (simp add: w_def to_lower_def)
  have least_nil: "least [] = []" by (simp add: least_def)
  have m: "matchApp ns want = (case find (\<lambda>n. to_lower n = w) ns of
       Some n \<Rightarrow> n
     | None \<Rightarrow>
         (let ps = rev (filter (\<lambda>n. has_prefix w (to_lower n)) ns);
              is = rev (filter (\<lambda>n. \<not> has_prefix w (to_lower n) \<and> contains w (to_lower n)) ns)
          in if ps \<noteq> [] then least ps else least is))" for ns
  proof -
    have "matchApp ns want = match_loop w ns [] []" using w by (simp add: matchApp_def Let_def flip: w_def)
    then show ?thesis using match_loop_result[of w "[]" "[]" ns] w by (simp add: least_nil Let_def split: option.split)
  qed
  have f: "find (\<lambda>n. to_lower n = w) ms = find (\<lambda>n. to_lower n = w) ns"
  proof (cases "find (\<lambda>n. to_lower n = w) ns")
    case None
    then have "find (\<lambda>n. to_lower n = w) ms = None" unfolding find_None_iff using assms(1) by simp
    then show ?thesis using None by simp
  next
    case (Some n)
    then have n: "n \<in> set ns" "to_lower n = w" by (auto simp: find_Some_iff)
    have "find (\<lambda>n. to_lower n = w) ms = Some n"
      by (rule app_find_unique) (use n assms in \<open>auto simp: inj_on_def\<close>)
    then show ?thesis using Some by simp
  qed
  have l: "least (rev (filter P ms)) = least (rev (filter P ns))" "(filter P ms = []) = (filter P ns = [])" for P
  proof -
    show "least (rev (filter P ms)) = least (rev (filter P ns))" by (rule least_set) (simp add: assms(1))
    show "(filter P ms = []) = (filter P ns = [])" using assms(1) by (simp add: filter_empty_conv)
  qed
  show ?thesis unfolding m f by (simp add: Let_def l split: option.split)
qed

theorem matchApp_any_order_witness:
  "matchApp [''Chromium'', ''Google Chrome'', ''Chrome Remote''] ''chrom'' = ''Chrome Remote''
   \<and> matchApp [''Chrome Remote'', ''Chromium'', ''Google Chrome''] ''chrom'' = ''Chrome Remote''"
proof
  show a: "matchApp [''Chromium'', ''Google Chrome'', ''Chrome Remote''] ''chrom'' = ''Chrome Remote''" by code_simp
  have "distinct (map to_lower [''Chromium'', ''Google Chrome'', ''Chrome Remote''])" by code_simp
  then have "inj_on to_lower (set [''Chromium'', ''Google Chrome'', ''Chrome Remote''])" by (simp only: distinct_map)
  then have "matchApp [''Chrome Remote'', ''Chromium'', ''Google Chrome''] ''chrom''
      = matchApp [''Chromium'', ''Google Chrome'', ''Chrome Remote''] ''chrom''"
    by (rule matchApp_any_order[rotated]) auto
  then show "matchApp [''Chrome Remote'', ''Chromium'', ''Google Chrome''] ''chrom'' = ''Chrome Remote''" using a by simp
qed

text \<open>Two names that differ in case only: the first one listed is taken.\<close>

lemma matchApp_takes_the_first:
  "matchApp [''Notes'', ''notes''] ''notes'' = ''Notes''" "matchApp [''notes'', ''Notes''] ''notes'' = ''notes''"
  by code_simp+

lemma app_found_in: "find P ns = Some n \<Longrightarrow> n \<in> set ns"
  by (auto simp: find_Some_iff)

text \<open>A match is one of the names.\<close>

lemma matchApp_in: "matchApp names want \<noteq> [] \<Longrightarrow> matchApp names want \<in> set names"
proof -
  have "match_loop w ns p i \<noteq> [] \<Longrightarrow> match_loop w ns p i \<in> insert p (insert i (set ns))" for w ns p i
    by (induction w ns p i rule: match_loop.induct) (auto simp: Let_def smaller_def split: if_splits)
  then show "matchApp names want \<noteq> [] \<Longrightarrow> matchApp names want \<in> set names"
    by (fastforce simp: matchApp_def Let_def split: if_splits)
qed

text \<open>A letter is never sent as a capital, which xdotool and AppleScript would read as Shift with the letter.\<close>

lemma lone_letter:
  assumes "c \<in> set ''abcdefghijklmnopqrstuvwxyzABCDEFGHIJKLMNOPQRSTUVWXYZ''"
  shows "x11Keysym [c] = Inr [lower_char c] \<and> macKeyScript [c] = Inr (system_events @ ''keystroke '' @ quoted [lower_char c])"
proof -
  have "list_all (\<lambda>c. x11Keysym [c] = Inr [lower_char c]
      \<and> macKeyScript [c] = Inr (system_events @ ''keystroke '' @ quoted [lower_char c]))
    ''abcdefghijklmnopqrstuvwxyzABCDEFGHIJKLMNOPQRSTUVWXYZ''"
    by code_simp
  then show ?thesis using assms unfolding list_all_iff by blast
qed

text \<open>A literal of AppleScript ends where it should: an unescaped quotation mark does not occur.\<close>

fun closed_literal :: "string \<Rightarrow> bool" where
  "closed_literal [] = True"
| "closed_literal [c] = (c \<noteq> CHR 0x5C \<and> c \<noteq> CHR 0x22)"
| "closed_literal (c # d # s) =
    (if c = CHR 0x5C then closed_literal s else c \<noteq> CHR 0x22 \<and> closed_literal (d # s))"

lemma escapeAppleScript_closed: "closed_literal (escapeAppleScript s)"
proof -
  have "closed_literal (c # s) = closed_literal s" if "c \<noteq> CHR 0x5C" "c \<noteq> CHR 0x22" for c s
    using that by (cases s) auto
  then show ?thesis by (induction s) (auto simp: escapeAppleScript_def escape_apple_char_def)
qed

end
