(* ===== verification/Runner_Screens.thy ===== *)
theory Runner_Screens
  imports Runner_Keys "HOL-Library.Signed_Division"
begin

text \<open>
  The desktops that the runner program drives: the interface screen of src/runner/control.go and its implementations for
  X11 (control_linux.go) and macOS (control_darwin.go).  A desktop is driven by running programs; what they print, and
  whether they fail, may depend on everything done before, which is kept in a log of deeds.  The locale pointer states
  what a drag promises about the mouse button, and is interpreted for both.
\<close>

section \<open>Deeds\<close>

text \<open>
  The last six belong to Windows: a run with one more variable of the environment, the pointer that is moved, an event of
  the mouse (its flag and its data), of a key (up or not), and an object of the graphics device that is taken or given back.
\<close>

datatype deed =
    Ran string "string list"
  | Made_executable string
  | Fetched string
  | Wrote string string
  | Removed string
  | Ran_with string "string list" string
  | Cursor int int
  | Mouse nat nat
  | Keyb nat bool
  | Took string
  | Gave string

type_synonym 'a deeds = "deed list \<Rightarrow> 'a res \<times> deed list"

text \<open>
  What a run prints (standard output and error) and whether it fails, the programs on the path, the variables of the
  environment, names for temporary files, the contents of files and directories (name, whether a directory), and
  the order in which a map of applications is visited.
\<close>

record desk_env =
  dk_exec :: "deed list \<Rightarrow> string \<Rightarrow> string list \<Rightarrow> string \<times> string \<times> go_error option"
  dk_look :: "string \<Rightarrow> bool"
  dk_getenv :: "string \<Rightarrow> string"
  dk_temp :: "deed list \<Rightarrow> string \<Rightarrow> string res"
  dk_read :: "deed list \<Rightarrow> string \<Rightarrow> string res"
  dk_dir :: "string \<Rightarrow> (string \<times> bool) list option"
  dk_home :: "string option"
  dk_chmod :: "deed list \<Rightarrow> string \<Rightarrow> go_error option"
  dk_order :: "string list \<Rightarrow> string list"

text \<open>runCommand, with what comes before the error in its message.\<close>

definition run_program :: "(string \<Rightarrow> string list \<Rightarrow> string) \<Rightarrow> desk_env \<Rightarrow> string \<Rightarrow> string list \<Rightarrow> string deeds" where
  "run_program label e name args log =
    (case dk_exec e log name args of
       (out, errout, err) \<Rightarrow>
         (case err of
            None \<Rightarrow> Inr out
          | Some er \<Rightarrow> Inl (ErrNote (ErrWrap (label name args) er) ('': '' @ trim_space errout)),
          log @ [Ran name args]))"

definition runCommand :: "desk_env \<Rightarrow> string \<Rightarrow> string list \<Rightarrow> string deeds" where
  "runCommand = run_program (\<lambda>name args. name @ '' '' @ join '' '' args @ '': '')"

definition runCommandDarwin :: "desk_env \<Rightarrow> string \<Rightarrow> string list \<Rightarrow> string deeds" where
  "runCommandDarwin = run_program (\<lambda>name args. name @ '': '')"

text \<open>A deferred removal, and the use of a temporary file.\<close>

definition removing :: "string \<Rightarrow> 'a deeds \<Rightarrow> 'a deeds" where
  "removing path m log = (case m log of (r, log1) \<Rightarrow> (r, log1 @ [Removed path]))"

definition with_temp_file :: "desk_env \<Rightarrow> string \<Rightarrow> (string \<Rightarrow> 'a deeds) \<Rightarrow> 'a deeds" where
  "with_temp_file e pattern f log =
    (case dk_temp e log pattern of Inl err \<Rightarrow> (Inl err, log) | Inr path \<Rightarrow> removing path (f path) log)"

definition read_file :: "desk_env \<Rightarrow> string \<Rightarrow> string deeds" where
  "read_file e path log = (dk_read e log path, log)"

section \<open>The interface\<close>

record screen =
  sc_Screenshot :: "string deeds"
  sc_Click :: "int \<Rightarrow> int \<Rightarrow> string \<Rightarrow> int \<Rightarrow> unit deeds"
  sc_Drag :: "int \<Rightarrow> int \<Rightarrow> int \<Rightarrow> int \<Rightarrow> int \<Rightarrow> unit deeds"
  sc_Scroll :: "int \<Rightarrow> int \<Rightarrow> int \<Rightarrow> int \<Rightarrow> unit deeds"
  sc_Type :: "string \<Rightarrow> unit deeds"
  sc_Key :: "string \<Rightarrow> unit deeds"
  sc_Chord :: "string list \<Rightarrow> unit deeds"
  sc_ListApps :: "string list deeds"
  sc_OpenApp :: "string \<Rightarrow> string deeds"
  sc_CurrentActivity :: "string deeds"
  sc_RunInstaller :: "string \<Rightarrow> string \<Rightarrow> unit deeds"

text \<open>A drag goes through ten points; the arithmetic is that of 64-bit integers, and pauses have no effect.\<close>

definition drag_at :: "int \<Rightarrow> int \<Rightarrow> int \<Rightarrow> int" where
  "drag_at a b i = wrap64 (a + wrap64 (wrap64 (b - a) * i) sdiv 10)"

type_synonym point = "int \<times> int"

definition drag_points :: "int \<Rightarrow> int \<Rightarrow> int \<Rightarrow> int \<Rightarrow> point list" where
  "drag_points x1 y1 x2 y2 = map (\<lambda>i. (drag_at x1 x2 i, drag_at y1 y2 i)) [1..10]"

text \<open>The moves of a drag; when one fails the button is released where the pointer was to go.\<close>

fun drag_moves :: "(point \<Rightarrow> string deeds) \<Rightarrow> (point \<Rightarrow> string deeds) \<Rightarrow> point list \<Rightarrow> unit deeds" where
  "drag_moves move up [] = ret ()"
| "drag_moves move up (p # ps) =
    bnd (attempt (move p)) (\<lambda>r.
      case r of
        Inl err \<Rightarrow> bnd (attempt (up p)) (\<lambda>_. fail err)
      | Inr _ \<Rightarrow> drag_moves move up ps)"

section \<open>X11\<close>

record screenshotTool =
  sh_name :: string
  sh_args :: "string list"
  sh_toStdout :: bool

definition screenshotTools :: "screenshotTool list" where
  "screenshotTools =
    [\<lparr>sh_name = ''maim'', sh_args = [''--hidecursor''], sh_toStdout = True\<rparr>,
     \<lparr>sh_name = ''import'', sh_args = [''-window'', ''root'', ''png:-''], sh_toStdout = True\<rparr>,
     \<lparr>sh_name = ''scrot'', sh_args = [''--overwrite'', ''{}''], sh_toStdout = False\<rparr>,
     \<lparr>sh_name = ''gnome-screenshot'', sh_args = [''-f'', ''{}''], sh_toStdout = False\<rparr>,
     \<lparr>sh_name = ''spectacle'', sh_args = [''-b'', ''-n'', ''-o'', ''{}''], sh_toStdout = False\<rparr>]"

definition pickScreenshotTool :: "desk_env \<Rightarrow> screenshotTool res" where
  "pickScreenshotTool e =
    (case find (\<lambda>t. dk_look e (sh_name t)) screenshotTools of
       Some t \<Rightarrow> Inr t
     | None \<Rightarrow> Inl (Err (''no screenshot tool found '' @ em_dash @ '' install one of: ''
                 @ join '', '' (map sh_name screenshotTools) @ '' (Debian/Ubuntu: sudo apt install maim)'')))"

definition x11_Screenshot :: "desk_env \<Rightarrow> screenshotTool \<Rightarrow> string deeds" where
  "x11_Screenshot e t =
    (if sh_toStdout t then runCommand e (sh_name t) (sh_args t)
     else with_temp_file e ''ocshot-*.png'' (\<lambda>path.
       bnd (runCommand e (sh_name t) (map (replace_all ''{}'' path) (sh_args t))) (\<lambda>_. read_file e path)))"

definition xdotool :: "desk_env \<Rightarrow> string list \<Rightarrow> unit deeds" where
  "xdotool e args = unit_of (runCommand e ''xdotool'' args)"

definition x11_Click :: "desk_env \<Rightarrow> int \<Rightarrow> int \<Rightarrow> string \<Rightarrow> int \<Rightarrow> unit deeds" where
  "x11_Click e x y button count = bnd (lift (x11ClickArgs x y button count)) (xdotool e)"

fun all_runs :: "desk_env \<Rightarrow> string list list \<Rightarrow> unit deeds" where
  "all_runs e [] = ret ()"
| "all_runs e (args # rest) = bnd (xdotool e args) (\<lambda>_. all_runs e rest)"

definition x11_Scroll :: "desk_env \<Rightarrow> int \<Rightarrow> int \<Rightarrow> int \<Rightarrow> int \<Rightarrow> unit deeds" where
  "x11_Scroll e x y dx dy = all_runs e (x11ScrollArgs x y dx dy)"

definition x11_move :: "desk_env \<Rightarrow> point \<Rightarrow> string deeds" where
  "x11_move e p = runCommand e ''xdotool'' [''mousemove'', itoa (fst p), itoa (snd p)]"

definition x11_up :: "desk_env \<Rightarrow> string deeds" where
  "x11_up e = runCommand e ''xdotool'' [''mouseup'', ''1'']"

definition x11_Drag :: "desk_env \<Rightarrow> int \<Rightarrow> int \<Rightarrow> int \<Rightarrow> int \<Rightarrow> int \<Rightarrow> unit deeds" where
  "x11_Drag e x1 y1 x2 y2 durationMs =
    bnd (runCommand e ''xdotool'' [''mousemove'', itoa x1, itoa y1, ''mousedown'', ''1'']) (\<lambda>_.
    bnd (drag_moves (x11_move e) (\<lambda>_. x11_up e) (drag_points x1 y1 x2 y2)) (\<lambda>_.
    unit_of (x11_up e)))"

definition x11_Type :: "desk_env \<Rightarrow> string \<Rightarrow> unit deeds" where
  "x11_Type e text = xdotool e [''type'', ''--delay'', ''12'', ''--'', text]"

definition x11_Key :: "desk_env \<Rightarrow> string \<Rightarrow> unit deeds" where
  "x11_Key e name = bnd (lift (x11Keysym name)) (\<lambda>k. xdotool e [''key'', k])"

definition x11_Chord :: "desk_env \<Rightarrow> string list \<Rightarrow> unit deeds" where
  "x11_Chord e keys = bnd (lift (x11ChordKeysym keys)) (\<lambda>combo. xdotool e [''key'', combo])"

definition desktopDirs :: "string list" where
  "desktopDirs =
    [''/usr/share/applications'', ''/usr/local/share/applications'', ''/var/lib/flatpak/exports/share/applications'']"

definition userDesktopDir :: "desk_env \<Rightarrow> string" where
  "userDesktopDir e = (case dk_home e of None \<Rightarrow> [] | Some home \<Rightarrow> home @ ''/.local/share/applications'')"

text \<open>The entries of one directory: display name and identifier.\<close>

definition entry_of :: "desk_env \<Rightarrow> deed list \<Rightarrow> string \<Rightarrow> string \<times> bool \<Rightarrow> (string \<times> string) list" where
  "entry_of e log dir f =
    (if snd f \<or> \<not> has_suffix ''.desktop'' (fst f) then []
     else case dk_read e log (dir @ ''/'' @ fst f) of
       Inl _ \<Rightarrow> []
     | Inr content \<Rightarrow>
         (case parseDesktopEntry content of
            (name, hidden) \<Rightarrow> if name = [] \<or> hidden then [] else [(name, trim_suffix ''.desktop'' (fst f))]))"

definition dir_entries :: "desk_env \<Rightarrow> deed list \<Rightarrow> string \<Rightarrow> (string \<times> string) list" where
  "dir_entries e log dir =
    (case dk_dir e dir of None \<Rightarrow> [] | Some fs \<Rightarrow> concat (map (entry_of e log dir) fs))"

text \<open>The last entry of a name counts, as in the map of the code.\<close>

definition desktopEntries :: "desk_env \<Rightarrow> deed list \<Rightarrow> (string \<times> string) list" where
  "desktopEntries e log =
    rev (concat (map (dir_entries e log)
      (desktopDirs @ (if userDesktopDir e = [] then [] else [userDesktopDir e]))))"

definition entry_names :: "desk_env \<Rightarrow> deed list \<Rightarrow> string list" where
  "entry_names e log = dk_order e (remdups (map fst (desktopEntries e log)))"

definition x11_ListApps :: "desk_env \<Rightarrow> string list deeds" where
  "x11_ListApps e log = (Inr (sort (entry_names e log)), log)"

definition no_application :: "string \<Rightarrow> go_error" where
  "no_application name =
    Err (''no application matching '' @ go_quote name @ '' '' @ em_dash @ '' call list_apps for the exact names'')"

definition x11_OpenApp :: "desk_env \<Rightarrow> string \<Rightarrow> string deeds" where
  "x11_OpenApp e name log =
    (let found = matchApp (entry_names e log) name
     in if found = [] then fail (no_application name) log
        else if \<not> dk_look e ''gtk-launch''
        then fail (Err (''gtk-launch is required to open apps by name: install it ''
                        @ ''(Debian/Ubuntu: sudo apt install libgtk-3-bin)'')) log
        else bnd (runCommand e ''gtk-launch''
                    [(case map_of (desktopEntries e log) found of None \<Rightarrow> [] | Some k \<Rightarrow> k) @ ''.desktop''])
               (\<lambda>_. ret found) log)"

definition x11_CurrentActivity :: "desk_env \<Rightarrow> string deeds" where
  "x11_CurrentActivity e =
    bnd (runCommand e ''xdotool'' [''getactivewindow'', ''getwindowname'']) (\<lambda>out. ret (trim_space out))"

definition make_executable :: "desk_env \<Rightarrow> string \<Rightarrow> unit deeds" where
  "make_executable e path log =
    (case dk_chmod e log path of
       Some err \<Rightarrow> (Inl (ErrWrap ''make installer executable: '' err), log)
     | None \<Rightarrow> (Inr (), log @ [Made_executable path]))"

definition x11_RunInstaller :: "desk_env \<Rightarrow> string \<Rightarrow> string \<Rightarrow> unit deeds" where
  "x11_RunInstaller e path args =
    bnd (lift (linuxInstallCommand path args)) (\<lambda>(name, argv, needsChmod).
    bnd (if needsChmod then make_executable e path else ret ()) (\<lambda>_.
    unit_of (runCommand e name argv)))"

definition x11_screen :: "desk_env \<Rightarrow> screenshotTool \<Rightarrow> screen" where
  "x11_screen e t =
    \<lparr>sc_Screenshot = x11_Screenshot e t, sc_Click = x11_Click e, sc_Drag = x11_Drag e, sc_Scroll = x11_Scroll e,
     sc_Type = x11_Type e, sc_Key = x11_Key e, sc_Chord = x11_Chord e, sc_ListApps = x11_ListApps e,
     sc_OpenApp = x11_OpenApp e, sc_CurrentActivity = x11_CurrentActivity e, sc_RunInstaller = x11_RunInstaller e\<rparr>"

definition x11_newScreen :: "desk_env \<Rightarrow> screen res" where
  "x11_newScreen e =
    (if dk_getenv e ''DISPLAY'' = [] then
       (if dk_getenv e ''WAYLAND_DISPLAY'' \<noteq> []
        then Inl (Err (''this looks like a Wayland session, which does not allow synthetic input from another process; ''
               @ ''log in to an X11/Xorg session (or enable XWayland with DISPLAY set) and restart the runner''))
        else Inl (Err (''no DISPLAY is set '' @ em_dash
               @ '' the runner must run inside a graphical X11 session (not over a plain SSH shell)'')))
     else if \<not> dk_look e ''xdotool''
     then Inl (Err (''xdotool is required for input control: install it ''
            @ ''(Debian/Ubuntu: sudo apt install xdotool; Fedora: sudo dnf install xdotool)''))
     else map_sum id (x11_screen e) (pickScreenshotTool e))"

section \<open>macOS\<close>

definition osascript :: "desk_env \<Rightarrow> string \<Rightarrow> unit deeds" where
  "osascript e script = unit_of (runCommandDarwin e ''osascript'' [''-e'', script])"

definition cliclick :: "desk_env \<Rightarrow> string list \<Rightarrow> string deeds" where
  "cliclick e args = runCommandDarwin e ''cliclick'' args"

definition mac_Screenshot :: "desk_env \<Rightarrow> string deeds" where
  "mac_Screenshot e =
    with_temp_file e ''ocshot-*.png'' (\<lambda>path.
      bnd (attempt (runCommandDarwin e ''screencapture'' [''-x'', ''-t'', ''png'', path])) (\<lambda>r.
        case r of
          Inl err \<Rightarrow> fail (ErrNote err '' (Screen Recording permission may be missing)'')
        | Inr _ \<Rightarrow> read_file e path))"

definition mac_Click :: "desk_env \<Rightarrow> bool \<Rightarrow> int \<Rightarrow> int \<Rightarrow> string \<Rightarrow> int \<Rightarrow> unit deeds" where
  "mac_Click e hasCliclick x y button count =
    (let upper = to_upper (trim_space button); needsCliclick = (upper \<noteq> [] \<and> upper \<noteq> ''LEFT'')
     in if needsCliclick \<or> hasCliclick \<and> 2 \<le> count then
          (if \<not> hasCliclick
           then fail (Err (to_lower upper @ ''-click needs the cliclick helper on macOS ''
                  @ ''(AppleScript can only left-click): brew install cliclick''))
           else bnd (lift (cliclickClickArgs x y button count)) (\<lambda>args. unit_of (cliclick e args)))
        else osascript e (macClickScript x y count))"

definition key_code :: "string \<Rightarrow> string" where
  "key_code k = system_events @ ''key code '' @ k"

definition horizontal :: "string \<Rightarrow> go_error" where
  "horizontal what = Err (''horizontal scrolling '' @ what)"

definition mac_Scroll :: "desk_env \<Rightarrow> bool \<Rightarrow> int \<Rightarrow> int \<Rightarrow> int \<Rightarrow> int \<Rightarrow> unit deeds" where
  "mac_Scroll e hasCliclick x y dx dy =
    (if hasCliclick then
       bnd (cliclick e [''m:'' @ itoa x @ '','' @ itoa y]) (\<lambda>_.
       bnd (if dy \<noteq> 0 then unit_of (cliclick e [''w:'' @ itoa (wrap64 (- dy))]) else ret ()) (\<lambda>_.
       if dx \<noteq> 0 then fail (horizontal ''is not supported on macOS'') else ret ()))
     else if dx \<noteq> 0 then fail (horizontal ''on macOS needs the cliclick helper: brew install cliclick'')
     else foldr (\<lambda>_ m. bnd (osascript e (key_code (if dy < 0 then ''116'' else ''121''))) (\<lambda>_. m))
            (replicate (nat (if dy < 0 then wrap64 (- dy) else dy)) ()) (ret ()))"

definition mac_move :: "desk_env \<Rightarrow> point \<Rightarrow> string deeds" where
  "mac_move e p = cliclick e [''m:'' @ itoa (fst p) @ '','' @ itoa (snd p)]"

definition mac_up :: "desk_env \<Rightarrow> point \<Rightarrow> string deeds" where
  "mac_up e p = cliclick e [''du:'' @ itoa (fst p) @ '','' @ itoa (snd p)]"

definition mac_Drag :: "desk_env \<Rightarrow> bool \<Rightarrow> int \<Rightarrow> int \<Rightarrow> int \<Rightarrow> int \<Rightarrow> int \<Rightarrow> unit deeds" where
  "mac_Drag e hasCliclick x1 y1 x2 y2 durationMs =
    (if \<not> hasCliclick
     then fail (Err (''drag needs the cliclick helper on macOS (AppleScript cannot hold the mouse button): ''
            @ ''brew install cliclick''))
     else bnd (cliclick e [''m:'' @ itoa x1 @ '','' @ itoa y1, ''dd:'' @ itoa x1 @ '','' @ itoa y1]) (\<lambda>_.
          bnd (drag_moves (mac_move e) (mac_up e) (drag_points x1 y1 x2 y2)) (\<lambda>_.
          unit_of (mac_up e (x2, y2)))))"

definition mac_Type :: "desk_env \<Rightarrow> string \<Rightarrow> unit deeds" where
  "mac_Type e text = osascript e (system_events @ ''keystroke '' @ quoted (escapeAppleScript text))"

definition mac_Key :: "desk_env \<Rightarrow> string \<Rightarrow> unit deeds" where
  "mac_Key e name = bnd (lift (macKeyScript name)) (osascript e)"

definition mac_Chord :: "desk_env \<Rightarrow> string list \<Rightarrow> unit deeds" where
  "mac_Chord e keys = bnd (lift (macChordScript keys)) (osascript e)"

definition appDirs :: "string list" where
  "appDirs = [''/Applications'', ''/Applications/Utilities'', ''/System/Applications'', ''/System/Applications/Utilities'']"

definition apps_in :: "desk_env \<Rightarrow> string \<Rightarrow> string list" where
  "apps_in e dir =
    (case dk_dir e dir of
       None \<Rightarrow> []
     | Some fs \<Rightarrow> map (trim_suffix ''.app'') (filter (has_suffix ''.app'') (map fst fs)))"

definition appNames :: "desk_env \<Rightarrow> string list" where
  "appNames e =
    sort (remdups (concat (map (apps_in e)
      (appDirs @ (case dk_home e of None \<Rightarrow> [] | Some home \<Rightarrow> [home @ ''/Applications''])))))"

definition mac_ListApps :: "desk_env \<Rightarrow> string list deeds" where
  "mac_ListApps e = ret (appNames e)"

definition mac_OpenApp :: "desk_env \<Rightarrow> string \<Rightarrow> string deeds" where
  "mac_OpenApp e name =
    (let found = matchApp (appNames e) name
     in if found = [] then fail (no_application name)
        else bnd (runCommandDarwin e ''open'' [''-a'', found]) (\<lambda>_. ret found))"

definition mac_CurrentActivity :: "desk_env \<Rightarrow> string deeds" where
  "mac_CurrentActivity e =
    bnd (runCommandDarwin e ''osascript'' [''-e'', system_events @ ''get name of first process whose frontmost is true''])
      (\<lambda>out. ret (trim_space out))"

definition mac_RunInstaller :: "desk_env \<Rightarrow> string \<Rightarrow> string \<Rightarrow> unit deeds" where
  "mac_RunInstaller e path args =
    bnd (lift (darwinInstallCommand path args)) (\<lambda>(name, argv). unit_of (runCommandDarwin e name argv))"

definition mac_screen :: "desk_env \<Rightarrow> bool \<Rightarrow> screen" where
  "mac_screen e cc =
    \<lparr>sc_Screenshot = mac_Screenshot e, sc_Click = mac_Click e cc, sc_Drag = mac_Drag e cc, sc_Scroll = mac_Scroll e cc,
     sc_Type = mac_Type e, sc_Key = mac_Key e, sc_Chord = mac_Chord e, sc_ListApps = mac_ListApps e,
     sc_OpenApp = mac_OpenApp e, sc_CurrentActivity = mac_CurrentActivity e, sc_RunInstaller = mac_RunInstaller e\<rparr>"

text \<open>The pointed quotation mark of the messages, in UTF-8.\<close>

definition guillemet :: string where
  "guillemet = [CHR 0xE2, CHR 0x80, CHR 0xBA]"

definition mac_newScreen :: "desk_env \<Rightarrow> screen deeds" where
  "mac_newScreen e =
    (if \<not> dk_look e ''osascript''
     then fail (Err (''osascript not found '' @ em_dash @ '' this does not look like a macOS system''))
     else bnd (attempt (runCommandDarwin e ''osascript'' [''-e'', system_events @ ''get name of first process''])) (\<lambda>r.
       case r of
         Inl err \<Rightarrow>
           fail (ErrWrap (''cannot drive System Events '' @ em_dash @ '' grant Accessibility to the app running this runner ''
             @ ''in System Settings '' @ guillemet @ '' Privacy & Security '' @ guillemet
             @ '' Accessibility (and Screen Recording for screenshots), then restart it: '') err)
       | Inr _ \<Rightarrow> ret (mac_screen e (dk_look e ''cliclick''))))"

section \<open>What a drag promises\<close>

text \<open>
  A drag presses the button where it starts, moves, and releases it: as long as the press itself worked, a
  release is the last thing it does, whatever fails on the way.
\<close>

definition held :: "(deed \<Rightarrow> bool) \<Rightarrow> (deed \<Rightarrow> bool) \<Rightarrow> deed list \<Rightarrow> bool" where
  "held presses releases ds = fold (\<lambda>d h. if presses d then True else if releases d then False else h) ds False"

lemma held_append:
  assumes "list_all (\<lambda>d. \<not> presses d \<and> \<not> releases d) ms"
  shows "held presses releases (ds @ ms) = held presses releases ds"
proof -
  have "fold (\<lambda>d h. if presses d then True else if releases d then False else h) ms h = h" for h
    using assms by (induction ms) auto
  then show ?thesis by (simp add: held_def)
qed

lemma held_last: "\<not> presses d \<Longrightarrow> releases d \<Longrightarrow> \<not> held presses releases (ds @ [d])"
  by (simp add: held_def)

locale pointer =
  fixes presses releases :: "deed \<Rightarrow> bool"
    and down :: "point \<Rightarrow> string deeds" and move up :: "point \<Rightarrow> string deeds"
    and at_down at_move at_up :: "point \<Rightarrow> deed"
  assumes logs: "snd (down p log) = log @ [at_down p]" "snd (move p log) = log @ [at_move p]"
      "snd (up p log) = log @ [at_up p]"
    and plain: "\<not> presses (at_move p)" "\<not> releases (at_move p)"
    and frees: "\<not> presses (at_up p)" "releases (at_up p)"
begin

text \<open>The moves stop at the first that fails, and then the button is released there.\<close>

lemma moves_log:
  obtains qs rest where "ps = qs @ rest"
    "snd (drag_moves move up ps log) =
       log @ map at_move qs @ (if is_ok (fst (drag_moves move up ps log)) then [] else [at_up (last qs)])"
    "is_ok (fst (drag_moves move up ps log)) \<longrightarrow> rest = []"
    "is_ok (fst (drag_moves move up ps log)) \<or> qs \<noteq> []"
proof -
  have "\<exists>qs rest. ps = qs @ rest \<and> snd (drag_moves move up ps log) =
       log @ map at_move qs @ (if is_ok (fst (drag_moves move up ps log)) then [] else [at_up (last qs)])
     \<and> (is_ok (fst (drag_moves move up ps log)) \<longrightarrow> rest = [])
     \<and> (is_ok (fst (drag_moves move up ps log)) \<or> qs \<noteq> [])"
  proof (induction ps arbitrary: log)
    case Nil
    then show ?case by (simp add: ret_apply)
  next
    case (Cons p ps)
    obtain r where m: "move p log = (r, log @ [at_move p])" using logs(2)[of p log] by (metis surj_pair snd_conv)
    show ?case
    proof (cases r)
      case (Inl err)
      obtain r2 where u: "up p (log @ [at_move p]) = (r2, log @ [at_move p] @ [at_up p])"
        using logs(3)[of p "log @ [at_move p]"] by (metis surj_pair snd_conv append_assoc)
      show ?thesis
        by (rule exI[of _ "[p]"]) (simp add: bnd_def attempt_def m Inl u fail_apply)
    next
      case (Inr out)
      have step: "drag_moves move up (p # ps) log = drag_moves move up ps (log @ [at_move p])"
        by (simp add: bnd_def attempt_def m Inr)
      obtain qs rest where "ps = qs @ rest"
        "snd (drag_moves move up ps (log @ [at_move p])) = (log @ [at_move p]) @ map at_move qs
          @ (if is_ok (fst (drag_moves move up ps (log @ [at_move p]))) then [] else [at_up (last qs)])"
        "is_ok (fst (drag_moves move up ps (log @ [at_move p]))) \<longrightarrow> rest = []"
        "is_ok (fst (drag_moves move up ps (log @ [at_move p]))) \<or> qs \<noteq> []"
        using Cons[of "log @ [at_move p]"] by blast
      then show ?thesis unfolding step by (intro exI[of _ "p # qs"] exI[of _ rest]) auto
    qed
  qed
  then show thesis using that by blast
qed

definition drag :: "point \<Rightarrow> point list \<Rightarrow> point \<Rightarrow> unit deeds" where
  "drag p ps q = bnd (down p) (\<lambda>_. bnd (drag_moves move up ps) (\<lambda>_. unit_of (up q)))"

lemma drag_log:
  obtains (no_press) err where "drag p ps q log = (Inl err, log @ [at_down p])" "fst (down p log) = Inl err"
  | (pressed) qs rest z where "ps = qs @ rest" "snd (drag p ps q log) = log @ [at_down p] @ map at_move qs @ [at_up z]"
      "fst (drag p ps q log) = Inr () \<longrightarrow> rest = [] \<and> z = q"
proof -
  obtain r where d: "down p log = (r, log @ [at_down p])" using logs(1)[of p log] by (metis surj_pair snd_conv)
  let ?log = "log @ [at_down p]"
  show thesis
  proof (cases r)
    case (Inl err)
    then show thesis using no_press[of err] d by (simp add: drag_def bnd_def)
  next
    case (Inr out)
    obtain qs rest where q: "ps = qs @ rest"
      "snd (drag_moves move up ps ?log) = ?log @ map at_move qs @ (if is_ok (fst (drag_moves move up ps ?log)) then [] else [at_up (last qs)])"
      "is_ok (fst (drag_moves move up ps ?log)) \<longrightarrow> rest = []"
      "is_ok (fst (drag_moves move up ps ?log)) \<or> qs \<noteq> []"
      by (rule moves_log[of ps ?log])
    obtain r1 log1 where m: "drag_moves move up ps ?log = (r1, log1)" by (metis surj_pair)
    show thesis
    proof (cases r1)
      case (Inl err)
      have "drag p ps q log = (Inl err, log1)" using d Inr m Inl by (simp add: drag_def bnd_def)
      moreover have "log1 = ?log @ map at_move qs @ [at_up (last qs)]" using q(2) m Inl by simp
      ultimately show thesis by (intro pressed[OF q(1), of "last qs"]) simp_all
    next
      case (Inr u)
      obtain r2 where u: "up q log1 = (r2, log1 @ [at_up q])" using logs(3)[of q log1] by (metis surj_pair snd_conv)
      have "drag p ps q log = (map_sum id (\<lambda>_. ()) r2, log1 @ [at_up q])"
        using d \<open>r = Inr out\<close> m Inr u by (cases r2) (simp_all add: drag_def bnd_def unit_of_def ret_apply)
      moreover have "log1 = ?log @ map at_move qs" "rest = []" using q(2,3) m Inr by simp_all
      ultimately show thesis by (intro pressed[OF q(1), of q]) simp_all
    qed
  qed
qed

lemma drag_lets_go:
  assumes "\<not> held presses releases log" "\<not> (\<exists>err. fst (down p log) = Inl err)"
  shows "\<not> held presses releases (snd (drag p ps q log))"
proof (rule drag_log[of p ps q log])
  show ?thesis if "fst (down p log) = Inl err" for err using that assms(2) by blast
next
  fix qs rest z
  assume "snd (drag p ps q log) = log @ [at_down p] @ map at_move qs @ [at_up z]"
  then show ?thesis
    using held_last[of presses "at_up z" releases "log @ [at_down p] @ map at_move qs"] frees by simp
qed

end

definition x11_presses :: "deed \<Rightarrow> bool" where
  "x11_presses d =
    (case d of Ran n args \<Rightarrow> n = ''xdotool'' \<and> length args = 5 \<and> args ! 0 = ''mousemove'' \<and> args ! 3 = ''mousedown'' | _ \<Rightarrow> False)"

definition x11_releases :: "deed \<Rightarrow> bool" where
  "x11_releases d = (d = Ran ''xdotool'' [''mouseup'', ''1''])"

definition mac_presses :: "deed \<Rightarrow> bool" where
  "mac_presses d =
    (case d of Ran n args \<Rightarrow> n = ''cliclick'' \<and> length args = 2 \<and> has_prefix ''dd:'' (args ! 1) | _ \<Rightarrow> False)"

definition mac_releases :: "deed \<Rightarrow> bool" where
  "mac_releases d =
    (case d of Ran n args \<Rightarrow> n = ''cliclick'' \<and> length args = 1 \<and> has_prefix ''du:'' (args ! 0) | _ \<Rightarrow> False)"

definition x11_down :: "desk_env \<Rightarrow> point \<Rightarrow> string deeds" where
  "x11_down e p = runCommand e ''xdotool'' [''mousemove'', itoa (fst p), itoa (snd p), ''mousedown'', ''1'']"

definition mac_down :: "desk_env \<Rightarrow> point \<Rightarrow> string deeds" where
  "mac_down e p =
    cliclick e [''m:'' @ itoa (fst p) @ '','' @ itoa (snd p), ''dd:'' @ itoa (fst p) @ '','' @ itoa (snd p)]"

lemma run_log [simp]:
  "snd (runCommand e name args log) = log @ [Ran name args]"
  "snd (runCommandDarwin e name args log) = log @ [Ran name args]"
  by (simp_all add: runCommand_def runCommandDarwin_def run_program_def split: prod.split)

interpretation x11_pointer: pointer x11_presses x11_releases "x11_down e" "x11_move e" "\<lambda>_. x11_up e"
    "\<lambda>p. Ran ''xdotool'' [''mousemove'', itoa (fst p), itoa (snd p), ''mousedown'', ''1'']"
    "\<lambda>p. Ran ''xdotool'' [''mousemove'', itoa (fst p), itoa (snd p)]" "\<lambda>_. Ran ''xdotool'' [''mouseup'', ''1'']" for e
  by unfold_locales (simp_all add: x11_down_def x11_move_def x11_up_def x11_presses_def x11_releases_def)

interpretation mac_pointer: pointer mac_presses mac_releases "mac_down e" "mac_move e" "mac_up e"
    "\<lambda>p. Ran ''cliclick'' [''m:'' @ itoa (fst p) @ '','' @ itoa (snd p), ''dd:'' @ itoa (fst p) @ '','' @ itoa (snd p)]"
    "\<lambda>p. Ran ''cliclick'' [''m:'' @ itoa (fst p) @ '','' @ itoa (snd p)]"
    "\<lambda>p. Ran ''cliclick'' [''du:'' @ itoa (fst p) @ '','' @ itoa (snd p)]" for e
  by unfold_locales
    (simp_all add: mac_down_def mac_move_def mac_up_def cliclick_def mac_presses_def mac_releases_def has_prefix_def)

lemma x11_Drag_pointer:
  "x11_Drag e x1 y1 x2 y2 ms = x11_pointer.drag e (x1, y1) (drag_points x1 y1 x2 y2) (x2, y2)"
  by (simp add: x11_Drag_def x11_pointer.drag_def x11_down_def)

lemma mac_Drag_pointer:
  "mac_Drag e True x1 y1 x2 y2 ms = mac_pointer.drag e (x1, y1) (drag_points x1 y1 x2 y2) (x2, y2)"
  by (simp add: mac_Drag_def mac_pointer.drag_def mac_down_def)

lemma is_ok_iff: "is_ok r \<longleftrightarrow> \<not> (\<exists>err. r = Inl err)"
  by (cases r) simp_all

text \<open>C35: a drag never leaves the mouse button down: once the press has worked, a release is the last command that runs,
  whichever of the commands between fail.\<close>

theorem drag_never_sticks:
  assumes "\<not> held x11_presses x11_releases log" "\<not> held mac_presses mac_releases log"
  shows "(held x11_presses x11_releases (snd (x11_Drag e x1 y1 x2 y2 ms log)) \<longrightarrow> \<not> is_ok (fst (x11_down e (x1, y1) log)))
    \<and> (held mac_presses mac_releases (snd (mac_Drag e cc x1 y1 x2 y2 ms log)) \<longrightarrow> \<not> is_ok (fst (mac_down e (x1, y1) log)))"
proof -
  have none: "snd (mac_Drag e False x1 y1 x2 y2 ms log) = log" by (simp add: mac_Drag_def fail_apply)
  have "held mac_presses mac_releases (snd (mac_Drag e cc x1 y1 x2 y2 ms log)) \<longrightarrow>
      \<not> is_ok (fst (mac_down e (x1, y1) log))"
  proof (cases cc)
    case True
    then show ?thesis using mac_pointer.drag_lets_go[OF assms(2)] by (simp add: mac_Drag_pointer is_ok_iff) blast
  next
    case False
    then show ?thesis using assms(2) none by simp
  qed
  then show ?thesis using x11_pointer.drag_lets_go[OF assms(1)] by (simp add: x11_Drag_pointer is_ok_iff) blast
qed

text \<open>A drag on a desktop where every command works ends where it should.\<close>

lemma drag_ends:
  assumes "\<bar>x1\<bar> < 2 ^ 31" "\<bar>y1\<bar> < 2 ^ 31" "\<bar>x2\<bar> < 2 ^ 31" "\<bar>y2\<bar> < 2 ^ 31"
  shows "last (drag_points x1 y1 x2 y2) = (x2, y2)"
proof -
  have "drag_at a b 10 = b" if "\<bar>a\<bar> < 2 ^ 31" "\<bar>b\<bar> < 2 ^ 31" for a b
  proof -
    have "wrap64 (b - a) = b - a" "wrap64 ((b - a) * 10) = (b - a) * 10" "wrap64 b = b"
      using that by (intro wrap64_id; simp)+
    moreover have "(m * 10) sdiv 10 = m" for m :: int
      by (cases "0 \<le> m") (simp_all add: signed_divide_int_def sgn_if abs_mult)
    ultimately show ?thesis unfolding drag_at_def by (simp only:) simp
  qed
  then show ?thesis using assms by (simp add: drag_points_def last_map upto.simps)
qed

definition quiet_desk :: desk_env where
  "quiet_desk =
    \<lparr>dk_exec = (\<lambda>log name args. if length log = 3 then ([], ''gone'', Some (Err ''exit status 1'')) else ([], [], None)),
     dk_look = (\<lambda>_. True), dk_getenv = (\<lambda>_. '':0''), dk_temp = (\<lambda>_ _. Inr ''/tmp/x.png''), dk_read = (\<lambda>_ _. Inr ''png''),
     dk_dir = (\<lambda>_. None), dk_home = None, dk_chmod = (\<lambda>_ _. None), dk_order = (\<lambda>ns. ns)\<rparr>"

text \<open>The third command of this desktop fails, and the button is released there.\<close>

lemma drag_never_sticks_witness:
  "\<not> held x11_presses x11_releases (snd (x11_Drag quiet_desk 0 0 100 50 0 []))
   \<and> snd (x11_Drag quiet_desk 0 0 100 50 0 []) =
      [Ran ''xdotool'' [''mousemove'', ''0'', ''0'', ''mousedown'', ''1''], Ran ''xdotool'' [''mousemove'', ''10'', ''5''],
       Ran ''xdotool'' [''mousemove'', ''20'', ''10''], Ran ''xdotool'' [''mousemove'', ''30'', ''15''],
       Ran ''xdotool'' [''mouseup'', ''1'']]"
proof
  have none: "\<not> held x11_presses x11_releases []" "\<not> held mac_presses mac_releases []" by (simp_all add: held_def)
  have "is_ok (fst (x11_down quiet_desk (0, 0) []))" by code_simp
  then show "\<not> held x11_presses x11_releases (snd (x11_Drag quiet_desk 0 0 100 50 0 []))"
    using drag_never_sticks[OF none, of quiet_desk 0 0 100 50 0 True] by simp
qed code_simp

end
