(* ===== verification/Runner_Program.thy ===== *)
theory Runner_Program
  imports Runner_Screens Device_Control Secret_Box
begin

text \<open>
  The runner program on a desktop: the commands that it takes from the appliance (src/runner/control.go), and the stream on which
  they arrive (src/runner/tunnel.go).  A command is decoded, carried out on the screen and answered; the installation of a build is
  left to a job that fetches the build, checks it and runs its installer.  JSON values are those of Device_Control; a
  field of a struct is found under its name in any case, as the package encoding/json does it.  The last section puts the
  desktop driver of the appliance and the runner together.
\<close>

section \<open>Decoding\<close>

definition named :: "string \<Rightarrow> (string \<times> json) list \<Rightarrow> json list" where
  "named k fs = map snd (filter (\<lambda>(n, _). to_lower n = to_lower k) fs)"

definition in64 :: "int \<Rightarrow> bool" where
  "in64 n = (- (2 ^ 63) \<le> n \<and> n < 2 ^ 63)"

fun int_ok :: "json \<Rightarrow> bool" where
  "int_ok JNull = True" | "int_ok (JInt n) = in64 n" | "int_ok _ = False"

fun str_ok :: "json \<Rightarrow> bool" where
  "str_ok JNull = True" | "str_ok (JStr _) = True" | "str_ok _ = False"

fun strs_ok :: "json \<Rightarrow> bool" where
  "strs_ok JNull = True" | "strs_ok (JArr vs) = list_all str_ok vs" | "strs_ok _ = False"

definition last_of :: "'a \<Rightarrow> 'a list \<Rightarrow> 'a" where
  "last_of z xs = (if xs = [] then z else last xs)"

text \<open>The value of a field after decoding: a value of another type, and null, leave it as it is.\<close>

definition int_field :: "string \<Rightarrow> (string \<times> json) list \<Rightarrow> int" where
  "int_field k fs =
    last_of 0 (concat (map (\<lambda>v. case v of JInt n \<Rightarrow> if in64 n then [n] else [] | _ \<Rightarrow> []) (named k fs)))"

definition str_field :: "string \<Rightarrow> (string \<times> json) list \<Rightarrow> string" where
  "str_field k fs = last_of [] (concat (map (\<lambda>v. case v of JStr s \<Rightarrow> [s] | _ \<Rightarrow> []) (named k fs)))"

definition strs_field :: "string \<Rightarrow> (string \<times> json) list \<Rightarrow> string list" where
  "strs_field k fs =
    last_of [] (concat (map (\<lambda>v. case v of
        JArr vs \<Rightarrow> [map (\<lambda>v. case v of JStr s \<Rightarrow> s | _ \<Rightarrow> []) vs] | JNull \<Rightarrow> [[]] | _ \<Rightarrow> []) (named k fs)))"

definition params_object :: "json option \<Rightarrow> (string \<times> json) list res" where
  "params_object p =
    (case p of
       None \<Rightarrow> Inl (Err ''unexpected end of JSON input'')
     | Some JNull \<Rightarrow> Inr []
     | Some (JObj fs) \<Rightarrow> Inr fs
     | Some _ \<Rightarrow> Inl json_mismatch)"

text \<open>Decoding whose error is returned, and decoding whose error is dropped.\<close>

definition checked_fields :: "string list \<Rightarrow> string list \<Rightarrow> string list \<Rightarrow> json option \<Rightarrow> (string \<times> json) list res" where
  "checked_fields ints strs seqs p =
    (case params_object p of
       Inl err \<Rightarrow> Inl err
     | Inr fs \<Rightarrow>
         if list_all (\<lambda>k. list_all int_ok (named k fs)) ints \<and> list_all (\<lambda>k. list_all str_ok (named k fs)) strs
            \<and> list_all (\<lambda>k. list_all strs_ok (named k fs)) seqs
         then Inr fs else Inl json_mismatch)"

definition loose_fields :: "json option \<Rightarrow> (string \<times> json) list" where
  "loose_fields p = (case params_object p of Inl _ \<Rightarrow> [] | Inr fs \<Rightarrow> fs)"

section \<open>The controller\<close>

record installState =
  is_done :: bool
  is_err :: string

record controller =
  co_installs :: "string \<rightharpoonup> installState"
  co_jobs :: "(string \<times> string \<times> string) list"
  co_log :: "deed list"

text \<open>An answer of the appliance to the request for a build: status, announced hash, body, and whether the copy fails.\<close>

record artifact =
  af_status :: int
  af_sha :: string
  af_body :: string
  af_copy :: "go_error option"

record runner_env =
  ru_screen :: screen
  ru_base :: string
  ru_get :: "deed list \<Rightarrow> string \<Rightarrow> artifact res"
  ru_temp :: "deed list \<Rightarrow> string \<Rightarrow> string res"
  ru_sha :: "string \<Rightarrow> bytes"

definition on_screen :: "'a deeds \<Rightarrow> ('a \<Rightarrow> json) \<Rightarrow> controller \<Rightarrow> json res \<times> controller" where
  "on_screen m f c = (case m (co_log c) of (r, log) \<Rightarrow> (map_sum id f r, c\<lparr>co_log := log\<rparr>))"

definition done_json :: "unit \<Rightarrow> json" where
  "done_json _ = JObj []"

definition one_text :: "string \<Rightarrow> string \<Rightarrow> json" where
  "one_text k v = JObj [(k, JStr v)]"

definition after_decoding ::
  "string \<Rightarrow> (string \<times> json) list res \<Rightarrow> ((string \<times> json) list \<Rightarrow> unit deeds) \<Rightarrow> controller \<Rightarrow> json res \<times> controller" where
  "after_decoding what d f c =
    (case d of Inl err \<Rightarrow> (Inl (ErrWrap (what @ '': '') err), c) | Inr fs \<Rightarrow> on_screen (f fs) done_json c)"

definition install_app :: "(string \<times> json) list \<Rightarrow> controller \<Rightarrow> json res \<times> controller" where
  "install_app fs c =
    (let k = str_field ''buildId'' fs in
     if k = [] then (Inl (Err ''install_app needs a buildId''), c)
     else (Inr (one_text ''status'' ''installing''),
           if co_installs c k \<noteq> None then c
           else c\<lparr>co_installs := (co_installs c)(k \<mapsto> \<lparr>is_done = False, is_err = []\<rparr>),
                  co_jobs := co_jobs c @ [(k, str_field ''filename'' fs, str_field ''args'' fs)]\<rparr>))"

definition install_status :: "installState option \<Rightarrow> json" where
  "install_status st =
    (case st of
       None \<Rightarrow> one_text ''status'' ''unknown''
     | Some i \<Rightarrow>
         if is_err i \<noteq> [] then JObj [(''status'', JStr ''error''), (''detail'', JStr (is_err i))]
         else if is_done i then one_text ''status'' ''done''
         else one_text ''status'' ''installing'')"

definition handle :: "runner_env \<Rightarrow> string \<Rightarrow> json option \<Rightarrow> controller \<Rightarrow> json res \<times> controller" where
  "handle e method p =
    (let s = ru_screen e; fs = loose_fields p in
     if method = ''screenshot''
     then on_screen (sc_Screenshot s) (\<lambda>png. one_text ''pngBase64'' (std_encode (bytes_of png)))
     else if method = ''click'' then
       after_decoding ''click'' (checked_fields [''X'', ''Y'', ''Count''] [''Button''] [] p)
         (\<lambda>fs. sc_Click s (int_field ''X'' fs) (int_field ''Y'' fs) (str_field ''Button'' fs) (int_field ''Count'' fs))
     else if method = ''scroll'' then
       after_decoding ''scroll'' (checked_fields [''X'', ''Y'', ''Dx'', ''Dy''] [] [] p)
         (\<lambda>fs. sc_Scroll s (int_field ''X'' fs) (int_field ''Y'' fs) (int_field ''Dx'' fs) (int_field ''Dy'' fs))
     else if method = ''chord'' then
       after_decoding ''chord'' (checked_fields [] [] [''Keys''] p) (\<lambda>fs. sc_Chord s (strs_field ''Keys'' fs))
     else if method = ''drag'' then
       on_screen (sc_Drag s (int_field ''X1'' fs) (int_field ''Y1'' fs) (int_field ''X2'' fs) (int_field ''Y2'' fs)
                    (int_field ''DurationMs'' fs)) done_json
     else if method = ''type'' then on_screen (sc_Type s (str_field ''Text'' fs)) done_json
     else if method = ''key'' then on_screen (sc_Key s (str_field ''Key'' fs)) done_json
     else if method = ''list_apps''
     then on_screen (sc_ListApps s) (\<lambda>apps. JObj [(''apps'', JArr (map JStr apps))])
     else if method = ''open_app'' then on_screen (sc_OpenApp s (str_field ''Name'' fs)) (one_text ''opened'')
     else if method = ''current_activity'' then on_screen (sc_CurrentActivity s) (one_text ''activity'')
     else if method = ''install_app'' then install_app fs
     else if method = ''install_status''
     then (\<lambda>c. (Inr (install_status (co_installs c (str_field ''buildId'' fs))), c))
     else (\<lambda>c. (Inl (Err (''unknown method '' @ go_quote method)), c)))"

section \<open>Installing a build\<close>

definition download :: "runner_env \<Rightarrow> string \<Rightarrow> artifact deeds" where
  "download e buildID log =
    (let url = ru_base e @ ''/api/v1/runner/build/'' @ buildID in (ru_get e log url, log @ [Fetched url]))"

definition bad_checksum :: "string \<Rightarrow> string \<Rightarrow> string \<Rightarrow> go_error" where
  "bad_checksum buildID want got =
    Err (''build '' @ buildID @ '' failed checksum: expected '' @ want @ '', got '' @ got @ '' '' @ em_dash
         @ '' refusing to run it'')"

text \<open>The announced hash, and the copy of a body to a file, which is dropped when it is not what was announced.\<close>

definition wanted_sha :: "artifact \<Rightarrow> string" where
  "wanted_sha a = to_lower (trim_space (af_sha a))"

definition keep_checked :: "runner_env \<Rightarrow> string \<Rightarrow> artifact \<Rightarrow> string \<Rightarrow> string deeds" where
  "keep_checked e buildID a path log =
    (case af_copy a of
       Some err \<Rightarrow> (Inl err, log @ [Removed path])
     | None \<Rightarrow>
         let got = hex_encode (ru_sha e (af_body a)); want = wanted_sha a; log1 = log @ [Wrote path (af_body a)]
         in if want \<noteq> [] \<and> to_lower want \<noteq> to_lower got
            then (Inl (bad_checksum buildID want got), log1 @ [Removed path])
            else (Inr path, log1))"

definition fetchBuild :: "runner_env \<Rightarrow> string \<Rightarrow> string \<Rightarrow> string deeds" where
  "fetchBuild e buildID filename =
    bnd (download e buildID) (\<lambda>a.
      if af_status a \<noteq> 200
      then fail (Err (''fetch build '' @ buildID @ '': HTTP '' @ itoa (af_status a)))
      else let ext = (if file_ext filename = [] then ''.bin'' else file_ext filename) in
        bnd (\<lambda>log. (ru_temp e log (''ocbuild-*'' @ ext), log)) (\<lambda>path. keep_checked e buildID a path))"

definition run_build :: "runner_env \<Rightarrow> string \<Rightarrow> string \<Rightarrow> string \<Rightarrow> unit deeds" where
  "run_build e buildID filename args =
    bnd (fetchBuild e buildID filename) (\<lambda>path. removing path (sc_RunInstaller (ru_screen e) path args))"

definition mark :: "unit res \<Rightarrow> installState \<Rightarrow> installState" where
  "mark r st = (case r of Inl err \<Rightarrow> st\<lparr>is_err := err_text err\<rparr> | Inr _ \<Rightarrow> st\<lparr>is_done := True\<rparr>)"

text \<open>The job, which takes itself out of the list of jobs that have not run.\<close>

definition doInstall :: "runner_env \<Rightarrow> nat \<Rightarrow> controller \<Rightarrow> controller" where
  "doInstall e n c =
    (case co_jobs c ! n of
       (k, filename, args) \<Rightarrow>
         (case run_build e k filename args (co_log c) of
            (r, log) \<Rightarrow>
              c\<lparr>co_installs := (co_installs c)(k := map_option (mark r) (co_installs c k)),
                co_jobs := take n (co_jobs c) @ drop (Suc n) (co_jobs c), co_log := log\<rparr>))"

section \<open>The stream\<close>

text \<open>What a line of the stream asks for: an identifier, a method and parameters; an empty identifier is skipped.\<close>

definition line_command :: "(string \<Rightarrow> (string \<times> string \<times> json option) option) \<Rightarrow> string \<Rightarrow> (string \<times> string \<times> json option) option" where
  "line_command parse line =
    (if \<not> has_prefix ''data: '' line then None
     else case parse (trim_prefix ''data: '' line) of
       None \<Rightarrow> None
     | Some cmd \<Rightarrow> if fst cmd = [] then None else Some cmd)"

text \<open>The body that answers a command.\<close>

definition answer_body :: "string \<Rightarrow> json res \<Rightarrow> json" where
  "answer_body k r =
    (case r of
       Inl err \<Rightarrow> JObj [(''id'', JStr k), (''error'', JStr (err_text err))]
     | Inr v \<Rightarrow> JObj [(''id'', JStr k), (''result'', v)])"

definition respond_command ::
  "runner_env \<Rightarrow> string \<times> string \<times> json option \<Rightarrow> controller \<Rightarrow> json \<times> controller" where
  "respond_command e cmd c =
    (case cmd of (k, method, p) \<Rightarrow> (case handle e method p c of (r, c1) \<Rightarrow> (answer_body k r, c1)))"

section \<open>Only checked builds are run\<close>

definition build_url :: "runner_env \<Rightarrow> string \<Rightarrow> string" where
  "build_url e k = ru_base e @ ''/api/v1/runner/build/'' @ k"

definition genuine :: "runner_env \<Rightarrow> artifact \<Rightarrow> bool" where
  "genuine e a =
    (af_status a = 200 \<and> af_copy a = None
     \<and> (wanted_sha a = [] \<or> wanted_sha a = hex_encode (ru_sha e (af_body a))))"

fun runs_a_program :: "deed \<Rightarrow> bool" where
  "runs_a_program (Ran _ _) = True" | "runs_a_program (Ran_with _ _ _) = True" | "runs_a_program _ = False"

lemma to_lower_hex [simp]: "to_lower (hex_encode bs) = hex_encode bs"
proof -
  have d: "lower_char (hex_digit n) = hex_digit n" if "n < 16" for n
  proof -
    have "list_all (\<lambda>n. lower_char (hex_digit n) = hex_digit n) [0..<16]" by code_simp
    then show ?thesis using that by (simp add: list_all_iff)
  qed
  have "unat b div 16 < 16" "unat b mod 16 < 16" for b :: "8 word"
    using unsigned_less[of b, where 'a = nat] by simp_all
  then show ?thesis by (induction bs rule: hex_encode.induct) (simp_all add: to_lower_def d)
qed

lemma wanted_lower [simp]: "to_lower (wanted_sha a) = wanted_sha a"
  by (simp add: wanted_sha_def)


section \<open>A build is installed once\<close>

inductive runner_step :: "runner_env \<Rightarrow> controller \<Rightarrow> controller \<Rightarrow> bool" for e where
  handled: "runner_step e c (snd (handle e method p c))"
| job: "n < length (co_jobs c) \<Longrightarrow> runner_step e c (doInstall e n c)"

definition new_controller :: controller where
  "new_controller = \<lparr>co_installs = Map.empty, co_jobs = [], co_log = []\<rparr>"

text \<open>A build with a job has not been settled, and no build has two jobs.\<close>

definition jobs_ok :: "controller \<Rightarrow> bool" where
  "jobs_ok c =
    (distinct (map fst (co_jobs c))
     \<and> list_all (\<lambda>j. co_installs c (fst j) = Some \<lparr>is_done = False, is_err = []\<rparr>) (co_jobs c))"

lemma on_screen_fields [simp]:
  "co_installs (snd (on_screen m f c)) = co_installs c" "co_jobs (snd (on_screen m f c)) = co_jobs c"
  by (simp_all add: on_screen_def split: prod.split)

lemma after_decoding_fields [simp]:
  "co_installs (snd (after_decoding w d f c)) = co_installs c" "co_jobs (snd (after_decoding w d f c)) = co_jobs c"
  by (simp_all add: after_decoding_def split: sum.split)

lemma handle_fields:
  "co_installs (snd (handle e method p c)) = co_installs c \<and> co_jobs (snd (handle e method p c)) = co_jobs c
   \<or> snd (handle e method p c) = snd (install_app (loose_fields p) c)"
  by (simp add: handle_def Let_def)

lemma install_app_jobs:
  "jobs_ok c \<Longrightarrow> jobs_ok (snd (install_app fs c))"
  by (fastforce simp: jobs_ok_def install_app_def Let_def list_all_iff)

lemma doInstall_fields:
  assumes "n < length (co_jobs c)" "co_jobs c ! n = (k, filename, args)"
  obtains r where "co_installs (doInstall e n c) = (co_installs c)(k := map_option (mark r) (co_installs c k))"
    "co_jobs (doInstall e n c) = take n (co_jobs c) @ drop (Suc n) (co_jobs c)"
proof -
  obtain r log where "run_build e k filename args (co_log c) = (r, log)" by fastforce
  then show thesis using that[of r] assms by (simp add: doInstall_def)
qed

lemma runner_step_jobs: "runner_step e c c' \<Longrightarrow> jobs_ok c \<Longrightarrow> jobs_ok c'"
proof (induction rule: runner_step.induct)
  case (handled c mth ps)
  from handle_fields[of e mth ps c] show ?case
  proof
    assume "co_installs (snd (handle e mth ps c)) = co_installs c \<and> co_jobs (snd (handle e mth ps c)) = co_jobs c"
    then show ?case using handled by (simp add: jobs_ok_def)
  next
    assume "snd (handle e mth ps c) = snd (install_app (loose_fields ps) c)"
    then show ?case using install_app_jobs[OF handled] by simp
  qed
next
  case (job n c)
  obtain k filename args where j: "co_jobs c ! n = (k, filename, args)" by (metis prod_cases3)
  define before after where "before = take n (co_jobs c)" and "after = drop (Suc n) (co_jobs c)"
  have jobs: "co_jobs c = before @ (k, filename, args) # after"
    using job(1) j unfolding before_def after_def by (metis id_take_nth_drop)
  obtain r where f: "co_installs (doInstall e n c) = (co_installs c)(k := map_option (mark r) (co_installs c k))"
    "co_jobs (doInstall e n c) = before @ after"
    using doInstall_fields[OF job(1) j, of e] unfolding before_def after_def by blast
  have d: "distinct (map fst (before @ after))" "k \<notin> fst ` set (before @ after)"
    using job(2) unfolding jobs_ok_def jobs by auto
  have other: "fst x \<noteq> k \<and> co_installs c (fst x) = Some \<lparr>is_done = False, is_err = []\<rparr>"
    if "x \<in> set (before @ after)" for x
    using that d(2) job(2) unfolding jobs_ok_def jobs list_all_iff by auto
  show ?case unfolding jobs_ok_def f list_all_iff using d(1) other by simp
qed

definition settled_install :: "installState \<Rightarrow> bool" where
  "settled_install st = (is_done st \<or> is_err st \<noteq> [])"

text \<open>Once an installation has ended, well or badly, nothing that the appliance asks for changes it: the build is not fetched
  again, and the status stays.\<close>

lemma settled_stays:
  assumes "(runner_step e)\<^sup>*\<^sup>* c c'" "jobs_ok c" "co_installs c k = Some st" "settled_install st"
  shows "jobs_ok c' \<and> co_installs c' k = Some st \<and> k \<notin> fst ` set (co_jobs c')"
  using assms(1)
proof (induction rule: rtranclp_induct)
  case base
  then show ?case using assms(2-) by (auto simp: jobs_ok_def list_all_iff settled_install_def)
next
  case (step c1 c2)
  from step(2) have ok: "jobs_ok c2" using step(3) runner_step_jobs by blast
  have kept: "co_installs (snd (install_app fs c1)) k = Some st" for fs
    using step(3) assms(4) by (auto simp: install_app_def Let_def)
  from step(2) have "co_installs c2 k = Some st"
  proof cases
    case (handled mth ps)
    then show ?thesis using handle_fields[of e mth ps c1] step(3) kept by metis
  next
    case (job n)
    obtain k' filename args where j: "co_jobs c1 ! n = (k', filename, args)" by (metis prod_cases3)
    have "k' \<in> fst ` set (co_jobs c1)" using job(2) j by (metis fst_conv image_eqI nth_mem)
    then have "k' \<noteq> k" using step(3) by auto
    then show ?thesis using doInstall_fields[OF job(2) j, of e] step(3) job(1) by (metis fun_upd_other)
  qed
  then show ?case using ok assms(4) by (auto simp: jobs_ok_def list_all_iff settled_install_def)
qed

section \<open>From the appliance to the screen\<close>

text \<open>What the caller on the appliance receives for the answer of a runner: an error with an empty message is not sent as one.\<close>

definition reply :: "string \<Rightarrow> json res \<Rightarrow> json option res" where
  "reply dev r =
    (case r of
       Inl err \<Rightarrow> if err_text err = [] then Inr None else Inl (Err (''runner '' @ dev @ '': '' @ err_text err))
     | Inr v \<Rightarrow> Inr (Some v))"

definition conveyed :: "string \<Rightarrow> unit res \<Rightarrow> unit res" where
  "conveyed dev r =
    (case r of
       Inl err \<Rightarrow> if err_text err = [] then Inr () else Inl (Err (''runner '' @ dev @ '': '' @ err_text err))
     | Inr _ \<Rightarrow> Inr ())"

text \<open>The operation of the screen that a gesture of the desktop driver stands for, and the integers of a gesture.\<close>

fun screen_gesture :: "screen \<Rightarrow> gesture \<Rightarrow> unit deeds" where
  "screen_gesture s GShot = unit_of (sc_Screenshot s)"
| "screen_gesture s (GTap x y) = sc_Click s x y ''left'' 1"
| "screen_gesture s (GSwipe x1 y1 x2 y2 ms) = sc_Drag s x1 y1 x2 y2 ms"
| "screen_gesture s (GText t) = sc_Type s t"
| "screen_gesture s (GKey k) = sc_Key s k"
| "screen_gesture s (GClick x y b n) = sc_Click s x y b n"
| "screen_gesture s (GScroll x y dx dy) = sc_Scroll s x y dx dy"
| "screen_gesture s (GChord ks) = sc_Chord s ks"

fun gesture_ints :: "gesture \<Rightarrow> int list" where
  "gesture_ints (GTap x y) = [x, y]"
| "gesture_ints (GSwipe x1 y1 x2 y2 ms) = [x1, y1, x2, y2, ms]"
| "gesture_ints (GClick x y b n) = [x, y, n]"
| "gesture_ints (GScroll x y dx dy) = [x, y, dx, dy]"
| "gesture_ints _ = []"

lemma named_simps [simp]:
  "named k [] = []" "named k ((n, v) # fs) = (if to_lower n = to_lower k then v # named k fs else named k fs)"
  by (simp_all add: named_def)

lemma last_of_one [simp]: "last_of z [x] = x"
  by (simp add: last_of_def)

lemma chord_texts: "map ((\<lambda>v. case v of JStr s \<Rightarrow> s | _ \<Rightarrow> []) \<circ> JStr) ks = ks"
  by (induction ks) simp_all

lemma on_screen_fst: "fst (on_screen m f c) = map_sum id f (fst (m (co_log c)))"
  by (simp add: on_screen_def split: prod.split)

lemma on_screen_snd: "snd (on_screen m f c) = c\<lparr>co_log := snd (m (co_log c))\<rparr>"
  by (simp add: on_screen_def split: prod.split)

lemma unit_of_parts:
  "fst (unit_of m log) = map_sum id (\<lambda>_. ()) (fst (m log))" "snd (unit_of m log) = snd (m log)"
  by (auto simp: unit_of_def bnd_def ret_def split: prod.split sum.split)

text \<open>The command of a gesture.\<close>

fun wire :: "gesture \<Rightarrow> string \<times> (string \<times> json) list" where
  "wire GShot = (''screenshot'', [])"
| "wire (GTap x y) = (''click'', [(''x'', JInt x), (''y'', JInt y), (''button'', JStr ''left''), (''count'', JInt 1)])"
| "wire (GSwipe x1 y1 x2 y2 ms) =
    (''drag'', [(''x1'', JInt x1), (''y1'', JInt y1), (''x2'', JInt x2), (''y2'', JInt y2), (''durationMs'', JInt ms)])"
| "wire (GText t) = (''type'', [(''text'', JStr t)])"
| "wire (GKey k) = (''key'', [(''key'', JStr k)])"
| "wire (GClick x y b n) = (''click'', [(''x'', JInt x), (''y'', JInt y), (''button'', JStr b), (''count'', JInt n)])"
| "wire (GScroll x y dx dy) = (''scroll'', [(''x'', JInt x), (''y'', JInt y), (''dx'', JInt dx), (''dy'', JInt dy)])"
| "wire (GChord ks) = (''chord'', [(''keys'', JArr (map JStr ks))])"

definition wire_value :: "gesture \<Rightarrow> string \<Rightarrow> json" where
  "wire_value g png = (if g = GShot then one_text ''pngBase64'' (std_encode (bytes_of png)) else JObj [])"

lemma wire_sent: "snd (mcp_gesture e i g tr) = tr @ [Call (inst_ID i) (fst (wire g)) (JObj (snd (wire g)))]"
  by (cases g) (auto simp: mcp_Screenshot_def mcp_Tap_def mcp_Click_def mcp_Swipe_def mcp_Text_def mcp_Key_def
    mcp_Scroll_def mcp_Chord_def mcp_send_def unit_of_parts run_call_def bnd_def lift_def split: sum.split)

lemma wire_received:
  "g \<noteq> GShot \<Longrightarrow> fst (mcp_gesture e i g tr)
     = map_sum id (\<lambda>_. ()) (de_call e tr (inst_ID i) (fst (wire g)) (JObj (snd (wire g))))"
  by (cases g) (auto simp: mcp_Tap_def mcp_Click_def mcp_Swipe_def mcp_Text_def mcp_Key_def
    mcp_Scroll_def mcp_Chord_def mcp_send_def unit_of_parts run_call_def)

text \<open>Names of fields that are the same, and those that are not.\<close>

lemma field_names [simp]:
  "to_lower ''X'' = ''x''" "to_lower ''Y'' = ''y''" "to_lower ''Dx'' = ''dx''" "to_lower ''Dy'' = ''dy''"
  "to_lower ''x'' = ''x''" "to_lower ''y'' = ''y''" "to_lower ''dx'' = ''dx''" "to_lower ''dy'' = ''dy''"
  "to_lower ''Button'' = ''button''" "to_lower ''Count'' = ''count''" "to_lower ''Keys'' = ''keys''"
  "to_lower ''button'' = ''button''" "to_lower ''count'' = ''count''" "to_lower ''keys'' = ''keys''"
  "to_lower ''X1'' = ''x1''" "to_lower ''Y1'' = ''y1''" "to_lower ''X2'' = ''x2''" "to_lower ''Y2'' = ''y2''"
  "to_lower ''x1'' = ''x1''" "to_lower ''y1'' = ''y1''" "to_lower ''x2'' = ''x2''" "to_lower ''y2'' = ''y2''"
  "to_lower ''DurationMs'' = ''durationms''" "to_lower ''durationMs'' = ''durationms''"
  "to_lower ''Text'' = ''text''" "to_lower ''text'' = ''text''" "to_lower ''Key'' = ''key''" "to_lower ''key'' = ''key''"
  by code_simp+

text \<open>The runner does with the command of a gesture what the gesture stands for.\<close>

lemma wire_carried_out:
  assumes "list_all in64 (gesture_ints g)" "g \<noteq> GShot"
  shows "handle re (fst (wire g)) (Some (JObj (snd (wire g)))) c = on_screen (screen_gesture (ru_screen re) g) done_json c"
  using assms
  by (cases g) (simp_all add: handle_def Let_def after_decoding_def checked_fields_def loose_fields_def params_object_def
    int_field_def str_field_def strs_field_def chord_texts list_all_iff in64_def)

lemma shot_carried_out:
  "handle re ''screenshot'' p c = on_screen (sc_Screenshot (ru_screen re)) (\<lambda>png. one_text ''pngBase64'' (std_encode (bytes_of png))) c"
  by (simp add: handle_def)

lemma shot_decoded:
  assumes "de_call e tr (inst_ID i) ''screenshot'' (JObj []) = reply dev (map_sum id (\<lambda>png. one_text ''pngBase64'' (std_encode (bytes_of png))) r)"
  shows "fst (mcp_Screenshot e i tr) =
     (case r of Inl err \<Rightarrow> if err_text err = [] then Inr [] else Inl (Err (''runner '' @ dev @ '': '' @ err_text err)) | Inr png \<Rightarrow> Inr png)"
proof (cases r)
  case (Inl err)
  have "std_decode [] = Inr []" by code_simp
  then show ?thesis using assms Inl
    by (simp add: mcp_Screenshot_def bnd_def run_call_def lift_def reply_def json_object_def json_string_def)
next
  case (Inr png)
  then show ?thesis using assms
    by (simp add: mcp_Screenshot_def bnd_def run_call_def lift_def reply_def json_object_def json_string_def one_text_def
      std_decode_encode text_of_bytes)
qed

text \<open>C10: what the agent does to a desktop happens on its screen, and the agent learns how it went.  When the answers of
  the runner reach the caller, a gesture of the desktop driver is one command of that device; the runner carries
  out the operation of its screen that the gesture stands for, with the coordinates, the button, the keys or the
  text that were given, and nothing else changes in the runner; the caller has the success or the error of
  that operation, and for a screenshot the very bytes of the picture.\<close>

theorem gesture_reaches_screen:
  assumes "\<And>m ps. de_call e tr (inst_ID i) m ps = reply (inst_ID i) (fst (handle re m (Some ps) c))"
    and "list_all in64 (gesture_ints g)"
  shows "\<exists>m ps. snd (mcp_gesture e i g tr) = tr @ [Call (inst_ID i) m ps]
      \<and> snd (handle re m (Some ps) c) = c\<lparr>co_log := snd (screen_gesture (ru_screen re) g (co_log c))\<rparr>
      \<and> fst (mcp_gesture e i g tr) = conveyed (inst_ID i) (fst (screen_gesture (ru_screen re) g (co_log c)))
      \<and> (\<forall>png. g = GShot \<and> fst (sc_Screenshot (ru_screen re) (co_log c)) = Inr png \<longrightarrow> fst (mcp_Screenshot e i tr) = Inr png)"
proof (cases "g = GShot")
  case True
  have "de_call e tr (inst_ID i) ''screenshot'' (JObj []) =
    reply (inst_ID i) (map_sum id (\<lambda>png. one_text ''pngBase64'' (std_encode (bytes_of png))) (fst (sc_Screenshot (ru_screen re) (co_log c))))"
    using assms(1) by (simp add: shot_carried_out on_screen_fst)
  from shot_decoded[OF this] True show ?thesis using wire_sent[of e i g tr]
    by (auto simp: shot_carried_out on_screen_snd unit_of_parts conveyed_def split: sum.split)
next
  case False
  note out = wire_carried_out[OF assms(2) False, of re c]
  have "fst (mcp_gesture e i g tr) = conveyed (inst_ID i) (fst (screen_gesture (ru_screen re) g (co_log c)))"
    unfolding wire_received[OF False] assms(1) out on_screen_fst
    by (auto simp: conveyed_def reply_def split: sum.split)
  then show ?thesis using wire_sent[of e i g tr] out False by (auto simp: on_screen_snd)
qed

text \<open>A desktop under X11 whose programs all succeed, and a tunnel to it.\<close>

definition sample_runner :: runner_env where
  "sample_runner =
    \<lparr>ru_screen = x11_screen quiet_desk (hd screenshotTools), ru_base = ''http://appliance'',
     ru_get = (\<lambda>_ _. Inl (Err ''no route'')), ru_temp = (\<lambda>_ _. Inr ''/tmp/b''), ru_sha = (\<lambda>_. [])\<rparr>"

definition tunnel_env :: dev_env where
  "tunnel_env = quiet_env\<lparr>de_call := (\<lambda>_ dev m ps. reply dev (fst (handle sample_runner m (Some ps) new_controller)))\<rparr>"

lemma gesture_reaches_screen_witness:
  "\<exists>m ps. snd (handle sample_runner m (Some ps) new_controller) =
      new_controller\<lparr>co_log := [Ran ''xdotool'' [''mousemove'', ''3'', ''4'', ''click'', ''1'']]\<rparr>"
proof -
  have "snd (screen_gesture (ru_screen sample_runner) (GTap 3 4) (co_log new_controller)) =
    [Ran ''xdotool'' [''mousemove'', ''3'', ''4'', ''click'', ''1'']]"
    by code_simp
  moreover have "list_all in64 (gesture_ints (GTap 3 4))" by code_simp
  ultimately show ?thesis
    using gesture_reaches_screen[of tunnel_env "[]" sample_desk sample_runner new_controller "GTap 3 4"]
    by (auto simp: tunnel_env_def)
qed

end
