(* ===== verification/Runner_Windows.thy ===== *)
theory Runner_Windows
  imports Runner_Screens
begin

text \<open>
  The desktop of Windows (src/runner/control_windows.go).  Input is events of the mouse and of keys, which are logged as they
  are sent; the screen is read through objects of the graphics device, which are taken and given back.  What the system answers is a
  parameter.  Pauses have no effect.
\<close>

section \<open>The system\<close>

text \<open>
  The size of the screen, whether a call on the graphics device succeeds, the buffer it fills, the encoding of a picture, the key of
  a character (a 16-bit number, -1 for none), runs of programs (output, error output of a failed exit, error) and the
  title of the window in front.
\<close>

record win_env =
  wi_metrics :: "int \<times> int"
  wi_ok :: "deed list \<Rightarrow> string \<Rightarrow> bool"
  wi_buffer :: "deed list \<Rightarrow> 8 word list"
  wi_png :: "int \<Rightarrow> int \<Rightarrow> 8 word list \<Rightarrow> string res"
  wi_scan :: "nat \<Rightarrow> int"
  wi_exec :: "deed list \<Rightarrow> string \<Rightarrow> string list \<Rightarrow> string \<times> string option \<times> go_error option"
  wi_title :: "deed list \<Rightarrow> string option"

definition says :: "deed \<Rightarrow> unit deeds" where
  "says d log = (Inr (), log @ [d])"

fun all_says :: "deed list \<Rightarrow> unit deeds" where
  "all_says [] = ret ()"
| "all_says (d # ds) = bnd (says d) (\<lambda>_. all_says ds)"

section \<open>The picture\<close>

definition gdi_failed :: "string \<Rightarrow> go_error" where
  "gdi_failed what = Err (what @ '' failed'')"

text \<open>An object that is taken is given back when the function returns.\<close>

definition taking :: "win_env \<Rightarrow> string \<Rightarrow> 'a deeds \<Rightarrow> 'a deeds" where
  "taking e what m log =
    (if \<not> wi_ok e log what then (Inl (gdi_failed what), log)
     else case m (log @ [Took what]) of (r, log1) \<Rightarrow> (r, log1 @ [Gave what]))"

definition selecting :: "'a deeds \<Rightarrow> 'a deeds" where
  "selecting m log = (case m (log @ [Took ''SelectObject'']) of (r, log1) \<Rightarrow> (r, log1 @ [Gave ''SelectObject'']))"

definition checked :: "win_env \<Rightarrow> string \<Rightarrow> unit deeds" where
  "checked e what log = (if wi_ok e log what then (Inr (), log) else (Inl (gdi_failed what), log))"

text \<open>From blue, green, red and a filler to red, green, blue and an opaque alpha.\<close>

fun rgba :: "nat \<Rightarrow> 8 word list \<Rightarrow> 8 word list" where
  "rgba (Suc n) (b # g # r # _ # rest) = r # g # b # 255 # rgba n rest"
| "rgba _ _ = []"

definition win_Screenshot :: "win_env \<Rightarrow> string deeds" where
  "win_Screenshot e =
    (case wi_metrics e of (w, h) \<Rightarrow>
       if w = 0 \<or> h = 0 then fail (Err ''could not determine screen size'')
       else taking e ''GetDC'' (taking e ''CreateCompatibleDC'' (taking e ''CreateCompatibleBitmap'' (selecting
         (bnd (checked e ''BitBlt'') (\<lambda>_. bnd (checked e ''GetDIBits'') (\<lambda>_ log.
            (wi_png e w h (rgba (nat (w * h)) (wi_buffer e log)), log))))))))"

section \<open>The mouse\<close>

definition mouseButtonEvents :: "(string \<times> nat \<times> nat) list" where
  "mouseButtonEvents =
    [([], 0x2, 0x4), (''LEFT'', 0x2, 0x4), (''RIGHT'', 0x8, 0x10), (''MIDDLE'', 0x20, 0x40)]"

definition win_Click :: "win_env \<Rightarrow> int \<Rightarrow> int \<Rightarrow> string \<Rightarrow> int \<Rightarrow> unit deeds" where
  "win_Click e x y button count0 =
    (case map_of mouseButtonEvents (to_upper (trim_space button)) of
       None \<Rightarrow> fail (Err (''unsupported mouse button '' @ go_quote button @ '' (want left, right, or middle)''))
     | Some (down, up) \<Rightarrow>
         let count = (if count0 \<le> 0 then 1 else count0)
         in all_says (Cursor x y # concat (replicate (nat count) [Mouse down 0, Mouse up 0])))"

text \<open>The data of a wheel is a number of 32 bits.\<close>

definition wheelDelta :: int where
  "wheelDelta = 120"

definition wheel_data :: "int \<Rightarrow> nat" where
  "wheel_data n = nat (wrap64 n mod 2 ^ 32)"

definition win_Scroll :: "win_env \<Rightarrow> int \<Rightarrow> int \<Rightarrow> int \<Rightarrow> int \<Rightarrow> unit deeds" where
  "win_Scroll e x y dx dy =
    all_says (Cursor x y
      # (if dy \<noteq> 0 then [Mouse 0x800 (wheel_data (- dy * wheelDelta))] else [])
      @ (if dx \<noteq> 0 then [Mouse 0x1000 (wheel_data (dx * wheelDelta))] else []))"

definition win_Drag :: "win_env \<Rightarrow> int \<Rightarrow> int \<Rightarrow> int \<Rightarrow> int \<Rightarrow> int \<Rightarrow> unit deeds" where
  "win_Drag e x1 y1 x2 y2 ms =
    all_says ([Cursor x1 y1, Mouse 0x2 0] @ map (\<lambda>p. Cursor (fst p) (snd p)) (drag_points x1 y1 x2 y2) @ [Mouse 0x4 0])"

section \<open>The keys\<close>

definition modifierKeys :: "(string \<times> nat) list" where
  "modifierKeys =
    [(''CTRL'', 0x11), (''CONTROL'', 0x11), (''ALT'', 0x12), (''OPTION'', 0x12), (''SHIFT'', 0x10),
     (''WIN'', 0x5B), (''SUPER'', 0x5B), (''META'', 0x5B), (''CMD'', 0x5B), (''COMMAND'', 0x5B)]"

definition keyMap :: "(string \<times> nat) list" where
  "keyMap =
    [(''ENTER'', 0x0D), (''RETURN'', 0x0D), (''TAB'', 0x09), (''ESC'', 0x1B), (''ESCAPE'', 0x1B),
     (''BACKSPACE'', 0x08), (''BACK'', 0x08), (''DELETE'', 0x2E), (''DEL'', 0x2E), (''SPACE'', 0x20),
     (''UP'', 0x26), (''DOWN'', 0x28), (''LEFT'', 0x25), (''RIGHT'', 0x27),
     (''HOME'', 0x24), (''END'', 0x23), (''PAGEUP'', 0x21), (''PAGEDOWN'', 0x22),
     (''WIN'', 0x5B), (''SUPER'', 0x5B), (''META'', 0x5B), (''INSERT'', 0x2D), (''PRINTSCREEN'', 0x2C),
     (''F1'', 0x70), (''F2'', 0x71), (''F3'', 0x72), (''F4'', 0x73), (''F5'', 0x74), (''F6'', 0x75),
     (''F7'', 0x76), (''F8'', 0x77), (''F9'', 0x78), (''F10'', 0x79), (''F11'', 0x7A), (''F12'', 0x7B)]"

text \<open>The characters of a string, as a range over it yields them: bytes that are not UTF-8 become U+FFFD one by one.\<close>

definition tail_byte :: "nat \<Rightarrow> bool" where
  "tail_byte b = (0x80 \<le> b \<and> b \<le> 0xBF)"

definition second_ok :: "nat \<Rightarrow> nat \<Rightarrow> bool" where
  "second_ok b0 b1 =
    ((if b0 = 0xE0 then 0xA0 else if b0 = 0xF0 then 0x90 else 0x80) \<le> b1
     \<and> b1 \<le> (if b0 = 0xED then 0x9F else if b0 = 0xF4 then 0x8F else 0xBF))"

fun first_rune :: "nat list \<Rightarrow> nat \<times> nat" where
  "first_rune [] = (0xFFFD, 0)"
| "first_rune (b0 # bs) =
    (if b0 < 0x80 then (b0, 1)
     else case bs of
       b1 # b2 # b3 # _ \<Rightarrow>
         if 0xC2 \<le> b0 \<and> b0 \<le> 0xDF \<and> tail_byte b1 then (b0 mod 32 * 64 + b1 mod 64, 2)
         else if 0xE0 \<le> b0 \<and> b0 \<le> 0xEF \<and> second_ok b0 b1 \<and> tail_byte b2
         then (b0 mod 16 * 4096 + b1 mod 64 * 64 + b2 mod 64, 3)
         else if 0xF0 \<le> b0 \<and> b0 \<le> 0xF4 \<and> second_ok b0 b1 \<and> tail_byte b2 \<and> tail_byte b3
         then (b0 mod 8 * 262144 + b1 mod 64 * 4096 + b2 mod 64 * 64 + b3 mod 64, 4)
         else (0xFFFD, 1)
     | [b1, b2] \<Rightarrow>
         if 0xC2 \<le> b0 \<and> b0 \<le> 0xDF \<and> tail_byte b1 then (b0 mod 32 * 64 + b1 mod 64, 2)
         else if 0xE0 \<le> b0 \<and> b0 \<le> 0xEF \<and> second_ok b0 b1 \<and> tail_byte b2
         then (b0 mod 16 * 4096 + b1 mod 64 * 64 + b2 mod 64, 3)
         else (0xFFFD, 1)
     | [b1] \<Rightarrow> if 0xC2 \<le> b0 \<and> b0 \<le> 0xDF \<and> tail_byte b1 then (b0 mod 32 * 64 + b1 mod 64, 2) else (0xFFFD, 1)
     | [] \<Rightarrow> (0xFFFD, 1))"

lemma first_rune_width: "1 \<le> snd (first_rune (b # bs))"
  by (simp split: list.split)

function runes_of :: "nat list \<Rightarrow> nat list" where
  "runes_of [] = []"
| "runes_of (b # bs) = fst (first_rune (b # bs)) # runes_of (drop (snd (first_rune (b # bs))) (b # bs))"
  by pat_completeness auto
termination
proof (relation "measure length")
  fix b bs
  show "(drop (snd (first_rune (b # bs))) (b # bs), b # bs) \<in> measure length"
    using first_rune_width[of b bs] by (simp del: first_rune.simps)
qed simp

definition runes :: "string \<Rightarrow> nat list" where
  "runes s = runes_of (map of_char s)"

definition virtualKey :: "win_env \<Rightarrow> string \<Rightarrow> nat res" where
  "virtualKey e name =
    (case map_of keyMap name of
       Some vk \<Rightarrow> Inr vk
     | None \<Rightarrow>
         (case map_of modifierKeys name of
            Some vk \<Rightarrow> Inr vk
          | None \<Rightarrow>
              (case runes name of
                 [r] \<Rightarrow> if r \<le> 0xFFFF \<and> wi_scan e r \<noteq> -1 then Inr (nat (wi_scan e r mod 256))
                        else Inl (Err (''unsupported key '' @ go_quote name @ '' in chord''))
               | _ \<Rightarrow> Inl (Err (''unsupported key '' @ go_quote name @ '' in chord'')))))"

text \<open>The keys of a chord: those but the last are held, and given back in reverse order, whether or not all were found.\<close>

fun chord_keys :: "win_env \<Rightarrow> string list \<Rightarrow> nat list \<Rightarrow> deed list \<Rightarrow> unit res \<times> nat list \<times> deed list" where
  "chord_keys e [] down log = (Inr (), down, log)"
| "chord_keys e (raw # rest) down log =
    (let name = to_upper (trim_space raw) in
     case (if rest = [] then None else map_of modifierKeys name) of
       Some vk \<Rightarrow> chord_keys e rest (down @ [vk]) (log @ [Keyb vk False])
     | None \<Rightarrow>
         (case virtualKey e name of
            Inl err \<Rightarrow> (Inl err, down, log)
          | Inr vk \<Rightarrow>
              if rest \<noteq> [] then chord_keys e rest (down @ [vk]) (log @ [Keyb vk False])
              else (Inr (), down, log @ [Keyb vk False, Keyb vk True])))"

definition win_Chord :: "win_env \<Rightarrow> string list \<Rightarrow> unit deeds" where
  "win_Chord e keys log =
    (if keys = [] then (Inl (Err ''chord needs at least one key''), log)
     else case chord_keys e keys [] log of
       (r, down, log1) \<Rightarrow> (r, log1 @ map (\<lambda>vk. Keyb vk True) (rev down)))"

text \<open>A character is typed with the key, and the shift key, that the layout has for it, and skipped when there is none.\<close>

definition typed :: "win_env \<Rightarrow> nat \<Rightarrow> deed list" where
  "typed e r =
    (if 0xFFFF < r \<or> wi_scan e r = -1 then []
     else let low = nat (wi_scan e r mod 256);
              shift = (wi_scan e r div 256) mod 2 \<noteq> 0
          in (if shift then [Keyb 0x10 False] else []) @ [Keyb low False, Keyb low True]
             @ (if shift then [Keyb 0x10 True] else []))"

definition win_Type :: "win_env \<Rightarrow> string \<Rightarrow> unit deeds" where
  "win_Type e t = all_says (concat (map (typed e) (runes t)))"

definition win_Key :: "win_env \<Rightarrow> string \<Rightarrow> unit deeds" where
  "win_Key e name =
    (case map_of keyMap name of
       None \<Rightarrow> fail (Err (''unsupported key '' @ go_quote name @ '' on this platform''))
     | Some vk \<Rightarrow> all_says [Keyb vk False, Keyb vk True])"

section \<open>Programs\<close>

definition powershell :: "win_env \<Rightarrow> string \<Rightarrow> string option \<Rightarrow> (string \<times> string option \<times> go_error option) deeds" where
  "powershell e script var log =
    (let args = [''-NoProfile'', ''-NonInteractive'', ''-Command'', script];
         log1 = log @ [case var of None \<Rightarrow> Ran ''powershell'' args | Some v \<Rightarrow> Ran_with ''powershell'' args v]
     in (Inr (wi_exec e log1 ''powershell'' args), log1))"

definition win_ListApps :: "win_env \<Rightarrow> string list deeds" where
  "win_ListApps e =
    bnd (powershell e ''Get-StartApps | Select-Object -ExpandProperty Name'' None) (\<lambda>(out, _, err).
      case err of
        Some er \<Rightarrow> fail (ErrWrap ''list apps: '' er)
      | None \<Rightarrow> ret (rev (remdups (rev (filter (\<lambda>l. l \<noteq> []) (map trim_space (split_char (CHR 0x0A) out)))))))"

definition open_script :: string where
  \<open>open_script =
    join [CHR 0x0A]
     [''$n=$env:OC_APPNAME'',
      ''$apps = Get-StartApps'',
      ''$m = @($apps | Where-Object { $_.Name -ieq $n })'',
      ''if (-not $m) { $m = @($apps | Where-Object { $_.Name -like "$n*" }) }'',
      ''if (-not $m) { $m = @($apps | Where-Object { $_.Name -like "*$n*" }) }'',
      ''if (-not $m) { [Console]::Error.WriteLine("no Start-menu app matches"); exit 2 }'',
      ''$app = $m[0]'',
      ''try {'',
      ''  Start-Process ("shell:AppsFolder'' @ [CHR 0x5C] @ ''" + $app.AppID) -ErrorAction Stop'',
      ''} catch {'',
      ''  Start-Process -FilePath explorer.exe -ArgumentList ("shell:AppsFolder'' @ [CHR 0x5C] @ ''" + $app.AppID)'',
      ''}'',
      ''Write-Output $app.Name'']\<close>

definition win_OpenApp :: "win_env \<Rightarrow> string \<Rightarrow> string deeds" where
  \<open>win_OpenApp e name0 =
    (let name = trim_space name0 in
     if name = [] then fail (Err ''open_app needs an app name (e.g. "Settings"); none was given'')
     else bnd (powershell e open_script (Some (''OC_APPNAME='' @ name))) (\<lambda>(out, errout, err).
       case err of
         None \<Rightarrow> ret (trim_space out)
       | Some er \<Rightarrow>
           let shown = (case errout of None \<Rightarrow> [] | Some t \<Rightarrow> trim_space t);
               detail = (if shown = [] then err_text er else shown)
           in fail (Err (''could not open '' @ go_quote name @ '': '' @ detail @ '' '' @ em_dash
                  @ '' call list_apps for exact names''))))\<close>

definition win_RunInstaller :: "win_env \<Rightarrow> string \<Rightarrow> string \<Rightarrow> unit deeds" where
  "win_RunInstaller e path args log =
    (let cmd = (if to_lower (file_ext path) = ''.msi''
                then (''msiexec'', if args \<noteq> [] then [''/i'', path] @ Go_Base.fields args else [''/i'', path, ''/qn'', ''/norestart''])
                else (path, Go_Base.fields (if args \<noteq> [] then args else ''/S'')));
         log1 = log @ [Ran (fst cmd) (snd cmd)]
     in case wi_exec e log1 (fst cmd) (snd cmd) of
          (_, _, Some er) \<Rightarrow> (Inl er, log1)
        | (_, _, None) \<Rightarrow> (Inr (), log1))"

definition win_CurrentActivity :: "win_env \<Rightarrow> string deeds" where
  "win_CurrentActivity e log = (Inr (case wi_title e log of None \<Rightarrow> [] | Some t \<Rightarrow> t), log)"

definition win_screen :: "win_env \<Rightarrow> screen" where
  "win_screen e =
    \<lparr>sc_Screenshot = win_Screenshot e, sc_Click = win_Click e, sc_Drag = win_Drag e, sc_Scroll = win_Scroll e,
     sc_Type = win_Type e, sc_Key = win_Key e, sc_Chord = win_Chord e, sc_ListApps = win_ListApps e,
     sc_OpenApp = win_OpenApp e, sc_CurrentActivity = win_CurrentActivity e, sc_RunInstaller = win_RunInstaller e\<rparr>"

section \<open>Nothing stays pressed\<close>

datatype press = KeyDown nat | ButtonDown nat

text \<open>The event that lets a button go is twice the one that presses it.\<close>

fun press_by :: "deed \<Rightarrow> press set \<Rightarrow> press set" where
  "press_by (Keyb vk up) ps = (if up then ps - {KeyDown vk} else insert (KeyDown vk) ps)"
| "press_by (Mouse f _) ps =
    (if f \<in> {0x2, 0x8, 0x20} then insert (ButtonDown f) ps
     else if f \<in> {0x4, 0x10, 0x40} then ps - {ButtonDown (f div 2)} else ps)"
| "press_by _ ps = ps"

definition pressed :: "deed list \<Rightarrow> press set" where
  "pressed ds = fold press_by ds {}"

lemma pressed_append: "pressed (ds @ es) = fold press_by es (pressed ds)"
  by (simp add: pressed_def)

lemma all_says_log [simp]: "all_says ds log = (Inr (), log @ ds)"
  by (induction ds arbitrary: log) (simp_all add: ret_apply bnd_def says_def)

declare all_says.simps [simp del]

definition lets_go :: "deed list \<Rightarrow> bool" where
  "lets_go ds = (\<forall>ps. fold press_by ds ps \<subseteq> ps)"

lemma lets_go_Nil [simp]: "lets_go []"
  by (simp add: lets_go_def)

lemma lets_go_append [intro]: "lets_go ds \<Longrightarrow> lets_go es \<Longrightarrow> lets_go (ds @ es)"
  unfolding lets_go_def by (metis fold_append comp_apply subset_trans)

lemma lets_go_concat: "(\<And>ds. ds \<in> set dss \<Longrightarrow> lets_go ds) \<Longrightarrow> lets_go (concat dss)"
  by (induction dss) (simp_all add: lets_go_append)

lemma lets_go_cursor: "lets_go ds \<Longrightarrow> lets_go (Cursor x y # ds)"
  by (simp add: lets_go_def)

lemma lets_go_one: "lets_go [Keyb vk False, Keyb vk True]"
  by (auto simp: lets_go_def)

lemma lets_go_button: "(down, up) \<in> {(0x2, 0x4), (0x8, 0x10), (0x20, 0x40)} \<Longrightarrow> lets_go [Mouse down a, Mouse up b]"
  by (auto simp: lets_go_def)

lemma cursors_keep: "fold press_by (map (\<lambda>p. Cursor (f p) (g p)) qs) ps = ps"
  by (induction qs) simp_all

lemma releases_clear:
  "fold press_by (map (\<lambda>vk. Keyb vk True) vks) ps = ps - KeyDown ` set vks"
  by (induction vks arbitrary: ps) auto

lemma chord_keys_pressed:
  "chord_keys e keys down log = (r, down', log') \<Longrightarrow>
    \<exists>ds. log' = log @ ds \<and> set down \<subseteq> set down'
      \<and> (\<forall>ps. fold press_by ds ps \<subseteq> ps \<union> KeyDown ` set down')"
proof (induction e keys down log arbitrary: r down' log' rule: chord_keys.induct)
  case (1 e down log)
  then show ?case by simp
next
  case (2 e raw rest down log)
  define name where "name = to_upper (trim_space raw)"
  have go: "\<exists>ds. log' = log @ ds \<and> set down \<subseteq> set down' \<and> (\<forall>ps. fold press_by ds ps \<subseteq> ps \<union> KeyDown ` set down')"
    if ih: "\<exists>ds. log' = (log @ [Keyb vk False]) @ ds \<and> set (down @ [vk]) \<subseteq> set down'
      \<and> (\<forall>ps. fold press_by ds ps \<subseteq> ps \<union> KeyDown ` set down')" for vk
  proof -
    obtain ds where d: "log' = (log @ [Keyb vk False]) @ ds" "set (down @ [vk]) \<subseteq> set down'"
      "\<forall>ps. fold press_by ds ps \<subseteq> ps \<union> KeyDown ` set down'" using ih by blast
    have "fold press_by (Keyb vk False # ds) ps \<subseteq> ps \<union> KeyDown ` set down'" for ps
      using d(2) d(3)[rule_format, of "insert (KeyDown vk) ps"] by auto
    then show ?thesis using d(1,2) by (intro exI[of _ "Keyb vk False # ds"]) simp
  qed
  show ?case
  proof (cases "if rest = [] then None else map_of modifierKeys name")
    case (Some vk)
    then have "chord_keys e rest (down @ [vk]) (log @ [Keyb vk False]) = (r, down', log')"
      using 2(3) by (simp add: name_def[symmetric] Let_def)
    from 2(2)[OF name_def Some this] show ?thesis by (rule go)
  next
    case None
    show ?thesis
    proof (cases "virtualKey e name")
      case (Inl err)
      then show ?thesis using 2(3) None by (auto simp: name_def[symmetric] Let_def)
    next
      case (Inr vk)
      show ?thesis
      proof (cases "rest = []")
        case True
        then have "log' = log @ [Keyb vk False, Keyb vk True]" "down' = down" using 2(3) None Inr
          by (simp_all add: name_def[symmetric] Let_def)
        then show ?thesis by (intro exI[of _ "[Keyb vk False, Keyb vk True]"]) auto
      next
        case False
        then have "chord_keys e rest (down @ [vk]) (log @ [Keyb vk False]) = (r, down', log')"
          using 2(3) None Inr by (simp add: name_def[symmetric] Let_def)
        from 2(1)[OF name_def None Inr False this] show ?thesis by (rule go)
      qed
    qed
  qed
qed

lemma chord_lets_go: "\<exists>ds. snd (win_Chord e keys log) = log @ ds \<and> lets_go ds"
proof (cases "keys = []")
  case False
  obtain r down log1 where c: "chord_keys e keys [] log = (r, down, log1)" by (metis prod_cases3)
  from chord_keys_pressed[OF c] obtain ds where d: "log1 = log @ ds" "\<forall>ps. fold press_by ds ps \<subseteq> ps \<union> KeyDown ` set down"
    by blast
  have "lets_go (ds @ map (\<lambda>vk. Keyb vk True) (rev down))"
    unfolding lets_go_def fold_append comp_apply releases_clear using d(2) by fastforce
  then show ?thesis using c d(1) False by (simp add: win_Chord_def)
qed (simp add: win_Chord_def)

lemma typed_lets_go: "lets_go (typed e r)"
  by (auto simp: typed_def Let_def lets_go_def)

lemma click_lets_go: "\<exists>ds. snd (win_Click e x y button n log) = log @ ds \<and> lets_go ds"
proof (cases "map_of mouseButtonEvents (to_upper (trim_space button))")
  case (Some p)
  obtain down up where p: "p = (down, up)" by fastforce
  have "(down, up) \<in> {(0x2, 0x4), (0x8, 0x10), (0x20, 0x40)}"
    using Some p by (auto simp: mouseButtonEvents_def split: if_splits)
  then have "lets_go (Cursor x y # concat (replicate k [Mouse down 0, Mouse up 0]))" for k
    by (intro lets_go_cursor lets_go_concat) (auto intro: lets_go_button)
  then show ?thesis using Some p by (simp add: win_Click_def Let_def)
qed (simp add: win_Click_def fail_apply)

lemma drag_lets_go_windows: "\<exists>ds. snd (win_Drag e x1 y1 x2 y2 ms log) = log @ ds \<and> lets_go ds"
proof -
  have "lets_go ([Cursor x1 y1, Mouse 0x2 0] @ map (\<lambda>p. Cursor (fst p) (snd p)) (drag_points x1 y1 x2 y2) @ [Mouse 0x4 0])"
    by (auto simp: lets_go_def cursors_keep)
  then show ?thesis unfolding win_Drag_def by simp
qed

text \<open>C36: no operation on a Windows desktop leaves a key or a mouse button down that was not down before: neither
  clicks, drags and typing, nor a chord that stops at a key it does not know after holding others.\<close>

theorem windows_lets_go:
  "pressed (snd (win_Click e x y button n log)) \<subseteq> pressed log
   \<and> pressed (snd (win_Drag e x y x2 y2 ms log)) \<subseteq> pressed log
   \<and> pressed (snd (win_Chord e keys log)) \<subseteq> pressed log
   \<and> pressed (snd (win_Type e t log)) \<subseteq> pressed log
   \<and> pressed (snd (win_Key e name log)) \<subseteq> pressed log"
proof -
  have go: "pressed l \<subseteq> pressed log" if "\<exists>ds. l = log @ ds \<and> lets_go ds" for l
    using that unfolding lets_go_def by (metis pressed_append)
  have "lets_go (concat (map (typed e) rs))" for rs
    by (intro lets_go_concat) (auto intro: typed_lets_go)
  then have "\<exists>ds. snd (win_Type e t log) = log @ ds \<and> lets_go ds" by (simp add: win_Type_def)
  moreover have "\<exists>ds. snd (win_Key e name log) = log @ ds \<and> lets_go ds"
    by (auto simp: win_Key_def fail_apply intro: lets_go_one split: option.split)
  ultimately show ?thesis using go click_lets_go drag_lets_go_windows chord_lets_go by meson
qed

section \<open>Objects are given back\<close>

text \<open>The objects of the graphics device that a log has taken and not given back, the last one first.\<close>

fun kept_object :: "deed \<Rightarrow> string list \<Rightarrow> string list" where
  "kept_object (Took w) ks = w # ks"
| "kept_object (Gave w) ks = remove1 w ks"
| "kept_object _ ks = ks"

definition gives_back :: "'a deeds \<Rightarrow> bool" where
  "gives_back m = (\<forall>log. \<exists>ds. snd (m log) = log @ ds \<and> (\<forall>ks. fold kept_object ds ks = ks))"

lemma gives_back_taking: "gives_back m \<Longrightarrow> gives_back (taking e what m)"
  unfolding gives_back_def
proof
  fix log
  assume m: "\<forall>log. \<exists>ds. snd (m log) = log @ ds \<and> (\<forall>ks. fold kept_object ds ks = ks)"
  obtain ds where d: "snd (m (log @ [Took what])) = (log @ [Took what]) @ ds" "\<forall>ks. fold kept_object ds ks = ks"
    using m by blast
  show "\<exists>ds. snd (taking e what m log) = log @ ds \<and> (\<forall>ks. fold kept_object ds ks = ks)"
  proof (cases "wi_ok e log what")
    case True
    then show ?thesis using d by (intro exI[of _ "Took what # ds @ [Gave what]"]) (simp add: taking_def case_prod_beta)
  qed (simp add: taking_def)
qed

lemma gives_back_selecting: "gives_back m \<Longrightarrow> gives_back (selecting m)"
  unfolding gives_back_def
proof
  fix log
  assume m: "\<forall>log. \<exists>ds. snd (m log) = log @ ds \<and> (\<forall>ks. fold kept_object ds ks = ks)"
  obtain ds where d: "snd (m (log @ [Took ''SelectObject''])) = (log @ [Took ''SelectObject'']) @ ds"
    "\<forall>ks. fold kept_object ds ks = ks"
    using m by blast
  show "\<exists>ds. snd (selecting m log) = log @ ds \<and> (\<forall>ks. fold kept_object ds ks = ks)"
    using d by (intro exI[of _ "Took ''SelectObject'' # ds @ [Gave ''SelectObject'']"]) (simp add: selecting_def case_prod_beta)
qed

lemma screenshot_gives_back: "gives_back (win_Screenshot e)"
proof -
  have inner: "gives_back (bnd (checked e ''BitBlt'') (\<lambda>_. bnd (checked e ''GetDIBits'') (\<lambda>_ log.
            (wi_png e w h (rgba (nat (w * h)) (wi_buffer e log)), log))))" for w h
    by (auto simp: gives_back_def bnd_def checked_def)
  have "gives_back (fail err :: string deeds)" for err by (simp add: gives_back_def fail_apply)
  then show ?thesis unfolding win_Screenshot_def
    by (auto split: prod.split intro!: gives_back_taking gives_back_selecting inner)
qed

text \<open>A key is found by its name in capital letters only, while the other desktops, and a chord, take any spelling.\<close>

lemma windows_key_is_case_sensitive:
  "\<not> is_ok (fst (win_Key e ''enter'' log))" "is_ok (fst (win_Chord e [''enter''] log))" "is_ok (x11Keysym ''enter'')"
proof -
  have k: "map_of keyMap ''enter'' = None" "to_upper (trim_space ''enter'') = ''ENTER''" "map_of keyMap ''ENTER'' = Some 0x0D"
    "is_ok (x11Keysym ''enter'')"
    by code_simp+
  show "\<not> is_ok (fst (win_Key e ''enter'' log))" using k(1) by (simp add: win_Key_def fail_apply)
  show "is_ok (fst (win_Chord e [''enter''] log))" using k(2,3) by (simp add: win_Chord_def virtualKey_def)
  show "is_ok (x11Keysym ''enter'')" by (rule k(4))
qed

end
