(* ===== verification/Runner_Identity.thy ===== *)
theory Runner_Identity
  imports Secret_Box
begin

text \<open>
  How the runner program starts and whom it trusts: the address of the appliance, the pin of its certificate and the
  configuration of TLS (src/runner/appliance.go), the client identity (identity.go), what a start does (main.go), the
  command lines of the entries that start it at login (install.go) and the waits of the loop that connects
  (agentstate.go).  Parsing of certificates and key pairs, SHA-256, decoding of the bundle and the product of a wait with its
  random factor are parameters.
\<close>

section \<open>The address\<close>

definition normalizeAppliance :: "string \<Rightarrow> bool \<Rightarrow> string res" where
  "normalizeAppliance raw allowInsecure =
    (let s = trim_slashes (trim_space raw) in
     if s = [] then Inl (Err ''no appliance URL given'')
     else if has_prefix ''https://'' (to_lower s) then Inr s
     else if has_prefix ''http://'' (to_lower s) then
       if \<not> allowInsecure
       then Inl (Err (''refusing to connect to '' @ s @ '' over plaintext HTTP: this channel carries ''
              @ ''device control and executable build artifacts. Use https://, or pass ''
              @ ''--insecure if this is a throwaway development appliance''))
       else Inr s
     else case index_of ''://'' s of
       Some n \<Rightarrow> Inl (Err (''unsupported scheme '' @ go_quote (take n s) @ '' in appliance URL (expected https)''))
     | None \<Rightarrow> Inr (''https://'' @ s))"

section \<open>The pin\<close>

definition pinPrefix :: string where
  "pinPrefix = ''sha256/''"

text \<open>A pin is decoded with the standard alphabet, or else with that of addresses; no pin is the empty one.\<close>

definition decode_pin :: "string \<Rightarrow> bytes res" where
  "decode_pin s =
    (case std_decode s of
       Inr digest \<Rightarrow> Inr (bytes_of digest)
     | Inl err \<Rightarrow>
         (case b64_decode url_alphabet (rev (dropWhile (\<lambda>c. c = CHR ''='') (rev s))) of
            Some alt \<Rightarrow> Inr alt
          | None \<Rightarrow> Inl (ErrWrap ''pin is not valid base64: '' err)))"

definition parsePin :: "string \<Rightarrow> bytes res" where
  "parsePin raw =
    (let s = trim_space raw in
     if s = [] then Inr []
     else case decode_pin (trim_prefix pinPrefix s) of
       Inl err \<Rightarrow> Inl err
     | Inr digest \<Rightarrow>
         if length digest \<noteq> 32
         then Inl (Err (''pin decodes to '' @ itoa (int (length digest))
                @ '' bytes, want 32 (expected a SHA-256 of the certificate's public key)''))
         else Inr digest)"

text \<open>What is read of a certificate: the public key and the name of its holder.\<close>

record certificate =
  ct_spki :: bytes
  ct_name :: string

record crypto =
  cr_sha :: "bytes \<Rightarrow> bytes"
  cr_parse :: "bytes \<Rightarrow> certificate option"

definition spkiPin :: "crypto \<Rightarrow> certificate \<Rightarrow> string" where
  "spkiPin k c = pinPrefix @ std_encode (cr_sha k (ct_spki c))"

definition verifyPin :: "crypto \<Rightarrow> bytes \<Rightarrow> bytes list \<Rightarrow> unit res" where
  "verifyPin k pin rawCerts =
    (case rawCerts of
       [] \<Rightarrow> Inl (Err ''appliance presented no certificate'')
     | first # _ \<Rightarrow>
         if list_ex (\<lambda>raw. case cr_parse k raw of None \<Rightarrow> False | Some c \<Rightarrow> cr_sha k (ct_spki c) = pin) rawCerts
         then Inr ()
         else case cr_parse k first of
           None \<Rightarrow> Inl (Err ''appliance certificate does not match the expected pin and could not be parsed'')
         | Some leaf \<Rightarrow> Inl (Err (''appliance certificate does not match the expected pin ''
               @ ''(presented '' @ spkiPin k leaf @ '' for '' @ go_quote (ct_name leaf)
               @ ''). If the appliance's certificate was regenerated, re-enroll this device to get the new pin'')))"

text \<open>The configuration: whether verification is skipped, the pin that is verified instead, the identity presented.\<close>

record tls_config =
  tc_skip :: bool
  tc_pin :: "bytes option"
  tc_client :: "string list option"

definition tlsConfigFor :: "bytes \<Rightarrow> bool \<Rightarrow> string list option \<Rightarrow> tls_config" where
  "tlsConfigFor pin insecure clientCert =
    (if insecure then \<lparr>tc_skip = True, tc_pin = None, tc_client = clientCert\<rparr>
     else if pin = [] then \<lparr>tc_skip = False, tc_pin = None, tc_client = clientCert\<rparr>
     else \<lparr>tc_skip = True, tc_pin = Some pin, tc_client = clientCert\<rparr>)"

text \<open>Which chains a connection accepts: those of the system's store, the pinned ones, or all.\<close>

definition accepts :: "crypto \<Rightarrow> (bytes list \<Rightarrow> bool) \<Rightarrow> tls_config \<Rightarrow> bytes list \<Rightarrow> bool" where
  "accepts k system cfg chain =
    ((tc_skip cfg \<or> system chain) \<and> (case tc_pin cfg of None \<Rightarrow> True | Some pin \<Rightarrow> is_ok (verifyPin k pin chain)))"

section \<open>The client identity\<close>

record identity =
  id_ClientCertPEM :: string
  id_ClientKeyPEM :: string
  id_CACertPEM :: string

text \<open>Decoding of the bundle, and of a pair of certificate and key; a file that is missing.\<close>

record identity_env =
  ie_json :: "string \<Rightarrow> identity res"
  ie_pair :: "string \<Rightarrow> string \<Rightarrow> string list res"
  ie_file :: "string \<Rightarrow> string res option"

definition byte_order_mark :: string where
  "byte_order_mark = [char_of (0xEF :: nat), char_of (0xBB :: nat), char_of (0xBF :: nat)]"

definition parseIdentity :: "identity_env \<Rightarrow> string \<Rightarrow> string \<Rightarrow> string list res" where
  "parseIdentity e raw path =
    (case ie_json e (trim_prefix byte_order_mark raw) of
       Inl err \<Rightarrow> Inl (ErrWrap (''the client identity at '' @ path @ '' is not valid JSON: '') err)
     | Inr b \<Rightarrow>
         if trim_space (id_ClientCertPEM b) = [] \<or> trim_space (id_ClientKeyPEM b) = []
         then Inl (Err (''the client identity at '' @ path @ '' has no certificate or no key '' @ em_dash
                @ '' re-enroll this device to get a complete bundle''))
         else case ie_pair e (id_ClientCertPEM b) (id_ClientKeyPEM b) of
           Inl err \<Rightarrow> Inl (ErrWrap (''the client identity at '' @ path @ '' is not a usable certificate/key pair: '') err)
         | Inr cert \<Rightarrow> Inr cert)"

text \<open>None is the error errNoIdentity.\<close>

definition loadIdentity :: "identity_env \<Rightarrow> string \<Rightarrow> string list res option" where
  "loadIdentity e path =
    map_option (\<lambda>f. case f of
        Inl err \<Rightarrow> Inl (ErrWrap (''reading the client identity at '' @ path @ '': '') err)
      | Inr raw \<Rightarrow> parseIdentity e raw path) (ie_file e path)"

definition loadClientIdentity :: "identity_env \<Rightarrow> string \<Rightarrow> string \<Rightarrow> string list option res" where
  "loadClientIdentity e installed explicit =
    (case loadIdentity e (if explicit = [] then installed else explicit) of
       None \<Rightarrow> if explicit \<noteq> [] then Inl (Err (''no client identity at '' @ explicit)) else Inr None
     | Some (Inl err) \<Rightarrow> Inl err
     | Some (Inr cert) \<Rightarrow> Inr (Some cert))"

section \<open>Starting at login\<close>

record enrollment =
  en_Appliance :: string
  en_Token :: string
  en_Pin :: string
  en_Insecure :: bool
  en_IdentitySrc :: string

definition runArgs :: "enrollment \<Rightarrow> string list" where
  "runArgs e =
    [''--appliance'', en_Appliance e, ''--token'', en_Token e]
    @ (if en_Pin e \<noteq> [] then [''--pin'', en_Pin e] else [])
    @ (if en_Insecure e then [''--insecure''] else [])"

definition quote_mark :: string where
  "quote_mark = [CHR 0x22]"

definition quoted_arg :: "string \<Rightarrow> string" where
  "quoted_arg a = '' '' @ (if has_prefix ''--'' a then a else quote_mark @ a @ quote_mark)"

definition quotedArgs :: "enrollment \<Rightarrow> string" where
  "quotedArgs e = concat (map quoted_arg (runArgs e))"

definition winRunCommand :: "string \<Rightarrow> enrollment \<Rightarrow> string" where
  "winRunCommand binPath e = quote_mark @ binPath @ quote_mark @ quotedArgs e"

definition newline :: string where
  "newline = [CHR 0x0A]"

definition desktopEntry :: "string \<Rightarrow> enrollment \<Rightarrow> string" where
  "desktopEntry binPath e =
    (let command = quote_mark @ binPath @ quote_mark @ quotedArgs e in
     concat (map (\<lambda>l. l @ newline)
       [''[Desktop Entry]'', ''Type=Application'', ''Name=OpenCuttles Runner'',
        ''Comment=Dials home so the OpenCuttles appliance can drive this desktop'',
        ''Exec='' @ command, ''X-GNOME-Autostart-enabled=true'', ''NoDisplay=true'']))"

text \<open>xml.EscapeText on ASCII text: characters that XML does not allow become the replacement character.\<close>

definition xml_char :: "char \<Rightarrow> string" where
  "xml_char c =
    (let n = of_char c :: nat in
     if n = 34 then ''&#34;'' else if n = 39 then ''&#39;'' else if c = CHR ''&'' then ''&amp;''
     else if c = CHR ''<'' then ''&lt;'' else if c = CHR ''>'' then ''&gt;''
     else if n = 9 then ''&#x9;'' else if n = 10 then ''&#xA;'' else if n = 13 then ''&#xD;''
     else if n < 32 then [CHR 0xEF, CHR 0xBF, CHR 0xBD] else [c])"

definition xmlEscape :: "string \<Rightarrow> string" where
  "xmlEscape s = concat (map xml_char s)"

definition launchLabel :: string where
  "launchLabel = ''com.opencuttles.runner''"

definition attribute :: "string \<Rightarrow> string \<Rightarrow> string" where
  "attribute k v = k @ ''='' @ quote_mark @ v @ quote_mark"

definition launchAgentPlist :: "string \<Rightarrow> enrollment \<Rightarrow> string" where
  "launchAgentPlist binPath e =
    (let items = concat (map (\<lambda>a. newline @ ''    <string>'' @ xmlEscape a @ ''</string>'') (binPath # runArgs e)) in
     concat (map (\<lambda>l. l @ newline)
       [''<?xml '' @ attribute ''version'' ''1.0'' @ '' '' @ attribute ''encoding'' ''UTF-8'' @ ''?>'',
        ''<!DOCTYPE plist PUBLIC '' @ quote_mark @ ''-//Apple//DTD PLIST 1.0//EN'' @ quote_mark @ '' ''
          @ quote_mark @ ''http://www.apple.com/DTDs/PropertyList-1.0.dtd'' @ quote_mark @ ''>'',
        ''<plist '' @ attribute ''version'' ''1.0'' @ ''>'', ''<dict>'', ''  <key>Label</key>'',
        ''  <string>'' @ launchLabel @ ''</string>'', ''  <key>ProgramArguments</key>'', ''  <array>'' @ items,
        ''  </array>'', ''  <key>RunAtLoad</key>'', ''  <true/>'', ''  <key>KeepAlive</key>'', ''  <true/>'',
        ''  <key>ProcessType</key>'', ''  <string>Interactive</string>'', ''</dict>'', ''</plist>'']))"

section \<open>What a start does\<close>

record command_line =
  cl_sub :: string
  cl_appliance :: string
  cl_token :: string
  cl_pin :: string
  cl_insecure :: bool
  cl_identity :: string

datatype start =
    Fatal go_error
  | Uninstall
  | Install enrollment tls_config
  | Wizard
  | Run enrollment tls_config

definition no_credentials :: go_error where
  "no_credentials =
    Err ''both --appliance and --token are required (or set OPENCUTTLES_APPLIANCE / OPENCUTTLES_ENROLL_TOKEN)''"

definition requireCreds :: "enrollment \<Rightarrow> start \<Rightarrow> start" where
  "requireCreds e go = (if en_Appliance e = [] \<or> en_Token e = [] then Fatal no_credentials else go)"

definition fatal_or :: "'a res \<Rightarrow> ('a \<Rightarrow> start) \<Rightarrow> start" where
  "fatal_or r f = (case r of Inl err \<Rightarrow> Fatal err | Inr x \<Rightarrow> f x)"

definition enrollment_of :: "command_line \<Rightarrow> string \<Rightarrow> enrollment" where
  "enrollment_of cl appliance =
    \<lparr>en_Appliance = appliance, en_Token = trim_space (cl_token cl), en_Pin = trim_space (cl_pin cl),
     en_Insecure = cl_insecure cl, en_IdentitySrc = trim_space (cl_identity cl)\<rparr>"

definition start_address :: "command_line \<Rightarrow> string res" where
  "start_address cl =
    (let raw = trim_space (cl_appliance cl) in
     if raw = [] then Inr [] else normalizeAppliance raw (cl_insecure cl))"

definition dispatch :: "bool \<Rightarrow> string \<Rightarrow> enrollment \<Rightarrow> tls_config \<Rightarrow> start" where
  "dispatch wizard sub e cfg =
    (if sub = ''uninstall'' then Uninstall
     else if sub = ''install'' then requireCreds e (Install e cfg)
     else if sub = [] then
       if (en_Appliance e = [] \<or> en_Token e = []) \<and> wizard then Wizard
       else requireCreds e (Run e cfg)
     else Fatal (Err (''unknown command '' @ go_quote sub @ '' (expected: install, uninstall, or no command to run)'')))"

definition run_main :: "identity_env \<Rightarrow> string \<Rightarrow> bool \<Rightarrow> command_line \<Rightarrow> start" where
  "run_main ie installed wizard cl =
    fatal_or (start_address cl) (\<lambda>appliance.
    let e = enrollment_of cl appliance in
    fatal_or (map_sum (ErrWrap ''invalid --pin: '') id (parsePin (en_Pin e))) (\<lambda>pin.
    fatal_or (loadClientIdentity ie installed (en_IdentitySrc e)) (\<lambda>client.
    dispatch wizard (cl_sub cl) e (tlsConfigFor pin (cl_insecure cl) client))))"

section \<open>The waits\<close>

text \<open>Durations are in nanoseconds.  scaled is the product of a wait and a random factor, cut to an integer.\<close>

definition backoffMin :: int where
  "backoffMin = 1000000000"

definition backoffMax :: int where
  "backoffMax = 60 * 1000000000"

definition backoffReset :: int where
  "backoffReset = 30 * 1000000000"

definition nextBackoff :: "(int \<Rightarrow> int) \<Rightarrow> int \<Rightarrow> int" where
  "nextBackoff scaled current =
    (let next0 = wrap64 (current * 2);
         next1 = (if backoffMax < next0 then backoffMax else next0);
         next2 = scaled next1;
         next3 = (if next2 < backoffMin then backoffMin else next2)
     in if backoffMax < next3 then backoffMax else next3)"

text \<open>A turn of the loop: how long the tunnel stayed up, and the product, or none when the user asked to connect again.\<close>

type_synonym turn = "int \<times> (int \<Rightarrow> int) option"

definition wait_of :: "int \<Rightarrow> turn \<Rightarrow> int" where
  "wait_of delay t = (if backoffReset \<le> fst t then backoffMin else delay)"

definition delay_after :: "int \<Rightarrow> turn \<Rightarrow> int" where
  "delay_after delay t = (case snd t of None \<Rightarrow> backoffMin | Some scaled \<Rightarrow> nextBackoff scaled (wait_of delay t))"

fun waits :: "int \<Rightarrow> turn list \<Rightarrow> int list" where
  "waits delay [] = []"
| "waits delay (t # ts) = wait_of delay t # waits (delay_after delay t) ts"

section \<open>What a start guarantees\<close>

lemma normalizeAppliance_secure:
  "normalizeAppliance raw False = Inr s \<Longrightarrow> has_prefix ''https://'' (to_lower s)"
proof -
  have "to_lower ''https://'' = ''https://''" by code_simp
  then have "to_lower (''https://'' @ t) = ''https://'' @ to_lower t" for t
    unfolding to_lower_def map_append by simp
  then have "has_prefix ''https://'' (to_lower (''https://'' @ t))" for t
    unfolding has_prefix_iff by blast
  then show "normalizeAppliance raw False = Inr s \<Longrightarrow> has_prefix ''https://'' (to_lower s)"
    by (auto simp: normalizeAppliance_def Let_def split: if_splits option.splits)
qed

definition runs_with :: "start \<Rightarrow> enrollment \<Rightarrow> tls_config \<Rightarrow> bool" where
  "runs_with s e cfg = (s = Run e cfg \<or> s = Install e cfg)"

lemma runs_with_fatal_or: "runs_with (fatal_or r f) e cfg \<longleftrightarrow> (\<exists>x. r = Inr x \<and> runs_with (f x) e cfg)"
  by (auto simp: fatal_or_def runs_with_def split: sum.split)

lemma runs_with_dispatch:
  "runs_with (dispatch wizard sub e0 cfg0) e cfg \<Longrightarrow> e = e0 \<and> cfg = cfg0 \<and> en_Appliance e0 \<noteq> [] \<and> en_Token e0 \<noteq> []"
  by (auto simp: dispatch_def requireCreds_def runs_with_def split: if_splits)

lemma run_main_parts:
  assumes "runs_with (run_main ie installed wizard cl) e cfg"
  obtains pin client appliance where "parsePin (trim_space (cl_pin cl)) = Inr pin"
    "cfg = tlsConfigFor pin (cl_insecure cl) client" "start_address cl = Inr appliance"
    "e = enrollment_of cl appliance" "appliance \<noteq> []" "en_Token e \<noteq> []"
proof -
  have f: "en_Pin (enrollment_of cl x) = trim_space (cl_pin cl)" "en_Appliance (enrollment_of cl x) = x" for x
    by (simp_all add: enrollment_of_def)
  have pin: "map_sum (ErrWrap w) id r = Inr (y :: bytes) \<longleftrightarrow> r = Inr y" for w r y by (cases r) simp_all
  from assms obtain appliance pin client where "start_address cl = Inr appliance" "parsePin (trim_space (cl_pin cl)) = Inr pin"
    "runs_with (dispatch wizard (cl_sub cl) (enrollment_of cl appliance) (tlsConfigFor pin (cl_insecure cl) client)) e cfg"
    unfolding run_main_def Let_def runs_with_fatal_or f pin by blast
  with runs_with_dispatch[OF this(3)] show thesis using that by (simp add: f)
qed

text \<open>C38: a runner never trusts a connection that nobody vouched for.  When it runs, or installs itself, without the flag
  for development, the address of the appliance is one of https and there is a token; and a chain of certificates that the system
  does not trust is accepted only under a pin of 32 bytes that was given, when one of its certificates has the pinned key.\<close>

theorem run_main_secures:
  assumes "runs_with (run_main ie installed wizard cl) e cfg" "\<not> cl_insecure cl"
  shows "has_prefix ''https://'' (to_lower (en_Appliance e)) \<and> en_Token e \<noteq> []
    \<and> (\<forall>k system chain. accepts k system cfg chain \<and> \<not> system chain \<longrightarrow>
         (\<exists>pin raw c. parsePin (cl_pin cl) = Inr pin \<and> length pin = 32 \<and> raw \<in> set chain
            \<and> cr_parse k raw = Some c \<and> cr_sha k (ct_spki c) = pin))"
proof -
  from run_main_parts[OF assms(1)] obtain pin client appliance where
    p: "parsePin (trim_space (cl_pin cl)) = Inr pin" and cfg: "cfg = tlsConfigFor pin (cl_insecure cl) client"
    and a: "start_address cl = Inr appliance" "appliance \<noteq> []" and e: "e = enrollment_of cl appliance" "en_Token e \<noteq> []"
    by metis
  have "has_prefix ''https://'' (to_lower (en_Appliance e))"
    using a e(1) assms(2) normalizeAppliance_secure
    by (auto simp: start_address_def Let_def enrollment_of_def split: if_splits)
  moreover have "parsePin (cl_pin cl) = Inr pin" using p by (simp add: parsePin_def)
  moreover have "pin = [] \<or> length pin = 32" using p
    by (auto simp: parsePin_def Let_def split: if_splits sum.splits)
  ultimately show ?thesis using e(2) cfg assms(2)
    by (auto simp: tlsConfigFor_def accepts_def verifyPin_def is_ok_def list_ex_iff
        split: if_splits list.splits option.splits)
qed

text \<open>A pin says nothing of the certificate that the connection is made with: any certificate may stand before the pinned one.\<close>

lemma appended_certificate_passes:
  assumes "verifyPin k pin chain = Inr ()"
  shows "verifyPin k pin (raw # chain) = Inr ()"
  using assms by (cases chain) (auto simp: verifyPin_def split: if_splits option.splits)

section \<open>A pin that is shown can be given\<close>

lemma std_encode_shape:
  "std_encode bs = b64_encode std_alphabet bs @ replicate ((4 - length (b64_encode std_alphabet bs) mod 4) mod 4) (CHR ''='')"
  by (simp add: std_encode_def Let_def)

lemma std_encode_chars: "c \<in> set (std_encode bs) \<Longrightarrow> \<not> is_space c"
proof -
  have "list_all (\<lambda>c. \<not> is_space c) (CHR ''='' # std_alphabet)" by code_simp
  then show "c \<in> set (std_encode bs) \<Longrightarrow> \<not> is_space c"
    unfolding std_encode_shape using b64_encode_set by (auto simp: list_all_iff)
qed

lemma trim_space_none: "(\<And>c. c \<in> set s \<Longrightarrow> \<not> is_space c) \<Longrightarrow> trim_space s = s"
proof -
  assume "\<And>c. c \<in> set s \<Longrightarrow> \<not> is_space c"
  then have "s = [] \<or> \<not> is_space (hd s)" "s = [] \<or> \<not> is_space (last s)" by auto
  then have "dropWhile is_space s = s" "dropWhile is_space (rev s) = rev s"
    by (auto simp: dropWhile_eq_self_iff hd_rev)
  then show ?thesis by (simp add: trim_space_def trim_by_def)
qed

lemma trim_spki [simp]: "trim_space (spkiPin k c) = spkiPin k c"
proof -
  have "list_all (\<lambda>c. \<not> is_space c) pinPrefix" by code_simp
  then show ?thesis
    unfolding spkiPin_def using std_encode_chars by (intro trim_space_none) (auto simp: list_all_iff)
qed

lemma parsePin_spki: "length (cr_sha k (ct_spki c)) = 32 \<Longrightarrow> parsePin (spkiPin k c) = Inr (cr_sha k (ct_spki c))"
proof -
  have "spkiPin k c \<noteq> []" by (simp add: spkiPin_def pinPrefix_def)
  moreover have "trim_prefix pinPrefix (spkiPin k c) = std_encode (cr_sha k (ct_spki c))"
    by (simp add: spkiPin_def trim_prefix_def)
  ultimately show "length (cr_sha k (ct_spki c)) = 32 \<Longrightarrow> parsePin (spkiPin k c) = Inr (cr_sha k (ct_spki c))"
    by (simp add: parsePin_def Let_def decode_pin_def std_decode_encode bytes_of_text)
qed

lemma verifyPin_iff:
  "is_ok (verifyPin k pin chain) = (\<exists>raw\<in>set chain. \<exists>c. cr_parse k raw = Some c \<and> cr_sha k (ct_spki c) = pin)"
proof (cases chain)
  case (Cons first rest)
  have same: "(case cr_parse k raw of None \<Rightarrow> False | Some c \<Rightarrow> cr_sha k (ct_spki c) = pin)
    = (\<exists>c. cr_parse k raw = Some c \<and> cr_sha k (ct_spki c) = pin)" for raw
    by (simp split: option.split)
  show ?thesis unfolding Cons verifyPin_def list.case same list_ex_iff
    by (auto split: option.split)
qed (simp add: verifyPin_def)

text \<open>C39: the pin that is shown for a certificate is accepted, and is that of the certificate: a handshake under it
  succeeds exactly when some certificate that was presented has the same hash of its key.\<close>

theorem pin_roundtrip:
  assumes "length (cr_sha k (ct_spki c)) = 32"
  shows "\<exists>pin. parsePin (spkiPin k c) = Inr pin \<and> pin = cr_sha k (ct_spki c)
    \<and> (\<forall>chain. is_ok (verifyPin k pin chain) =
        (\<exists>raw c'. raw \<in> set chain \<and> cr_parse k raw = Some c' \<and> cr_sha k (ct_spki c') = cr_sha k (ct_spki c)))"
  unfolding parsePin_spki[OF assms] verifyPin_iff by blast

definition sample_crypto :: crypto where
  "sample_crypto = \<lparr>cr_sha = (\<lambda>b. replicate 32 (hd b)), cr_parse = (\<lambda>raw. Some \<lparr>ct_spki = raw, ct_name = ''box''\<rparr>)\<rparr>"

definition sample_line :: command_line where
  "sample_line =
    \<lparr>cl_sub = [], cl_appliance = '' 10.0.0.5:8443/ '', cl_token = ''ab12'', cl_pin = spkiPin sample_crypto \<lparr>ct_spki = [7], ct_name = ''box''\<rparr>,
     cl_insecure = False, cl_identity = []\<rparr>"

definition no_identity :: identity_env where
  "no_identity =
    \<lparr>ie_json = (\<lambda>_. Inl (Err ''json'')), ie_pair = (\<lambda>_ _. Inl (Err ''pair'')), ie_file = (\<lambda>_. None)\<rparr>"

definition sample_enrollment :: enrollment where
  "sample_enrollment =
    \<lparr>en_Appliance = ''https://10.0.0.5:8443'', en_Token = ''ab12'', en_Pin = spkiPin sample_crypto \<lparr>ct_spki = [7], ct_name = ''box''\<rparr>,
     en_Insecure = False, en_IdentitySrc = []\<rparr>"

definition sample_tls :: tls_config where
  "sample_tls = \<lparr>tc_skip = True, tc_pin = Some (replicate 32 7), tc_client = None\<rparr>"

lemma pin_roundtrip_witness:
  "parsePin (spkiPin sample_crypto \<lparr>ct_spki = [9], ct_name = ''box''\<rparr>) = Inr (replicate 32 9)"
proof -
  have "cr_sha sample_crypto (ct_spki \<lparr>ct_spki = [9], ct_name = ''box''\<rparr>) = replicate 32 9" by (simp add: sample_crypto_def)
  then show ?thesis using pin_roundtrip[of sample_crypto "\<lparr>ct_spki = [9], ct_name = ''box''\<rparr>"] by force
qed

text \<open>Under the pinned certificate, another one is accepted.\<close>

lemma run_main_secures_witness:
  "has_prefix ''https://'' (to_lower (en_Appliance sample_enrollment))
   \<and> (\<exists>pin raw c. parsePin (cl_pin sample_line) = Inr pin \<and> length pin = 32 \<and> raw \<in> set [[0], [7]]
        \<and> cr_parse sample_crypto raw = Some c \<and> cr_sha sample_crypto (ct_spki c) = pin)"
proof -
  define shown where "shown = spkiPin sample_crypto \<lparr>ct_spki = [7], ct_name = ''box''\<rparr>"
  have pin: "parsePin shown = Inr (replicate 32 7)" "trim_space shown = shown"
    unfolding shown_def using parsePin_spki[of sample_crypto "\<lparr>ct_spki = [7], ct_name = ''box''\<rparr>"] trim_spki
    by (simp_all add: sample_crypto_def)
  have address: "start_address sample_line = Inr ''https://10.0.0.5:8443''" "trim_space (cl_token sample_line) = ''ab12''"
    by (simp_all add: start_address_def sample_line_def) code_simp+
  have "run_main no_identity ''/home/u/id.json'' False sample_line = Run sample_enrollment sample_tls"
    using pin address unfolding shown_def
    by (simp add: run_main_def fatal_or_def Let_def enrollment_of_def dispatch_def requireCreds_def sample_enrollment_def
      sample_tls_def tlsConfigFor_def loadClientIdentity_def loadIdentity_def no_identity_def sample_line_def)
  then have r: "runs_with (run_main no_identity ''/home/u/id.json'' False sample_line) sample_enrollment sample_tls"
    by (simp add: runs_with_def)
  have "\<not> cl_insecure sample_line" by (simp add: sample_line_def)
  note t = run_main_secures[OF r this]
  have "cr_parse sample_crypto [7] = Some \<lparr>ct_spki = [7], ct_name = ''box''\<rparr>"
    "cr_sha sample_crypto [7] = replicate 32 7" by (simp_all add: sample_crypto_def)
  then have "accepts sample_crypto (\<lambda>_. False) sample_tls [[0], [7]]"
    by (auto simp: accepts_def sample_tls_def verifyPin_iff)
  then show ?thesis using t by blast
qed

section \<open>Waits are bounded\<close>

lemma nextBackoff_bounds: "backoffMin \<le> nextBackoff scaled d \<and> nextBackoff scaled d \<le> backoffMax"
  by (simp add: nextBackoff_def Let_def backoffMin_def backoffMax_def)

text \<open>The runner keeps trying to connect, neither in a busy loop nor ever more rarely: whatever the tunnels and the random
  factors do, each wait is between one second and one minute, and it is one second after a tunnel that stayed up for half a
  minute.\<close>

theorem waits_bounded:
  "list_all (\<lambda>w. 1000000000 \<le> w \<and> w \<le> 60000000000) (waits backoffMin ts)
   \<and> length (waits backoffMin ts) = length ts
   \<and> list_all2 (\<lambda>t w. 30000000000 \<le> fst t \<longrightarrow> w = 1000000000) ts (waits backoffMin ts)"
proof -
  have "list_all (\<lambda>w. backoffMin \<le> w \<and> w \<le> backoffMax) (waits d ts) \<and> length (waits d ts) = length ts
      \<and> list_all2 (\<lambda>t w. backoffReset \<le> fst t \<longrightarrow> w = backoffMin) ts (waits d ts)"
    if "backoffMin \<le> d \<and> d \<le> backoffMax" for d
    using that
  proof (induction ts arbitrary: d)
    case (Cons t ts)
    have "backoffMin \<le> wait_of d t \<and> wait_of d t \<le> backoffMax"
      using Cons.prems by (auto simp: wait_of_def)
    moreover have "backoffMin \<le> delay_after d t \<and> delay_after d t \<le> backoffMax"
      using nextBackoff_bounds by (auto simp: delay_after_def backoffMin_def backoffMax_def split: option.split)
    ultimately show ?case using Cons.IH by (simp add: wait_of_def)
  qed simp
  from this[of backoffMin] show ?thesis by (simp add: backoffMin_def backoffMax_def backoffReset_def)
qed

lemma waits_bounded_witness:
  "waits backoffMin [(0, Some (\<lambda>n. n)), (40000000000, None)] = [1000000000, 1000000000]"
proof -
  note conjunct2[OF conjunct2[OF waits_bounded[of "[(0, Some (\<lambda>n. n)), (40000000000, None)]"]]]
  then show ?thesis by (simp add: wait_of_def backoffMin_def backoffReset_def)
qed

section \<open>The command line that starts the runner\<close>

text \<open>How a command line is read: words are separated by spaces outside quotation marks.\<close>

fun words :: "bool \<Rightarrow> string option \<Rightarrow> string \<Rightarrow> string list" where
  "words quoted cur [] = (case cur of None \<Rightarrow> [] | Some w \<Rightarrow> [w])"
| "words quoted cur (c # s) =
    (let w = (case cur of None \<Rightarrow> [] | Some w \<Rightarrow> w) in
     if c = CHR 0x22 then words (\<not> quoted) (Some w) s
     else if c = CHR '' '' \<and> \<not> quoted then (case cur of None \<Rightarrow> [] | Some w \<Rightarrow> [w]) @ words quoted None s
     else words quoted (Some (w @ [c])) s)"

definition mark_free :: "string \<Rightarrow> bool" where
  "mark_free s = (CHR 0x22 \<notin> set s)"

lemma words_quoted: "mark_free v \<Longrightarrow> words True (Some w) (v @ s) = words True (Some (w @ v)) s"
  by (induction v arbitrary: w) (auto simp: mark_free_def)

lemma words_flag: "mark_free v \<Longrightarrow> CHR '' '' \<notin> set v \<Longrightarrow> words False (Some w) (v @ s) = words False (Some (w @ v)) s"
  by (induction v arbitrary: w) (auto simp: mark_free_def)

lemma words_arg:
  assumes "mark_free a" "has_prefix ''--'' a \<Longrightarrow> CHR '' '' \<notin> set a"
  shows "words False (Some w) (quoted_arg a @ s) = w # words False (Some a) s"
proof (cases "has_prefix ''--'' a")
  case True
  then obtain t where t: "a = CHR ''-'' # t" by (auto simp: has_prefix_iff)
  then have "words False None (a @ s) = words False (Some a) s"
    using words_flag[of t "[CHR ''-'']" s] assms True by (simp add: mark_free_def)
  then show ?thesis using True by (simp add: quoted_arg_def)
next
  case False
  then show ?thesis using words_quoted[OF assms(1), of "[]" "quote_mark @ s"]
    by (simp add: quoted_arg_def quote_mark_def)
qed

lemma words_args:
  assumes "list_all (\<lambda>a. mark_free a \<and> (has_prefix ''--'' a \<longrightarrow> CHR '' '' \<notin> set a)) as"
  shows "words False (Some w) (concat (map quoted_arg as)) = w # as"
  using assms
proof (induction as arbitrary: w)
  case (Cons a as)
  then show ?case using words_arg[of a w "concat (map quoted_arg as)"] by simp
qed simp

text \<open>A runner that starts at login is started with the enrollment it was installed with: the command line in the
  registry, and that of the desktop entry, is read back as the path of the program and the arguments of the enrollment, also when
  the path has spaces, as long as no value has a quotation mark and none that has a space looks like a flag.\<close>

theorem autostart_reads_back:
  assumes "mark_free bin" "list_all (\<lambda>v. mark_free v \<and> (has_prefix ''--'' v \<longrightarrow> CHR '' '' \<notin> set v)) [en_Appliance e, en_Token e, en_Pin e]"
  shows "words False None (winRunCommand bin e) = bin # runArgs e
    \<and> contains (newline @ ''Exec='' @ winRunCommand bin e @ newline) (desktopEntry bin e)"
proof
  have flags: "mark_free f \<and> CHR '' '' \<notin> set f"
    if "f \<in> set [''--appliance'', ''--token'', ''--pin'', ''--insecure'']" for f
    using that by (auto simp: mark_free_def)
  have "list_all (\<lambda>a. mark_free a \<and> (has_prefix ''--'' a \<longrightarrow> CHR '' '' \<notin> set a)) (runArgs e)"
    using assms(2) flags by (simp add: runArgs_def)
  from words_args[OF this, of bin] show "words False None (winRunCommand bin e) = bin # runArgs e"
    using words_quoted[OF assms(1), of "[]" "quote_mark @ quotedArgs e"]
    by (simp add: winRunCommand_def quotedArgs_def quote_mark_def)
  have c: "contains s (p @ s @ q)" for s p q :: string
  proof (induction p)
    case Nil
    have "contains s u" if "has_prefix s u" for u
      using that by (cases u) (auto simp: has_prefix_def)
    then show ?case by simp
  next
    case (Cons a p)
    then show ?case by simp
  qed
  show "contains (newline @ ''Exec='' @ winRunCommand bin e @ newline) (desktopEntry bin e)"
    using c[of "newline @ ''Exec='' @ winRunCommand bin e @ newline"
      "''[Desktop Entry]'' @ newline @ ''Type=Application'' @ newline @ ''Name=OpenCuttles Runner'' @ newline
       @ ''Comment=Dials home so the OpenCuttles appliance can drive this desktop''"
      "''X-GNOME-Autostart-enabled=true'' @ newline @ ''NoDisplay=true'' @ newline"]
    by (simp add: desktopEntry_def winRunCommand_def Let_def)
qed

lemma autostart_reads_back_witness:
  "words False None (winRunCommand ''C:/Program Files/runner.exe'' (sample_enrollment\<lparr>en_Pin := ''sha256/ab=''\<rparr>))
     = ''C:/Program Files/runner.exe'' # runArgs (sample_enrollment\<lparr>en_Pin := ''sha256/ab=''\<rparr>)"
  using autostart_reads_back[of "''C:/Program Files/runner.exe''" "sample_enrollment\<lparr>en_Pin := ''sha256/ab=''\<rparr>"]
  by (simp add: mark_free_def sample_enrollment_def)

end
