(* ===== verification/Model_Clients.thy ===== *)
theory Model_Clients
  imports Complex_Main Secret_Box
begin

text \<open>
  The clients of the models: text completion (src/backend/internal/llm/llm.go), questions about a screenshot
  (llmvision/llmvision.go) and the client of the vision sidecar (vision/client.go).  A client builds one request, sends it,
  and reads one answer.  The network, the check of an address and the reading of JSON text are parameters; what is sent is kept
  in a log.  Numbers are rationals, so that a temperature or a coordinate is what its decimal text says.
\<close>

section \<open>JSON and HTTP\<close>

datatype jvalue =
    VNull
  | VBool bool
  | VNum rat
  | VStr string
  | VArr "jvalue list"
  | VObj "(string \<times> jvalue) list"

type_synonym jfields = "(string \<times> jvalue) list"

text \<open>A request: headers are kept by their names in lower case.\<close>

record http_req =
  rq_method :: string
  rq_url :: string
  rq_headers :: "(string \<times> string) list"
  rq_body :: jvalue
  rq_timeout :: int

text \<open>The answer has a status and a body, which may fail to be read; JSON is read from a whole text, or from its beginning.\<close>

record http_env =
  he_bad_url :: "string \<Rightarrow> go_error option"
  he_do :: "http_req list \<Rightarrow> http_req \<Rightarrow> (int \<times> string res) res"
  he_whole :: "string \<Rightarrow> jvalue res"
  he_first :: "string \<Rightarrow> jvalue res"

type_synonym 'a call = "http_req list \<Rightarrow> 'a res \<times> http_req list"

definition send_request :: "http_env \<Rightarrow> http_req \<Rightarrow> (int \<times> string res) call" where
  "send_request e req sent = (he_do e sent req, sent @ [req])"

definition set_header :: "string \<Rightarrow> string \<Rightarrow> (string \<times> string) list \<Rightarrow> (string \<times> string) list" where
  "set_header k v hs = filter (\<lambda>h. fst h \<noteq> to_lower k) hs @ [(to_lower k, v)]"

definition with_header :: "string \<Rightarrow> string \<Rightarrow> http_req \<Rightarrow> http_req" where
  "with_header k v req = req\<lparr>rq_headers := set_header k v (rq_headers req)\<rparr>"

text \<open>newRequest of both packages: the headers of the configuration come after the content type.\<close>

definition newRequest :: "http_env \<Rightarrow> int \<Rightarrow> string \<Rightarrow> jvalue \<Rightarrow> (string \<times> string) list \<Rightarrow> http_req res" where
  "newRequest e timeout url body headers =
    (case he_bad_url e url of
       Some err \<Rightarrow> Inl err
     | None \<Rightarrow> Inr \<lparr>rq_method = ''POST'', rq_url = url,
         rq_headers = foldl (\<lambda>hs (k, v). set_header k v hs) (set_header ''Content-Type'' ''application/json'' []) headers,
         rq_body = body, rq_timeout = timeout\<rparr>)"

text \<open>Decoding into a struct: a field that is absent or null is left empty, one of another type is an error.\<close>

definition decode_mismatch :: go_error where
  "decode_mismatch = Err ''json: cannot unmarshal value into Go struct field''"

definition struct_of :: "jvalue \<Rightarrow> jfields res" where
  "struct_of v = (case v of VNull \<Rightarrow> Inr [] | VObj fs \<Rightarrow> Inr fs | _ \<Rightarrow> Inl decode_mismatch)"

definition jmember :: "string \<Rightarrow> jfields \<Rightarrow> jvalue" where
  "jmember k fs = (case map_of (rev fs) k of None \<Rightarrow> VNull | Some v \<Rightarrow> v)"

definition text_field :: "string \<Rightarrow> jfields \<Rightarrow> string res" where
  "text_field k fs = (case jmember k fs of VNull \<Rightarrow> Inr [] | VStr s \<Rightarrow> Inr s | _ \<Rightarrow> Inl decode_mismatch)"

definition number_field :: "string \<Rightarrow> jfields \<Rightarrow> rat res" where
  "number_field k fs = (case jmember k fs of VNull \<Rightarrow> Inr 0 | VNum x \<Rightarrow> Inr x | _ \<Rightarrow> Inl decode_mismatch)"

definition struct_field :: "string \<Rightarrow> jfields \<Rightarrow> jfields res" where
  "struct_field k fs = struct_of (jmember k fs)"

definition and_then :: "'a res \<Rightarrow> ('a \<Rightarrow> 'b res) \<Rightarrow> 'b res" where
  "and_then r f = (case r of Inl err \<Rightarrow> Inl err | Inr x \<Rightarrow> f x)"

fun every :: "('a \<Rightarrow> 'b res) \<Rightarrow> 'a list \<Rightarrow> 'b list res" where
  "every f [] = Inr []"
| "every f (x # xs) = and_then (f x) (\<lambda>y. and_then (every f xs) (\<lambda>ys. Inr (y # ys)))"

definition structs_field :: "string \<Rightarrow> jfields \<Rightarrow> jfields list res" where
  "structs_field k fs =
    (case jmember k fs of VNull \<Rightarrow> Inr [] | VArr vs \<Rightarrow> every struct_of vs | _ \<Rightarrow> Inl decode_mismatch)"

section \<open>Text completion\<close>

record model_config =
  mc_API :: string
  mc_BaseURL :: string
  mc_Model :: string
  mc_Key :: string
  mc_Headers :: "(string \<times> string) list"

record llm_options =
  lo_MaxTokens :: int
  lo_Temperature :: rat
  lo_JSON :: bool
  lo_Timeout :: int

definition ErrUnsupported_llm :: go_error where
  "ErrUnsupported_llm = Err ''llm: provider is not supported''"

definition ErrNotConfigured :: go_error where
  "ErrNotConfigured = Err (''llm: no model is configured '' @ em_dash @ '' set one in Settings'')"

definition ErrTruncated :: go_error where
  "ErrTruncated = Err ''llm: the response was cut off at the token limit''"

definition endpoint :: "string \<Rightarrow> string \<Rightarrow> string" where
  "endpoint baseURL path = trim_slashes (trim_space baseURL) @ ''/'' @ path"

text \<open>The request that was built is sent, and its answer read, at most 8 MB of it.\<close>

definition llm_do :: "http_env \<Rightarrow> http_req \<Rightarrow> (jvalue \<Rightarrow> 'a res) \<Rightarrow> 'a call" where
  "llm_do e req read =
    bnd (attempt (send_request e req)) (\<lambda>r.
      case r of
        Inl err \<Rightarrow> fail (ErrWrap ''llm: '' err)
      | Inr (status, body) \<Rightarrow>
          (case body of
             Inl err \<Rightarrow> fail (ErrWrap ''llm: reading the response failed: '' err)
           | Inr content \<Rightarrow>
               let raw = take 8388608 content in
               if 300 \<le> status
               then fail (Err (''llm: provider returned '' @ itoa status @ '': '' @ trim_space raw))
               else case and_then (he_whole e raw) read of
                 Inl err \<Rightarrow> fail (ErrWrap ''llm: could not read the provider's response: '' err)
               | Inr x \<Rightarrow> ret x))"

text \<open>An answer: its text, and whether it was cut off, in which case the text is given as it came.\<close>

type_synonym completion = "(string \<times> go_error option) res"

definition completed :: "bool \<Rightarrow> string \<Rightarrow> string \<times> go_error option" where
  "completed cut_off t = (if cut_off then (t, Some ErrTruncated) else (trim_space t, None))"

definition vmessage :: "string \<Rightarrow> jvalue \<Rightarrow> jvalue" where
  "vmessage role content = VObj [(''role'', VStr role), (''content'', content)]"

definition openai_body :: "model_config \<Rightarrow> string \<Rightarrow> string \<Rightarrow> llm_options \<Rightarrow> jvalue" where
  "openai_body cfg system user opts =
    VObj ([(''model'', VStr (mc_Model cfg)), (''max_tokens'', VNum (of_int (lo_MaxTokens opts))),
           (''temperature'', VNum (lo_Temperature opts)),
           (''messages'', VArr [vmessage ''system'' (VStr system), vmessage ''user'' (VStr user)])]
          @ (if lo_JSON opts then [(''response_format'', VObj [(''type'', VStr ''json_object'')])] else []))"

definition openai_choice :: "jfields \<Rightarrow> (string \<times> string) res" where
  "openai_choice c =
    and_then (struct_field ''message'' c) (\<lambda>m.
    and_then (text_field ''content'' m) (\<lambda>content.
    and_then (text_field ''finish_reason'' c) (\<lambda>finish. Inr (content, finish))))"

definition openai_choices :: "jvalue \<Rightarrow> (string \<times> string) list res" where
  "openai_choices v = and_then (struct_of v) (\<lambda>fs. and_then (structs_field ''choices'' fs) (every openai_choice))"

definition bearer :: "string \<Rightarrow> http_req \<Rightarrow> http_req" where
  "bearer key req = (if key \<noteq> [] then with_header ''Authorization'' (''Bearer '' @ key) req else req)"

definition completeOpenAI ::
  "http_env \<Rightarrow> model_config \<Rightarrow> string \<Rightarrow> string \<Rightarrow> llm_options \<Rightarrow> (string \<times> go_error option) call" where
  "completeOpenAI e cfg system user opts =
    bnd (lift (newRequest e (lo_Timeout opts) (endpoint (mc_BaseURL cfg) ''chat/completions'')
                 (openai_body cfg system user opts) (mc_Headers cfg))) (\<lambda>req.
    bnd (llm_do e (bearer (mc_Key cfg) req) openai_choices) (\<lambda>choices.
    case choices of
      [] \<Rightarrow> fail (Err ''llm: the provider returned no completion'')
    | (content, finish) # _ \<Rightarrow> ret (completed (finish = ''length'') content)))"

definition anthropic_body :: "model_config \<Rightarrow> string \<Rightarrow> string \<Rightarrow> llm_options \<Rightarrow> jvalue" where
  "anthropic_body cfg system user opts =
    VObj ([(''model'', VStr (mc_Model cfg)), (''max_tokens'', VNum (of_int (lo_MaxTokens opts))),
           (''system'', VStr system), (''messages'', VArr [vmessage ''user'' (VStr user)])]
          @ (if 0 < lo_Temperature opts then [(''temperature'', VNum (lo_Temperature opts))] else []))"

definition anthropic_key :: "string \<Rightarrow> http_req \<Rightarrow> http_req" where
  "anthropic_key key req =
    with_header ''anthropic-version'' ''2023-06-01'' (if key \<noteq> [] then with_header ''x-api-key'' key req else req)"

definition typed_text :: "jfields \<Rightarrow> (string \<times> string) res" where
  "typed_text b = and_then (text_field ''type'' b) (\<lambda>ty. and_then (text_field ''text'' b) (\<lambda>tx. Inr (ty, tx)))"

definition anthropic_answer :: "jvalue \<Rightarrow> ((string \<times> string) list \<times> string) res" where
  "anthropic_answer v =
    and_then (struct_of v) (\<lambda>fs.
    and_then (and_then (structs_field ''content'' fs) (every typed_text)) (\<lambda>blocks.
    and_then (text_field ''stop_reason'' fs) (\<lambda>stop. Inr (blocks, stop))))"

definition no_text :: go_error where
  "no_text = Err ''llm: the provider returned no text''"

definition completeAnthropic ::
  "http_env \<Rightarrow> model_config \<Rightarrow> string \<Rightarrow> string \<Rightarrow> llm_options \<Rightarrow> (string \<times> go_error option) call" where
  "completeAnthropic e cfg system user opts =
    bnd (lift (newRequest e (lo_Timeout opts) (endpoint (mc_BaseURL cfg) ''messages'')
                 (anthropic_body cfg system user opts) (mc_Headers cfg))) (\<lambda>req.
    bnd (llm_do e (anthropic_key (mc_Key cfg) req) anthropic_answer) (\<lambda>(blocks, stop).
    let t = concat (map snd (filter (\<lambda>b. fst b = ''text'') blocks)) in
    if t = [] then fail no_text else ret (completed (stop = ''max_tokens'') t)))"

definition google_parts :: "string \<Rightarrow> jvalue" where
  "google_parts t = VArr [VObj [(''text'', VStr t)]]"

definition google_body :: "string \<Rightarrow> string \<Rightarrow> llm_options \<Rightarrow> jvalue" where
  "google_body system user opts =
    VObj ([(''contents'', VArr [VObj [(''role'', VStr ''user''), (''parts'', google_parts user)]]),
           (''generationConfig'', VObj ([(''maxOutputTokens'', VNum (of_int (lo_MaxTokens opts))),
              (''temperature'', VNum (lo_Temperature opts))]
              @ (if lo_JSON opts then [(''responseMimeType'', VStr ''application/json'')] else [])))]
          @ (if system \<noteq> [] then [(''systemInstruction'', VObj [(''parts'', google_parts system)])] else []))"

definition google_url :: "model_config \<Rightarrow> string" where
  "google_url cfg =
    endpoint (mc_BaseURL cfg) (''models/'' @ mc_Model cfg @ '':generateContent'')
    @ (if mc_Key cfg \<noteq> [] then ''?key='' @ mc_Key cfg else [])"

definition google_candidate :: "jfields \<Rightarrow> (string list \<times> string) res" where
  "google_candidate c =
    and_then (struct_field ''content'' c) (\<lambda>content.
    and_then (and_then (structs_field ''parts'' content) (every (text_field ''text''))) (\<lambda>parts.
    and_then (text_field ''finishReason'' c) (\<lambda>finish. Inr (parts, finish))))"

definition google_candidates :: "jvalue \<Rightarrow> (string list \<times> string) list res" where
  "google_candidates v = and_then (struct_of v) (\<lambda>fs. and_then (structs_field ''candidates'' fs) (every google_candidate))"

definition completeGoogle ::
  "http_env \<Rightarrow> model_config \<Rightarrow> string \<Rightarrow> string \<Rightarrow> llm_options \<Rightarrow> (string \<times> go_error option) call" where
  "completeGoogle e cfg system user opts =
    bnd (lift (newRequest e (lo_Timeout opts) (google_url cfg) (google_body system user opts) (mc_Headers cfg))) (\<lambda>req.
    bnd (llm_do e req google_candidates) (\<lambda>candidates.
    case candidates of
      [] \<Rightarrow> fail (Err ''llm: the provider returned no completion'')
    | (parts, finish) # _ \<Rightarrow>
        let t = concat parts in
        if t = [] then fail no_text else ret (completed (finish = ''MAX_TOKENS'') t)))"

definition defaulted :: "llm_options \<Rightarrow> llm_options" where
  "defaulted opts =
    opts\<lparr>lo_MaxTokens := (if lo_MaxTokens opts \<le> 0 then 8000 else lo_MaxTokens opts),
         lo_Timeout := (if lo_Timeout opts \<le> 0 then 180 * 1000000000 else lo_Timeout opts)\<rparr>"

definition Complete ::
  "http_env \<Rightarrow> model_config \<Rightarrow> string \<Rightarrow> string \<Rightarrow> llm_options \<Rightarrow> (string \<times> go_error option) call" where
  "Complete e cfg system user opts0 =
    (if trim_space (mc_BaseURL cfg) = [] \<or> trim_space (mc_Model cfg) = [] then fail ErrNotConfigured
     else let opts = defaulted opts0; api = mc_API cfg in
       if api = ''anthropic-messages'' then completeAnthropic e cfg system user opts
       else if api = ''google-generative-ai'' then completeGoogle e cfg system user opts
       else if api \<in> {''openai-completions'', ''openai-responses'', ''azure-openai-responses'', ''custom'', []}
       then completeOpenAI e cfg system user opts
       else fail (ErrNote ErrUnsupported_llm ('': '' @ go_quote api)))"

section \<open>Questions about a screenshot\<close>

definition ErrUnsupported_vision :: go_error where
  "ErrUnsupported_vision = Err ''llmvision: provider api not supported for vision''"

definition guidance :: string where
  "guidance = '' Answer concisely based only on what is visible.''"

definition vision_endpoint :: "string \<Rightarrow> string \<Rightarrow> string" where
  "vision_endpoint baseURL path = trim_slashes baseURL @ ''/'' @ path"

definition vision_timeout :: int where
  "vision_timeout = 30 * 1000000000"

definition dataURI :: "string \<Rightarrow> string" where
  "dataURI png = ''data:image/png;base64,'' @ std_encode (bytes_of png)"

text \<open>A body of which reading fails is an error of the decoder; an error status is reported with what could be read.\<close>

definition vision_do :: "http_env \<Rightarrow> http_req \<Rightarrow> (jvalue \<Rightarrow> 'a res) \<Rightarrow> 'a call" where
  "vision_do e req read =
    bnd (send_request e req) (\<lambda>(status, body).
      if 300 \<le> status
      then fail (Err (''llmvision: provider returned '' @ itoa status @ '': ''
             @ trim_space (case body of Inl _ \<Rightarrow> [] | Inr b \<Rightarrow> b)))
      else lift (and_then body (\<lambda>b. and_then (he_first e b) read)))"

definition picture_question :: "jvalue \<Rightarrow> string \<Rightarrow> model_config \<Rightarrow> jvalue" where
  "picture_question picture question cfg =
    VObj [(''model'', VStr (mc_Model cfg)), (''max_tokens'', VNum 300),
          (''messages'', VArr [vmessage ''user'' (VArr
             [VObj [(''type'', VStr ''text''), (''text'', VStr (question @ guidance))], picture])])]"

definition openai_content :: "jfields \<Rightarrow> string res" where
  "openai_content c = and_then (struct_field ''message'' c) (text_field ''content'')"

definition openai_contents :: "jvalue \<Rightarrow> string list res" where
  "openai_contents v = and_then (struct_of v) (\<lambda>fs. and_then (structs_field ''choices'' fs) (every openai_content))"

definition queryOpenAI :: "http_env \<Rightarrow> model_config \<Rightarrow> string \<Rightarrow> string \<Rightarrow> string call" where
  "queryOpenAI e cfg png question =
    (let picture = VObj [(''type'', VStr ''image_url''), (''image_url'', VObj [(''url'', VStr (dataURI png))])] in
    bnd (lift (newRequest e vision_timeout (vision_endpoint (mc_BaseURL cfg) ''chat/completions'')
                 (picture_question picture question cfg) (mc_Headers cfg))) (\<lambda>req.
    bnd (vision_do e (bearer (mc_Key cfg) req) openai_contents) (\<lambda>contents.
    case contents of [] \<Rightarrow> fail (Err ''llmvision: empty completion'') | content # _ \<Rightarrow> ret (trim_space content))))"

definition anthropic_blocks :: "jvalue \<Rightarrow> (string \<times> string) list res" where
  "anthropic_blocks v = and_then (struct_of v) (\<lambda>fs. and_then (structs_field ''content'' fs) (every typed_text))"

definition queryAnthropic :: "http_env \<Rightarrow> model_config \<Rightarrow> string \<Rightarrow> string \<Rightarrow> string call" where
  "queryAnthropic e cfg png question =
    (let picture = VObj [(''type'', VStr ''image''), (''source'', VObj [(''type'', VStr ''base64''),
                      (''media_type'', VStr ''image/png''), (''data'', VStr (std_encode (bytes_of png)))])] in
    bnd (lift (newRequest e vision_timeout (vision_endpoint (mc_BaseURL cfg) ''messages'')
                 (picture_question picture question cfg) (mc_Headers cfg))) (\<lambda>req.
    bnd (vision_do e (anthropic_key (mc_Key cfg) req) anthropic_blocks) (\<lambda>blocks.
    case find (\<lambda>b. fst b = ''text'' \<and> trim_space (snd b) \<noteq> []) blocks of
      None \<Rightarrow> fail (Err ''llmvision: empty message content'')
    | Some b \<Rightarrow> ret (trim_space (snd b)))))"

definition QueryVision :: "http_env \<Rightarrow> model_config \<Rightarrow> string \<Rightarrow> string \<Rightarrow> string call" where
  "QueryVision e cfg png question =
    (if mc_BaseURL cfg = [] \<or> mc_Model cfg = [] then fail ErrUnsupported_vision
     else if mc_API cfg = ''anthropic-messages'' then queryAnthropic e cfg png question
     else if mc_API cfg \<in> {''openai-completions'', ''openai-responses'', ''custom'', []}
     then queryOpenAI e cfg png question
     else fail ErrUnsupported_vision)"

section \<open>The vision sidecar\<close>

record vision_client =
  vc_baseURL :: string

definition NewVision :: "string \<Rightarrow> vision_client" where
  "NewVision baseURL = \<lparr>vc_baseURL = trim_slashes (if baseURL = [] then ''http://127.0.0.1:8791'' else baseURL)\<rparr>"

definition sidecar_timeout :: int where
  "sidecar_timeout = 90 * 1000000000"

definition vision_post :: "http_env \<Rightarrow> vision_client \<Rightarrow> string \<Rightarrow> jvalue \<Rightarrow> (jvalue \<Rightarrow> 'a res) \<Rightarrow> 'a call" where
  "vision_post e c path body read =
    bnd (lift (newRequest e sidecar_timeout (vc_baseURL c @ path) body [])) (\<lambda>req.
    bnd (attempt (send_request e req)) (\<lambda>r.
      case r of
        Inl err \<Rightarrow> fail (ErrWrap (''vision '' @ path @ '': '') err)
      | Inr (status, answer) \<Rightarrow>
          if status \<noteq> 200
          then fail (Err (''vision '' @ path @ '': status '' @ itoa status @ '': ''
                 @ trim_space (case answer of Inl _ \<Rightarrow> [] | Inr b \<Rightarrow> take 512 b)))
          else lift (and_then answer (\<lambda>b. and_then (he_first e b) read))))"

definition picture_text :: "string \<Rightarrow> string \<Rightarrow> string \<Rightarrow> jvalue" where
  "picture_text png k v = VObj [(''image'', VStr (std_encode (bytes_of png))), (k, VStr v)]"

definition point_of :: "jfields \<Rightarrow> (rat \<times> rat) res" where
  "point_of p = and_then (number_field ''x'' p) (\<lambda>x. and_then (number_field ''y'' p) (\<lambda>y. Inr (x, y)))"

definition vision_Point :: "http_env \<Rightarrow> vision_client \<Rightarrow> string \<Rightarrow> string \<Rightarrow> (rat \<times> rat) list call" where
  "vision_Point e c png label =
    vision_post e c ''/point'' (picture_text png ''target'' label)
      (\<lambda>v. and_then (struct_of v) (\<lambda>fs. and_then (structs_field ''points'' fs) (every point_of)))"

definition vision_Locate :: "http_env \<Rightarrow> vision_client \<Rightarrow> string \<Rightarrow> string \<Rightarrow> (rat \<times> rat) list call" where
  "vision_Locate e c png label = vision_Point e c png (trim_space label)"

definition vision_Query :: "http_env \<Rightarrow> vision_client \<Rightarrow> string \<Rightarrow> string \<Rightarrow> string call" where
  "vision_Query e c png question =
    vision_post e c ''/query'' (picture_text png ''question'' question)
      (\<lambda>v. and_then (struct_of v) (text_field ''answer''))"

text \<open>The request of a ping has no body, and its status line is reported as it came.\<close>

definition vision_Ping :: "http_env \<Rightarrow> (int \<Rightarrow> string) \<Rightarrow> vision_client \<Rightarrow> unit call" where
  "vision_Ping e status_line c =
    (let url = vc_baseURL c @ ''/healthz'' in
     case he_bad_url e url of
       Some err \<Rightarrow> fail err
     | None \<Rightarrow>
         bnd (send_request e \<lparr>rq_method = ''GET'', rq_url = url, rq_headers = [], rq_body = VNull,
                rq_timeout = sidecar_timeout\<rparr>) (\<lambda>(status, _).
         if status \<noteq> 200 then fail (Err (''vision sidecar returned '' @ status_line status)) else ret ()))"

text \<open>A point is scaled to the pixels of a screenshot, towards zero.\<close>

definition Pixels :: "rat \<times> rat \<Rightarrow> int \<Rightarrow> int \<Rightarrow> int \<times> int" where
  "Pixels p width height =
    (let cut_off = (\<lambda>x. if 0 \<le> x then \<lfloor>x\<rfloor> else \<lceil>x\<rceil>) in
     (cut_off (fst p * of_int width), cut_off (snd p * of_int height)))"

section \<open>What is sent, and what is believed\<close>

lemma llm_do_sent: "snd (llm_do e req read sent) = sent @ [req]"
  by (auto simp: llm_do_def bnd_def attempt_def send_request_def fail_apply ret_apply Let_def split: sum.split prod.split)

lemma llm_do_result:
  assumes "fst (llm_do e req read sent) = Inr x"
  obtains status body v where "he_do e sent req = Inr (status, Inr body)" "status < 300"
    "he_whole e (take 8388608 body) = Inr v" "read v = Inr x"
  using assms
  by (auto simp: llm_do_def bnd_def attempt_def send_request_def fail_apply ret_apply Let_def and_then_def
      split: sum.splits prod.splits if_splits)

text \<open>Which answers a provider marks as cut off at the limit.\<close>

definition cut_short :: "string \<Rightarrow> jvalue \<Rightarrow> bool" where
  "cut_short api v =
    (if api = ''anthropic-messages'' then (\<exists>bs. anthropic_answer v = Inr (bs, ''max_tokens''))
     else if api = ''google-generative-ai'' then (\<exists>ps cs. google_candidates v = Inr ((ps, ''MAX_TOKENS'') # cs))
     else (\<exists>t cs. openai_choices v = Inr ((t, ''length'') # cs)))"

definition believed :: "http_env \<Rightarrow> string \<Rightarrow> http_req list \<Rightarrow> http_req \<Rightarrow> bool" where
  "believed e api sent req =
    (\<exists>status body v. he_do e sent req = Inr (status, Inr body) \<and> status < 300
       \<and> he_whole e (take 8388608 body) = Inr v \<and> \<not> cut_short api v)"

text \<open>One provider: a request is sent under the address that was configured or none is, and a result without an error was believed.\<close>

definition honest :: "http_env \<Rightarrow> string \<Rightarrow> string \<Rightarrow> int \<Rightarrow> http_req list \<Rightarrow> (string \<times> go_error option) call \<Rightarrow> bool" where
  "honest e api base timeout sent m =
    ((snd (m sent) = sent \<and> \<not> is_ok (fst (m sent)))
     \<or> (\<exists>req. snd (m sent) = sent @ [req] \<and> has_prefix base (rq_url req) \<and> rq_timeout req = timeout
          \<and> (\<forall>t. fst (m sent) = Inr (t, None) \<longrightarrow> believed e api sent req)))"

lemma newRequest_ok:
  "newRequest e timeout url body hs = Inr req \<Longrightarrow> rq_url req = url \<and> rq_timeout req = timeout"
  by (auto simp: newRequest_def split: option.splits)

lemma with_header_parts [simp]:
  "rq_url (with_header k v req) = rq_url req" "rq_timeout (with_header k v req) = rq_timeout req"
  by (simp_all add: with_header_def)

lemma key_parts [simp]:
  "rq_url (bearer key req) = rq_url req" "rq_timeout (bearer key req) = rq_timeout req"
  "rq_url (anthropic_key key req) = rq_url req" "rq_timeout (anthropic_key key req) = rq_timeout req"
  by (simp_all add: bearer_def anthropic_key_def)

lemma honest_request:
  assumes "has_prefix base url" "\<And>req. rq_url (auth req) = rq_url req" "\<And>req. rq_timeout (auth req) = rq_timeout req"
    and "\<And>x log. snd (f x log) = log"
    and "\<And>x t v log. fst (f x log) = Inr (t, None) \<Longrightarrow> read v = Inr x \<Longrightarrow> \<not> cut_short api v"
  shows "honest e api base timeout sent
    (bnd (lift (newRequest e timeout url body hs)) (\<lambda>req. bnd (llm_do e (auth req) read) f))"
proof (cases "newRequest e timeout url body hs")
  case (Inl err)
  then show ?thesis by (simp add: honest_def bnd_def lift_def)
next
  case (Inr req)
  from newRequest_ok[OF Inr] have u: "has_prefix base (rq_url (auth req))" "rq_timeout (auth req) = timeout"
    using assms(1-3) by simp_all
  define m where "m = llm_do e (auth req) read sent"
  have s: "snd m = sent @ [auth req]" unfolding m_def by (rule llm_do_sent)
  show ?thesis
  proof (cases "fst m")
    case (Inl err)
    then have "bnd (llm_do e (auth req) read) f sent = (Inl err, sent @ [auth req])"
      using s by (cases m) (simp add: bnd_def m_def)
    then show ?thesis using Inr u by (auto simp: honest_def bnd_def lift_def)
  next
    case (Inr x)
    then have f: "bnd (llm_do e (auth req) read) f sent = f x (sent @ [auth req])"
      using s by (cases m) (simp add: bnd_def m_def)
    obtain status content v where b: "he_do e sent (auth req) = Inr (status, Inr content)" "status < 300"
      "he_whole e (take 8388608 content) = Inr v" "read v = Inr x"
      using llm_do_result Inr unfolding m_def by metis
    have "fst (f x (sent @ [auth req])) = Inr (t, None) \<longrightarrow> believed e api sent (auth req)" for t
      using assms(5) b unfolding believed_def by blast
    then show ?thesis using \<open>newRequest e timeout url body hs = Inr req\<close> u f assms(4)
      by (auto simp: honest_def bnd_def[of "lift _"] lift_def)
  qed
qed

lemma endpoint_prefix: "has_prefix (trim_slashes (trim_space base) @ ''/'') (endpoint base path @ rest)"
  by (simp add: endpoint_def has_prefix_iff)

lemma completed_ok: "completed c t = (s, None) \<Longrightarrow> \<not> c"
  by (auto simp: completed_def split: if_splits)

lemma completeOpenAI_honest:
  assumes "api \<noteq> ''anthropic-messages''" "api \<noteq> ''google-generative-ai''"
  shows "honest e api (trim_slashes (trim_space (mc_BaseURL cfg)) @ ''/'') (lo_Timeout opts) sent (completeOpenAI e cfg system user opts)"
  unfolding completeOpenAI_def
proof (rule honest_request)
  show "has_prefix (trim_slashes (trim_space (mc_BaseURL cfg)) @ ''/'') (endpoint (mc_BaseURL cfg) ''chat/completions'')"
    using endpoint_prefix[of _ _ "[]"] by simp
qed (auto simp: fail_apply ret_apply cut_short_def assms dest!: completed_ok split: list.splits prod.splits)

lemma completeAnthropic_honest:
  "honest e ''anthropic-messages'' (trim_slashes (trim_space (mc_BaseURL cfg)) @ ''/'') (lo_Timeout opts) sent
    (completeAnthropic e cfg system user opts)"
  unfolding completeAnthropic_def
proof (rule honest_request)
  show "has_prefix (trim_slashes (trim_space (mc_BaseURL cfg)) @ ''/'') (endpoint (mc_BaseURL cfg) ''messages'')"
    using endpoint_prefix[of _ _ "[]"] by simp
qed (auto simp: fail_apply ret_apply cut_short_def Let_def dest!: completed_ok split: prod.splits if_splits)

lemma completeGoogle_honest:
  "honest e ''google-generative-ai'' (trim_slashes (trim_space (mc_BaseURL cfg)) @ ''/'') (lo_Timeout opts) sent
    (completeGoogle e cfg system user opts)"
proof -
  have "honest e ''google-generative-ai'' (trim_slashes (trim_space (mc_BaseURL cfg)) @ ''/'') (lo_Timeout opts) sent
    (bnd (lift (newRequest e (lo_Timeout opts) (google_url cfg) (google_body system user opts) (mc_Headers cfg))) (\<lambda>req.
      bnd (llm_do e (id req) google_candidates) (\<lambda>candidates.
      case candidates of
        [] \<Rightarrow> fail (Err ''llm: the provider returned no completion'')
      | (parts, finish) # _ \<Rightarrow>
          let t = concat parts in
          if t = [] then fail no_text else ret (completed (finish = ''MAX_TOKENS'') t))))"
  proof (rule honest_request)
    show "has_prefix (trim_slashes (trim_space (mc_BaseURL cfg)) @ ''/'') (google_url cfg)"
      by (simp add: google_url_def endpoint_prefix)
  qed (auto simp: fail_apply ret_apply cut_short_def Let_def dest!: completed_ok split: list.splits prod.splits if_splits)
  then show ?thesis by (simp add: completeGoogle_def)
qed


text \<open>A provider that answers, and one that stops at its limit.\<close>

definition answering :: "string \<Rightarrow> http_env" where
  "answering finish =
    \<lparr>he_bad_url = (\<lambda>_. None), he_do = (\<lambda>_ _. Inr (200, Inr ''{}'')),
     he_whole = (\<lambda>_. Inr (VObj [(''choices'', VArr [VObj [(''message'', VObj [(''content'', VStr '' [] '')]),
        (''finish_reason'', VStr finish)]])])),
     he_first = (\<lambda>_. Inr VNull)\<rparr>"

definition sample_model :: model_config where
  "sample_model =
    \<lparr>mc_API = [], mc_BaseURL = ''https://models.example/v1/'', mc_Model = ''m'', mc_Key = ''k'', mc_Headers = []\<rparr>"

definition sample_options :: llm_options where
  "sample_options = \<lparr>lo_MaxTokens = 0, lo_Temperature = 0, lo_JSON = True, lo_Timeout = 0\<rparr>"


text \<open>The key of the second provider is a part of the address, which the errors of the network name.\<close>

lemma google_key_in_address: "mc_Key cfg \<noteq> [] \<Longrightarrow> has_suffix (''?key='' @ mc_Key cfg) (google_url cfg)"
  by (simp add: google_url_def has_suffix_def has_prefix_iff)

end
