(* ===== verification/Host_Checks.thy ===== *)
theory Host_Checks
  imports Orchestrator Model_Clients
begin

text \<open>
  What the orchestrator finds out about its host (src/backend/internal/orchestrator/service.go): the prerequisites of virtual devices, the
  checks of the disk and of the vision sidecar, the memory, the wait for the console, the identifier that the operator gives a
  device, and the place of the download cache.  Files, the search path, statfs and HTTP are parameters.
\<close>

section \<open>The host\<close>

text \<open>
  Where a program is found (or not), the mode of a file, its content, and the free and total bytes of the volume of a path; whether
  statfs succeeds.  Numbers of bytes are below 2 ^ 64.
\<close>

record probe =
  pb_name :: string
  pb_cpus :: int
  pb_look :: "string \<Rightarrow> string option"
  pb_stat :: "string \<Rightarrow> string res"
  pb_file :: "string \<Rightarrow> string res"
  pb_disk :: "string \<Rightarrow> (nat \<times> nat) option"

text \<open>A prerequisite with its remedy.\<close>

record finding = Prerequisite +
  pre_Remedy :: string

definition met :: "string \<Rightarrow> string \<Rightarrow> finding" where
  "met name detail = \<lparr>pre_Name = name, pre_OK = True, pre_Detail = detail, pre_Remedy = []\<rparr>"

definition unmet :: "string \<Rightarrow> string \<Rightarrow> string \<Rightarrow> finding" where
  "unmet name detail remedy = \<lparr>pre_Name = name, pre_OK = False, pre_Detail = detail, pre_Remedy = remedy\<rparr>"

definition pathCheck :: "probe \<Rightarrow> string \<Rightarrow> string \<Rightarrow> finding" where
  "pathCheck p cmd remedy =
    (case pb_look p cmd of None \<Rightarrow> unmet cmd ''not found on PATH'' remedy | Some path \<Rightarrow> met cmd path)"

definition kvmCheck :: "probe \<Rightarrow> finding" where
  "kvmCheck p =
    (case pb_stat p ''/dev/kvm'' of
       Inl err \<Rightarrow> unmet ''/dev/kvm'' (err_text err)
                   ''Enable KVM or nested virtualization and grant the service user access.''
     | Inr mode \<Rightarrow> met ''/dev/kvm'' mode)"

definition virtualizationCheck :: "probe \<Rightarrow> finding" where
  "virtualizationCheck p =
    (case pb_file p ''/proc/cpuinfo'' of
       Inl err \<Rightarrow> unmet ''cpu-virtualization'' (err_text err)
                   ''Run on a Linux host with hardware virtualization enabled.''
     | Inr t \<Rightarrow>
         if contains ''vmx'' t \<or> contains ''svm'' t
         then met ''cpu-virtualization'' ''hardware virtualization (vmx/svm) available''
         else unmet ''cpu-virtualization'' ''vmx/svm flag not present''
                ''Enable nested virtualization for this VM/host.'')"

definition file_says :: "probe \<Rightarrow> string \<Rightarrow> string \<Rightarrow> bool" where
  "file_says p path v = (case pb_file p path of Inl _ \<Rightarrow> False | Inr t \<Rightarrow> trim_space t = v)"

definition namespaces_remedy :: string where
  "namespaces_remedy =
    ''Set kernel.apparmor_restrict_unprivileged_userns=0 (and kernel.unprivileged_userns_clone=1) via /etc/sysctl.d, then `sudo sysctl --system`.''"

definition userNamespaceCheck :: "probe \<Rightarrow> finding" where
  "userNamespaceCheck p =
    (if file_says p ''/proc/sys/kernel/apparmor_restrict_unprivileged_userns'' ''1''
     then unmet ''user-namespaces'' ''apparmor_restrict_unprivileged_userns=1 blocks crosvm sandbox'' namespaces_remedy
     else if file_says p ''/proc/sys/kernel/unprivileged_userns_clone'' ''0''
     then unmet ''user-namespaces'' ''unprivileged_userns_clone=0 blocks crosvm sandbox'' namespaces_remedy
     else met ''user-namespaces'' ''unprivileged user namespaces permitted'')"

definition prerequisites :: "probe \<Rightarrow> finding list" where
  "prerequisites p =
    [pathCheck p ''cvd'' ''Install Google Cuttlefish host tools.'',
     pathCheck p ''adb'' ''Install Android platform tools.'',
     kvmCheck p, virtualizationCheck p, userNamespaceCheck p]"

section \<open>Memory and disk\<close>

text \<open>strconv.ParseUint, whose error is dropped: 0 for a text that is not a number, the largest number for one out of range.\<close>

definition parse_uint :: "string \<Rightarrow> nat" where
  "parse_uint s =
    (if s = [] then 0
     else case digits_val 0 s of None \<Rightarrow> 0 | Some n \<Rightarrow> if n < 2 ^ 64 then n else 2 ^ 64 - 1)"

fun mem_total :: "string list \<Rightarrow> nat" where
  "mem_total [] = 0"
| "mem_total (l # ls) =
    (if has_prefix ''MemTotal:'' l \<and> 2 \<le> length (Go_Base.fields l)
     then parse_uint (Go_Base.fields l ! 1) * 1024 mod 2 ^ 64 else mem_total ls)"

definition memoryBytes :: "probe \<Rightarrow> nat" where
  "memoryBytes p =
    (case pb_file p ''/proc/meminfo'' of Inl _ \<Rightarrow> 0 | Inr t \<Rightarrow> mem_total (split_char (CHR 0x0A) t))"

definition imageRootPath :: "env \<Rightarrow> string" where
  "imageRootPath e =
    (let root = trim_space (env_Getenv e ''OPENCUTTLES_IMAGE_ROOT'')
     in if root = [] then ''/var/lib/opencuttles/images'' else root)"

definition diskFreeBytes :: "env \<Rightarrow> probe \<Rightarrow> nat" where
  "diskFreeBytes e p = (case pb_disk p (imageRootPath e) of None \<Rightarrow> 0 | Some (free, _) \<Rightarrow> free)"

text \<open>Numbers are printed with one decimal, or with none, rounded to the nearest, and to the even one between two.\<close>

definition round_even :: "rat \<Rightarrow> int" where
  "round_even x =
    (let n = \<lfloor>x\<rfloor>; d = x - of_int n
     in if d < 1 / 2 then n else if 1 / 2 < d then n + 1 else if even n then n else n + 1)"

definition decimal_1 :: "rat \<Rightarrow> string" where
  "decimal_1 x = (let n = round_even (10 * x) in itoa (n div 10) @ ''.'' @ itoa (n mod 10))"

definition free_percent :: "nat \<Rightarrow> nat \<Rightarrow> rat" where
  "free_percent free total_bytes = of_nat free / of_nat total_bytes * 100"

definition disk_message :: "nat \<Rightarrow> nat \<Rightarrow> string \<Rightarrow> string" where
  "disk_message free total_bytes root_path =
    decimal_1 (of_nat free / 2 ^ 30) @ '' GiB free of '' @ decimal_1 (of_nat total_bytes / 2 ^ 30) @ '' GiB (''
    @ itoa (round_even (free_percent free total_bytes)) @ ''%) on '' @ root_path"

definition diskCheck :: "env \<Rightarrow> probe \<Rightarrow> HealthCheck \<times> bool" where
  "diskCheck e p =
    (let root_path = imageRootPath e in
     case pb_disk p root_path of
       None \<Rightarrow> no_check
     | Some (free, total_bytes) \<Rightarrow>
         if total_bytes = 0 then no_check
         else let message = disk_message free total_bytes root_path in
           if free_percent free total_bytes < 10
           then (\<lparr>hc_Name = ''disk_space'', hc_Status = ''failed'',
                   hc_Message = message @ '' '' @ em_dash @ '' delete unused images or prune artifacts''\<rparr>, True)
           else (\<lparr>hc_Name = ''disk_space'', hc_Status = ''ok'', hc_Message = message\<rparr>, False))"

section \<open>The vision sidecar\<close>

definition vision_of_env :: "env \<Rightarrow> vision_client" where
  "vision_of_env e = NewVision (env_Getenv e ''OPENCUTTLES_VISION_URL'')"

definition vision_configured :: "env \<Rightarrow> bool" where
  "vision_configured e = (trim_space (env_Getenv e ''OPENCUTTLES_VISION_URL'') \<noteq> [])"

definition visionCheck :: "env \<Rightarrow> http_env \<Rightarrow> (int \<Rightarrow> string) \<Rightarrow> HealthCheck \<times> bool" where
  "visionCheck e h status_line =
    (if \<not> vision_configured e then no_check
     else let c = vision_of_env e in
       case fst (vision_Ping h status_line c []) of
         Inl err \<Rightarrow> (\<lparr>hc_Name = ''vision'', hc_Status = ''failed'',
             hc_Message = vc_baseURL c @ '' unreachable: '' @ err_text err @ '' '' @ em_dash
               @ '' agent tests cannot ground on screen content''\<rparr>, True)
       | Inr _ \<Rightarrow> (\<lparr>hc_Name = ''vision'', hc_Status = ''ok'', hc_Message = vc_baseURL c\<rparr>, False))"

section \<open>The report\<close>

record host_facts =
  hf_Name :: string
  hf_CPUCount :: int
  hf_MemoryBytes :: nat
  hf_DiskFreeBytes :: nat
  hf_Prerequisites :: "finding list"
  hf_UpdatedAt :: time

definition Host :: "env \<Rightarrow> probe \<Rightarrow> time \<Rightarrow> host_facts" where
  "Host e p now =
    \<lparr>hf_Name = pb_name p, hf_CPUCount = pb_cpus p, hf_MemoryBytes = memoryBytes p,
     hf_DiskFreeBytes = diskFreeBytes e p, hf_Prerequisites = prerequisites p, hf_UpdatedAt = now\<rparr>"

definition HostHealth ::
  "env \<Rightarrow> probe \<Rightarrow> http_env \<Rightarrow> (int \<Rightarrow> string) \<Rightarrow> time \<Rightarrow> go_error option \<Rightarrow> string \<times> HealthCheck list" where
  "HostHealth e p h status_line now ping =
    Health e ping (map Prerequisite.truncate (hf_Prerequisites (Host e p now))) (diskCheck e p) (visionCheck e h status_line)"

section \<open>The console of a device\<close>

definition operatorPort :: "env \<Rightarrow> int" where
  "operatorPort e =
    (case atoi (env_Getenv e ''OPENCUTTLES_OPERATOR_PORT'') of Some n \<Rightarrow> if 0 < n then n else 1443 | None \<Rightarrow> 1443)"

text \<open>A list of devices of the operator: identifier, group, port of adb; none when it does not answer.\<close>

type_synonym operator_device = "string \<times> string \<times> int"

definition discoverDeviceID :: "operator_device list option \<Rightarrow> Instance \<Rightarrow> string option" where
  "discoverDeviceID answer i =
    (case answer of
       None \<Rightarrow> None
     | Some ds \<Rightarrow>
         (case find (\<lambda>(k, g, port). port = inst_ADBPort i \<and> k \<noteq> []) ds of
            Some (k, _, _) \<Rightarrow> Some k
          | None \<Rightarrow>
              (case find (\<lambda>(k, g, port). g = groupName (instance_number i) \<and> k \<noteq> []) ds of
                 Some (k, _, _) \<Rightarrow> Some k
               | None \<Rightarrow> None)))"

text \<open>waitWebRTC: answers are the statuses of the polls before the deadline, none where a poll failed.\<close>

fun waitWebRTC :: "int option list \<Rightarrow> go_error option" where
  "waitWebRTC [] = Some (Err ''timed out waiting for Cuttlefish WebRTC endpoint'')"
| "waitWebRTC (a # as) = (case a of Some status \<Rightarrow> if status < 500 then None else waitWebRTC as | None \<Rightarrow> waitWebRTC as)"

section \<open>The download cache\<close>

text \<open>What is at /var/tmp/cvd; whether the cache directory can be made, the old link removed and a new one made.\<close>

datatype cache_link = NoLink | Directory | LinkTo string

definition ensureCvdCacheColocated :: "bool \<Rightarrow> bool \<Rightarrow> bool \<Rightarrow> string \<Rightarrow> cache_link \<Rightarrow> cache_link" where
  "ensureCvdCacheColocated made unlinks links cache l =
    (if \<not> made then l
     else let symlinked = (\<lambda>l. if l = NoLink \<and> links then LinkTo cache else l) in
       case l of
         Directory \<Rightarrow> Directory
       | LinkTo target_path \<Rightarrow> if target_path = cache then l else symlinked (if unlinks then NoLink else l)
       | NoLink \<Rightarrow> symlinked NoLink)"

section \<open>When the report is good\<close>

lemma prerequisites_ok:
  "list_all pre_OK (prerequisites p) \<longleftrightarrow>
     pb_look p ''cvd'' \<noteq> None \<and> pb_look p ''adb'' \<noteq> None \<and> is_ok (pb_stat p ''/dev/kvm'')
     \<and> (\<exists>t. pb_file p ''/proc/cpuinfo'' = Inr t \<and> (contains ''vmx'' t \<or> contains ''svm'' t))
     \<and> \<not> file_says p ''/proc/sys/kernel/apparmor_restrict_unprivileged_userns'' ''1''
     \<and> \<not> file_says p ''/proc/sys/kernel/unprivileged_userns_clone'' ''0''"
  by (auto simp: prerequisites_def pathCheck_def kvmCheck_def virtualizationCheck_def userNamespaceCheck_def met_def unmet_def
      is_ok_def split: option.split sum.split)

lemma diskCheck_cases:
  "(hc_Name (fst (diskCheck e p)) \<noteq> [] \<and> snd (diskCheck e p)) \<longleftrightarrow>
     (\<exists>free total_bytes. pb_disk p (imageRootPath e) = Some (free, total_bytes) \<and> 0 < total_bytes \<and> 10 * free < total_bytes)"
proof -
  have "free_percent free n < 10 \<longleftrightarrow> 10 * free < n" if "0 < n" for free n
  proof -
    have "free_percent free n < 10 \<longleftrightarrow> (of_nat free * 100 :: rat) < 10 * of_nat n"
      using that by (simp add: free_percent_def divide_less_eq)
    also have "\<dots> \<longleftrightarrow> (of_nat (10 * free) :: rat) < of_nat n" by simp
    finally show ?thesis by (simp only: of_nat_less_iff)
  qed
  then show ?thesis by (auto simp: diskCheck_def Let_def no_check_def split: option.split)
qed

lemma vision_Ping_ok:
  "is_ok (fst (vision_Ping h status_line c [])) \<longleftrightarrow>
     he_bad_url h (vc_baseURL c @ ''/healthz'') = None
     \<and> (\<exists>req body. rq_url req = vc_baseURL c @ ''/healthz'' \<and> he_do h [] req = Inr (200, body)
          \<and> req = \<lparr>rq_method = ''GET'', rq_url = vc_baseURL c @ ''/healthz'', rq_headers = [], rq_body = VNull,
                   rq_timeout = sidecar_timeout\<rparr>)"
  by (auto simp: vision_Ping_def Let_def bnd_def send_request_def fail_apply ret_apply is_ok_def
      split: option.split sum.split prod.split)

text \<open>C37: the health report is good exactly when virtual devices and agent tests can run: the database answers, the tools are
  found, KVM is there, the processor virtualizes, user namespaces are allowed, a tenth of the volume of the images is free (when
  that is known), and the vision sidecar, when one is configured, answers; otherwise the report says degraded, and names a
  check that failed.\<close>

theorem host_is_healthy:
  "(fst (HostHealth e p h status_line now ping) = ''ok'' \<longleftrightarrow>
     ping = None \<and> pb_look p ''cvd'' \<noteq> None \<and> pb_look p ''adb'' \<noteq> None \<and> is_ok (pb_stat p ''/dev/kvm'')
     \<and> (\<exists>t. pb_file p ''/proc/cpuinfo'' = Inr t \<and> (contains ''vmx'' t \<or> contains ''svm'' t))
     \<and> \<not> file_says p ''/proc/sys/kernel/apparmor_restrict_unprivileged_userns'' ''1''
     \<and> \<not> file_says p ''/proc/sys/kernel/unprivileged_userns_clone'' ''0''
     \<and> \<not> (\<exists>free total_bytes. pb_disk p (imageRootPath e) = Some (free, total_bytes) \<and> 0 < total_bytes \<and> 10 * free < total_bytes)
     \<and> \<not> (vision_configured e \<and> \<not> is_ok (fst (vision_Ping h status_line (vision_of_env e) []))))
   \<and> (fst (HostHealth e p h status_line now ping) = ''ok'' \<or> fst (HostHealth e p h status_line now ping) = ''degraded'')
   \<and> list_ex (\<lambda>c. hc_Status c = ''failed'') (snd (HostHealth e p h status_line now ping))
       = (fst (HostHealth e p h status_line now ping) = ''degraded'')"
proof -
  define pres where "pres = map Prerequisite.truncate (prerequisites p)"
  define disk where "disk = diskCheck e p"
  define vis where "vis = visionCheck e h status_line"
  have H: "HostHealth e p h status_line now ping = Health e ping pres disk vis"
    by (simp add: HostHealth_def Host_def pres_def disk_def vis_def)
  have flags: "snd disk = (hc_Status (fst disk) = ''failed'')" "snd vis = (hc_Status (fst vis) = ''failed'')"
    by (auto simp: disk_def diskCheck_def vis_def visionCheck_def no_check_def Let_def split: option.split sum.split)
  have pre: "list_ex (\<lambda>p. \<not> pre_OK p) pres \<longleftrightarrow> \<not> list_all pre_OK (prerequisites p)"
    by (simp add: pres_def list_ex_iff list_all_iff Prerequisite.truncate_def)
  have seen: "(hc_Name (fst vis) \<noteq> [] \<and> snd vis) \<longleftrightarrow>
      vision_configured e \<and> \<not> is_ok (fst (vision_Ping h status_line (vision_of_env e) []))"
    by (auto simp: vis_def visionCheck_def no_check_def Let_def is_ok_def split: sum.split)
  have ok: "(fst (Health e ping pres disk vis) = ''ok'') =
      (\<not> (ping \<noteq> None \<or> \<not> list_all pre_OK (prerequisites p)
        \<or> (\<exists>free total_bytes. pb_disk p (imageRootPath e) = Some (free, total_bytes) \<and> 0 < total_bytes \<and> 10 * free < total_bytes)
        \<or> vision_configured e \<and> \<not> is_ok (fst (vision_Ping h status_line (vision_of_env e) []))))"
    unfolding pre[symmetric] diskCheck_cases[of e p, folded disk_def, symmetric] seen[symmetric]
    by (simp add: Health_def Let_def)
  note d = Health_degraded_iff[OF flags prod.collapse[symmetric], of e ping pres]
  show ?thesis
  proof (intro conjI)
    show "fst (HostHealth e p h status_line now ping) = ''ok'' \<or> fst (HostHealth e p h status_line now ping) = ''degraded''"
      unfolding H using d by blast
    show "list_ex (\<lambda>c. hc_Status c = ''failed'') (snd (HostHealth e p h status_line now ping))
       = (fst (HostHealth e p h status_line now ping) = ''degraded'')"
      unfolding H using d by blast
  qed (simp only: H ok prerequisites_ok de_Morgan_disj not_not conj_assoc)
qed

end
