(* ===== verification/Spec2Isabelle.thy ===== *)
theory Spec2Isabelle
  imports Appliance Cycle_Termination Retention Catalog Runner_Dist Api_Answers Runner_Program Runner_Windows Runner_Identity
    Model_Clients Host_Checks
begin

text \<open>
  A model of OpenCuttles, an appliance that runs and tests Android devices: virtual ones (Cuttlefish),
  handsets reached through adb, and desktops reached through a tunnel that a runner program on them opens.  The server is a
  Go program under src/backend; this development models its packages under src/backend/internal
  (paths below are relative to it unless they start with src), what src/backend/cmd does
  to the database, and the runner program of the desktops, src/runner.

  THE PROGRAM AND ITS PARTS.
  The store keeps everything that lasts in one SQLite database.  The API authenticates a
  request, checks the permission of its route, and calls the services: the orchestrator (virtual devices), the
  control of devices (adb or the tunnel), the tests, cases, cycles and builds, the settings.  Beside the
  requests run: the background jobs of the orchestrator, the poll of the handsets, the scheduler of the
  cycles, the cycle runs (an agent outside the server drives a device through the tool server and reports its steps),
  the runs of plain tests, the deliveries to a webhook, the pruning of old artifacts, and the streams of the runners.
  They share the database, the tunnel and the bindings of the tool server; nothing else.

  THE THEORIES, from the bottom up.  Definitions keep the names of the code; a suffix or a prefix marks a
  name that another component or the library has.

  Go_Base: errors (go_error with its wrapping, text and errors.Is), results (error + value), strings as lists of bytes,
  the functions of strings, strconv, path that the code calls.  Go_Time: instants (nanoseconds since year 1) and the text
  under which the store keeps and compares them (formatTime).  Regex: the part of regexp that the code uses.
  Domain: the structs and constants of domain/models.go as records.

  Store_Core, Store_Instances, Store_Tests, Store_Auth (store/*.go): the record db has one list of
  rows for each table; an operation of the store is a function of the database, the instant and the random bytes that it reads,
  and gives a result and the next database.  The locale keyed_table states the laws of a table with a primary key and is
  interpreted for the tables of the schema.  Lemmas: the invariant of each group of tables (fleet_inv, tests_inv, auth_inv) and
  that every operation keeps it; what each operation does on every branch; joins, pages and sweeps.
  Database puts the groups together: one statement is a db_step, db_inv is their common invariant.

  Auth (auth/service.go): password hashing, bootstrap, login, sessions, roles; hmac and sha are parameters.
  Orchestrator (orchestrator/service.go): handlers that record an operation and a transitional state, and the jobs runStart,
  runDeploy, runStop, runDelete, Reconcile over the record world (database and log of commands) and the parameter host.
  Lemmas: what a handler refuses, that every job ends its operation and settles the device.  Host_Checks (the same file):
  the prerequisites, the disk, the vision sidecar and the health report over what the host answers.
  Device_Control (devicecontrol/*.go): every operation resolves its device, chooses the driver (the locale device_driver,
  interpreted for adb and for the tunnel) and sends requests that are kept in a trace; the rules sends_intros show of each
  operation that it concerns its own device only.  Device_Watch (devicewatch/*.go): one poll of the handsets.
  Runner_Hub (runnerhub/hub.go): sessions, calls and results of the tunnel, as a step relation whose steps are
  the critical sections of the code.
  Mcp (mcp/server.go): the tools of the agent over the record tools (database, bindings, trace); the rules acts_intros
  show which device a tool touches; the locale run_sink states what a reported step needs of the store.
  Cycle_Executor (scenario/cycle.go): one cycle run from Start to its verdict.  Cycle_Interleaving: many of them, with the
  tool calls of their agents, as a step relation with its invariants; the sequential execute is one of its behaviours.
  Cycle_Termination: a measure that bounds the steps of a run.  Test_Runner (scenario/runner.go): plain tests.
  Scheduler (scheduler/*.go): one tick; the locale schedule_store says what keeps the loop from spinning.
  Retention, Insights, Catalog, Secret_Box, Runner_Dist, Exchange (export and qmetry), Spec_Docs (specdoc): one theory for
  each of these packages.

  Api_Base, Api_Devices, Api_Settings, Api_Tests, Api_Control, Api (api/*.go, notify/notify.go): a handler is a function of the
  record server (database, tunnel, attempts of the limiter, files written and removed, requests to devices and to other
  hosts, jobs left to goroutines) that answers or stops with an error; andThen is its sequence.  Api has the table of all routes
  with their guards and serve, the answer to a request.  The locale effect collects how the parts of a
  handler move the database along a relation, and is interpreted for all statements and for those that only write the audit
  trail.  Api_Policy: who may change anything.  Api_Answers: the form of the answers.
  Appliance: the start of the program, and every part as a step on the database.

  Runner_Keys, Runner_Screens, Runner_Windows (src/runner/control_desktop_args.go, control_linux.go, control_darwin.go,
  control_windows.go): the desktops as records of operations over a log of what was done; the locale pointer
  states what a drag promises and is interpreted for X11 and macOS.  Runner_Program (src/runner/control.go, tunnel.go): the
  commands of the appliance, the installation of builds, and the whole way from the desktop driver to the screen.
  Runner_Identity (appliance.go, identity.go, install.go, main.go, agentstate.go under src/runner): address, pin, TLS, client identity,
  what a start does, the login entries, and the waits before connecting again.
  Model_Clients (llm, llmvision, vision): one request and one answer for each kind of provider.

  HOW THE CODE APPEARS.
  A struct is a record, a pointer that may be nil an option, nil and the empty slice are the same list.  Integers are int where
  they cannot overflow, and are wrapped at 64 bits where they can (clamp and scroll_gesture, cutoff, durations).  Strings are
  byte strings; functions that look at Unicode properties are written for ASCII, UTF-8 is decoded where the code counts runes
  (Spec_Docs, go_quote).  Every raise, early return and refused write is a branch; a Go panic that the code recovers
  from is a value too.  A loop over rows is a recursive function; loops that wait have a bound: host_polls, the
  number of polls before the deadline of a boot, and the polls of a desktop installation (de_polls).  The loops give up at
  the bound with the error of the code, so every value of the bound is a run of the code and no claim needs it to be large; all
  functions here are total.  One request, job, poll or tick reads the clock once, except where the code compares two readings
  (cases of a cycle run, runs that a tick starts).
  Where Go leaves an order open (maps, sort.Slice on equal keys) the order is a parameter and the claims hold for each.

  PARAMETERS, and what is asked of them.  Outside src, or not readable as code: the host and its commands, adb and the runner
  (what they answer may depend on all that was sent before), the agent, the vision models, HTTP clients, the
  parsers and printers of JSON, CSV, XLSX, XML, PDF, zip and multipart forms, cron lines and time zones, hmac, sha, gcm and
  X.509, the disk.  A claim that relies on one of them states it as a hypothesis (an HMAC has 32 bytes, opening
  a sealed text gives it back, a JSON row that was written is read back) and its witness gives a concrete instance.

  WHAT THE CLAIMS SAY.
  Of the whole: whatever is requested, nothing but the audit trail and the limiter changes unless the route permits it;
  the invariant of the database survives any order of all parts; every request is answered in form; the start leaves nothing half
  done.  Of the lifecycle: handlers guard their states, jobs end, deletes remove, and the health report is good exactly
  when devices and tests can run.  Of the runs: cycle runs exclude each other
  on a device, count each case once, end, and pass only with the evidence of their steps.  Of the devices: operations, tools and
  control requests reach their own device only; polls settle the handsets; results of the tunnel go to the device
  that was asked.  Of the runners: a gesture of the agent happens on the screen as asked, an installer runs only on a checked file,
  no button or key stays down, and a runner trusts only a verified or a pinned connection.  Of models: no answer that was cut off
  passes for a whole one.  Of accounts: sessions end when they should, there is one administrator.  Of data:
  exports are read back, imports are all or nothing, a stored key stays with its address, pins and login entries are read back,
  health reports do not depend on an order.  Lemmas beside them show where the code falls short of its comments, by concrete runs.

  NOT MODELLED, and why.
  runnerca and the TLS listener: X.509 of the standard library.  web: the embedded files of the frontend.  Opening and migrating the SQLite file, failures of
  the driver, scanning glue: the model starts from the schema that they leave.  Response headers (CORS, cookies beyond
  the session, cache) and logging.  What the reverse proxies and the file server do with the request they are
  handed.  Transport of the tunnel (event stream framing, pings) and of the tool server (JSON schemas).  The tool that only waits.
  Of the runner program: the tray, the installation wizard, the copying of files, and the calls of the operating system behind
  a desktop, which are parameters.  The frontend, the agent, the vision sidecar and the scripts: other programs in other
  languages.
\<close>

end
